(* ===== verification/Prelude.thy ===== *)
theory Prelude
  imports Complex_Main "HOL-Library.Word" "HOL-Library.Multiset"
begin

text \<open>
  Shared vocabulary of the DxWiFi development: the C integer types, errors as values, flat
  memory objects (lists addressed by index, with every access checked), byte-order
  conversions, and the generic lemmas the component theories share.

  A C object (a stack buffer, a calloc'ed block, an array) is a list. Reading or writing
  outside of it is undefined behaviour in C and is the error \<open>Out_Of_Bounds\<close> here, so
  that "no access is out of bounds" is a statement about the model's result. The target is a
  little-endian LP64 machine, the one the project is built for.
\<close>

unbundle bit_operations_syntax

subsection \<open>Collections of facts\<close>

named_theorems res_simps \<open>evaluation of the error monad\<close>
named_theorems mem_simps \<open>reads after writes on flat memory\<close>
named_theorems wire_defs \<open>constants of the frame layout\<close>

subsection \<open>C types\<close>

type_synonym byte = "8 word"
type_synonym u16 = "16 word"
type_synonym u32 = "32 word"
type_synonym size_t = "64 word"

text \<open>A C \<open>int\<close> is an \<open>int\<close> of HOL; where the code can leave the 32-bit range the model says so.\<close>

definition INT_MAX :: int where "INT_MAX = 2147483647"
definition INT_MIN :: int where "INT_MIN = - 2147483648"

definition fits_int :: "int \<Rightarrow> bool" where
  "fits_int i \<longleftrightarrow> INT_MIN \<le> i \<and> i \<le> INT_MAX"

lemma unat_ucast_up:
  fixes w :: "'a::len word"
  assumes "LENGTH('a) \<le> LENGTH('b)"
  shows "unat (ucast w :: 'b::len word) = unat w"
proof -
  have "unat w < 2 ^ LENGTH('a)" by (rule unsigned_less)
  also have "\<dots> \<le> 2 ^ LENGTH('b)" using assms by simp
  finally show ?thesis by (simp add: unsigned_ucast_eq take_bit_nat_eq_self)
qed

subsection \<open>Errors as values\<close>

datatype c_error =
    Out_Of_Bounds      \<comment> \<open>access outside of an object\<close>
  | Null_Deref         \<comment> \<open>access through a null pointer\<close>
  | Use_After_Free     \<comment> \<open>access through, or release of, a released pointer\<close>
  | Signed_Overflow    \<comment> \<open>a signed result that does not fit\<close>
  | Bad_VLA            \<comment> \<open>a variable length array whose size is not positive\<close>
  | Aborted            \<comment> \<open>a failed \<open>assert_M\<close>, which calls \<open>abort\<close>\<close>
  | Bad_Format         \<comment> \<open>a format and arguments that do not belong together\<close>

type_synonym 'a res = "c_error + 'a"

definition bind_res :: "'a res \<Rightarrow> ('a \<Rightarrow> 'b res) \<Rightarrow> 'b res" where
  "bind_res m f = (case m of Inl e \<Rightarrow> Inl e | Inr x \<Rightarrow> f x)"

lemma bind_res_simps [simp, res_simps]:
  "bind_res (Inl e) f = Inl e"
  "bind_res (Inr x) f = f x"
  by (simp_all add: bind_res_def)

lemma bind_res_Inr_right [simp]: "bind_res m Inr = m"
  by (cases m) simp_all

lemma bind_res_assoc: "bind_res (bind_res m f) g = bind_res m (\<lambda>x. bind_res (f x) g)"
  by (cases m) simp_all

lemma bind_res_eq_Inr: "bind_res m f = Inr y \<longleftrightarrow> (\<exists>x. m = Inr x \<and> f x = Inr y)"
  by (cases m) simp_all

lemma bind_res_cong [fundef_cong]:
  "m = m' \<Longrightarrow> (\<And>x. m' = Inr x \<Longrightarrow> f x = f' x) \<Longrightarrow> bind_res m f = bind_res m' f'"
  by (cases m') simp_all

definition guard_res :: "bool \<Rightarrow> c_error \<Rightarrow> unit res" where
  "guard_res b e = (if b then Inr () else Inl e)"

lemma guard_res_simps [simp, res_simps]:
  "b \<Longrightarrow> guard_res b e = Inr ()"
  "\<not> b \<Longrightarrow> guard_res b e = Inl e"
  by (simp_all add: guard_res_def)

lemma guard_res_eq_Inr [simp]: "guard_res b e = Inr u \<longleftrightarrow> b"
  by (simp add: guard_res_def)

definition map_res :: "('a \<Rightarrow> 'b) \<Rightarrow> 'a res \<Rightarrow> 'b res" where
  "map_res f r = bind_res r (\<lambda>x. Inr (f x))"

lemma map_res_simps [simp]: "map_res f (Inl e) = Inl e" "map_res f (Inr x) = Inr (f x)"
  by (simp_all add: map_res_def)

lemma map_res_bind: "map_res f (bind_res r k) = bind_res r (\<lambda>x. map_res f (k x))"
  by (cases r) simp_all

lemma bind_map_res: "bind_res (map_res f r) k = bind_res r (\<lambda>x. k (f x))"
  by (cases r) simp_all

lemma map_res_if: "map_res f (if b then x else y) = (if b then map_res f x else map_res f y)"
  by simp

definition is_ok :: "'a res \<Rightarrow> bool" where
  "is_ok r \<longleftrightarrow> (case r of Inl _ \<Rightarrow> False | Inr _ \<Rightarrow> True)"

lemma is_ok_simps [simp]: "is_ok (Inr x)" "\<not> is_ok (Inl e)"
  by (simp_all add: is_ok_def)

lemma is_ok_iff: "is_ok r \<longleftrightarrow> (\<exists>x. r = Inr x)"
  by (cases r) simp_all

subsection \<open>Arrays of elements\<close>

definition arr_get :: "'a list \<Rightarrow> nat \<Rightarrow> 'a res" where
  "arr_get t i = (if i < length t then Inr (t ! i) else Inl Out_Of_Bounds)"

definition arr_set :: "'a list \<Rightarrow> nat \<Rightarrow> 'a \<Rightarrow> 'a list res" where
  "arr_set t i x = (if i < length t then Inr (t[i := x]) else Inl Out_Of_Bounds)"

lemma arr_get_ok [simp, mem_simps]: "i < length t \<Longrightarrow> arr_get t i = Inr (t ! i)"
  by (simp add: arr_get_def)

lemma arr_set_ok [simp, mem_simps]: "i < length t \<Longrightarrow> arr_set t i x = Inr (t[i := x])"
  by (simp add: arr_set_def)

lemma arr_get_oob [simp]: "\<not> i < length t \<Longrightarrow> arr_get t i = Inl Out_Of_Bounds"
  by (simp add: arr_get_def)

lemma arr_set_oob [simp]: "\<not> i < length t \<Longrightarrow> arr_set t i x = Inl Out_Of_Bounds"
  by (simp add: arr_set_def)

subsection \<open>Blocks of memory\<close>

text \<open>\<open>memcpy\<close> out of, and into, an object at an offset.\<close>

definition mem_read :: "'a list \<Rightarrow> nat \<Rightarrow> nat \<Rightarrow> 'a list res" where
  "mem_read m off n =
     (if off + n \<le> length m then Inr (take n (drop off m)) else Inl Out_Of_Bounds)"

definition mem_write :: "'a list \<Rightarrow> nat \<Rightarrow> 'a list \<Rightarrow> 'a list res" where
  "mem_write m off bs =
     (if off + length bs \<le> length m
      then Inr (take off m @ bs @ drop (off + length bs) m)
      else Inl Out_Of_Bounds)"

definition overwrite :: "'a list \<Rightarrow> nat \<Rightarrow> 'a list \<Rightarrow> 'a list" where
  "overwrite m off bs = take off m @ bs @ drop (off + length bs) m"

definition slice :: "'a list \<Rightarrow> nat \<Rightarrow> nat \<Rightarrow> 'a list" where
  "slice m off n = take n (drop off m)"

lemma mem_read_ok [simp, mem_simps]: "off + n \<le> length m \<Longrightarrow> mem_read m off n = Inr (slice m off n)"
  by (simp add: mem_read_def slice_def)

lemma mem_read_oob [simp]: "\<not> off + n \<le> length m \<Longrightarrow> mem_read m off n = Inl Out_Of_Bounds"
  by (simp add: mem_read_def)

lemma mem_write_ok [simp, mem_simps]:
  "off + length bs \<le> length m \<Longrightarrow> mem_write m off bs = Inr (overwrite m off bs)"
  by (simp add: mem_write_def overwrite_def)

lemma mem_write_oob [simp]:
  "\<not> off + length bs \<le> length m \<Longrightarrow> mem_write m off bs = Inl Out_Of_Bounds"
  by (simp add: mem_write_def)

lemma mem_write_eq_Inr:
  "mem_write m off bs = Inr m' \<longleftrightarrow> off + length bs \<le> length m \<and> m' = overwrite m off bs"
  by (auto simp: mem_write_def overwrite_def)

lemma length_overwrite [simp, mem_simps]:
  "off + length bs \<le> length m \<Longrightarrow> length (overwrite m off bs) = length m"
  by (simp add: overwrite_def)

lemma length_slice [simp, mem_simps]: "off + n \<le> length m \<Longrightarrow> length (slice m off n) = n"
  by (simp add: slice_def)

lemma slice_overwrite_same [simp, mem_simps]:
  "off + length bs \<le> length m \<Longrightarrow> n = length bs \<Longrightarrow> slice (overwrite m off bs) off n = bs"
  by (simp add: slice_def overwrite_def)

lemma slice_overwrite_below [mem_simps]:
  "k + n \<le> off \<Longrightarrow> off + length bs \<le> length m \<Longrightarrow> slice (overwrite m off bs) k n = slice m k n"
  by (rule nth_equalityI) (auto simp: slice_def overwrite_def nth_append)

lemma slice_overwrite_above [mem_simps]:
  assumes "off + length bs \<le> k" and "off + length bs \<le> length m"
  shows "slice (overwrite m off bs) k n = slice m k n"
proof -
  have "drop k (overwrite m off bs) = drop k m"
    using assms by (simp add: overwrite_def)
  then show ?thesis by (simp add: slice_def)
qed

lemma slice_overwrite_inside [mem_simps]:
  assumes "off \<le> k" and "k + n \<le> off + length bs" and "off + length bs \<le> length m"
  shows "slice (overwrite m off bs) k n = slice bs (k - off) n"
  using assms by (simp add: slice_def overwrite_def)

lemma slice_slice: "i + n \<le> k \<Longrightarrow> slice (slice m off k) i n = slice m (off + i) n"
  by (simp add: slice_def drop_take add.commute min_def)

lemma slice_all [simp]: "n = length m \<Longrightarrow> slice m 0 n = m"
  by (simp add: slice_def)

lemma slice_zero [simp]: "slice m k 0 = []"
  by (simp add: slice_def)

lemma slice_append_left: "k + n \<le> length xs \<Longrightarrow> slice (xs @ ys) k n = slice xs k n"
  by (simp add: slice_def)

lemma slice_append_right: "length xs \<le> k \<Longrightarrow> slice (xs @ ys) k n = slice ys (k - length xs) n"
  by (simp add: slice_def)

lemma nth_slice: "i < n \<Longrightarrow> off + n \<le> length m \<Longrightarrow> slice m off n ! i = m ! (off + i)"
  by (simp add: slice_def)

subsection \<open>Byte order\<close>

definition le16_bytes :: "u16 \<Rightarrow> byte list" where
  "le16_bytes w = [ucast w, ucast (drop_bit 8 w)]"

definition le16_of :: "byte list \<Rightarrow> u16" where
  "le16_of bs = ucast (bs ! 0) OR push_bit 8 (ucast (bs ! 1))"

definition le32_bytes :: "u32 \<Rightarrow> byte list" where
  "le32_bytes w = [ucast w, ucast (drop_bit 8 w), ucast (drop_bit 16 w), ucast (drop_bit 24 w)]"

definition le32_of :: "byte list \<Rightarrow> u32" where
  "le32_of bs = ucast (bs ! 0) OR push_bit 8 (ucast (bs ! 1))
     OR push_bit 16 (ucast (bs ! 2)) OR push_bit 24 (ucast (bs ! 3))"

text \<open>
  \<open>be32_of\<close> is \<open>ntohl\<close> of the four bytes at an address, \<open>be32_bytes\<close> what a store of
  \<open>htonl\<close> leaves there.
\<close>

definition be32_bytes :: "u32 \<Rightarrow> byte list" where
  "be32_bytes w = [ucast (drop_bit 24 w), ucast (drop_bit 16 w), ucast (drop_bit 8 w), ucast w]"

definition be32_of :: "byte list \<Rightarrow> u32" where
  "be32_of bs =
     push_bit 24 (ucast (bs ! 0)) OR push_bit 16 (ucast (bs ! 1))
       OR push_bit 8 (ucast (bs ! 2)) OR ucast (bs ! 3)"

lemma length_le16_bytes [simp]: "length (le16_bytes w) = 2"
  by (simp add: le16_bytes_def)

lemma length_le32_bytes [simp]: "length (le32_bytes w) = 4"
  by (simp add: le32_bytes_def)

lemma length_be32_bytes [simp]: "length (be32_bytes w) = 4"
  by (simp add: be32_bytes_def)

lemma le16_roundtrip [simp]: "le16_of (le16_bytes w) = w"
  by (rule bit_word_eqI) (auto simp: le16_of_def le16_bytes_def bit_simps)

lemma le32_roundtrip [simp]: "le32_of (le32_bytes w) = w"
proof (rule bit_word_eqI)
  fix n assume n: "n < LENGTH(32)"
  consider "n < 8" | "8 \<le> n" "n < 16" | "16 \<le> n" "n < 24" | "24 \<le> n"
    by linarith
  then show "bit (le32_of (le32_bytes w)) n = bit w n"
    by cases (use n in \<open>auto simp: le32_of_def le32_bytes_def bit_simps\<close>)
qed

lemma be32_roundtrip [simp]: "be32_of (be32_bytes w) = w"
proof (rule bit_word_eqI)
  fix n assume n: "n < LENGTH(32)"
  consider "n < 8" | "8 \<le> n" "n < 16" | "16 \<le> n" "n < 24" | "24 \<le> n"
    by linarith
  then show "bit (be32_of (be32_bytes w)) n = bit w n"
    by cases (use n in \<open>auto simp: be32_of_def be32_bytes_def bit_simps\<close>)
qed

end
