(* ===== verification/BinHeap.thy ===== *)
theory BinHeap
  imports Prelude
begin

text \<open>
  The generic binary heap of \<open>libdxwifi/details/heap.h\<close> and \<open>heap.c\<close>. The C code addresses
  the element with index \<open>i\<close> as \<open>offset(tree, i, step_size)\<close> and moves whole elements with
  \<open>memcpy\<close>; the model's tree is the array of these elements, a list of \<open>capacity\<close> elements
  of which the first \<open>count\<close> are live. Every element access is checked, so the operations
  return a \<open>c_error\<close> where the C code would touch memory outside of the array.

  The second half is the theory of the operations: a total description of each loop
  (\<open>sift_up\<close>, \<open>sift_down\<close>), the heap-order invariant, and the priority queue contract as the
  locale \<open>prio_queue\<close>, which the heap provides for any comparator that is a strict weak order.
\<close>

subsection \<open>Data\<close>

text \<open>\<open>typedef struct binary_heap\<close>; a null \<open>compare\<close> is \<open>None\<close>, a null \<open>tree\<close> the empty array.\<close>

record 'a binary_heap =
  tree :: "'a list"
  count :: nat
  capacity :: nat
  step_size :: nat
  compare :: "('a \<Rightarrow> 'a \<Rightarrow> bool) option"

definition heap_parent :: "nat \<Rightarrow> nat" where "heap_parent i = (i - 1) div 2"
definition heap_left :: "nat \<Rightarrow> nat" where "heap_left i = 2 * i + 1"
definition heap_right :: "nat \<Rightarrow> nat" where "heap_right i = 2 * i + 2"

lemmas heap_index_defs = heap_parent_def heap_left_def heap_right_def

subsection \<open>Operations\<close>

definition heap_swap :: "'a list \<Rightarrow> nat \<Rightarrow> nat \<Rightarrow> 'a list res" where
  "heap_swap t a b =
     bind_res (arr_get t a) (\<lambda>temp.
     bind_res (arr_get t b) (\<lambda>y.
     bind_res (arr_set t a y) (\<lambda>t.
     arr_set t b temp)))"

text \<open>The guarded comparison \<open>k < heap->count && compare(tree[k], tree[j])\<close>.\<close>

definition child_before :: "('a \<Rightarrow> 'a \<Rightarrow> bool) \<Rightarrow> nat \<Rightarrow> 'a list \<Rightarrow> nat \<Rightarrow> nat \<Rightarrow> bool res" where
  "child_before cmp n t k j =
     (if k < n
      then bind_res (arr_get t k) (\<lambda>x. bind_res (arr_get t j) (\<lambda>y. Inr (cmp x y)))
      else Inr False)"

text \<open>The choice of \<open>new_index\<close>: the two \<open>if\<close> statements of \<open>heapify\<close>.\<close>

definition pick_child :: "('a \<Rightarrow> 'a \<Rightarrow> bool) \<Rightarrow> nat \<Rightarrow> 'a list \<Rightarrow> nat \<Rightarrow> nat res" where
  "pick_child cmp n t i =
     bind_res (child_before cmp n t (heap_left i) i) (\<lambda>lb.
     let new_index = (if lb then heap_left i else i) in
     bind_res (child_before cmp n t (heap_right i) new_index) (\<lambda>rb.
     Inr (if rb then heap_right i else new_index)))"

lemma pick_child_cases:
  "pick_child cmp n t i = Inr j \<Longrightarrow> j = i \<or> (i < j \<and> j < n)"
  by (auto simp: pick_child_def child_before_def heap_index_defs bind_res_eq_Inr Let_def
      split: if_splits)

function heapify :: "('a \<Rightarrow> 'a \<Rightarrow> bool) \<Rightarrow> nat \<Rightarrow> 'a list \<Rightarrow> nat \<Rightarrow> 'a list res" where
  "heapify cmp n t i =
     bind_res (pick_child cmp n t i) (\<lambda>new_index.
     if new_index \<noteq> i
     then bind_res (heap_swap t i new_index) (\<lambda>t. heapify cmp n t new_index)
     else Inr t)"
  by pat_completeness auto
termination
  by (relation "measure (\<lambda>(cmp, n, t, i). n - i)") (auto dest: pick_child_cases)

declare heapify.simps [simp del]

definition init_heap :: "'a \<Rightarrow> nat \<Rightarrow> nat \<Rightarrow> ('a \<Rightarrow> 'a \<Rightarrow> bool) \<Rightarrow> 'a binary_heap" where
  "init_heap zero cap sz cmp =
     \<lparr>tree = replicate cap zero, count = 0, capacity = cap, step_size = sz, compare = Some cmp\<rparr>"

definition teardown_heap :: "'a binary_heap \<Rightarrow> 'a binary_heap" where
  "teardown_heap h =
     h\<lparr>tree := [], count := 0, step_size := 0, capacity := 0, compare := None\<rparr>"

text \<open>The sift loop of \<open>heap_push\<close>: \<open>while(i != 0 && compare(tree[i], tree[parent(i)]))\<close>.\<close>

function push_loop :: "('a \<Rightarrow> 'a \<Rightarrow> bool) \<Rightarrow> 'a list \<Rightarrow> nat \<Rightarrow> 'a list res" where
  "push_loop cmp t i =
     (if i = 0 then Inr t
      else bind_res (arr_get t i) (\<lambda>x.
           bind_res (arr_get t (heap_parent i)) (\<lambda>y.
           if cmp x y
           then bind_res (heap_swap t i (heap_parent i)) (\<lambda>t. push_loop cmp t (heap_parent i))
           else Inr t)))"
  by pat_completeness auto
termination
  by (relation "measure (\<lambda>(cmp, t, i). i)") (auto simp: heap_parent_def)

declare push_loop.simps [simp del]

text \<open>
  \<open>heap_push\<close>: a full heap drops the element (and logs "Binary Heap is full"). A call through
  a null comparator is an error; it is only reached when the heap has room.
\<close>

definition heap_push :: "'a binary_heap \<Rightarrow> 'a \<Rightarrow> 'a binary_heap res" where
  "heap_push h x =
     (if count h < capacity h
      then let i = count h; h = h\<lparr>count := count h + 1\<rparr> in
           bind_res (arr_set (tree h) i x) (\<lambda>t.
           case compare h of
             None \<Rightarrow> if i = 0 then Inr (h\<lparr>tree := t\<rparr>) else Inl Null_Deref
           | Some cmp \<Rightarrow> bind_res (push_loop cmp t i) (\<lambda>t. Inr (h\<lparr>tree := t\<rparr>)))
      else Inr h)"

text \<open>
  \<open>heap_pop\<close>: \<open>Some x\<close> is the return value \<open>true\<close> with \<open>*out = x\<close>, \<open>None\<close> is \<open>false\<close>.
\<close>

definition heap_pop :: "'a binary_heap \<Rightarrow> ('a option \<times> 'a binary_heap) res" where
  "heap_pop h =
     (if 0 < count h
      then bind_res (arr_get (tree h) 0) (\<lambda>out.
           let h = h\<lparr>count := count h - 1\<rparr> in
           bind_res (arr_get (tree h) (count h)) (\<lambda>last.
           bind_res (arr_set (tree h) 0 last) (\<lambda>t.
           case compare h of
             None \<Rightarrow> if count h \<le> 1 then Inr (Some out, h\<lparr>tree := t\<rparr>) else Inl Null_Deref
           | Some cmp \<Rightarrow>
               bind_res (heapify cmp (count h) t 0) (\<lambda>t. Inr (Some out, h\<lparr>tree := t\<rparr>)))))
      else Inr (None, h))"

text \<open>
  The two loops of \<open>heap_sort\<close>. \<open>build_loop\<close> runs \<open>heapify\<close> for \<open>i = k - 1, \<dots>, 0\<close>.
  \<open>sort_loop\<close> is \<open>while(--heap.count > 0)\<close>: with \<open>count = 0\<close> the decrement wraps to
  \<open>SIZE_MAX\<close>, the guard holds, and the first \<open>swap\<close> leaves the array.
\<close>

fun build_loop :: "('a \<Rightarrow> 'a \<Rightarrow> bool) \<Rightarrow> nat \<Rightarrow> 'a list \<Rightarrow> nat \<Rightarrow> 'a list res" where
  "build_loop cmp n t 0 = Inr t"
| "build_loop cmp n t (Suc i) = bind_res (heapify cmp n t i) (\<lambda>t. build_loop cmp n t i)"

fun sort_loop :: "('a \<Rightarrow> 'a \<Rightarrow> bool) \<Rightarrow> 'a list \<Rightarrow> nat \<Rightarrow> 'a list res" where
  "sort_loop cmp t 0 = Inl Out_Of_Bounds"
| "sort_loop cmp t (Suc c) =
     (if 0 < c
      then bind_res (heap_swap t 0 c) (\<lambda>t.
           bind_res (heapify cmp c t 0) (\<lambda>t. sort_loop cmp t c))
      else Inr t)"

text \<open>
  \<open>int i = (count / 2) - 1\<close>: the subtraction is on \<open>size_t\<close>, the result is converted to \<open>int\<close>.
\<close>

definition build_start :: "nat \<Rightarrow> int" where
  "build_start n = sint (ucast (of_nat (n div 2) - 1 :: size_t) :: u32)"

definition heap_sort :: "'a list \<Rightarrow> nat \<Rightarrow> ('a \<Rightarrow> 'a \<Rightarrow> bool) \<Rightarrow> 'a list res" where
  "heap_sort dat n cmp =
     bind_res (build_loop cmp n dat (nat (build_start n + 1))) (\<lambda>t. sort_loop cmp t n)"

subsection \<open>Total descriptions of the loops\<close>

definition swap_at :: "'a list \<Rightarrow> nat \<Rightarrow> nat \<Rightarrow> 'a list" where
  "swap_at t i j = t[i := t ! j, j := t ! i]"

lemma heap_swap_ok [simp]: "i < length t \<Longrightarrow> j < length t \<Longrightarrow> heap_swap t i j = Inr (swap_at t i j)"
  by (simp add: heap_swap_def swap_at_def)

lemma length_swap_at [simp]: "length (swap_at t i j) = length t"
  by (simp add: swap_at_def)

lemma nth_swap_at:
  "i < length t \<Longrightarrow> j < length t \<Longrightarrow>
   swap_at t i j ! k = (if k = j then t ! i else if k = i then t ! j else t ! k)"
  by (simp add: swap_at_def nth_list_update)

lemma mset_swap_at [simp]: "i < length t \<Longrightarrow> j < length t \<Longrightarrow> mset (swap_at t i j) = mset t"
  by (simp add: swap_at_def mset_swap)

lemma take_swap_at: "i < n \<Longrightarrow> j < n \<Longrightarrow> n \<le> length t \<Longrightarrow> take n (swap_at t i j) = swap_at (take n t) i j"
  by (simp add: swap_at_def take_update_swap)

lemma drop_swap_at: "i < n \<Longrightarrow> j < n \<Longrightarrow> drop n (swap_at t i j) = drop n t"
  by (simp add: swap_at_def)

definition best_child :: "('a \<Rightarrow> 'a \<Rightarrow> bool) \<Rightarrow> nat \<Rightarrow> 'a list \<Rightarrow> nat \<Rightarrow> nat" where
  "best_child cmp n t i =
     (let m = (if heap_left i < n \<and> cmp (t ! heap_left i) (t ! i) then heap_left i else i)
      in if heap_right i < n \<and> cmp (t ! heap_right i) (t ! m) then heap_right i else m)"

lemma pick_child_ok:
  "n \<le> length t \<Longrightarrow> i < n \<Longrightarrow> pick_child cmp n t i = Inr (best_child cmp n t i)"
  by (auto simp: pick_child_def child_before_def best_child_def heap_index_defs Let_def)

lemma best_child_cases:
  "best_child cmp n t i = i \<or> best_child cmp n t i \<in> {heap_left i, heap_right i} \<and> best_child cmp n t i < n"
  by (auto simp: best_child_def Let_def)

lemma best_child_bounds: "best_child cmp n t i \<noteq> i \<Longrightarrow> i < best_child cmp n t i \<and> best_child cmp n t i < n"
  using best_child_cases[of cmp n t i] by (auto simp: heap_index_defs)

function sift_down :: "('a \<Rightarrow> 'a \<Rightarrow> bool) \<Rightarrow> nat \<Rightarrow> 'a list \<Rightarrow> nat \<Rightarrow> 'a list" where
  "sift_down cmp n t i =
     (let j = best_child cmp n t i
      in if j \<noteq> i then sift_down cmp n (swap_at t i j) j else t)"
  by pat_completeness auto
termination
  by (relation "measure (\<lambda>(cmp, n, t, i). n - i)") (auto dest: best_child_bounds)

declare sift_down.simps [simp del]

function sift_up :: "('a \<Rightarrow> 'a \<Rightarrow> bool) \<Rightarrow> 'a list \<Rightarrow> nat \<Rightarrow> 'a list" where
  "sift_up cmp t i =
     (if i \<noteq> 0 \<and> cmp (t ! i) (t ! heap_parent i)
      then sift_up cmp (swap_at t i (heap_parent i)) (heap_parent i) else t)"
  by pat_completeness auto
termination
  by (relation "measure (\<lambda>(cmp, t, i). i)") (auto simp: heap_parent_def)

declare sift_up.simps [simp del]

lemma heapify_ok:
  "n \<le> length t \<Longrightarrow> i < n \<Longrightarrow> heapify cmp n t i = Inr (sift_down cmp n t i)"
proof (induction cmp n t i rule: sift_down.induct)
  case (1 cmp n t i)
  let ?j = "best_child cmp n t i"
  show ?case
  proof (cases "?j = i")
    case True
    with 1(2,3) show ?thesis by (simp add: heapify.simps[of cmp n t] sift_down.simps[of cmp n t] pick_child_ok)
  next
    case False
    then have "?j < n" by (blast dest: best_child_bounds)
    with 1 False show ?thesis
      by (simp add: heapify.simps[of cmp n t] sift_down.simps[of cmp n t] pick_child_ok Let_def)
  qed
qed

text \<open>An index without children is left alone, whether or not it is live.\<close>

lemma heapify_leaf: "n \<le> heap_left i \<Longrightarrow> heapify cmp n t i = Inr t"
  by (simp add: heapify.simps[of cmp n t] pick_child_def child_before_def heap_index_defs)

lemma sift_down_leaf: "n \<le> heap_left i \<Longrightarrow> sift_down cmp n t i = t"
  by (simp add: sift_down.simps[of cmp n t] best_child_def heap_index_defs)

lemma heapify_root_ok: "n \<le> length t \<Longrightarrow> heapify cmp n t 0 = Inr (sift_down cmp n t 0)"
  by (cases "n = 0") (simp_all add: heapify_ok heapify_leaf sift_down_leaf heap_left_def)

lemma push_loop_ok: "i < length t \<Longrightarrow> push_loop cmp t i = Inr (sift_up cmp t i)"
proof (induction cmp t i rule: sift_up.induct)
  case (1 cmp t i)
  have "heap_parent i < length t" using 1(2) by (simp add: heap_parent_def)
  with 1 show ?case by (simp add: push_loop.simps[of cmp t] sift_up.simps[of cmp t])
qed

lemma length_sift_down [simp]: "length (sift_down cmp n t i) = length t"
  by (induction cmp n t i rule: sift_down.induct)
     (subst sift_down.simps, simp add: Let_def)

lemma length_sift_up [simp]: "length (sift_up cmp t i) = length t"
  by (induction cmp t i rule: sift_up.induct) (subst sift_up.simps, simp)

text \<open>The loops permute the live part and leave the rest of the array alone.\<close>

lemma sift_down_frame:
  "n \<le> length t \<Longrightarrow> i < n \<Longrightarrow>
   mset (take n (sift_down cmp n t i)) = mset (take n t) \<and> drop n (sift_down cmp n t i) = drop n t"
proof (induction cmp n t i rule: sift_down.induct)
  case (1 cmp n t i)
  let ?j = "best_child cmp n t i"
  show ?case
  proof (cases "?j = i")
    case True
    then show ?thesis by (simp add: sift_down.simps[of cmp n t i])
  next
    case False
    then have "?j < n" by (blast dest: best_child_bounds)
    with 1 False show ?thesis
      by (simp add: sift_down.simps[of cmp n t i] Let_def take_swap_at drop_swap_at)
  qed
qed

lemma sift_up_mset: "i < length t \<Longrightarrow> mset (sift_up cmp t i) = mset t"
proof (induction cmp t i rule: sift_up.induct)
  case (1 cmp t i)
  have "heap_parent i < length t" using 1(2) by (simp add: heap_parent_def)
  with 1 show ?case by (simp add: sift_up.simps[of cmp t i])
qed

lemma sift_up_drop: "i < n \<Longrightarrow> drop n (sift_up cmp t i) = drop n t"
proof (induction cmp t i rule: sift_up.induct)
  case (1 cmp t i)
  have "heap_parent i < n" using 1(2) by (simp add: heap_parent_def)
  with 1 show ?case by (simp add: sift_up.simps[of cmp t i] drop_swap_at)
qed

subsection \<open>Heap order\<close>

text \<open>
  \<open>heap_from cmp m n t\<close>: among the first \<open>n\<close> elements, none comes before its parent, for the
  parents from index \<open>m\<close> on. The loops violate this at one index only: below it
  (\<open>heap_but_down\<close>) or at it (\<open>heap_but_up\<close>).
\<close>

definition heap_from :: "('a \<Rightarrow> 'a \<Rightarrow> bool) \<Rightarrow> nat \<Rightarrow> nat \<Rightarrow> 'a list \<Rightarrow> bool" where
  "heap_from cmp m n t \<longleftrightarrow>
     (\<forall>i. 0 < i \<and> i < n \<and> m \<le> heap_parent i \<longrightarrow> \<not> cmp (t ! i) (t ! heap_parent i))"

abbreviation heap_ordered :: "('a \<Rightarrow> 'a \<Rightarrow> bool) \<Rightarrow> nat \<Rightarrow> 'a list \<Rightarrow> bool" where
  "heap_ordered cmp n t \<equiv> heap_from cmp 0 n t"

definition heap_but_down :: "('a \<Rightarrow> 'a \<Rightarrow> bool) \<Rightarrow> nat \<Rightarrow> nat \<Rightarrow> 'a list \<Rightarrow> nat \<Rightarrow> bool" where
  "heap_but_down cmp m n t k \<longleftrightarrow>
     (\<forall>i. 0 < i \<and> i < n \<and> m \<le> heap_parent i \<longrightarrow>
        (heap_parent i \<noteq> k \<longrightarrow> \<not> cmp (t ! i) (t ! heap_parent i)) \<and>
        (heap_parent i = k \<and> 0 < k \<and> m \<le> heap_parent k \<longrightarrow> \<not> cmp (t ! i) (t ! heap_parent k)))"

definition heap_but_up :: "('a \<Rightarrow> 'a \<Rightarrow> bool) \<Rightarrow> nat \<Rightarrow> 'a list \<Rightarrow> nat \<Rightarrow> bool" where
  "heap_but_up cmp n t k \<longleftrightarrow>
     (\<forall>i. 0 < i \<and> i < n \<longrightarrow>
        (i \<noteq> k \<longrightarrow> \<not> cmp (t ! i) (t ! heap_parent i)) \<and>
        (heap_parent i = k \<and> 0 < k \<longrightarrow> \<not> cmp (t ! i) (t ! heap_parent k)))"

lemma parent_less: "0 < i \<Longrightarrow> heap_parent i < i"
  by (simp add: heap_parent_def)

lemma parent_eq_iff: "0 < i \<Longrightarrow> heap_parent i = k \<longleftrightarrow> i = heap_left k \<or> i = heap_right k"
  by (auto simp: heap_index_defs)

lemma child_pos [simp]: "0 < heap_left k" "0 < heap_right k"
  by (simp_all add: heap_index_defs)

lemma parent_child [simp]: "heap_parent (heap_left k) = k" "heap_parent (heap_right k) = k"
  by (simp_all add: heap_index_defs)

lemma heap_from_shrink: "heap_from cmp m n t \<Longrightarrow> n' \<le> n \<Longrightarrow> heap_from cmp m n' t"
  by (auto simp: heap_from_def)

lemma heap_from_cong:
  assumes "heap_from cmp m n t" and "\<And>i. i < n \<Longrightarrow> t' ! i = t ! i"
  shows "heap_from cmp m n t'"
  using assms unfolding heap_from_def by (metis order.strict_trans parent_less)

lemma heap_from_leaves: "n div 2 \<le> m \<Longrightarrow> heap_from cmp m n t"
  by (auto simp: heap_from_def heap_parent_def)

lemma heap_but_down_first: "heap_from cmp (Suc m) n t \<Longrightarrow> heap_but_down cmp m n t m"
  unfolding heap_from_def heap_but_down_def by (metis Suc_leI le_neq_implies_less not_less parent_less)

lemma heap_but_down_root:
  assumes "heap_ordered cmp n t" and "n' \<le> n" and "\<And>i. 0 < i \<Longrightarrow> i < n' \<Longrightarrow> t' ! i = t ! i"
  shows "heap_but_down cmp 0 n' t' 0"
  using assms unfolding heap_from_def heap_but_down_def
  by (metis less_le_trans neq0_conv order.strict_trans parent_less zero_le)

lemma heap_but_up_append:
  assumes "heap_ordered cmp n t" and "\<And>i. i < n \<Longrightarrow> t' ! i = t ! i"
  shows "heap_but_up cmp (Suc n) t' n"
  using assms unfolding heap_from_def heap_but_up_def
  by (metis less_SucE not_less_iff_gr_or_eq order.strict_trans parent_less zero_le)

locale comparator =
  fixes cmp :: "'a \<Rightarrow> 'a \<Rightarrow> bool"
  assumes asym: "cmp x y \<Longrightarrow> \<not> cmp y x"
    and neg_trans: "\<not> cmp x y \<Longrightarrow> \<not> cmp y z \<Longrightarrow> \<not> cmp x z"
begin

lemma irrefl [simp]: "\<not> cmp x x"
  using asym by blast

lemma trans: "cmp x y \<Longrightarrow> cmp y z \<Longrightarrow> cmp x z"
  using asym neg_trans by blast

lemma root_first:
  assumes "heap_ordered cmp n t" and "i < n"
  shows "\<not> cmp (t ! i) (t ! 0)"
  using assms(2)
proof (induction i rule: less_induct)
  case (less i)
  show ?case
  proof (cases "i = 0")
    case False
    then have "heap_parent i < i" by (simp add: parent_less)
    with less have *: "\<not> cmp (t ! heap_parent i) (t ! 0)" by simp
    have "\<not> cmp (t ! i) (t ! heap_parent i)"
      using assms(1) less.prems False by (auto simp: heap_from_def)
    from this * show ?thesis by (rule neg_trans)
  qed simp
qed

text \<open>The chosen child comes before neither the index nor its two children.\<close>

lemma best_child_min:
  assumes "c \<in> {i, heap_left i, heap_right i}" and "c < n"
  shows "\<not> cmp (t ! c) (t ! best_child cmp n t i)"
proof -
  define m where
    "m = (if heap_left i < n \<and> cmp (t ! heap_left i) (t ! i) then heap_left i else i)"
  have best: "best_child cmp n t i =
      (if heap_right i < n \<and> cmp (t ! heap_right i) (t ! m) then heap_right i else m)"
    by (simp add: best_child_def m_def Let_def)
  have m_min: "\<not> cmp (t ! c) (t ! m)" if "c \<in> {i, heap_left i}"
    using that assms(2) by (auto simp: m_def dest: asym)
  show ?thesis
  proof (cases "heap_right i < n \<and> cmp (t ! heap_right i) (t ! m)")
    case True
    then show ?thesis
      using assms m_min by (auto simp: best dest: trans)
  next
    case False
    then show ?thesis
      using assms m_min by (auto simp: best)
  qed
qed

lemma best_child_before: "best_child cmp n t i \<noteq> i \<Longrightarrow> cmp (t ! best_child cmp n t i) (t ! i)"
  by (auto simp: best_child_def Let_def split: if_splits dest: trans)

lemma heap_but_down_swap:
  assumes len: "n \<le> length t" and k: "k < n" "m \<le> k" and bd: "heap_but_down cmp m n t k"
    and j: "j = best_child cmp n t k" "j \<noteq> k"
  shows "heap_but_down cmp m n (swap_at t k j) j"
proof -
  have jn: "k < j" "j < n" using best_child_bounds[of cmp n t k] j by auto
  have jc: "j = heap_left k \<or> j = heap_right k" using best_child_cases[of cmp n t k] j by auto
  then have pj: "heap_parent j = k" by auto
  have min: "\<not> cmp (t ! c) (t ! j)" if "c \<in> {k, heap_left k, heap_right k}" "c < n" for c
    using best_child_min[OF that] j(1) by simp
  note at = nth_swap_at[of k t j]
  show ?thesis
    unfolding heap_but_down_def
  proof (intro allI impI conjI; elim conjE)
    fix i assume i: "0 < i" "i < n" "m \<le> heap_parent i" and ne: "heap_parent i \<noteq> j"
    consider "heap_parent i = k" | "i = k" | "heap_parent i \<noteq> k" "i \<noteq> k" by blast
    then show "\<not> cmp (swap_at t k j ! i) (swap_at t k j ! heap_parent i)"
    proof cases
      case 1
      then have "i = heap_left k \<or> i = heap_right k" using i parent_eq_iff by blast
      with 1 i jn len k min show ?thesis by (auto simp: at)
    next
      case 2
      have "0 < j \<and> j < n \<and> m \<le> heap_parent j \<and> heap_parent j = k" using jn pj k by simp
      then have "\<not> cmp (t ! j) (t ! heap_parent k)"
        using bd 2 i unfolding heap_but_down_def by blast
      moreover have "heap_parent k < k" using 2 i by (simp add: parent_less)
      ultimately show ?thesis using 2 jn len by (simp add: at)
    next
      case 3
      then have "i \<noteq> j" using pj by auto
      with 3 bd i ne jn len show ?thesis by (simp add: at heap_but_down_def)
    qed
  next
    fix i assume i: "0 < i" "i < n" "m \<le> heap_parent i" "heap_parent i = j"
    then have "j < i" using parent_less by blast
    moreover have "\<not> cmp (t ! i) (t ! j)" using bd i j(2) by (auto simp: heap_but_down_def)
    ultimately show "\<not> cmp (swap_at t k j ! i) (swap_at t k j ! heap_parent j)"
      using jn len pj by (simp add: at)
  qed
qed

lemma sift_down_order:
  "n \<le> length t \<Longrightarrow> k < n \<Longrightarrow> m \<le> k \<Longrightarrow> heap_but_down cmp m n t k \<Longrightarrow>
   heap_from cmp m n (sift_down cmp n t k)"
proof (induction "n - k" arbitrary: t k rule: less_induct)
  case (less k t)
  let ?j = "best_child cmp n t k"
  show ?case
  proof (cases "?j = k")
    case True
    have "\<not> cmp (t ! i) (t ! k)" if "0 < i" "i < n" "heap_parent i = k" for i
      using best_child_min[of i k n t] that True parent_eq_iff[of i k] by auto
    with less.prems(4) have "heap_from cmp m n t"
      unfolding heap_from_def heap_but_down_def by metis
    with True show ?thesis by (simp add: sift_down.simps[of cmp n t k])
  next
    case False
    then have j: "k < ?j" "?j < n" using best_child_bounds by blast+
    have "heap_from cmp m n (sift_down cmp n (swap_at t k ?j) ?j)"
      by (rule less.hyps)
         (use j less.prems heap_but_down_swap[OF less.prems refl False] in simp_all)
    with False show ?thesis by (simp add: sift_down.simps[of cmp n t k] Let_def)
  qed
qed

lemma heap_but_up_swap:
  assumes len: "n \<le> length t" and k: "0 < k" "k < n" and bu: "heap_but_up cmp n t k"
    and before: "cmp (t ! k) (t ! heap_parent k)"
  shows "heap_but_up cmp n (swap_at t k (heap_parent k)) (heap_parent k)"
proof -
  let ?p = "heap_parent k"
  have pk: "?p < k" using k by (simp add: parent_less)
  note at = nth_swap_at[of k t ?p]
  have ord: "\<not> cmp (t ! i) (t ! heap_parent i)" if "0 < i" "i < n" "i \<noteq> k" for i
    using bu that by (auto simp: heap_but_up_def)
  show ?thesis
    unfolding heap_but_up_def
  proof (intro allI impI conjI; elim conjE)
    fix i assume i: "0 < i" "i < n" and ne: "i \<noteq> ?p"
    consider "i = k" | "i \<noteq> k" "heap_parent i = k" | "i \<noteq> k" "heap_parent i = ?p"
      | "i \<noteq> k" "heap_parent i \<noteq> k" "heap_parent i \<noteq> ?p" by blast
    then show "\<not> cmp (swap_at t k ?p ! i) (swap_at t k ?p ! heap_parent i)"
    proof cases
      case 1
      then show ?thesis using before pk k len by (simp add: at asym)
    next
      case 2
      then have "\<not> cmp (t ! i) (t ! ?p)" using bu i k by (auto simp: heap_but_up_def)
      then show ?thesis using 2 ne pk k len by (simp add: at)
    next
      case 3
      then show ?thesis using ord[OF i 3(1)] ne pk k len before by (auto simp: at dest: trans)
    next
      case 4
      then show ?thesis using ord[OF i 4(1)] ne pk k len by (simp add: at)
    qed
  next
    fix i assume i: "0 < i" "i < n" "heap_parent i = ?p" and p0: "0 < ?p"
    have pp: "heap_parent ?p < ?p" using p0 by (rule parent_less)
    have gp: "\<not> cmp (t ! ?p) (t ! heap_parent ?p)" using ord[OF p0] pk k by simp
    have "?p < i" using parent_less[OF i(1)] i(3) by simp
    show "\<not> cmp (swap_at t k ?p ! i) (swap_at t k ?p ! heap_parent ?p)"
    proof (cases "i = k")
      case True
      then show ?thesis using gp pp pk k len by (simp add: at)
    next
      case False
      have "\<not> cmp (t ! i) (t ! heap_parent ?p)"
        using ord[OF i(1,2) False] i(3) gp neg_trans by metis
      then show ?thesis using False \<open>?p < i\<close> pp pk k len by (simp add: at)
    qed
  qed
qed

lemma sift_up_order:
  "n \<le> length t \<Longrightarrow> k < n \<Longrightarrow> heap_but_up cmp n t k \<Longrightarrow> heap_ordered cmp n (sift_up cmp t k)"
proof (induction k arbitrary: t rule: less_induct)
  case (less k)
  show ?case
  proof (cases "k \<noteq> 0 \<and> cmp (t ! k) (t ! heap_parent k)")
    case True
    then have "heap_parent k < k" by (simp add: parent_less)
    then show ?thesis
      using less True heap_but_up_swap[OF less.prems(1) _ less.prems(2,3)]
      by (simp add: sift_up.simps[of cmp t k])
  next
    case False
    then show ?thesis
      using less.prems(3) by (auto simp: sift_up.simps[of cmp t k] heap_but_up_def heap_from_def)
  qed
qed

end

subsection \<open>The heap as a data structure\<close>

text \<open>
  Well-formedness: the array has \<open>capacity\<close> slots, the live part is within it and heap-ordered
  by the stored comparator. The abstract value of a heap is the multiset of its live elements.
\<close>

definition heap_wf :: "('a \<Rightarrow> 'a \<Rightarrow> bool) \<Rightarrow> 'a binary_heap \<Rightarrow> bool" where
  "heap_wf cmp h \<longleftrightarrow>
     compare h = Some cmp \<and> length (tree h) = capacity h \<and> count h \<le> capacity h \<and>
     heap_ordered cmp (count h) (tree h)"

definition heap_elems :: "'a binary_heap \<Rightarrow> 'a multiset" where
  "heap_elems h = mset (take (count h) (tree h))"

definition heap_room :: "'a binary_heap \<Rightarrow> nat" where
  "heap_room h = capacity h - count h"

lemma size_heap_elems: "heap_wf cmp h \<Longrightarrow> size (heap_elems h) = count h"
  by (simp add: heap_wf_def heap_elems_def)

lemma heap_elems_empty_iff: "heap_wf cmp h \<Longrightarrow> heap_elems h = {#} \<longleftrightarrow> count h = 0"
  using size_heap_elems[of cmp h] by (metis size_eq_0_iff_empty)

lemma init_heap_wf [simp]: "heap_wf cmp (init_heap z cap sz cmp)"
  by (simp add: heap_wf_def init_heap_def heap_from_def)

lemma init_heap_elems [simp]: "heap_elems (init_heap z cap sz cmp) = {#}"
  by (simp add: heap_elems_def init_heap_def)

lemma init_heap_sel [simp]: "capacity (init_heap z k s c) = k" "count (init_heap z k s c) = 0"
  by (simp_all add: init_heap_def)

lemma init_heap_room [simp]: "heap_room (init_heap z cap sz cmp) = cap"
  by (simp add: heap_room_def init_heap_def)

lemma heap_push_full: "capacity h \<le> count h \<Longrightarrow> heap_push h x = Inr h"
  by (simp add: heap_push_def)

lemma heap_pop_empty: "count h = 0 \<Longrightarrow> heap_pop h = Inr (None, h)"
  by (simp add: heap_pop_def)

lemma heap_pop_count:
  "heap_pop h = Inr (Some x, h') \<Longrightarrow> count h' < count h"
  by (auto simp: heap_pop_def bind_res_eq_Inr Let_def split: if_splits option.splits)

context comparator begin

lemma heap_push_ok:
  assumes wf: "heap_wf cmp h" and room: "count h < capacity h"
  shows "\<exists>h'. heap_push h x = Inr h' \<and> heap_wf cmp h' \<and>
           heap_elems h' = add_mset x (heap_elems h) \<and> count h' = Suc (count h) \<and>
           capacity h' = capacity h"
proof -
  let ?i = "count h" and ?t = "(tree h)[count h := x]"
  have len: "?i < length ?t" using wf room by (simp add: heap_wf_def)
  have push: "heap_push h x = Inr (h\<lparr>count := Suc ?i, tree := sift_up cmp ?t ?i\<rparr>)"
    using wf room len by (simp add: heap_push_def heap_wf_def push_loop_ok Let_def)
  have "heap_but_up cmp (Suc ?i) ?t ?i"
    using wf by (intro heap_but_up_append[where t = "tree h"]) (simp_all add: heap_wf_def)
  then have ord: "heap_ordered cmp (Suc ?i) (sift_up cmp ?t ?i)"
    using len by (intro sift_up_order) simp_all
  have "mset (take (Suc ?i) (sift_up cmp ?t ?i) @ drop (Suc ?i) (sift_up cmp ?t ?i))
      = mset (take (Suc ?i) ?t @ drop (Suc ?i) ?t)"
    unfolding append_take_drop_id using len by (rule sift_up_mset)
  then have "mset (take (Suc ?i) (sift_up cmp ?t ?i)) = mset (take (Suc ?i) ?t)"
    by (simp only: mset_append sift_up_drop lessI add_right_cancel)
  also have "\<dots> = add_mset x (mset (take ?i (tree h)))"
    using len by (simp add: take_Suc_conv_app_nth)
  finally show ?thesis
    using push ord wf room by (simp add: heap_wf_def heap_elems_def)
qed

lemma heap_pop_ok:
  assumes wf: "heap_wf cmp h" and ne: "0 < count h"
  shows "\<exists>x h'. heap_pop h = Inr (Some x, h') \<and> heap_wf cmp h' \<and>
           heap_elems h = add_mset x (heap_elems h') \<and> (\<forall>y \<in># heap_elems h. \<not> cmp y x) \<and>
           count h = Suc (count h') \<and> capacity h' = capacity h"
proof -
  define n where "n = count h - 1"
  let ?t = "tree h" and ?t1 = "(tree h)[0 := tree h ! n]"
  have cn: "count h = Suc n" using ne by (simp add: n_def)
  have len: "n < length ?t" using wf cn by (simp add: heap_wf_def)
  then have pop: "heap_pop h = Inr (Some (?t ! 0), h\<lparr>count := n, tree := sift_down cmp n ?t1 0\<rparr>)"
    using wf ne cn by (simp add: heap_pop_def heap_wf_def n_def[symmetric] heapify_root_ok Let_def)
  have "heap_but_down cmp 0 n ?t1 0"
    using wf cn by (intro heap_but_down_root[where t = ?t and n = "Suc n"]) (auto simp: heap_wf_def)
  then have ord: "heap_ordered cmp n (sift_down cmp n ?t1 0)" if "0 < n"
    using len that by (intro sift_down_order) simp_all
  have ord: "heap_ordered cmp n (sift_down cmp n ?t1 0)"
    by (cases "n = 0") (simp add: heap_from_def, simp add: ord)
  have "mset (take n (sift_down cmp n ?t1 0)) = mset (take n ?t1)"
    using len sift_down_frame[of n ?t1 0 cmp] by (cases "n = 0") simp_all
  moreover have "mset (take (Suc n) ?t) = add_mset (?t ! 0) (mset (take n ?t1))"
    using len by (cases ?t; cases n) (simp_all add: take_Suc_conv_app_nth)
  ultimately have elems: "heap_elems h = add_mset (?t ! 0) (mset (take n (sift_down cmp n ?t1 0)))"
    by (simp add: heap_elems_def cn)
  have "\<not> cmp y (?t ! 0)" if "y \<in># heap_elems h" for y
    using that wf root_first[of "count h" ?t] by (auto simp: heap_elems_def heap_wf_def in_set_conv_nth)
  with pop ord elems wf cn show ?thesis
    by (simp add: heap_wf_def heap_elems_def)
qed

end

subsection \<open>The priority queue contract\<close>

text \<open>
  What a client of the heap relies on. \<open>before x y\<close> is the client's ordering; \<open>pop\<close> returns an
  element that no other element comes before; a queue without room drops what is pushed.
\<close>

fun push_all :: "('q \<Rightarrow> 'a \<Rightarrow> 'q res) \<Rightarrow> 'q \<Rightarrow> 'a list \<Rightarrow> 'q res" where
  "push_all push q [] = Inr q"
| "push_all push q (x # xs) = bind_res (push q x) (\<lambda>q. push_all push q xs)"

fun pop_all :: "('q \<Rightarrow> ('a option \<times> 'q) res) \<Rightarrow> nat \<Rightarrow> 'q \<Rightarrow> ('a list \<times> 'q) res" where
  "pop_all pop 0 q = Inr ([], q)"
| "pop_all pop (Suc n) q =
     bind_res (pop q) (\<lambda>(r, q').
       case r of None \<Rightarrow> Inr ([], q')
       | Some x \<Rightarrow> bind_res (pop_all pop n q') (\<lambda>(xs, q''). Inr (x # xs, q'')))"

locale prio_queue =
  fixes before :: "'a \<Rightarrow> 'a \<Rightarrow> bool"
    and invar :: "'q \<Rightarrow> bool"
    and elems :: "'q \<Rightarrow> 'a multiset"
    and room :: "'q \<Rightarrow> nat"
    and push :: "'q \<Rightarrow> 'a \<Rightarrow> 'q res"
    and pop :: "'q \<Rightarrow> ('a option \<times> 'q) res"
  assumes push_room: "invar q \<Longrightarrow> 0 < room q \<Longrightarrow>
      \<exists>q'. push q x = Inr q' \<and> invar q' \<and> elems q' = add_mset x (elems q) \<and> room q = Suc (room q')"
    and push_full: "invar q \<Longrightarrow> room q = 0 \<Longrightarrow> push q x = Inr q"
    and pop_none: "invar q \<Longrightarrow> elems q = {#} \<Longrightarrow> pop q = Inr (None, q)"
    and pop_min: "invar q \<Longrightarrow> elems q \<noteq> {#} \<Longrightarrow>
      \<exists>x q'. pop q = Inr (Some x, q') \<and> invar q' \<and> elems q = add_mset x (elems q') \<and>
        (\<forall>y \<in># elems q. \<not> before y x) \<and> room q' = Suc (room q)"
begin

lemma push_all_ok:
  "invar q \<Longrightarrow> length xs \<le> room q \<Longrightarrow>
   \<exists>q'. push_all push q xs = Inr q' \<and> invar q' \<and> elems q' = elems q + mset xs \<and>
     room q = room q' + length xs"
proof (induction xs arbitrary: q)
  case (Cons x xs)
  then obtain q1 where "push q x = Inr q1" "invar q1" "elems q1 = add_mset x (elems q)"
    "room q = Suc (room q1)"
    using push_room[of q x] by auto
  with Cons.IH[of q1] Cons.prems show ?case by auto
qed simp

lemma pop_all_sorted:
  "invar q \<Longrightarrow> size (elems q) < n \<Longrightarrow>
   \<exists>xs q'. pop_all pop n q = Inr (xs, q') \<and> mset xs = elems q \<and>
     sorted_wrt (\<lambda>x y. \<not> before y x) xs \<and> invar q' \<and> elems q' = {#} \<and>
     room q' = room q + size (elems q)"
proof (induction n arbitrary: q)
  case (Suc n)
  show ?case
  proof (cases "elems q = {#}")
    case True
    with Suc.prems show ?thesis by (simp add: pop_none)
  next
    case False
    with Suc.prems obtain x q1 where pop: "pop q = Inr (Some x, q1)" "invar q1"
      "elems q = add_mset x (elems q1)" "room q1 = Suc (room q)"
      and min: "\<forall>y \<in># elems q. \<not> before y x"
      using pop_min by metis
    with Suc.IH[of q1] Suc.prems obtain xs q' where "pop_all pop n q1 = Inr (xs, q')"
      "mset xs = elems q1" "sorted_wrt (\<lambda>x y. \<not> before y x) xs" "invar q'" "elems q' = {#}"
      "room q' = room q1 + size (elems q1)"
      by auto
    with pop min show ?thesis
      by (auto simp flip: set_mset_mset)
  qed
qed simp

end

sublocale comparator \<subseteq> heap: prio_queue cmp "heap_wf cmp" heap_elems heap_room heap_push heap_pop
proof (unfold_locales, goal_cases)
  case (1 q x)
  then show ?case using heap_push_ok[of q x] by (auto simp: heap_room_def)
next
  case (2 q x)
  then show ?case by (simp add: heap_push_full heap_room_def heap_wf_def)
next
  case (3 q)
  then show ?case by (simp add: heap_pop_empty heap_elems_empty_iff)
next
  case (4 q)
  then have "0 < count q" by (simp add: heap_elems_empty_iff)
  with 4(1) heap_pop_ok[OF 4(1)] show ?case by (fastforce simp: heap_room_def heap_wf_def)
qed

subsection \<open>Heap sort\<close>

lemma build_start_nat:
  assumes "n < 2 ^ 32"
  shows "nat (build_start n + 1) = n div 2"
proof (cases "n div 2")
  case 0
  have "ucast (- 1 :: size_t) = (- 1 :: u32)"
    by (rule bit_word_eqI) (simp add: bit_simps)
  with 0 show ?thesis by (simp add: build_start_def)
next
  case (Suc k)
  then have k: "k < 2 ^ 31" using assms by simp
  have "of_nat (n div 2) - 1 = (of_nat k :: size_t)" by (simp add: Suc)
  moreover have "ucast (of_nat k :: size_t) = (of_nat k :: u32)"
    by (rule bit_word_eqI) (simp add: bit_simps)
  moreover have "sint (of_nat k :: u32) = int k"
    using k by (simp add: signed_of_nat signed_take_bit_int_eq_self)
  ultimately show ?thesis by (simp add: build_start_def Suc)
qed

context comparator begin

lemma build_loop_ok:
  "n \<le> length t \<Longrightarrow> k \<le> n \<Longrightarrow> heap_from cmp k n t \<Longrightarrow>
   \<exists>t'. build_loop cmp n t k = Inr t' \<and> heap_ordered cmp n t' \<and> length t' = length t \<and>
     mset (take n t') = mset (take n t) \<and> drop n t' = drop n t"
proof (induction k arbitrary: t)
  case (Suc k)
  then have "k < n" by simp
  moreover have "heap_from cmp k n (sift_down cmp n t k)"
    using Suc.prems by (intro sift_down_order heap_but_down_first) simp_all
  ultimately show ?case
    using Suc.IH[of "sift_down cmp n t k"] Suc.prems sift_down_frame[of n t k cmp]
    by (simp add: heapify_ok)
qed simp

text \<open>
  The invariant of the second loop: the first \<open>c\<close> elements form a heap, the elements from
  \<open>c\<close> on are in their final order, and no element of the heap comes before one of them.
\<close>

definition sort_inv :: "nat \<Rightarrow> 'a list \<Rightarrow> nat \<Rightarrow> bool" where
  "sort_inv n t c \<longleftrightarrow>
     heap_ordered cmp c t \<and>
     (\<forall>i j. c \<le> i \<and> i < j \<and> j < n \<longrightarrow> \<not> cmp (t ! i) (t ! j)) \<and>
     (\<forall>i j. i < c \<and> c \<le> j \<and> j < n \<longrightarrow> \<not> cmp (t ! i) (t ! j))"

lemma sort_inv_step:
  assumes inv: "sort_inv n t (Suc c)" and c: "0 < c" "c < n" and len: "n \<le> length t"
  defines "t' \<equiv> sift_down cmp c (swap_at t 0 c) 0"
  shows "sort_inv n t' c \<and> mset (take n t') = mset (take n t) \<and> drop n t' = drop n t"
proof -
  let ?s = "swap_at t 0 c"
  have fr: "mset (take c t') = mset (take c ?s)" "drop c t' = drop c ?s"
    using sift_down_frame[of c ?s 0 cmp] c len by (simp_all add: t'_def)
  have len': "length t' = length t" by (simp add: t'_def)
  have above: "t' ! j = ?s ! j" if "c \<le> j" "j < length t" for j
    using arg_cong[OF fr(2), of "\<lambda>xs. xs ! (j - c)"] that len' by simp
  have lt: "0 < length t" "c < length t" using c len by linarith+
  note swapped = nth_swap_at[OF lt]
  have at: "?s ! c = t ! 0" by (simp add: swapped)
  have at': "?s ! j = t ! j" if "c < j" for j using that by (simp add: swapped)
  have low: "\<exists>k \<le> c. t' ! i = t ! k" if "i < c" for i
  proof -
    have "t' ! i \<in> set (take c t')" using that c len len' by (force simp: in_set_conv_nth)
    then have "t' ! i \<in> set (take c ?s)" by (metis fr(1) set_mset_mset)
    then obtain k where k: "k < c" "t' ! i = ?s ! k" by (auto simp: in_set_conv_nth)
    then have "t' ! i = t ! k \<or> t' ! i = t ! c" using c by (auto simp: swapped)
    then show ?thesis using k(1) by (auto intro: less_imp_le)
  qed
  have root: "\<not> cmp (t ! k) (t ! 0)" if "k \<le> c" for k
    using inv that by (intro root_first[of "Suc c"]) (simp_all add: sort_inv_def)
  have ord: "\<not> cmp (t ! i) (t ! j)" if "i < j" "c < j" "j < n" for i j
    using inv that unfolding sort_inv_def by (metis Suc_leI not_le)
  have "heap_but_down cmp 0 c ?s 0"
    using inv c len by (intro heap_but_down_root[where t = t and n = "Suc c"])
      (auto simp: sort_inv_def swapped)
  then have "heap_ordered cmp c t'"
    unfolding t'_def using c len by (intro sift_down_order) simp_all
  moreover have "\<not> cmp (t' ! i) (t' ! j)" if "c \<le> i" "i < j" "j < n" for i j
  proof -
    have "t' ! i = (if i = c then t ! 0 else t ! i)" "t' ! j = t ! j"
      using that above[of i] above[of j] at at'[of i] at'[of j] len by simp_all
    with that ord show ?thesis by simp
  qed
  moreover have "\<not> cmp (t' ! i) (t' ! j)" if ij: "i < c" "c \<le> j" "j < n" for i j
  proof -
    obtain k where k: "k \<le> c" "t' ! i = t ! k" using low[OF ij(1)] by blast
    show ?thesis
    proof (cases "j = c")
      case True
      then have "t' ! j = t ! 0" using above[of c] at lt(2) by simp
      then show ?thesis using k root[OF k(1)] by simp
    next
      case False
      then have "t' ! j = t ! j" "\<not> cmp (t ! k) (t ! j)"
        using ij above[of j] at'[of j] ord[of k j] k(1) len by simp_all
      then show ?thesis using k by simp
    qed
  qed
  ultimately have "sort_inv n t' c" by (auto simp: sort_inv_def)
  moreover have "mset t' = mset t" "drop n t' = drop n t"
  proof -
    have "mset (take c t' @ drop c t') = mset (take c ?s @ drop c ?s)"
      by (simp only: mset_append fr)
    also have "\<dots> = mset t" unfolding append_take_drop_id using lt by (rule mset_swap_at)
    finally show "mset t' = mset t" by simp
    have "drop (n - c) (drop c t') = drop (n - c) (drop c ?s)" using fr(2) by simp
    then show "drop n t' = drop n t" using c by (simp add: drop_swap_at)
  qed
  moreover have "mset (take n t') = mset (take n t)"
    using calculation(2,3) by (metis add_right_cancel append_take_drop_id mset_append)
  ultimately show ?thesis by simp
qed

lemma sort_loop_ok:
  "sort_inv n t c \<Longrightarrow> 0 < c \<Longrightarrow> c \<le> n \<Longrightarrow> n \<le> length t \<Longrightarrow>
   \<exists>t'. sort_loop cmp t c = Inr t' \<and> mset (take n t') = mset (take n t) \<and> drop n t' = drop n t \<and>
     length t' = length t \<and> (\<forall>i j. i < j \<and> j < n \<longrightarrow> \<not> cmp (t' ! i) (t' ! j))"
proof (induction c arbitrary: t)
  case (Suc c)
  show ?case
  proof (cases "c = 0")
    case True
    with Suc.prems show ?thesis by (auto simp: sort_inv_def) (metis Suc_leI gr0I)
  next
    case False
    let ?t = "sift_down cmp c (swap_at t 0 c) 0"
    have step: "sort_inv n ?t c \<and> mset (take n ?t) = mset (take n t) \<and> drop n ?t = drop n t"
      using Suc.prems False by (intro sort_inv_step) simp_all
    have lt: "0 < length t" "c < length t" using Suc.prems by linarith+
    then have "sort_loop cmp t (Suc c) = sort_loop cmp ?t c"
      using Suc.prems False heapify_root_ok[of c "swap_at t 0 c" cmp] heap_swap_ok[OF lt] by simp
    with Suc.IH[of ?t] Suc.prems False step show ?thesis by simp
  qed
qed simp

lemma heap_sort_ok:
  assumes "0 < n" and "n < 2 ^ 32" and "n \<le> length dat"
  shows "\<exists>t. heap_sort dat n cmp = Inr t \<and> length t = length dat \<and>
           mset (take n t) = mset (take n dat) \<and> drop n t = drop n dat \<and>
           (\<forall>i j. i < j \<and> j < n \<longrightarrow> \<not> cmp (t ! i) (t ! j))"
proof -
  obtain t where t: "build_loop cmp n dat (n div 2) = Inr t" "heap_ordered cmp n t"
    "length t = length dat" "mset (take n t) = mset (take n dat)" "drop n t = drop n dat"
    using build_loop_ok[of n dat "n div 2"] assms by (auto simp: heap_from_leaves)
  moreover have "sort_inv n t n" using t(2) by (auto simp: sort_inv_def)
  ultimately show ?thesis
    using sort_loop_ok[of n t n] assms by (auto simp: heap_sort_def build_start_nat)
qed

end

context comparator begin

lemma queue_sorted:
  assumes "length xs \<le> cap"
  shows "\<exists>h ys h'. push_all heap_push (init_heap z cap sz cmp) xs = Inr h \<and> count h = length xs \<and>
     pop_all heap_pop (Suc (length xs)) h = Inr (ys, h') \<and> count h' = 0 \<and>
     mset ys = mset xs \<and> sorted_wrt (\<lambda>x y. \<not> cmp y x) ys"
proof -
  obtain h where h: "push_all heap_push (init_heap z cap sz cmp) xs = Inr h" "heap_wf cmp h"
    "heap_elems h = mset xs"
    using heap.push_all_ok[of "init_heap z cap sz cmp" xs] assms by auto
  have cnt: "count h = length xs" using size_heap_elems[OF h(2)] h(3) by simp
  obtain ys h' where "pop_all heap_pop (Suc (length xs)) h = Inr (ys, h')" "mset ys = mset xs"
    "sorted_wrt (\<lambda>x y. \<not> cmp y x) ys" "heap_wf cmp h'" "heap_elems h' = {#}"
    using heap.pop_all_sorted[OF h(2), of "Suc (length xs)"] h(3) by auto
  then show ?thesis using h(1) cnt by (auto simp: heap_elems_empty_iff)
qed

end

text \<open>
  The comment of the type \<open>comparator\<close> in \<open>heap.h\<close> asks for a partial order. That is not enough:
  elements that are not comparable with each other need not be so with a third one, and the sifting
  passes over them. What is needed is a strict weak order, the laws of the locale \<open>comparator\<close>.
\<close>

lemma partial_order_not_enough:
  "let cmp = (\<lambda>x y. x = 0 \<and> y = (1 :: nat)) in
     (\<forall>x. \<not> cmp x x) \<and> (\<forall>x y z. cmp x y \<longrightarrow> cmp y z \<longrightarrow> cmp x z) \<and>
     heap_sort [1, 2, 3, 0] 4 cmp = Inr [2, 3, 0, 1] \<and> cmp 0 1"
proof -
  have "heap_sort [1, 2, 3, 0] 4 (\<lambda>x y. x = 0 \<and> y = (1 :: nat)) = Inr [2, 3, 0, 1]" by code_simp
  then show ?thesis by (auto simp: Let_def)
qed

section \<open>Properties\<close>

text \<open>
  Heap sort. For every comparator that is a strict weak order, \<open>heap_sort\<close> on the first
  \<open>n > 0\<close> elements of an array ends without leaving the array, permutes those elements so that
  none comes strictly before an earlier one is reached (the order is descending in the
  comparator), and leaves the elements behind them untouched.
\<close>

theorem heap_sort_sorts:
  assumes "\<And>x y. cmp x y \<Longrightarrow> \<not> cmp y x"
    and "\<And>x y z. \<not> cmp x y \<Longrightarrow> \<not> cmp y z \<Longrightarrow> \<not> cmp x z"
    and "0 < n" and "n < 2 ^ 32" and "n \<le> length dat"
  shows "\<exists>t. heap_sort dat n cmp = Inr t \<and> length t = length dat \<and>
     mset (take n t) = mset (take n dat) \<and> drop n t = drop n dat \<and>
     (\<forall>i j. i < j \<and> j < n \<longrightarrow> \<not> cmp (t ! i) (t ! j))"
proof -
  have "comparator cmp" using assms(1,2) by (rule comparator.intro)
  then show ?thesis using assms(3-5) by (rule comparator.heap_sort_ok)
qed

theorem heap_sort_sorts_witness:
  "\<exists>t. heap_sort [3, 1, 2, 9 :: nat] 3 (<) = Inr t \<and> length t = length [3, 1, 2, 9 :: nat] \<and>
     mset (take 3 t) = mset [3, 1, 2] \<and> drop 3 t = [9] \<and> (\<forall>i j. i < j \<and> j < 3 \<longrightarrow> t ! j \<le> t ! i)"
  using heap_sort_sorts[of "(<)" 3 "[3, 1, 2, 9 :: nat]"] by (simp add: not_less)

text \<open>
  The queue contract. Pushing elements into an empty heap with room for them and popping
  until it is empty returns a permutation of the elements in the comparator's order: no element
  is popped after one that it comes before.
\<close>

theorem heap_queue_sorted:
  assumes "\<And>x y. cmp x y \<Longrightarrow> \<not> cmp y x"
    and "\<And>x y z. \<not> cmp x y \<Longrightarrow> \<not> cmp y z \<Longrightarrow> \<not> cmp x z"
    and "length xs \<le> cap"
  shows "\<exists>h ys h'. push_all heap_push (init_heap z cap sz cmp) xs = Inr h \<and> count h = length xs \<and>
     pop_all heap_pop (Suc (length xs)) h = Inr (ys, h') \<and> count h' = 0 \<and>
     mset ys = mset xs \<and> sorted_wrt (\<lambda>x y. \<not> cmp y x) ys"
proof -
  have "comparator cmp" using assms(1,2) by (rule comparator.intro)
  then show ?thesis using assms(3) by (rule comparator.queue_sorted)
qed

theorem heap_queue_sorted_witness:
  "\<exists>h ys h'. push_all heap_push (init_heap 0 5 1 (<)) [7, 2, 5 :: nat] = Inr h \<and> count h = 3 \<and>
     pop_all heap_pop 4 h = Inr (ys, h') \<and> count h' = 0 \<and> mset ys = mset [7, 2, 5] \<and>
     sorted_wrt (\<lambda>x y. \<not> y < x) ys"
  using heap_queue_sorted[of "(<)" "[7, 2, 5 :: nat]" 5 0 1] by (simp add: eval_nat_numeral)

text \<open>
  A push into a full heap drops the element and changes nothing, and a pop of an empty
  heap reports that there is none.
\<close>

theorem heap_full_and_empty:
  "(capacity h \<le> count h \<longrightarrow> heap_push h x = Inr h) \<and> (count h = 0 \<longrightarrow> heap_pop h = Inr (None, h))"
  by (simp add: heap_push_full heap_pop_empty)

theorem heap_full_and_empty_witness:
  "heap_push (init_heap 0 0 1 (<)) (4 :: nat) = Inr (init_heap 0 0 1 (<)) \<and>
   heap_pop (init_heap (0 :: nat) 3 1 (<)) = Inr (None, init_heap 0 3 1 (<))"
  using heap_full_and_empty[of "init_heap (0 :: nat) 0 1 (<)" 4]
    heap_full_and_empty[of "init_heap (0 :: nat) 3 1 (<)" 0] by simp

end
