(* ===== verification/Dxwifi.thy ===== *)
theory Dxwifi
  imports Prelude
begin

text \<open>
  \<open>libdxwifi/dxwifi.h\<close>: the constants of the protocol and the control frame types.
\<close>

definition DXWIFI_SNAPLEN_MAX :: nat where "DXWIFI_SNAPLEN_MAX = 65535"
definition DXWIFI_FRAME_CONTROL_DATA_SIZE :: nat where "DXWIFI_FRAME_CONTROL_DATA_SIZE = 256"
definition DXWIFI_FRAME_CONTROL_CHECK_THRESHOLD :: rat where
  "DXWIFI_FRAME_CONTROL_CHECK_THRESHOLD = 3 / 4"
definition DXWIFI_BLOCK_SIZE_MIN :: nat where
  "DXWIFI_BLOCK_SIZE_MIN = DXWIFI_FRAME_CONTROL_DATA_SIZE + 1"
definition DXWIFI_BLOCK_SIZE_MAX :: nat where "DXWIFI_BLOCK_SIZE_MAX = 2048"

lemmas dxwifi_consts [wire_defs] =
  DXWIFI_SNAPLEN_MAX_def DXWIFI_FRAME_CONTROL_DATA_SIZE_def DXWIFI_BLOCK_SIZE_MIN_def
  DXWIFI_BLOCK_SIZE_MAX_def

datatype dxwifi_control_frame =
    DXWIFI_CONTROL_FRAME_NONE
  | DXWIFI_CONTROL_FRAME_PREAMBLE
  | DXWIFI_CONTROL_FRAME_EOT

text \<open>The enumeration's values; a control frame's payload repeats the value of its type.\<close>

fun control_frame_value :: "dxwifi_control_frame \<Rightarrow> byte" where
  "control_frame_value DXWIFI_CONTROL_FRAME_NONE = 0x00"
| "control_frame_value DXWIFI_CONTROL_FRAME_PREAMBLE = 0xff"
| "control_frame_value DXWIFI_CONTROL_FRAME_EOT = 0xaa"

end
