(* ===== verification/Utils.thy ===== *)
theory Utils
  imports Dxwifi
begin

text \<open>
  \<open>libdxwifi/details/utils.h\<close> and \<open>utils.c\<close>. System calls (\<open>lstat\<close>, \<open>stat\<close>, \<open>nanosleep\<close>)
  are arguments: a lookup of the file status by path, and the sequence of answers the sleep
  call gives. C strings are HOL strings without their terminator.
\<close>

subsection \<open>Bit fields\<close>

definition set_bits32 :: "u32 \<Rightarrow> u32 \<Rightarrow> u32 \<Rightarrow> u32" where
  "set_bits32 w msk value = (w AND NOT msk) OR (value AND msk)"

definition set_bits16 :: "u16 \<Rightarrow> u16 \<Rightarrow> u16 \<Rightarrow> u16" where
  "set_bits16 w msk value = (w AND NOT msk) OR (value AND msk)"

lemma bit_set_bits16: "bit (set_bits16 w m v) i = (if bit m i then bit v i else bit w i)"
  by (cases "i < 16") (auto simp: set_bits16_def bit_simps dest: bit_imp_le_length)

lemma bit_set_bits32: "bit (set_bits32 w m v) i = (if bit m i then bit v i else bit w i)"
  by (cases "i < 32") (auto simp: set_bits32_def bit_simps dest: bit_imp_le_length)

subsection \<open>Pointer arithmetic\<close>

definition offset :: "size_t \<Rightarrow> size_t \<Rightarrow> size_t \<Rightarrow> size_t" where
  "offset base n sz = base + n * sz"

subsection \<open>File status\<close>

record file_stat =
  st_mode :: u32
  st_size :: int

definition S_IFMT :: u32 where "S_IFMT = 0xF000"
definition S_ISREG :: "u32 \<Rightarrow> bool" where "S_ISREG m \<longleftrightarrow> m AND S_IFMT = 0x8000"
definition S_ISDIR :: "u32 \<Rightarrow> bool" where "S_ISDIR m \<longleftrightarrow> m AND S_IFMT = 0x4000"

type_synonym stat_call = "string \<Rightarrow> file_stat option"

definition is_regular_file :: "stat_call \<Rightarrow> string \<Rightarrow> bool" where
  "is_regular_file lstat path = (case lstat path of None \<Rightarrow> False | Some st \<Rightarrow> S_ISREG (st_mode st))"

definition is_directory :: "stat_call \<Rightarrow> string \<Rightarrow> bool" where
  "is_directory lstat path = (case lstat path of None \<Rightarrow> False | Some st \<Rightarrow> S_ISDIR (st_mode st))"

definition get_file_size :: "stat_call \<Rightarrow> string \<Rightarrow> int" where
  "get_file_size stat path =
     (case stat path of None \<Rightarrow> -1
      | Some st \<Rightarrow> if S_ISREG (st_mode st) then st_size st else -1)"

lemma regular_not_directory: "is_regular_file lstat p \<Longrightarrow> \<not> is_directory lstat p"
  by (auto simp: is_regular_file_def is_directory_def S_ISREG_def S_ISDIR_def split: option.splits)

subsection \<open>Names\<close>

fun control_frame_type_to_str :: "dxwifi_control_frame \<Rightarrow> string" where
  "control_frame_type_to_str DXWIFI_CONTROL_FRAME_PREAMBLE = ''Preamble''"
| "control_frame_type_to_str DXWIFI_CONTROL_FRAME_EOT = ''EOT''"
| "control_frame_type_to_str DXWIFI_CONTROL_FRAME_NONE = ''None''"

subsection \<open>Sleeping\<close>

record timespec =
  tv_sec :: nat
  tv_nsec :: nat

text \<open>One answer of \<open>nanosleep\<close>: its status, whether \<open>errno\<close> is \<open>EINTR\<close>, and the time left.\<close>

record sleep_answer =
  ns_status :: int
  ns_eintr :: bool
  ns_rem :: timespec

definition msleep_timespec :: "u32 \<Rightarrow> timespec" where
  "msleep_timespec msec =
     \<lparr>tv_sec = unat (msec div 1000), tv_nsec = unat ((msec mod 1000) * 1000000)\<rparr>"

text \<open>
  The \<open>do .. while\<close> loop of \<open>msleep\<close> over the answers of \<open>nanosleep\<close>; the request of each
  call after the first is what the previous one left. The result is the status together with
  the requests made, or \<open>None\<close> while the loop is still waiting for an answer.
\<close>

fun msleep_loop :: "sleep_answer list \<Rightarrow> bool \<Rightarrow> timespec \<Rightarrow> (int \<times> timespec list) option" where
  "msleep_loop [] require_elapsed ts = None"
| "msleep_loop (a # as) require_elapsed ts =
     (if ns_status a \<noteq> 0 \<and> ns_eintr a \<and> require_elapsed
      then map_option (\<lambda>(st, reqs). (st, ts # reqs)) (msleep_loop as require_elapsed (ns_rem a))
      else Some (ns_status a, [ts]))"

definition msleep :: "sleep_answer list \<Rightarrow> u32 \<Rightarrow> bool \<Rightarrow> (int \<times> timespec list) option" where
  "msleep as msec require_elapsed = msleep_loop as require_elapsed (msleep_timespec msec)"

text \<open>The request is a valid \<open>timespec\<close> of exactly \<open>msec\<close> milliseconds.\<close>

lemma msleep_timespec_exact:
  "tv_nsec (msleep_timespec ms) < 1000000000 \<and>
   tv_sec (msleep_timespec ms) * 1000000000 + tv_nsec (msleep_timespec ms) = unat ms * 1000000"
proof -
  have scale: "a * 1000 + b = n \<Longrightarrow> n * 1000000 = a * 1000000000 + b * 1000000" for a b n :: nat
    by simp
  have m: "unat (ms mod 1000) = unat ms mod 1000" by (simp add: unat_mod_distrib)
  have "unat ms mod 1000 * 1000000 < 2 ^ 32" by simp
  then have "unat ((ms mod 1000) * 1000000) = unat ms mod 1000 * 1000000"
    using m by (simp add: unat_word_ariths)
  moreover have "unat (ms div 1000) = unat ms div 1000" by (simp add: unat_div_distrib)
  moreover have "unat ms * 1000000 = unat ms div 1000 * 1000000000 + unat ms mod 1000 * 1000000"
    by (rule scale) simp
  ultimately show ?thesis
    unfolding msleep_timespec_def by simp
qed

text \<open>Without \<open>require_elapsed\<close> the first answer is final; with it only a failure other than
  an interrupt, or success, ends the loop.\<close>

lemma msleep_once: "msleep (a # as) ms False = Some (ns_status a, [msleep_timespec ms])"
  by (simp add: msleep_def)

lemma msleep_loop_elapsed:
  "msleep_loop as True ts = Some (st, reqs) \<Longrightarrow>
   \<exists>a \<in> set as. st = ns_status a \<and> (ns_status a = 0 \<or> \<not> ns_eintr a)"
  by (induction as arbitrary: ts st reqs) (fastforce split: if_splits)+

subsection \<open>Paths\<close>

text \<open>
  \<open>combine_path\<close> tests \<open>rindex(path, '/')\<close>, that is, whether the path contains a slash
  anywhere. \<open>snprintf\<close> keeps at most \<open>n - 1\<close> characters.
\<close>

definition combine_path :: "nat \<Rightarrow> string \<Rightarrow> string \<Rightarrow> string" where
  "combine_path n path filename =
     (if CHR ''/'' \<in> set path
      then take (n - 1) (path @ filename)
      else take (n - 1) (path @ ''/'' @ filename))"

end
