(* ===== verification/HeapMemory.thy ===== *)
theory HeapMemory imports BinHeap Utils begin

text \<open>
  \<open>libdxwifi/details/heap.c\<close> on the memory it works on: the tree is one block of
  \<open>capacity * step_size\<close> bytes, an element is the \<open>step_size\<close> bytes at \<open>offset(tree, i, step_size)\<close>,
  and elements are moved with \<open>memcpy\<close>. The comparator is given the bytes of its two elements.
  Each operation is related to the operation of \<open>BinHeap\<close> on the array of elements: they run in
  step, with related results and the same errors, so that what \<open>BinHeap\<close> shows holds of the bytes.
\<close>

subsection \<open>Operations\<close>

type_synonym bytes_comparator = "byte list \<Rightarrow> byte list \<Rightarrow> bool"

record mem_heap =
  mem_tree :: "byte list"
  mem_count :: nat
  mem_capacity :: nat
  mem_step_size :: nat
  mem_compare :: "bytes_comparator option"

definition elem_addr :: "nat \<Rightarrow> nat \<Rightarrow> size_t" where
  "elem_addr i sz = offset 0 (of_nat i) (of_nat sz)"

text \<open>\<open>swap\<close>, with its variable length array.\<close>

definition mem_swap :: "byte list \<Rightarrow> size_t \<Rightarrow> size_t \<Rightarrow> nat \<Rightarrow> byte list res" where
  "mem_swap m a b sz =
     bind_res (guard_res (0 < sz) Bad_VLA) (\<lambda>_.
     bind_res (mem_read m (unat a) sz) (\<lambda>temp.
     bind_res (mem_read m (unat b) sz) (\<lambda>y.
     bind_res (mem_write m (unat a) y) (\<lambda>m.
     mem_write m (unat b) temp))))"

definition mem_child_before :: "bytes_comparator \<Rightarrow> nat \<Rightarrow> byte list \<Rightarrow> nat \<Rightarrow> nat \<Rightarrow> nat \<Rightarrow> bool res" where
  "mem_child_before cmp n m sz k j =
     (if k < n
      then bind_res (mem_read m (unat (elem_addr k sz)) sz) (\<lambda>x.
           bind_res (mem_read m (unat (elem_addr j sz)) sz) (\<lambda>y. Inr (cmp x y)))
      else Inr False)"

definition mem_pick_child :: "bytes_comparator \<Rightarrow> nat \<Rightarrow> byte list \<Rightarrow> nat \<Rightarrow> nat \<Rightarrow> nat res" where
  "mem_pick_child cmp n m sz i =
     bind_res (mem_child_before cmp n m sz (heap_left i) i) (\<lambda>lb.
     let new_index = (if lb then heap_left i else i) in
     bind_res (mem_child_before cmp n m sz (heap_right i) new_index) (\<lambda>rb.
     Inr (if rb then heap_right i else new_index)))"

lemma mem_pick_child_cases: "mem_pick_child cmp n m sz i = Inr j \<Longrightarrow> j = i \<or> (i < j \<and> j < n)"
  by (auto simp: mem_pick_child_def mem_child_before_def heap_index_defs bind_res_eq_Inr Let_def
      split: if_splits)

function mem_heapify :: "bytes_comparator \<Rightarrow> nat \<Rightarrow> byte list \<Rightarrow> nat \<Rightarrow> nat \<Rightarrow> byte list res" where
  "mem_heapify cmp n m sz i =
     bind_res (mem_pick_child cmp n m sz i) (\<lambda>new_index.
     if new_index \<noteq> i
     then bind_res (mem_swap m (elem_addr i sz) (elem_addr new_index sz) sz) (\<lambda>m.
          mem_heapify cmp n m sz new_index)
     else Inr m)"
  by pat_completeness auto
termination
  by (relation "measure (\<lambda>(cmp, n, m, sz, i). n - i)") (auto dest: mem_pick_child_cases)

declare mem_heapify.simps [simp del]

text \<open>\<open>calloc\<close> fills the tree with zeros.\<close>

definition mem_init_heap :: "nat \<Rightarrow> nat \<Rightarrow> bytes_comparator \<Rightarrow> mem_heap" where
  "mem_init_heap cap sz cmp =
     \<lparr>mem_tree = replicate (cap * sz) 0, mem_count = 0, mem_capacity = cap, mem_step_size = sz,
      mem_compare = Some cmp\<rparr>"

function mem_push_loop :: "bytes_comparator \<Rightarrow> byte list \<Rightarrow> nat \<Rightarrow> nat \<Rightarrow> byte list res" where
  "mem_push_loop cmp m sz i =
     (if i = 0 then Inr m
      else bind_res (mem_read m (unat (elem_addr i sz)) sz) (\<lambda>x.
           bind_res (mem_read m (unat (elem_addr (heap_parent i) sz)) sz) (\<lambda>y.
           if cmp x y
           then bind_res (mem_swap m (elem_addr i sz) (elem_addr (heap_parent i) sz) sz) (\<lambda>m.
                mem_push_loop cmp m sz (heap_parent i))
           else Inr m)))"
  by pat_completeness auto
termination
  by (relation "measure (\<lambda>(cmp, m, sz, i). i)") (auto simp: heap_parent_def)

declare mem_push_loop.simps [simp del]

text \<open>\<open>memcpy(offset(tree, i, sz), data, sz)\<close> reads \<open>step_size\<close> bytes at \<open>data\<close>.\<close>

definition mem_heap_push :: "mem_heap \<Rightarrow> byte list \<Rightarrow> mem_heap res" where
  "mem_heap_push h dat =
     (let sz = mem_step_size h in
      if mem_count h < mem_capacity h
      then let i = mem_count h; h = h\<lparr>mem_count := mem_count h + 1\<rparr> in
           bind_res (mem_read dat 0 sz) (\<lambda>d.
           bind_res (mem_write (mem_tree h) (unat (elem_addr i sz)) d) (\<lambda>m.
           case mem_compare h of
             None \<Rightarrow> if i = 0 then Inr (h\<lparr>mem_tree := m\<rparr>) else Inl Null_Deref
           | Some cmp \<Rightarrow> bind_res (mem_push_loop cmp m sz i) (\<lambda>m. Inr (h\<lparr>mem_tree := m\<rparr>))))
      else Inr h)"

definition mem_heap_pop :: "mem_heap \<Rightarrow> (byte list option \<times> mem_heap) res" where
  "mem_heap_pop h =
     (if 0 < mem_count h
      then let sz = mem_step_size h in
           bind_res (mem_read (mem_tree h) 0 sz) (\<lambda>out.
           let h = h\<lparr>mem_count := mem_count h - 1\<rparr> in
           bind_res (mem_read (mem_tree h) (unat (elem_addr (mem_count h) sz)) sz) (\<lambda>last.
           bind_res (mem_write (mem_tree h) 0 last) (\<lambda>m.
           case mem_compare h of
             None \<Rightarrow> if mem_count h \<le> 1 then Inr (Some out, h\<lparr>mem_tree := m\<rparr>) else Inl Null_Deref
           | Some cmp \<Rightarrow>
               bind_res (mem_heapify cmp (mem_count h) m sz 0) (\<lambda>m.
               Inr (Some out, h\<lparr>mem_tree := m\<rparr>)))))
      else Inr (None, h))"

fun mem_build_loop :: "bytes_comparator \<Rightarrow> nat \<Rightarrow> byte list \<Rightarrow> nat \<Rightarrow> nat \<Rightarrow> byte list res" where
  "mem_build_loop cmp n m sz 0 = Inr m"
| "mem_build_loop cmp n m sz (Suc i) =
     bind_res (mem_heapify cmp n m sz i) (\<lambda>m. mem_build_loop cmp n m sz i)"

text \<open>With nothing to sort the count wraps and the first \<open>swap\<close> is out of bounds (\<open>wrapped_swap\<close>).\<close>

fun mem_sort_loop :: "bytes_comparator \<Rightarrow> byte list \<Rightarrow> nat \<Rightarrow> nat \<Rightarrow> byte list res" where
  "mem_sort_loop cmp m sz 0 = Inl Out_Of_Bounds"
| "mem_sort_loop cmp m sz (Suc c) =
     (if 0 < c
      then bind_res (mem_swap m 0 (elem_addr c sz) sz) (\<lambda>m.
           bind_res (mem_heapify cmp c m sz 0) (\<lambda>m. mem_sort_loop cmp m sz c))
      else Inr m)"

definition mem_heap_sort :: "byte list \<Rightarrow> nat \<Rightarrow> nat \<Rightarrow> bytes_comparator \<Rightarrow> byte list res" where
  "mem_heap_sort dat n sz cmp =
     bind_res (mem_build_loop cmp n dat sz (nat (build_start n + 1))) (\<lambda>m. mem_sort_loop cmp m sz n)"

lemma wrapped_swap:
  assumes "0 < sz" and "sz < 2 ^ 64" and "length m < 2 ^ 64"
  shows "mem_swap m 0 (offset 0 (0 - 1) (of_nat sz)) sz = Inl Out_Of_Bounds"
proof -
  have "- (of_nat sz :: size_t) = of_nat (2 ^ 64 - sz)" using assms(2) by (simp add: of_nat_diff)
  then have "unat (- (of_nat sz :: size_t)) = 2 ^ 64 - sz" using assms(1) by (simp only: unat_of_nat) simp
  then have "\<not> unat (offset 0 (0 - 1) (of_nat sz) :: size_t) + sz \<le> length m"
    using assms by (simp add: offset_def)
  then show ?thesis
    using assms(1) by (cases "sz \<le> length m") (simp_all add: mem_swap_def)
qed

subsection \<open>Memory that holds an array\<close>

definition stores :: "nat \<Rightarrow> byte list \<Rightarrow> byte list list \<Rightarrow> bool" where
  "stores sz m t \<longleftrightarrow> 0 < sz \<and> length m = length t * sz \<and> length t * sz < 2 ^ 64 \<and>
     (\<forall>i < length t. slice m (i * sz) sz = t ! i)"

lemma elem_end:
  assumes "i < (n :: nat)"
  shows "i * sz + sz \<le> n * sz"
proof -
  have "Suc i * sz \<le> n * sz" using assms by (intro mult_le_mono1) simp
  then show ?thesis by simp
qed

lemma unat_elem_addr:
  assumes "stores sz m t" and "i < length t"
  shows "unat (elem_addr i sz) = i * sz"
proof -
  have "i * sz < 2 ^ 64" using assms elem_end[OF assms(2), of sz] by (simp add: stores_def)
  moreover have "elem_addr i sz = of_nat (i * sz)" by (simp add: elem_addr_def offset_def)
  ultimately show ?thesis by (simp only: unat_of_nat) simp
qed

lemma stores_read:
  assumes "stores sz m t" and "i < length t"
  shows "mem_read m (unat (elem_addr i sz)) sz = Inr (t ! i)"
  using assms elem_end[OF assms(2), of sz] by (simp add: unat_elem_addr[OF assms]) (simp add: stores_def)

lemma stores_elem_length: "stores sz m t \<Longrightarrow> i < length t \<Longrightarrow> length (t ! i) = sz"
  using elem_end[of i "length t" sz] unfolding stores_def by (metis length_slice)

lemma stores_write:
  assumes "stores sz m t" and "i < length t" and "length x = sz"
  shows "\<exists>m'. mem_write m (unat (elem_addr i sz)) x = Inr m' \<and> stores sz m' (t[i := x])"
proof -
  note e = elem_end[OF assms(2), of sz]
  have l: "i * sz + length x \<le> length m" using assms e by (simp add: stores_def)
  have "slice (overwrite m (i * sz) x) (k * sz) sz = (t[i := x]) ! k" if k: "k < length t" for k
  proof -
    consider "k = i" | "k < i" | "i < k" by linarith
    then show ?thesis
    proof cases
      case 2
      then show ?thesis
        using assms k l elem_end[of k i sz] by (simp add: slice_overwrite_below stores_def)
    next
      case 3
      then show ?thesis
        using assms k l elem_end[of i k sz] by (simp add: slice_overwrite_above stores_def)
    qed (use assms k l in simp)
  qed
  then show ?thesis
    using assms l by (simp add: unat_elem_addr[OF assms(1,2)] stores_def)
qed


subsection \<open>Running in step\<close>

text \<open>
  Two results are related when both are the same error, or both are values that are related: the
  library's \<open>rel_sum\<close>.
\<close>

abbreviation res_rel :: "('a \<Rightarrow> 'b \<Rightarrow> bool) \<Rightarrow> 'a res \<Rightarrow> 'b res \<Rightarrow> bool" where
  "res_rel \<equiv> rel_sum (=)"

lemma res_rel_bind:
  assumes "res_rel R a b" and "\<And>x y. a = Inr x \<Longrightarrow> R x y \<Longrightarrow> res_rel S (f x) (g y)"
  shows "res_rel S (bind_res a f) (bind_res b g)"
  using assms by (cases a; cases b) auto

lemma swap_in_step:
  assumes "stores sz m t" and "i < length t" and "j < length t"
  shows "res_rel (\<lambda>m t'. stores sz m t' \<and> length t' = length t)
     (mem_swap m (elem_addr i sz) (elem_addr j sz) sz) (heap_swap t i j)"
proof -
  have pos: "0 < sz" using assms(1) by (simp add: stores_def)
  obtain m' where m': "mem_write m (unat (elem_addr i sz)) (t ! j) = Inr m'" "stores sz m' (t[i := t ! j])"
    using stores_write[OF assms(1,2) stores_elem_length[OF assms(1,3)]] by blast
  obtain m'' where "mem_write m' (unat (elem_addr j sz)) (t ! i) = Inr m''" "stores sz m'' (t[i := t ! j, j := t ! i])"
    using stores_write[OF m'(2), of j "t ! i"] assms stores_elem_length[OF assms(1,2)] by auto
  then show ?thesis
    using pos assms m' by (simp add: mem_swap_def heap_swap_def stores_read)
qed

lemma pick_child_in_step:
  assumes "stores sz m t" and "n \<le> length t" and "i < length t"
  shows "mem_pick_child cmp n m sz i = pick_child cmp n t i"
proof -
  have "mem_child_before cmp n m sz k j = child_before cmp n t k j" if "j < length t" for k j
    using assms that by (simp add: mem_child_before_def child_before_def stores_read)
  moreover have "child_before cmp n t k j = Inr True \<Longrightarrow> k < length t" for k j
    using assms(2) by (auto simp: child_before_def split: if_splits)
  ultimately show ?thesis
    using assms(3) by (cases "child_before cmp n t (heap_left i) i") (auto simp: mem_pick_child_def pick_child_def Let_def)
qed

lemma heapify_in_step:
  "stores sz m t \<Longrightarrow> n \<le> length t \<Longrightarrow> i < length t \<Longrightarrow>
   res_rel (\<lambda>m t'. stores sz m t' \<and> length t' = length t) (mem_heapify cmp n m sz i) (heapify cmp n t i)"
proof (induction cmp n m sz i arbitrary: t rule: mem_heapify.induct)
  case (1 cmp n m sz i)
  show ?case
  proof (cases "pick_child cmp n t i")
    case (Inr j)
    then have p: "mem_pick_child cmp n m sz i = Inr j" using pick_child_in_step[OF 1(2-4)] by simp
    show ?thesis
    proof (cases "j = i")
      case False
      then have j: "j < length t" using pick_child_cases[OF Inr] 1(3) by auto
      have "res_rel (\<lambda>m t'. stores sz m t' \<and> length t' = length t)
          (bind_res (mem_swap m (elem_addr i sz) (elem_addr j sz) sz) (\<lambda>m. mem_heapify cmp n m sz j))
          (bind_res (heap_swap t i j) (\<lambda>t. heapify cmp n t j))"
      proof (rule res_rel_bind[OF swap_in_step[OF 1(2,4) j]])
        fix m' t' assume m': "mem_swap m (elem_addr i sz) (elem_addr j sz) sz = Inr m'"
          "stores sz m' t' \<and> length t' = length t"
        then show "res_rel (\<lambda>m t'. stores sz m t' \<and> length t' = length t) (mem_heapify cmp n m' sz j) (heapify cmp n t' j)"
          using 1(1)[OF p False m'(1), of t'] 1(3) j by simp
      qed
      then show ?thesis
        using p Inr False by (simp add: mem_heapify.simps[of cmp n m] heapify.simps[of cmp n t])
    qed (use p Inr 1(2) in \<open>simp add: mem_heapify.simps[of cmp n m] heapify.simps[of cmp n t]\<close>)
  qed (use pick_child_in_step[OF 1(2-4)] in \<open>simp add: mem_heapify.simps[of cmp n m] heapify.simps[of cmp n t]\<close>)
qed


lemma push_loop_in_step:
  "stores sz m t \<Longrightarrow> i < length t \<Longrightarrow>
   res_rel (\<lambda>m t'. stores sz m t' \<and> length t' = length t) (mem_push_loop cmp m sz i) (push_loop cmp t i)"
proof (induction cmp m sz i arbitrary: t rule: mem_push_loop.induct)
  case (1 cmp m sz i)
  show ?case
  proof (cases "i = 0")
    case False
    let ?p = "heap_parent i"
    have p: "?p < length t" using 1(3) by (simp add: heap_parent_def)
    have "res_rel (\<lambda>m t'. stores sz m t' \<and> length t' = length t)
        (bind_res (mem_swap m (elem_addr i sz) (elem_addr ?p sz) sz) (\<lambda>m. mem_push_loop cmp m sz ?p))
        (bind_res (heap_swap t i ?p) (\<lambda>t. push_loop cmp t ?p))" if "cmp (t ! i) (t ! ?p)"
    proof (rule res_rel_bind[OF swap_in_step[OF 1(2,3) p]])
      fix m' t' assume m': "mem_swap m (elem_addr i sz) (elem_addr ?p sz) sz = Inr m'"
        "stores sz m' t' \<and> length t' = length t"
      then show "res_rel (\<lambda>m t'. stores sz m t' \<and> length t' = length t) (mem_push_loop cmp m' sz ?p) (push_loop cmp t' ?p)"
        using 1(1)[OF False stores_read[OF 1(2,3)] stores_read[OF 1(2) p] that m'(1), of t'] p by simp
    qed
    then show ?thesis
      using False 1(2,3) p by (simp add: mem_push_loop.simps[of cmp m] push_loop.simps[of cmp t] stores_read)
  qed (use 1(2) in \<open>simp add: mem_push_loop.simps[of cmp m] push_loop.simps[of cmp t]\<close>)
qed

lemma build_loop_in_step:
  "stores sz m t \<Longrightarrow> n \<le> length t \<Longrightarrow> k \<le> length t \<Longrightarrow>
   res_rel (\<lambda>m t'. stores sz m t' \<and> length t' = length t) (mem_build_loop cmp n m sz k) (build_loop cmp n t k)"
proof (induction k arbitrary: m t)
  case (Suc k)
  have k: "k < length t" using Suc.prems(3) by simp
  show ?case
    unfolding mem_build_loop.simps build_loop.simps
  proof (rule res_rel_bind[OF heapify_in_step[OF Suc.prems(1,2) k]])
    fix m' t' assume "stores sz m' t' \<and> length t' = length t"
    then show "res_rel (\<lambda>m t'. stores sz m t' \<and> length t' = length t) (mem_build_loop cmp n m' sz k) (build_loop cmp n t' k)"
      using Suc.IH[of m' t'] Suc.prems(2) k by simp
  qed
qed simp

lemma sort_loop_in_step:
  "stores sz m t \<Longrightarrow> n \<le> length t \<Longrightarrow>
   res_rel (\<lambda>m t'. stores sz m t' \<and> length t' = length t) (mem_sort_loop cmp m sz n) (sort_loop cmp t n)"
proof (induction n arbitrary: m t)
  case (Suc c)
  let ?R = "\<lambda>m t'. stores sz m t' \<and> length t' = length t"
  show ?case
  proof (cases "0 < c")
    case True
    have c: "c < length t" "0 < length t" using Suc.prems(2) by auto
    have z: "elem_addr 0 sz = 0" by (simp add: elem_addr_def offset_def)
    have "res_rel ?R
        (bind_res (mem_swap m (elem_addr 0 sz) (elem_addr c sz) sz) (\<lambda>m.
           bind_res (mem_heapify cmp c m sz 0) (\<lambda>m. mem_sort_loop cmp m sz c)))
        (bind_res (heap_swap t 0 c) (\<lambda>t. bind_res (heapify cmp c t 0) (\<lambda>t. sort_loop cmp t c)))"
    proof (rule res_rel_bind[OF swap_in_step[OF Suc.prems(1) c(2,1)]])
      fix m' t' assume m': "stores sz m' t' \<and> length t' = length t"
      then have t': "stores sz m' t'" "c \<le> length t'" "0 < length t'" using c by auto
      show "res_rel ?R (bind_res (mem_heapify cmp c m' sz 0) (\<lambda>m. mem_sort_loop cmp m sz c))
          (bind_res (heapify cmp c t' 0) (\<lambda>t. sort_loop cmp t c))"
      proof (rule res_rel_bind[OF heapify_in_step[OF t']])
        fix m'' t'' assume "stores sz m'' t'' \<and> length t'' = length t'"
        then show "res_rel ?R (mem_sort_loop cmp m'' sz c) (sort_loop cmp t'' c)"
          using Suc.IH[of m'' t''] m' c by simp
      qed
    qed
    then show ?thesis using True by (simp add: z)
  qed (use Suc.prems in simp)
qed simp

text \<open>Heap sort on memory and on the array.\<close>

lemma heap_sort_in_step:
  assumes "stores sz m t" and "n \<le> length t" and "n < 2 ^ 32"
  shows "res_rel (\<lambda>m t'. stores sz m t' \<and> length t' = length t) (mem_heap_sort m n sz cmp) (heap_sort t n cmp)"
  unfolding mem_heap_sort_def heap_sort_def build_start_nat[OF assms(3)]
proof (rule res_rel_bind[OF build_loop_in_step[OF assms(1,2)]])
  show "n div 2 \<le> length t" using assms(2) by linarith
next
  fix m' t' assume "stores sz m' t' \<and> length t' = length t"
  then show "res_rel (\<lambda>m t'. stores sz m t' \<and> length t' = length t) (mem_sort_loop cmp m' sz n) (sort_loop cmp t' n)"
    using sort_loop_in_step[of sz m' t' n cmp] assms(2) by simp
qed

subsection \<open>Heaps\<close>

text \<open>A heap in memory and the heap of its elements.\<close>

definition heap_rel :: "mem_heap \<Rightarrow> byte list binary_heap \<Rightarrow> bool" where
  "heap_rel H h \<longleftrightarrow> stores (step_size h) (mem_tree H) (tree h) \<and> length (tree h) = capacity h \<and>
     count h \<le> capacity h \<and> mem_count H = count h \<and> mem_capacity H = capacity h \<and>
     mem_step_size H = step_size h \<and> mem_compare H = compare h"

lemma init_heap_rel:
  assumes "0 < sz" and "cap * sz < 2 ^ 64"
  shows "heap_rel (mem_init_heap cap sz cmp) (init_heap (replicate sz 0) cap sz cmp)"
proof -
  have "slice (replicate (cap * sz) (0 :: byte)) (i * sz) sz = replicate sz 0" if "i < cap" for i
    using elem_end[OF that, of sz] by (simp add: slice_def min_def)
  then show ?thesis
    using assms by (simp add: heap_rel_def mem_init_heap_def init_heap_def stores_def)
qed

lemma heap_push_in_step:
  assumes "heap_rel H h" and "length d = step_size h"
  shows "res_rel heap_rel (mem_heap_push H d) (heap_push h d)"
proof (cases "count h < capacity h")
  case True
  let ?sz = "step_size h" and ?i = "count h"
  have st: "stores ?sz (mem_tree H) (tree h)" and i: "?i < length (tree h)" using assms(1) True by (simp_all add: heap_rel_def)
  obtain m where m: "mem_write (mem_tree H) (unat (elem_addr ?i ?sz)) d = Inr m" "stores ?sz m ((tree h)[?i := d])"
    using stores_write[OF st i assms(2)] by blast
  have d: "mem_read d 0 ?sz = Inr d" using assms(2) by simp
  show ?thesis
  proof (cases "compare h")
    case None
    then show ?thesis
      using assms True i m d by (auto simp: heap_rel_def mem_heap_push_def heap_push_def Let_def)
  next
    case (Some cmp)
    have "?i < length ((tree h)[?i := d])" using i by simp
    note loop = push_loop_in_step[OF m(2) this, of cmp]
    show ?thesis
      using loop assms True i m(1) d Some
      by (cases "mem_push_loop cmp m ?sz ?i"; cases "push_loop cmp ((tree h)[?i := d]) ?i")
        (auto simp: heap_rel_def mem_heap_push_def heap_push_def Let_def)
  qed
qed (use assms in \<open>simp add: heap_rel_def mem_heap_push_def heap_push_def Let_def\<close>)

lemma heap_pop_in_step:
  assumes "heap_rel H h"
  shows "res_rel (rel_prod (=) heap_rel) (mem_heap_pop H) (heap_pop h)"
proof (cases "0 < count h")
  case True
  let ?sz = "step_size h" and ?n = "count h - 1"
  have st: "stores ?sz (mem_tree H) (tree h)" and i: "0 < length (tree h)" "?n < length (tree h)"
    using assms True by (auto simp: heap_rel_def)
  have z: "unat (elem_addr 0 ?sz) = 0" using unat_elem_addr[OF st i(1)] by simp
  note r = stores_read[OF st i(1), unfolded z] stores_read[OF st i(2)]
  obtain m where m: "mem_write (mem_tree H) 0 (tree h ! ?n) = Inr m" "stores ?sz m ((tree h)[0 := tree h ! ?n])"
    using stores_write[OF st i(1) stores_elem_length[OF st i(2)]] unfolding z by blast
  show ?thesis
  proof (cases "compare h")
    case None
    then show ?thesis
      using assms True i m r by (auto simp: heap_rel_def mem_heap_pop_def heap_pop_def Let_def)
  next
    case (Some cmp)
    have "?n \<le> length ((tree h)[0 := tree h ! ?n])" "0 < length ((tree h)[0 := tree h ! ?n])" using i by auto
    note loop = heapify_in_step[OF m(2) this, of cmp]
    show ?thesis
      using loop assms True i m(1) r Some
      by (cases "mem_heapify cmp ?n m ?sz 0"; cases "heapify cmp ?n ((tree h)[0 := tree h ! ?n]) 0")
        (auto simp: heap_rel_def mem_heap_pop_def heap_pop_def Let_def)
  qed
qed (use assms in \<open>simp add: heap_rel_def mem_heap_pop_def heap_pop_def Let_def\<close>)

text \<open>The elements of a block.\<close>

definition chunks :: "nat \<Rightarrow> nat \<Rightarrow> byte list \<Rightarrow> byte list list" where
  "chunks sz n m = map (\<lambda>i. slice m (i * sz) sz) [0 ..< n]"

lemma stores_chunks: "0 < sz \<Longrightarrow> length m = n * sz \<Longrightarrow> n * sz < 2 ^ 64 \<Longrightarrow> stores sz m (chunks sz n m)"
  by (simp add: stores_def chunks_def)

lemma chunks_stored: "stores sz m t \<Longrightarrow> chunks sz (length t) m = t"
  by (rule nth_equalityI) (simp_all add: chunks_def stores_def)

section \<open>Properties\<close>

text \<open>
  C27: The heap in memory and the heap of elements run in step: pushing, popping and sorting the
  bytes of a block end with the same error as the operation on the array of elements, or with a
  block that holds the array that the operation ends with; what is popped is the bytes of the
  element. A fresh heap in memory is a fresh heap of elements. No access leaves its block, no
  variable length array is empty, and no address wraps, as long as the block is smaller than the
  address space.
\<close>

theorem heap_memory_in_step:
  assumes "0 < sz" and "cap * sz < 2 ^ 64"
  shows "heap_rel (mem_init_heap cap sz cmp) (init_heap (replicate sz 0) cap sz cmp) \<and>
     (heap_rel H h \<longrightarrow> length d = step_size h \<longrightarrow> res_rel heap_rel (mem_heap_push H d) (heap_push h d)) \<and>
     (heap_rel H h \<longrightarrow> res_rel (rel_prod (=) heap_rel) (mem_heap_pop H) (heap_pop h)) \<and>
     (stores sz m t \<longrightarrow> n \<le> length t \<longrightarrow> n < 2 ^ 32 \<longrightarrow>
      res_rel (\<lambda>m t'. stores sz m t' \<and> length t' = length t) (mem_heap_sort m n sz cmp) (heap_sort t n cmp))"
  by (intro conjI impI init_heap_rel[OF assms] heap_push_in_step heap_pop_in_step heap_sort_in_step)

theorem heap_memory_in_step_witness:
  "let cmp = (\<lambda>x y. x ! 0 < y ! 0); H = mem_init_heap 2 2 cmp; h = init_heap [0, 0] 2 2 cmp in
     heap_rel H h \<and> res_rel heap_rel (mem_heap_push H [5, 6]) (heap_push h [5, 6]) \<and>
     res_rel (rel_prod (=) heap_rel) (mem_heap_pop H) (heap_pop h) \<and>
     res_rel (\<lambda>m t'. stores 2 m t' \<and> length t' = length [[1 :: byte, 2], [3, 4]]) (mem_heap_sort [1, 2, 3, 4] 2 2 cmp) (heap_sort [[1, 2], [3, 4]] 2 cmp)"
proof -
  let ?cmp = "\<lambda>x y :: byte list. x ! 0 < y ! 0"
  have r: "heap_rel (mem_init_heap 2 2 ?cmp) (init_heap (replicate 2 0) 2 2 ?cmp)" by (rule init_heap_rel) simp_all
  have two: "replicate 2 0 = [0, 0 :: byte]" by (simp add: numeral_2_eq_2)
  have st: "stores 2 [1, 2, 3, 4] [[1, 2], [3, 4]]" 
    by (simp add: stores_def slice_def All_less_Suc)
  have "step_size (init_heap [0, 0 :: byte] 2 2 c) = 2" for c by (simp add: init_heap_def)
  then show ?thesis
    using heap_memory_in_step[of 2 2 ?cmp "mem_init_heap 2 2 ?cmp" "init_heap [0, 0] 2 2 ?cmp" "[5, 6]"
        "[1, 2, 3, 4]" "[[1, 2], [3, 4]]" 2] r[unfolded two] st
    unfolding Let_def by (simp add: two init_heap_def)
qed

text \<open>
  C28: Heap sort on memory. For every comparator of elements that is a strict weak order,
  \<open>heap_sort\<close> on a block of \<open>n > 0\<close> elements of \<open>sz > 0\<close> bytes stays within the block and leaves the
  same elements in descending order.
\<close>

theorem heap_sort_memory:
  assumes "\<And>x y. cmp x y \<Longrightarrow> \<not> cmp y x" and "\<And>x y z. \<not> cmp x y \<Longrightarrow> \<not> cmp y z \<Longrightarrow> \<not> cmp x z"
    and "0 < sz" and "0 < n" and "n < 2 ^ 32" and "length m = n * sz" and "n * sz < 2 ^ 64"
  shows "\<exists>m'. mem_heap_sort m n sz cmp = Inr m' \<and> length m' = length m \<and>
     mset (chunks sz n m') = mset (chunks sz n m) \<and>
     sorted_wrt (\<lambda>x y. \<not> cmp x y) (chunks sz n m')"
proof -
  have "comparator cmp" using assms(1,2) by (rule comparator.intro)
  then obtain t where t: "heap_sort (chunks sz n m) n cmp = Inr t" "length t = n"
    "mset t = mset (chunks sz n m)" "\<forall>i j. i < j \<and> j < n \<longrightarrow> \<not> cmp (t ! i) (t ! j)"
    using comparator.heap_sort_ok[of cmp n "chunks sz n m"] assms(4,5) by (auto simp: chunks_def)
  obtain m' where m': "mem_heap_sort m n sz cmp = Inr m'" "stores sz m' t"
    using heap_sort_in_step[OF stores_chunks[OF assms(3,6,7)], of n cmp] assms(5) t(1)
    by (cases "mem_heap_sort m n sz cmp") (auto simp: chunks_def)
  have "chunks sz n m' = t" using chunks_stored[OF m'(2)] t(2) by simp
  moreover have "length m' = length m" using m'(2) t(2) assms(6) by (simp add: stores_def)
  moreover have "sorted_wrt (\<lambda>x y. \<not> cmp x y) t" using t(2,4) by (auto simp: sorted_wrt_iff_nth_less)
  ultimately show ?thesis using m'(1) t(3) by auto
qed

theorem heap_sort_memory_witness:
  "\<exists>m'. mem_heap_sort [3, 1, 2, 9, 7, 0] 3 2 (\<lambda>x y. x ! 0 < y ! 0) = Inr m' \<and> length m' = 6 \<and>
     mset (chunks 2 3 m') = {#[3, 1], [2, 9], [7, 0]#} \<and> sorted_wrt (\<lambda>x y. y ! 0 \<le> x ! 0) (chunks 2 3 m')"
proof -
  have c: "chunks 2 3 [3, 1, 2, 9, 7, 0 :: byte] = [[3, 1], [2, 9], [7, 0]]"
    by (simp add: chunks_def slice_def upt_rec)
  have "\<exists>m'. mem_heap_sort [3, 1, 2, 9, 7, 0] 3 2 (\<lambda>x y. x ! 0 < y ! 0) = Inr m' \<and>
     length m' = length [3, 1, 2, 9, 7, 0 :: byte] \<and>
     mset (chunks 2 3 m') = mset (chunks 2 3 [3, 1, 2, 9, 7, 0]) \<and>
     sorted_wrt (\<lambda>x y. \<not> x ! 0 < y ! 0) (chunks 2 3 m')"
    by (rule heap_sort_memory) simp_all
  moreover have "length [3, 1, 2, 9, 7, 0 :: byte] = 6" by simp
  ultimately show ?thesis by (simp only: c not_less mset.simps)
qed

end
