(* ===== verification/Dirwatch.thy ===== *)
theory Dirwatch imports Utils begin

text \<open>
  \<open>libdxwifi/details/dirwatch.h\<close> and \<open>dirwatch.c\<close>: the watch list, adding and removing
  directories, and the event loop. Pointers to \<open>strdup\<close>ed strings are null, live, or released
  but still stored; using a released one is the error \<open>Use_After_Free\<close>. \<open>inotify_add_watch\<close>
  and \<open>fnmatch\<close> are arguments, the events come as one \<open>dw_event\<close> per turn of the loop, and the
  user's callback acts on a state of any type.
\<close>

unbundle bit_operations_syntax

subsection \<open>Data\<close>

datatype string_ptr = Null | Live string | Freed

definition deref :: "string_ptr \<Rightarrow> string res" where
  "deref p = (case p of Null \<Rightarrow> Inl Null_Deref | Live s \<Rightarrow> Inr s | Freed \<Rightarrow> Inl Use_After_Free)"

text \<open>\<open>free\<close>: the pointer that is left behind.\<close>

definition free_ptr :: "string_ptr \<Rightarrow> string_ptr res" where
  "free_ptr p = (case p of Null \<Rightarrow> Inr Null | Live s \<Rightarrow> Inr Freed | Freed \<Rightarrow> Inl Use_After_Free)"

lemma deref_simps [simp]:
  "deref Null = Inl Null_Deref" "deref (Live s) = Inr s" "deref Freed = Inl Use_After_Free"
  by (simp_all add: deref_def)

lemma free_ptr_simps [simp]:
  "free_ptr Null = Inr Null" "free_ptr (Live s) = Inr Freed" "free_ptr Freed = Inl Use_After_Free"
  by (simp_all add: free_ptr_def)

definition DIRWATCH_MAX :: nat where "DIRWATCH_MAX = 256"

record watchdir =
  wd :: int
  wd_dirname :: string_ptr
  file_filter :: string_ptr
  watchfiles :: "string_ptr list"

record dirwatch =
  dw_fd :: int
  watchdirs :: "watchdir list"
  dw_listen :: bool

definition empty_watchdir :: watchdir where
  "empty_watchdir = \<lparr>wd = 0, wd_dirname = Null, file_filter = Null,
     watchfiles = replicate DIRWATCH_MAX Null\<rparr>"

text \<open>The flags of \<open>sys/inotify.h\<close> and the one of dirwatch.\<close>

definition IN_CREATE :: u32 where "IN_CREATE = 0x100"
definition IN_CLOSE_WRITE :: u32 where "IN_CLOSE_WRITE = 0x8"
definition IN_ISDIR :: u32 where "IN_ISDIR = 0x40000000"
definition IN_MASK_ADD :: u32 where "IN_MASK_ADD = 0x20000000"
definition DW_CREATE_AND_CLOSE :: u32 where "DW_CREATE_AND_CLOSE = 1"

lemmas inotify_defs = IN_CREATE_def IN_CLOSE_WRITE_def IN_ISDIR_def IN_MASK_ADD_def

subsection \<open>Searching\<close>

fun find_from :: "(watchdir \<Rightarrow> bool res) \<Rightarrow> nat \<Rightarrow> watchdir list \<Rightarrow> nat option res" where
  "find_from match i [] = Inr None"
| "find_from match i (w # ws) =
     bind_res (match w) (\<lambda>b. if b then Inr (Some i) else find_from match (Suc i) ws)"

definition find_watchdir :: "dirwatch \<Rightarrow> (watchdir \<Rightarrow> bool res) \<Rightarrow> nat option res" where
  "find_watchdir dw match = find_from match 0 (watchdirs dw)"

definition get_watchdir_idx :: "dirwatch \<Rightarrow> (watchdir \<Rightarrow> bool res) \<Rightarrow> int res" where
  "get_watchdir_idx dw match =
     bind_res (find_from match 0 (watchdirs dw)) (\<lambda>r. Inr (case r of None \<Rightarrow> -1 | Some i \<Rightarrow> int i))"

definition find_by_wd :: "int \<Rightarrow> watchdir \<Rightarrow> bool res" where
  "find_by_wd k w = Inr (wd w = k)"

definition find_by_dirname :: "string \<Rightarrow> watchdir \<Rightarrow> bool res" where
  "find_by_dirname name w =
     (if wd_dirname w = Null then Inr False
      else bind_res (deref (wd_dirname w)) (\<lambda>s. Inr (s = name)))"

definition get_inotify_mask :: "u32 \<Rightarrow> u32" where
  "get_inotify_mask events =
     (if events AND DW_CREATE_AND_CLOSE \<noteq> 0 then IN_CREATE OR IN_CLOSE_WRITE else 0)"

subsection \<open>Operations\<close>

definition dirwatch_init :: "int \<Rightarrow> dirwatch res" where
  "dirwatch_init fd =
     bind_res (guard_res (0 < fd) Aborted) (\<lambda>_.
     Inr \<lparr>dw_fd = fd, watchdirs = replicate DIRWATCH_MAX empty_watchdir, dw_listen = False\<rparr>)"

definition upd_watchdir :: "dirwatch \<Rightarrow> nat \<Rightarrow> (watchdir \<Rightarrow> watchdir) \<Rightarrow> dirwatch" where
  "upd_watchdir dw i f = dw\<lparr>watchdirs := (watchdirs dw)[i := f (watchdirs dw ! i)]\<rparr>"

text \<open>\<open>add_watch\<close> is \<open>inotify_add_watch\<close> on the descriptor: the answer for a directory and a mask.\<close>

definition dirwatch_add :: "(string \<Rightarrow> u32 \<Rightarrow> int) \<Rightarrow> dirwatch \<Rightarrow> string \<Rightarrow> string \<Rightarrow> u32 \<Rightarrow> bool \<Rightarrow>
    (int \<times> dirwatch) res" where
  "dirwatch_add add_watch dw dirname filt events clobber =
     (let msk = get_inotify_mask events OR (if clobber then 0 else IN_MASK_ADD) in
      bind_res (get_watchdir_idx dw (find_by_dirname dirname)) (\<lambda>idx.
      if 0 \<le> idx
      then let dw = upd_watchdir dw (nat idx) (\<lambda>w. w\<lparr>wd := add_watch dirname msk\<rparr>) in
           if clobber
           then bind_res (free_ptr (file_filter (watchdirs dw ! nat idx))) (\<lambda>_.
                Inr (idx, upd_watchdir dw (nat idx) (\<lambda>w. w\<lparr>file_filter := Live filt\<rparr>)))
           else Inr (idx, dw)
      else bind_res (get_watchdir_idx dw (find_by_wd 0)) (\<lambda>idx.
           if 0 \<le> idx
           then Inr (idx, upd_watchdir dw (nat idx) (\<lambda>w. w\<lparr>wd := add_watch dirname msk,
                  wd_dirname := Live dirname, file_filter := Live filt\<rparr>))
           else Inr (idx, dw))))"

fun free_all :: "string_ptr list \<Rightarrow> string_ptr list res" where
  "free_all [] = Inr []"
| "free_all (p # ps) =
     bind_res (if p \<noteq> Null then free_ptr p else Inr p) (\<lambda>p.
     bind_res (free_all ps) (\<lambda>ps. Inr (p # ps)))"

definition dirwatch_remove :: "dirwatch \<Rightarrow> nat \<Rightarrow> (bool \<times> dirwatch) res" where
  "dirwatch_remove dw index =
     (if index < DIRWATCH_MAX \<and> 0 < wd (watchdirs dw ! index)
      then let w = watchdirs dw ! index in
           bind_res (free_ptr (wd_dirname w)) (\<lambda>dn.
           bind_res (free_ptr (file_filter w)) (\<lambda>ff.
           bind_res (free_all (watchfiles w)) (\<lambda>wf.
           Inr (True, upd_watchdir dw index (\<lambda>w. w\<lparr>wd_dirname := dn, file_filter := ff,
                  watchfiles := wf, wd := 0\<rparr>)))))
      else Inr (False, dw))"

fun remove_from :: "dirwatch \<Rightarrow> nat list \<Rightarrow> dirwatch res" where
  "remove_from dw [] = Inr dw"
| "remove_from dw (i # is) = bind_res (dirwatch_remove dw i) (\<lambda>(_, dw). remove_from dw is)"

text \<open>\<open>dirwatch_close\<close>: the object as it is when it is released.\<close>

definition dirwatch_close :: "dirwatch \<Rightarrow> dirwatch res" where
  "dirwatch_close dw = remove_from dw [0 ..< DIRWATCH_MAX]"

definition dirwatch_stop :: "dirwatch \<Rightarrow> dirwatch" where
  "dirwatch_stop dw = dw\<lparr>dw_listen := False\<rparr>"

subsection \<open>Events\<close>

record inotify_event =
  ie_wd :: int
  ie_mask :: u32
  ie_name :: string

type_synonym 'w dirwatch_handler = "'w \<Rightarrow> string \<Rightarrow> string \<Rightarrow> 'w res"

text \<open>The loop that caches a created file's name has no exit: it fills every empty slot.\<close>

definition cache_name :: "string \<Rightarrow> string_ptr list \<Rightarrow> string_ptr list" where
  "cache_name name fs = map (\<lambda>p. if p = Null then Live name else p) fs"

text \<open>The search for a closed file: every slot up to the match is read.\<close>

fun close_file :: "'w dirwatch_handler \<Rightarrow> string_ptr \<Rightarrow> string \<Rightarrow> string_ptr list \<Rightarrow> 'w \<Rightarrow>
    (string_ptr list \<times> 'w) res" where
  "close_file h dn name [] w = Inr ([], w)"
| "close_file h dn name (p # ps) w =
     bind_res (deref p) (\<lambda>s.
     if name = s
     then bind_res (deref dn) (\<lambda>d.
          bind_res (h w d s) (\<lambda>w.
          bind_res (free_ptr p) (\<lambda>_. Inr (Null # ps, w))))
     else bind_res (close_file h dn name ps w) (\<lambda>(ps, w). Inr (p # ps, w)))"

definition on_create :: "(string \<Rightarrow> string \<Rightarrow> bool) \<Rightarrow> dirwatch \<Rightarrow> inotify_event \<Rightarrow> dirwatch res" where
  "on_create fnmatch dw e =
     (if ie_mask e AND IN_CREATE \<noteq> 0 \<and> ie_mask e AND IN_ISDIR = 0
      then bind_res (find_watchdir dw (find_by_wd (ie_wd e))) (\<lambda>r.
           case r of None \<Rightarrow> Inr dw
           | Some i \<Rightarrow> bind_res (deref (file_filter (watchdirs dw ! i))) (\<lambda>f.
               Inr (if fnmatch f (ie_name e)
                    then upd_watchdir dw i (\<lambda>w. w\<lparr>watchfiles := cache_name (ie_name e) (watchfiles w)\<rparr>)
                    else dw)))
      else Inr dw)"

definition on_close :: "'w dirwatch_handler \<Rightarrow> dirwatch \<Rightarrow> inotify_event \<Rightarrow> 'w \<Rightarrow> (dirwatch \<times> 'w) res" where
  "on_close h dw e w =
     (if ie_mask e AND IN_CLOSE_WRITE \<noteq> 0
      then bind_res (find_watchdir dw (find_by_wd (ie_wd e))) (\<lambda>r.
           case r of None \<Rightarrow> Inr (dw, w)
           | Some i \<Rightarrow> bind_res (close_file h (wd_dirname (watchdirs dw ! i)) (ie_name e)
                 (watchfiles (watchdirs dw ! i)) w) (\<lambda>(fs, w).
               Inr (upd_watchdir dw i (\<lambda>d. d\<lparr>watchfiles := fs\<rparr>), w)))
      else Inr (dw, w))"

fun process_events :: "(string \<Rightarrow> string \<Rightarrow> bool) \<Rightarrow> 'w dirwatch_handler \<Rightarrow> dirwatch \<Rightarrow>
    inotify_event list \<Rightarrow> 'w \<Rightarrow> (dirwatch \<times> 'w) res" where
  "process_events fnmatch h dw [] w = Inr (dw, w)"
| "process_events fnmatch h dw (e # es) w =
     bind_res (on_create fnmatch dw e) (\<lambda>dw.
     bind_res (on_close h dw e w) (\<lambda>(dw, w).
     process_events fnmatch h dw es w))"

record dw_event =
  de_stop_poll :: bool
  de_poll :: int
  de_events :: "inotify_event list"
  de_stop_after :: bool

definition dw_signal :: "bool \<Rightarrow> dirwatch \<Rightarrow> dirwatch" where
  "dw_signal b dw = (if b then dirwatch_stop dw else dw)"

definition dw_turn :: "(string \<Rightarrow> string \<Rightarrow> bool) \<Rightarrow> 'w dirwatch_handler \<Rightarrow> dirwatch \<Rightarrow> 'w \<Rightarrow>
    dw_event \<Rightarrow> (dirwatch \<times> 'w) res" where
  "dw_turn fnmatch h dw w e =
     (let dw = dw_signal (de_stop_poll e) dw in
      bind_res
        (if de_poll e = 0 then Inr (dw\<lparr>dw_listen := False\<rparr>, w)
         else if de_poll e < 0 then Inr (dw, w)
         else process_events fnmatch h dw (de_events e) w)
        (\<lambda>(dw, w). Inr (dw_signal (de_stop_after e) dw, w)))"

fun dw_loop :: "(string \<Rightarrow> string \<Rightarrow> bool) \<Rightarrow> 'w dirwatch_handler \<Rightarrow> dirwatch \<Rightarrow> 'w \<Rightarrow>
    dw_event list \<Rightarrow> (dirwatch \<times> 'w) res option" where
  "dw_loop fnmatch h dw w es =
     (if dw_listen dw
      then case es of [] \<Rightarrow> None
           | e # es \<Rightarrow> (case dw_turn fnmatch h dw w e of
                          Inl err \<Rightarrow> Some (Inl err)
                        | Inr (dw, w) \<Rightarrow> dw_loop fnmatch h dw w es)
      else Some (Inr (dw, w)))"

declare dw_loop.simps [simp del]

definition dirwatch_listen :: "(string \<Rightarrow> string \<Rightarrow> bool) \<Rightarrow> 'w dirwatch_handler \<Rightarrow> dirwatch \<Rightarrow>
    'w \<Rightarrow> dw_event list \<Rightarrow> (dirwatch \<times> 'w) res option" where
  "dirwatch_listen fnmatch h dw w es = dw_loop fnmatch h (dw\<lparr>dw_listen := True\<rparr>) w es"

subsection \<open>Lookups\<close>

lemma find_from_cong: "map m ws = map m' ws' \<Longrightarrow> find_from m i ws = find_from m' i ws'"
proof (induction ws arbitrary: i ws')
  case (Cons w ws)
  then obtain w' vs where "ws' = w' # vs" "m w = m' w'" "map m ws = map m' vs" by (cases ws') auto
  moreover from this have "find_from m (Suc i) ws = find_from m' (Suc i) vs" by (intro Cons.IH)
  ultimately show ?case by (simp del: list.map cong: if_cong)
qed simp

lemma find_from_bound: "find_from m i ws = Inr (Some k) \<Longrightarrow> i \<le> k \<and> k < i + length ws \<and> m (ws ! (k - i)) = Inr True"
proof (induction ws arbitrary: i)
  case (Cons w ws)
  from Cons.prems obtain b where b: "m w = Inr b" by (cases "m w") auto
  show ?case
  proof (cases b)
    case False
    then have "Suc i \<le> k \<and> k < Suc i + length ws \<and> m (ws ! (k - Suc i)) = Inr True"
      using Cons.IH[of "Suc i"] Cons.prems b by simp
    moreover from this have "k - i = Suc (k - Suc i)" by arith
    ultimately show ?thesis by simp
  qed (use Cons.prems b in auto)
qed simp

lemma find_wd_update:
  assumes "i < length (watchdirs dw)" and "\<And>w. wd (f w) = wd w"
  shows "find_watchdir (upd_watchdir dw i f) (find_by_wd k) = find_watchdir dw (find_by_wd k)"
proof -
  have "map (find_by_wd k) ((watchdirs dw)[i := f (watchdirs dw ! i)]) = map (find_by_wd k) (watchdirs dw)"
    using assms by (intro nth_equalityI) (auto simp: nth_list_update find_by_wd_def)
  then show ?thesis
    unfolding find_watchdir_def upd_watchdir_def by simp (rule find_from_cong)
qed

lemma watchdirs_upd [simp]:
  "length (watchdirs (upd_watchdir dw i f)) = length (watchdirs dw)"
  "i < length (watchdirs dw) \<Longrightarrow> watchdirs (upd_watchdir dw i f) ! i = f (watchdirs dw ! i)"
  by (simp_all add: upd_watchdir_def)


subsection \<open>Files created and closed\<close>

text \<open>A directory that is being watched under descriptor \<open>k\<close>, at index \<open>i\<close>.\<close>

definition watched :: "dirwatch \<Rightarrow> int \<Rightarrow> nat \<Rightarrow> string \<Rightarrow> string \<Rightarrow> bool" where
  "watched dw k i d f \<longleftrightarrow> find_watchdir dw (find_by_wd k) = Inr (Some i) \<and> i < length (watchdirs dw) \<and>
     wd_dirname (watchdirs dw ! i) = Live d \<and> file_filter (watchdirs dw ! i) = Live f"

lemma watched_files:
  "watched dw k i d f \<Longrightarrow> watched (upd_watchdir dw i (\<lambda>w. w\<lparr>watchfiles := fs\<rparr>)) k i d f"
  by (simp add: watched_def find_wd_update)

definition create_event :: "int \<Rightarrow> string \<Rightarrow> inotify_event" where
  "create_event k n = \<lparr>ie_wd = k, ie_mask = IN_CREATE, ie_name = n\<rparr>"
definition close_event :: "int \<Rightarrow> string \<Rightarrow> inotify_event" where
  "close_event k n = \<lparr>ie_wd = k, ie_mask = IN_CLOSE_WRITE, ie_name = n\<rparr>"

lemma create_only: "IN_CREATE AND IN_CLOSE_WRITE = 0" "IN_CREATE AND IN_ISDIR = 0"
  "IN_CREATE \<noteq> 0" "IN_CLOSE_WRITE AND IN_CREATE = 0" "IN_CLOSE_WRITE \<noteq> 0"
  by (simp_all add: inotify_defs)

definition files_of :: "dirwatch \<Rightarrow> nat \<Rightarrow> string_ptr list" where
  "files_of dw i = watchfiles (watchdirs dw ! i)"

definition set_files :: "dirwatch \<Rightarrow> nat \<Rightarrow> string_ptr list \<Rightarrow> dirwatch" where
  "set_files dw i fs = upd_watchdir dw i (\<lambda>w. w\<lparr>watchfiles := fs\<rparr>)"

lemma set_files_facts:
  assumes "watched dw k i d f"
  shows "watched (set_files dw i fs) k i d f" "files_of (set_files dw i fs) i = fs"
    "set_files (set_files dw i fs) i gs = set_files dw i gs"
  using assms watched_files[OF assms]
  by (simp_all add: set_files_def files_of_def watched_def upd_watchdir_def)

lemma process_create:
  assumes "watched dw k i d f"
  shows "process_events fnm h dw (create_event k n # es) w =
     process_events fnm h (if fnm f n then set_files dw i (cache_name n (files_of dw i)) else dw) es w"
  using assms
  by (simp add: on_create_def on_close_def create_event_def create_only watched_def set_files_def
      files_of_def upd_watchdir_def)

lemma process_close:
  assumes "watched dw k i d f"
  shows "process_events fnm h dw (close_event k n # es) w =
     bind_res (close_file h (Live d) n (files_of dw i) w) (\<lambda>(fs, w).
       process_events fnm h (set_files dw i fs) es w)"
  using assms
  by (cases "close_file h (Live d) n (files_of dw i) w")
    (auto simp: on_create_def on_close_def close_event_def create_only watched_def set_files_def files_of_def)

lemma create_close:
  assumes "watched dw k i d f" and "fnm f n" and "files_of dw i = Null # fs"
  shows "process_events fnm h dw (create_event k n # close_event k n # es) w =
     bind_res (h w d n) (\<lambda>w. process_events fnm h (set_files dw i (Null # cache_name n fs)) es w)"
proof -
  let ?dw = "set_files dw i (Live n # cache_name n fs)"
  note f = set_files_facts[OF assms(1)]
  have "process_events fnm h dw (create_event k n # close_event k n # es) w =
      process_events fnm h ?dw (close_event k n # es) w"
    unfolding process_create[OF assms(1)] using assms(2,3)
    by (simp add: cache_name_def del: process_events.simps)
  also have "\<dots> = bind_res (h w d n) (\<lambda>w. process_events fnm h (set_files dw i (Null # cache_name n fs)) es w)"
    unfolding process_close[OF f(1)] by (simp add: f bind_res_assoc)
  finally show ?thesis .
qed

lemma create_close_sequence:
  assumes "watched dw k i d f" and "files_of dw i = Null # fs" and "\<forall>n \<in> set names. fnm f n"
    and "\<And>w n. h w d n = Inr (g w n)"
  shows "\<exists>dw'. process_events fnm h dw (concat (map (\<lambda>n. [create_event k n, close_event k n]) names)) w =
     Inr (dw', fold (\<lambda>n w. g w n) names w) \<and> watched dw' k i d f \<and> (\<exists>fs'. files_of dw' i = Null # fs')"
  using assms(1-3)
proof (induction names arbitrary: dw fs w)
  case (Cons n names)
  note f = set_files_facts[OF Cons.prems(1)]
  have "\<exists>dw'. process_events fnm h (set_files dw i (Null # cache_name n fs))
       (concat (map (\<lambda>n. [create_event k n, close_event k n]) names)) (g w n) =
     Inr (dw', fold (\<lambda>n w. g w n) names (g w n)) \<and> watched dw' k i d f \<and> (\<exists>fs'. files_of dw' i = Null # fs')"
    using Cons.prems(3) by (intro Cons.IH[of _ "cache_name n fs"]) (simp_all add: f)
  then show ?case
    using create_close[OF Cons.prems(1) _ Cons.prems(2), of fnm n h] Cons.prems(3) assms(4) by simp
qed auto

lemma close_unknown:
  assumes "watched dw k i d f" and "files_of dw i = Null # fs"
  shows "process_events fnm h dw (close_event k n # es) w = Inl Null_Deref"
  unfolding process_close[OF assms(1)] using assms(2) by simp


subsection \<open>The watch list\<close>

lemma find_from_first:
  "(\<And>j. j < n \<Longrightarrow> m (ws ! j) = Inr False) \<Longrightarrow> n < length ws \<Longrightarrow> m (ws ! n) = Inr True \<Longrightarrow>
   find_from m i ws = Inr (Some (i + n))"
proof (induction ws arbitrary: n i)
  case (Cons w ws)
  show ?case
  proof (cases n)
    case (Suc k)
    have "m w = Inr False" using Cons.prems(1)[of 0] Suc by simp
    moreover have "find_from m (Suc i) ws = Inr (Some (Suc i + k))"
    proof (rule Cons.IH)
      show "m (ws ! j) = Inr False" if "j < k" for j using Cons.prems(1)[of "Suc j"] that Suc by simp
    qed (use Cons.prems Suc in simp_all)
    ultimately show ?thesis using Suc by simp
  qed (use Cons.prems in simp)
qed simp

lemma find_from_none:
  "(\<And>w. w \<in> set ws \<Longrightarrow> m w = Inr False) \<Longrightarrow> find_from m i ws = Inr None"
  by (induction ws arbitrary: i) simp_all

text \<open>Directories are added to the slots in turn.\<close>

definition holds :: "dirwatch \<Rightarrow> (string \<times> int) list \<Rightarrow> bool" where
  "holds dw ds \<longleftrightarrow> length (watchdirs dw) = DIRWATCH_MAX \<and> length ds \<le> DIRWATCH_MAX \<and>
     (\<forall>i < DIRWATCH_MAX. if i < length ds
        then wd_dirname (watchdirs dw ! i) = Live (fst (ds ! i)) \<and> wd (watchdirs dw ! i) = snd (ds ! i) \<and>
          snd (ds ! i) \<noteq> 0 \<and> (\<exists>f. file_filter (watchdirs dw ! i) = Live f)
        else watchdirs dw ! i = empty_watchdir)"

lemma holds_init: "dirwatch_init fd = Inr dw \<Longrightarrow> holds dw []"
  by (auto simp: dirwatch_init_def guard_res_def holds_def split: if_splits)

lemma idx_of_known:
  assumes "holds dw ds" and "i < length ds" and "distinct (map fst ds)" and "fst (ds ! i) = name"
  shows "get_watchdir_idx dw (find_by_dirname name) = Inr (int i)"
proof -
  have "find_from (find_by_dirname name) 0 (watchdirs dw) = Inr (Some (0 + i))"
  proof (rule find_from_first)
    fix j assume j: "j < i"
    then have "fst (ds ! j) \<noteq> name"
      using assms(2-4) by (auto simp: distinct_conv_nth)
    then show "find_by_dirname name (watchdirs dw ! j) = Inr False"
      using assms(1,2) j by (simp add: holds_def find_by_dirname_def)
  qed (use assms in \<open>auto simp: holds_def find_by_dirname_def\<close>)
  then show ?thesis by (simp add: get_watchdir_idx_def)
qed

lemma idx_of_unknown:
  assumes "holds dw ds" and "name \<notin> fst ` set ds"
  shows "get_watchdir_idx dw (find_by_dirname name) = Inr (- 1)"
proof -
  have "find_by_dirname name w = Inr False" if w: "w \<in> set (watchdirs dw)" for w
  proof -
    obtain j where j: "j < DIRWATCH_MAX" "w = watchdirs dw ! j"
      using w assms(1) by (auto simp: in_set_conv_nth holds_def)
    show ?thesis
    proof (cases "j < length ds")
      case True
      then have "fst (ds ! j) \<noteq> name" using assms(2) by (metis image_eqI nth_mem)
      then show ?thesis using assms(1) j True by (simp add: holds_def find_by_dirname_def)
    next
      case False
      then show ?thesis using assms(1) j by (simp add: holds_def find_by_dirname_def empty_watchdir_def)
    qed
  qed
  then show ?thesis by (simp add: get_watchdir_idx_def find_from_none)
qed

lemma idx_of_free:
  assumes "holds dw ds" and "length ds < DIRWATCH_MAX"
  shows "get_watchdir_idx dw (find_by_wd 0) = Inr (int (length ds))"
proof -
  have "find_from (find_by_wd 0) 0 (watchdirs dw) = Inr (Some (0 + length ds))"
    using assms by (intro find_from_first) (simp_all add: holds_def find_by_wd_def empty_watchdir_def)
  then show ?thesis by (simp add: get_watchdir_idx_def)
qed

lemma idx_none_free:
  assumes "holds dw ds" and "length ds = DIRWATCH_MAX"
  shows "get_watchdir_idx dw (find_by_wd 0) = Inr (- 1)"
proof -
  have "find_by_wd 0 w = Inr False" if "w \<in> set (watchdirs dw)" for w
    using that assms by (auto simp: in_set_conv_nth holds_def find_by_wd_def)
  then show ?thesis by (simp add: get_watchdir_idx_def find_from_none)
qed

definition watch_mask :: "u32 \<Rightarrow> bool \<Rightarrow> u32" where
  "watch_mask events clobber = get_inotify_mask events OR (if clobber then 0 else IN_MASK_ADD)"

lemma add_new:
  assumes "holds dw ds" and "length ds < DIRWATCH_MAX" and "name \<notin> fst ` set ds"
    and "add_watch name (watch_mask events clobber) \<noteq> 0"
  shows "\<exists>dw'. dirwatch_add add_watch dw name filt events clobber = Inr (int (length ds), dw') \<and>
     holds dw' (ds @ [(name, add_watch name (watch_mask events clobber))])"
proof -
  let ?f = "\<lambda>w. w\<lparr>wd := add_watch name (watch_mask events clobber), wd_dirname := Live name,
     file_filter := Live filt\<rparr>"
  have "dirwatch_add add_watch dw name filt events clobber = Inr (int (length ds), upd_watchdir dw (length ds) ?f)"
    using idx_of_unknown[OF assms(1,3)] idx_of_free[OF assms(1,2)]
    by (simp add: dirwatch_add_def watch_mask_def[symmetric] Let_def)
  moreover have "holds (upd_watchdir dw (length ds) ?f) (ds @ [(name, add_watch name (watch_mask events clobber))])"
    using assms by (auto simp: holds_def upd_watchdir_def nth_list_update nth_append)
  ultimately show ?thesis by blast
qed

lemma add_known:
  assumes "holds dw ds" and "i < length ds" and "distinct (map fst ds)" and "fst (ds ! i) = name"
    and "add_watch name (watch_mask events clobber) = snd (ds ! i)"
  shows "\<exists>dw'. dirwatch_add add_watch dw name filt events clobber = Inr (int i, dw') \<and> holds dw' ds \<and>
     (clobber \<longrightarrow> file_filter (watchdirs dw' ! i) = Live filt)"
proof -
  have i: "i < length (watchdirs dw)" using assms(1,2) by (simp add: holds_def)
  obtain f where f: "file_filter (watchdirs dw ! i) = Live f"
    using assms(1,2) unfolding holds_def by (metis order.strict_trans2)
  show ?thesis
    using idx_of_known[OF assms(1-4)] assms i f
    by (cases clobber)
      (auto simp: dirwatch_add_def watch_mask_def Let_def holds_def upd_watchdir_def nth_list_update)
qed

lemma find_from_error:
  "(\<And>j. j < n \<Longrightarrow> m (ws ! j) = Inr False) \<Longrightarrow> n < length ws \<Longrightarrow> m (ws ! n) = Inl e \<Longrightarrow>
   find_from m i ws = Inl e"
proof (induction ws arbitrary: n i)
  case (Cons w ws)
  show ?case
  proof (cases n)
    case (Suc k)
    have "m w = Inr False" using Cons.prems(1)[of 0] Suc by simp
    moreover have "find_from m (Suc i) ws = Inl e"
    proof (rule Cons.IH)
      show "m (ws ! j) = Inr False" if "j < k" for j using Cons.prems(1)[of "Suc j"] that Suc by simp
    qed (use Cons.prems Suc in simp_all)
    ultimately show ?thesis by simp
  qed (use Cons.prems in simp)
qed simp

lemma free_all_ok: "Freed \<notin> set ps \<Longrightarrow> \<exists>qs. free_all ps = Inr qs"
proof (induction ps)
  case (Cons p ps)
  then show ?case by (cases p) auto
qed simp

lemma remove_ok:
  assumes "holds dw ds" and "i < length ds" and "0 < snd (ds ! i)" and "Freed \<notin> set (files_of dw i)"
  shows "\<exists>dw'. dirwatch_remove dw i = Inr (True, dw') \<and> length (watchdirs dw') = DIRWATCH_MAX \<and>
     wd_dirname (watchdirs dw' ! i) = Freed \<and> (\<forall>j. j \<noteq> i \<longrightarrow> watchdirs dw' ! j = watchdirs dw ! j)"
proof -
  have i: "i < DIRWATCH_MAX" "i < length (watchdirs dw)" using assms(1,2) by (auto simp: holds_def)
  have w: "wd_dirname (watchdirs dw ! i) = Live (fst (ds ! i))" "wd (watchdirs dw ! i) = snd (ds ! i)"
    "\<exists>f. file_filter (watchdirs dw ! i) = Live f"
    using assms(1,2) i unfolding holds_def by metis+
  obtain f where f: "file_filter (watchdirs dw ! i) = Live f" using w(3) by blast
  obtain qs where "free_all (watchfiles (watchdirs dw ! i)) = Inr qs"
    using free_all_ok assms(4) unfolding files_of_def by blast
  then show ?thesis
    using w(1,2) f i assms(1,3) by (simp add: dirwatch_remove_def Let_def upd_watchdir_def holds_def)
qed

lemma dw_loop_timeout:
  "\<exists>e \<in> set es. de_poll e = 0 \<Longrightarrow> dw_loop fnm h dw w es \<noteq> None"
proof (induction es arbitrary: dw w)
  case (Cons e es)
  show ?case
  proof (cases "dw_listen dw")
    case True
    show ?thesis
    proof (cases "dw_turn fnm h dw w e")
      case (Inl err)
      then show ?thesis using True by (subst dw_loop.simps) simp
    next
      case (Inr r)
      obtain dw' w' where r: "r = (dw', w')" by (cases r)
      have step: "dw_loop fnm h dw w (e # es) = dw_loop fnm h dw' w' es"
        using True Inr r by (subst dw_loop.simps) simp
      show ?thesis
      proof (cases "de_poll e = 0")
        case t: True
        then have "\<not> dw_listen dw'"
          using Inr r by (auto simp: dw_turn_def Let_def dw_signal_def dirwatch_stop_def split: if_splits)
        then show ?thesis unfolding step by (subst dw_loop.simps) simp
      next
        case False
        then show ?thesis unfolding step using Cons by auto
      qed
    qed
  qed (subst dw_loop.simps, simp)
qed simp

section \<open>Properties\<close>

text \<open>
  The watch list. Adding a directory that is watched already returns its index and keeps
  the list; adding a new one takes the next free slot; a full list answers -1 and is unchanged.
\<close>

theorem watch_list_add:
  assumes "holds dw ds" and "distinct (map fst ds)"
    and "\<And>d m. 0 < add_watch d m" and "\<And>d m. (d, add_watch d m) \<in> set ds \<or> d \<notin> fst ` set ds"
  shows "(\<forall>i < length ds. fst (ds ! i) = name \<longrightarrow>
       (\<exists>dw'. dirwatch_add add_watch dw name filt events clobber = Inr (int i, dw') \<and> holds dw' ds)) \<and>
     (name \<notin> fst ` set ds \<longrightarrow> length ds < DIRWATCH_MAX \<longrightarrow>
       (\<exists>dw' k. dirwatch_add add_watch dw name filt events clobber = Inr (int (length ds), dw') \<and>
          holds dw' (ds @ [(name, k)]) \<and> 0 < k)) \<and>
     (name \<notin> fst ` set ds \<longrightarrow> length ds = DIRWATCH_MAX \<longrightarrow>
       dirwatch_add add_watch dw name filt events clobber = Inr (-1, dw))"
proof (intro conjI allI impI)
  fix i assume i: "i < length ds" "fst (ds ! i) = name"
  then have "(name, add_watch name (watch_mask events clobber)) \<in> set ds" using assms(4) by force
  then have "add_watch name (watch_mask events clobber) = snd (ds ! i)"
    using assms(2) i by (metis distinct_map fst_conv inj_onD nth_mem prod.collapse snd_conv)
  then show "\<exists>dw'. dirwatch_add add_watch dw name filt events clobber = Inr (int i, dw') \<and> holds dw' ds"
    using add_known[OF assms(1) i(1) assms(2) i(2)] by blast
next
  assume "name \<notin> fst ` set ds" "length ds < DIRWATCH_MAX"
  moreover have "add_watch name (watch_mask events clobber) \<noteq> 0"
    using assms(3)[of name "watch_mask events clobber"] by simp
  ultimately show "\<exists>dw' k. dirwatch_add add_watch dw name filt events clobber = Inr (int (length ds), dw') \<and>
      holds dw' (ds @ [(name, k)]) \<and> 0 < k"
    using add_new[OF assms(1)] assms(3) by blast
next
  assume "name \<notin> fst ` set ds" "length ds = DIRWATCH_MAX"
  then show "dirwatch_add add_watch dw name filt events clobber = Inr (-1, dw)"
    using idx_of_unknown[OF assms(1)] idx_none_free[OF assms(1)]
    by (simp add: dirwatch_add_def Let_def)
qed

definition sample_dw :: dirwatch where
  "sample_dw = \<lparr>dw_fd = 5, watchdirs = replicate DIRWATCH_MAX empty_watchdir, dw_listen = False\<rparr>"

lemma sample_dw_init: "dirwatch_init 5 = Inr sample_dw"
  by (simp add: dirwatch_init_def sample_dw_def)

theorem watch_list_add_witness:
  "\<exists>dw' k. dirwatch_add (\<lambda>d m. 1) sample_dw ''in'' ''*'' 1 True = Inr (0, dw') \<and>
     holds dw' [(''in'', k)] \<and> 0 < k"
  using watch_list_add[OF holds_init[OF sample_dw_init], of "\<lambda>d m. 1" "''in''" "''*''" 1 True]
  by (simp add: DIRWATCH_MAX_def)

text \<open>
  Files that are created and closed one after the other are each handed to the callback
  exactly once, in order, with the directory's name; the list is then ready for the next file.
\<close>

theorem created_files_delivered:
  assumes "watched dw k i d f" and "files_of dw i = Null # fs" and "\<forall>n \<in> set names. fnm f n"
  shows "\<exists>dw' fs'. process_events fnm (\<lambda>seen d n. Inr (seen @ [(d, n)])) dw
       (concat (map (\<lambda>n. [create_event k n, close_event k n]) names)) seen =
     Inr (dw', seen @ map (\<lambda>n. (d, n)) names) \<and> watched dw' k i d f \<and> files_of dw' i = Null # fs'"
proof -
  have "fold (\<lambda>n seen. seen @ [(d, n)]) names seen = seen @ map (\<lambda>n. (d, n)) names"
    by (induction names arbitrary: seen) simp_all
  then show ?thesis
    using create_close_sequence[OF assms(1,2), of names fnm "\<lambda>seen d n. Inr (seen @ [(d, n)])" "\<lambda>seen n. seen @ [(d, n)]" seen]
      assms(3)
    by auto
qed

definition watching_dw :: dirwatch where
  "watching_dw = upd_watchdir sample_dw 0 (\<lambda>w. w\<lparr>wd := 1, wd_dirname := Live ''in'', file_filter := Live ''*''\<rparr>)"

lemma watching_dw_facts:
  "watched watching_dw 1 0 ''in'' ''*''" "files_of watching_dw 0 = Null # replicate 255 Null"
proof -
  have m: "DIRWATCH_MAX = Suc 255" by (simp add: DIRWATCH_MAX_def)
  show "watched watching_dw 1 0 ''in'' ''*''"
    unfolding watching_dw_def sample_dw_def watched_def m
    by (simp only: replicate_Suc) (simp add: upd_watchdir_def find_watchdir_def find_by_wd_def)
  have "watchdirs sample_dw = empty_watchdir # replicate 255 empty_watchdir"
    unfolding sample_dw_def m by (simp only: replicate_Suc dirwatch.simps)
  moreover have "watchfiles empty_watchdir = Null # replicate 255 Null"
    unfolding empty_watchdir_def m by (simp only: replicate_Suc watchdir.simps)
  ultimately show "files_of watching_dw 0 = Null # replicate 255 Null"
    by (simp add: watching_dw_def files_of_def upd_watchdir_def)
qed

theorem created_files_delivered_witness:
  "\<exists>dw' fs'. process_events (\<lambda>f n. True) (\<lambda>seen d n. Inr (seen @ [(d, n)])) watching_dw
       [create_event 1 ''a'', close_event 1 ''a'', create_event 1 ''b'', close_event 1 ''b''] [] =
     Inr (dw', [(''in'', ''a''), (''in'', ''b'')]) \<and> watched dw' 1 0 ''in'' ''*'' \<and> files_of dw' 0 = Null # fs'"
  using created_files_delivered[OF watching_dw_facts, of "[''a'', ''b'']" "\<lambda>f n. True" "[]"]
  by (simp del: process_events.simps)

text \<open>
  Closing a file that was not cached when its turn came (it existed before, does not match
  the filter, or was created before another cached file was closed) dereferences a null pointer,
  because the search compares the name with empty slots too.
\<close>

theorem unknown_close_crashes:
  assumes "watched dw k i d f" and "files_of dw i = Null # fs"
  shows "process_events fnm h dw (close_event k n # es) w = Inl Null_Deref \<and>
     (\<not> fnm f n \<longrightarrow> process_events fnm h dw (create_event k n # close_event k n # es) w = Inl Null_Deref) \<and>
     (fnm f a \<longrightarrow> fnm f n \<longrightarrow> (\<forall>w. \<exists>w'. h w d a = Inr w') \<longrightarrow>
       process_events fnm h dw (create_event k a # create_event k n # close_event k a # close_event k n # es) w
         = Inl Null_Deref)"
proof (intro conjI impI)
  note s = set_files_facts[OF assms(1)]
  show "process_events fnm h dw (close_event k n # es) w = Inl Null_Deref" by (rule close_unknown[OF assms])
  show "process_events fnm h dw (create_event k n # close_event k n # es) w = Inl Null_Deref" if "\<not> fnm f n"
    unfolding process_create[OF assms(1)] using that close_unknown[OF assms] by simp
  assume a: "fnm f a" "fnm f n" and h: "\<forall>w. \<exists>w'. h w d a = Inr w'"
  obtain w' where w': "h w d a = Inr w'" using h by blast
  let ?fs = "Live a # cache_name a fs"
  have c: "cache_name n ?fs = ?fs" by (auto simp: cache_name_def)
  have "process_events fnm h dw (create_event k a # create_event k n # close_event k a # close_event k n # es) w =
      process_events fnm h (set_files dw i ?fs) (create_event k n # close_event k a # close_event k n # es) w"
    unfolding process_create[OF assms(1)] using a(1) assms(2)
    by (simp add: cache_name_def del: process_events.simps)
  also have "\<dots> = process_events fnm h (set_files dw i ?fs) (close_event k a # close_event k n # es) w"
    unfolding process_create[OF s(1)] using a(2) by (simp add: s c del: process_events.simps)
  also have "\<dots> = process_events fnm h (set_files dw i (Null # cache_name a fs)) (close_event k n # es) w'"
    by (subst process_close[OF s(1)]) (simp add: s w' del: process_events.simps)
  also have "\<dots> = Inl Null_Deref" by (rule close_unknown[OF s(1)]) (rule s(2))
  finally show "process_events fnm h dw
      (create_event k a # create_event k n # close_event k a # close_event k n # es) w = Inl Null_Deref" .
qed

theorem unknown_close_crashes_witness:
  "process_events (\<lambda>f n. True) (\<lambda>w d n. Inr ()) watching_dw [close_event 1 ''a''] () = Inl Null_Deref"
  using unknown_close_crashes[OF watching_dw_facts, of "\<lambda>f n. True" "\<lambda>w d n. Inr ()" "''a''" "[]" "()" "''b''"]
  by blast

text \<open>
  Removing a watched directory releases its strings but keeps the pointers: the next
  directory that is added is compared with the released name.
\<close>

theorem removed_directory_dangles:
  assumes "holds dw ds" and "i < length ds" and "0 < snd (ds ! i)" and "Freed \<notin> set (files_of dw i)"
    and "name \<notin> fst ` set ds"
  shows "\<exists>dw'. dirwatch_remove dw i = Inr (True, dw') \<and>
     dirwatch_add add_watch dw' name filt events clobber = Inl Use_After_Free"
proof -
  obtain dw' where r: "dirwatch_remove dw i = Inr (True, dw')" "length (watchdirs dw') = DIRWATCH_MAX"
    "wd_dirname (watchdirs dw' ! i) = Freed" "\<forall>j. j \<noteq> i \<longrightarrow> watchdirs dw' ! j = watchdirs dw ! j"
    using remove_ok[OF assms(1-4)] by blast
  have i: "i < DIRWATCH_MAX" using assms(1,2) by (simp add: holds_def)
  have "find_from (find_by_dirname name) 0 (watchdirs dw') = Inl Use_After_Free"
  proof (rule find_from_error)
    fix j assume j: "j < i"
    then have "fst (ds ! j) \<noteq> name" using assms(2,5) by (metis image_eqI nth_mem order.strict_trans)
    moreover have "wd_dirname (watchdirs dw ! j) = Live (fst (ds ! j))"
      using assms(1,2) i j unfolding holds_def by (metis order.strict_trans)
    ultimately show "find_by_dirname name (watchdirs dw' ! j) = Inr False"
      using r(4) j by (simp add: find_by_dirname_def)
  qed (use r i in \<open>simp_all add: find_by_dirname_def\<close>)
  then show ?thesis using r(1) by (simp add: dirwatch_add_def get_watchdir_idx_def Let_def)
qed

lemma watching_dw_holds: "holds watching_dw [(''in'', 1)]"
  by (auto simp: watching_dw_def sample_dw_def holds_def upd_watchdir_def DIRWATCH_MAX_def nth_list_update)

theorem removed_directory_dangles_witness:
  "\<exists>dw'. dirwatch_remove watching_dw 0 = Inr (True, dw') \<and>
     dirwatch_add (\<lambda>d m. 2) dw' ''out'' ''*'' 1 True = Inl Use_After_Free"
  using removed_directory_dangles[OF watching_dw_holds, of 0 "''out''" "\<lambda>d m. 2" "''*''" 1 True]
  by (simp add: watching_dw_facts)

text \<open>
  A timeout of \<open>poll\<close> ends the listener: it returns, or fails in a callback before that.
\<close>

theorem listen_timeout:
  assumes "\<exists>e \<in> set es. de_poll e = 0"
  shows "dirwatch_listen fnm h dw w es \<noteq> None"
  unfolding dirwatch_listen_def using assms by (rule dw_loop_timeout)

theorem listen_timeout_witness:
  "dirwatch_listen (\<lambda>f n. True) (\<lambda>w d n. Inr w) sample_dw ()
     [\<lparr>de_stop_poll = False, de_poll = 0, de_events = [], de_stop_after = False\<rparr>] \<noteq> None"
  by (rule listen_timeout) simp

end
