(* ===== verification/InotifyBuffer.thy ===== *)
theory InotifyBuffer imports Dirwatch begin

text \<open>
  The loop of \<open>dirwatch_listen\<close> on the bytes that \<open>read\<close> puts into \<open>event_buffer\<close>: records of
  \<open>struct inotify_event\<close>, each followed by its name, which is padded with zeros to a length that
  the record tells. The records overlay the buffer, a name is a string somewhere in it, and
  what an earlier \<open>read\<close> left behind the last record stays there. The result is related to the
  loop of \<open>Dirwatch\<close> on the decoded events.
\<close>

unbundle bit_operations_syntax

subsection \<open>Records in memory\<close>

definition INOTIFY_EVENT_SIZE :: nat where "INOTIFY_EVENT_SIZE = 16"
definition NAME_MAX :: nat where "NAME_MAX = 255"
definition EVENT_BUFFSIZE :: nat where "EVENT_BUFFSIZE = (INOTIFY_EVENT_SIZE + NAME_MAX + 1) * 32"

text \<open>A string in memory ends at the first zero.\<close>

fun c_string :: "byte list \<Rightarrow> string res" where
  "c_string [] = Inl Out_Of_Bounds"
| "c_string (b # bs) =
     (if b = 0 then Inr [] else bind_res (c_string bs) (\<lambda>s. Inr (char_of (unat b) # s)))"

definition event_name :: "byte list \<Rightarrow> nat \<Rightarrow> string res" where
  "event_name buf next = c_string (drop (next + INOTIFY_EVENT_SIZE) buf)"

definition mem_on_create :: "(string \<Rightarrow> string \<Rightarrow> bool) \<Rightarrow> dirwatch \<Rightarrow> int \<Rightarrow> u32 \<Rightarrow> string res \<Rightarrow> dirwatch res" where
  "mem_on_create fnmatch dw k msk name =
     (if msk AND IN_CREATE \<noteq> 0 \<and> msk AND IN_ISDIR = 0
      then bind_res (find_watchdir dw (find_by_wd k)) (\<lambda>r.
           case r of None \<Rightarrow> Inr dw
           | Some i \<Rightarrow> bind_res (deref (file_filter (watchdirs dw ! i))) (\<lambda>f. bind_res name (\<lambda>name.
               Inr (if fnmatch f name
                    then upd_watchdir dw i (\<lambda>w. w\<lparr>watchfiles := cache_name name (watchfiles w)\<rparr>)
                    else dw))))
      else Inr dw)"

definition mem_on_close :: "'w dirwatch_handler \<Rightarrow> dirwatch \<Rightarrow> int \<Rightarrow> u32 \<Rightarrow> string res \<Rightarrow> 'w \<Rightarrow>
    (dirwatch \<times> 'w) res" where
  "mem_on_close h dw k msk name w =
     (if msk AND IN_CLOSE_WRITE \<noteq> 0
      then bind_res (find_watchdir dw (find_by_wd k)) (\<lambda>r.
           case r of None \<Rightarrow> Inr (dw, w)
           | Some i \<Rightarrow> bind_res name (\<lambda>name.
               bind_res (close_file h (wd_dirname (watchdirs dw ! i)) name (watchfiles (watchdirs dw ! i)) w) (\<lambda>(fs, w).
               Inr (upd_watchdir dw i (\<lambda>d. d\<lparr>watchfiles := fs\<rparr>), w))))
      else Inr (dw, w))"

text \<open>
  \<open>while(next < nbytes)\<close>: the fields \<open>wd\<close>, \<open>mask\<close> and \<open>len\<close> lie at 0, 4 and 12 of the record.
  Every turn passes at least a record, so the loop ends whatever the bytes are.
\<close>

function mem_process_events :: "(string \<Rightarrow> string \<Rightarrow> bool) \<Rightarrow> 'w dirwatch_handler \<Rightarrow> dirwatch \<Rightarrow>
    byte list \<Rightarrow> int \<Rightarrow> nat \<Rightarrow> 'w \<Rightarrow> (dirwatch \<times> 'w) res" where
  "mem_process_events fnmatch h dw buf nbytes next w =
     (if int next < nbytes
      then bind_res (mem_read buf next INOTIFY_EVENT_SIZE) (\<lambda>hdr.
           let k = sint (le32_of (slice hdr 0 4)); msk = le32_of (slice hdr 4 4);
               len = le32_of (slice hdr 12 4) in
           bind_res (mem_on_create fnmatch dw k msk (event_name buf next)) (\<lambda>dw.
           bind_res (mem_on_close h dw k msk (event_name buf next) w) (\<lambda>(dw, w).
           mem_process_events fnmatch h dw buf nbytes (next + (INOTIFY_EVENT_SIZE + unat len)) w)))
      else Inr (dw, w))"
  by pat_completeness auto
termination
  by (relation "measure (\<lambda>(fnm, h, dw, buf, nbytes, next, w). nat (nbytes - int next))")
    (auto simp: INOTIFY_EVENT_SIZE_def intro: less_le_trans[of "- 16" 0])

declare mem_process_events.simps [simp del]

text \<open>
  One turn as the environment sees it: \<open>read\<close> answers with bytes, or fails (\<open>None\<close>). The buffer
  keeps what \<open>read\<close> does not overwrite.
\<close>

record mem_dw_event =
  me_stop_poll :: bool
  me_poll :: int
  me_read :: "byte list option"
  me_stop_after :: bool

definition read_events :: "byte list \<Rightarrow> byte list option \<Rightarrow> byte list \<times> int" where
  "read_events buf r =
     (case r of None \<Rightarrow> (buf, -1)
      | Some bs \<Rightarrow> (let bs = take EVENT_BUFFSIZE bs in (overwrite buf 0 bs, int (length bs))))"

definition mem_dw_turn :: "(string \<Rightarrow> string \<Rightarrow> bool) \<Rightarrow> 'w dirwatch_handler \<Rightarrow> dirwatch \<Rightarrow> byte list \<Rightarrow> 'w \<Rightarrow>
    mem_dw_event \<Rightarrow> (dirwatch \<times> byte list \<times> 'w) res" where
  "mem_dw_turn fnmatch h dw buf w e =
     (let dw = dw_signal (me_stop_poll e) dw in
      bind_res
        (if me_poll e = 0 then Inr (dw\<lparr>dw_listen := False\<rparr>, buf, w)
         else if me_poll e < 0 then Inr (dw, buf, w)
         else let (buf, nbytes) = read_events buf (me_read e) in
              bind_res (mem_process_events fnmatch h dw buf nbytes 0 w) (\<lambda>(dw, w). Inr (dw, buf, w)))
        (\<lambda>(dw, buf, w). Inr (dw_signal (me_stop_after e) dw, buf, w)))"

fun mem_dw_loop :: "(string \<Rightarrow> string \<Rightarrow> bool) \<Rightarrow> 'w dirwatch_handler \<Rightarrow> dirwatch \<Rightarrow> byte list \<Rightarrow> 'w \<Rightarrow>
    mem_dw_event list \<Rightarrow> (dirwatch \<times> 'w) res option" where
  "mem_dw_loop fnmatch h dw buf w es =
     (if dw_listen dw
      then case es of [] \<Rightarrow> None
           | e # es \<Rightarrow> (case mem_dw_turn fnmatch h dw buf w e of
                          Inl err \<Rightarrow> Some (Inl err)
                        | Inr (dw, buf, w) \<Rightarrow> mem_dw_loop fnmatch h dw buf w es)
      else Some (Inr (dw, w)))"

declare mem_dw_loop.simps [simp del]

text \<open>\<open>buf\<close> is what the array holds before anything is read into it.\<close>

definition mem_dirwatch_listen :: "(string \<Rightarrow> string \<Rightarrow> bool) \<Rightarrow> 'w dirwatch_handler \<Rightarrow> dirwatch \<Rightarrow> byte list \<Rightarrow>
    'w \<Rightarrow> mem_dw_event list \<Rightarrow> (dirwatch \<times> 'w) res option" where
  "mem_dirwatch_listen fnmatch h dw buf w es = mem_dw_loop fnmatch h (dw\<lparr>dw_listen := True\<rparr>) buf w es"

subsection \<open>What the kernel writes\<close>

text \<open>
  A record for an event: the name and \<open>pad\<close> zeros, or neither for an event of the watched
  directory itself, which is neither a creation nor a closed file. A name has no zero in it and
  at most \<open>NAME_MAX\<close> characters.
\<close>

definition byte_of_char :: "char \<Rightarrow> byte" where
  "byte_of_char c = of_nat (of_char c)"

definition encode_event :: "inotify_event \<Rightarrow> u32 \<Rightarrow> nat \<Rightarrow> byte list" where
  "encode_event e cookie pad =
     le32_bytes (word_of_int (ie_wd e)) @ le32_bytes (ie_mask e) @ le32_bytes cookie @
     le32_bytes (of_nat (length (ie_name e) + pad)) @ map byte_of_char (ie_name e) @ replicate pad 0"

definition kernel_event :: "inotify_event \<Rightarrow> nat \<Rightarrow> bool" where
  "kernel_event e pad \<longleftrightarrow> fits_int (ie_wd e) \<and> length (ie_name e) \<le> NAME_MAX \<and> pad \<le> NAME_MAX + 1 \<and>
     CHR 0x00 \<notin> set (ie_name e) \<and>
     (pad = 0 \<longrightarrow> ie_name e = [] \<and> ie_mask e AND IN_CREATE = 0 \<and> ie_mask e AND IN_CLOSE_WRITE = 0)"

inductive kernel_events :: "inotify_event list \<Rightarrow> byte list \<Rightarrow> bool" where
  none: "kernel_events [] []"
| more: "kernel_event e pad \<Longrightarrow> kernel_events es bs \<Longrightarrow> kernel_events (e # es) (encode_event e cookie pad @ bs)"

lemma of_char_zero: "(of_char c :: nat) = 0 \<longleftrightarrow> c = CHR 0x00"
  by (cases c) auto

lemma unat_byte_of_char: "unat (byte_of_char c) = of_char c"
  using nat_of_char_less_256[of c] by (simp add: byte_of_char_def unat_of_nat)

lemma byte_of_char_back [simp]: "char_of (unat (byte_of_char c)) = c"
  by (simp add: unat_byte_of_char)

lemma byte_of_char_zero [simp]: "byte_of_char c = 0 \<longleftrightarrow> c = CHR 0x00"
  by (metis of_char_zero unat_byte_of_char unat_eq_zero)

lemma c_string_name:
  assumes "CHR 0x00 \<notin> set n" and "0 < pad"
  shows "c_string (map byte_of_char n @ replicate pad 0 @ rest) = Inr n"
  using assms by (induction n) (cases pad; auto)+

lemma sint_word_of_fits: "fits_int k \<Longrightarrow> sint (word_of_int k :: u32) = k"
  by (simp add: signed_of_int signed_take_bit_int_eq_self fits_int_def INT_MIN_def INT_MAX_def)

definition record_header :: "inotify_event \<Rightarrow> u32 \<Rightarrow> nat \<Rightarrow> byte list" where
  "record_header e cookie pad = le32_bytes (word_of_int (ie_wd e)) @ le32_bytes (ie_mask e) @
     le32_bytes cookie @ le32_bytes (of_nat (length (ie_name e) + pad))"

lemma length_record_header [simp]: "length (record_header e cookie pad) = INOTIFY_EVENT_SIZE"
  by (simp add: record_header_def INOTIFY_EVENT_SIZE_def)

lemma encode_event_parts:
  "encode_event e cookie pad = record_header e cookie pad @ map byte_of_char (ie_name e) @ replicate pad 0"
  by (simp add: encode_event_def record_header_def)

lemma length_encode_event: "length (encode_event e cookie pad) = INOTIFY_EVENT_SIZE + (length (ie_name e) + pad)"
  by (simp add: encode_event_parts)

lemma header_fields:
  assumes "kernel_event e pad"
  shows "sint (le32_of (slice (record_header e cookie pad) 0 4)) = ie_wd e"
    and "le32_of (slice (record_header e cookie pad) 4 4) = ie_mask e"
    and "unat (le32_of (slice (record_header e cookie pad) 12 4)) = length (ie_name e) + pad"
proof -
  have p: "slice (record_header e cookie pad) 0 4 = le32_bytes (word_of_int (ie_wd e))"
    "slice (record_header e cookie pad) 4 4 = le32_bytes (ie_mask e)"
    "slice (record_header e cookie pad) 12 4 = le32_bytes (of_nat (length (ie_name e) + pad))"
    by (simp_all add: record_header_def slice_def)
  have "length (ie_name e) + pad < 2 ^ 32" using assms by (simp add: kernel_event_def NAME_MAX_def)
  then have "unat (of_nat (length (ie_name e) + pad) :: u32) = length (ie_name e) + pad"
    by (simp only: unat_of_nat) simp
  then show "sint (le32_of (slice (record_header e cookie pad) 0 4)) = ie_wd e"
    "le32_of (slice (record_header e cookie pad) 4 4) = ie_mask e"
    "unat (le32_of (slice (record_header e cookie pad) 12 4)) = length (ie_name e) + pad"
    using assms by (simp_all only: p le32_roundtrip) (simp add: kernel_event_def sint_word_of_fits)
qed

lemma on_create_from_memory:
  "kernel_event e pad \<Longrightarrow> (0 < pad \<Longrightarrow> name = Inr (ie_name e)) \<Longrightarrow>
   mem_on_create fnm dw (ie_wd e) (ie_mask e) name = on_create fnm dw e"
  by (cases "pad = 0") (auto simp: mem_on_create_def on_create_def kernel_event_def intro!: bind_res_cong split: option.splits)

lemma on_close_from_memory:
  "kernel_event e pad \<Longrightarrow> (0 < pad \<Longrightarrow> name = Inr (ie_name e)) \<Longrightarrow>
   mem_on_close h dw (ie_wd e) (ie_mask e) name w = on_close h dw e w"
  by (cases "pad = 0") (auto simp: mem_on_close_def on_close_def kernel_event_def intro!: bind_res_cong split: option.splits)

lemma process_record:
  assumes "kernel_event e pad" and "next < nbytes" and "buf = pre @ encode_event e cookie pad @ post"
    and "next = int (length pre)"
  shows "mem_process_events fnm h dw buf nbytes (length pre) w =
     bind_res (on_create fnm dw e) (\<lambda>dw. bind_res (on_close h dw e w) (\<lambda>(dw, w).
       mem_process_events fnm h dw buf nbytes (length (pre @ encode_event e cookie pad)) w))"
proof -
  let ?h = "record_header e cookie pad"
  have hdr: "mem_read buf (length pre) INOTIFY_EVENT_SIZE = Inr ?h"
    by (simp add: assms(3) encode_event_parts slice_def)
  have name: "event_name buf (length pre) = Inr (ie_name e)" if "0 < pad"
    using c_string_name[OF _ that, of "ie_name e"] assms(1)
    by (simp add: event_name_def assms(3) encode_event_parts kernel_event_def)
  show ?thesis
    using assms(2,4)
    by (subst mem_process_events.simps)
      (simp add: hdr Let_def header_fields[OF assms(1)] on_create_from_memory[OF assms(1) name]
        on_close_from_memory[OF assms(1) name] length_encode_event split_beta)
qed

lemma process_records:
  assumes "kernel_events es bs" and "buf = pre @ bs @ post" and "nbytes = int (length (pre @ bs))"
  shows "mem_process_events fnm h dw buf nbytes (length pre) w = process_events fnm h dw es w"
  using assms
proof (induction es bs arbitrary: pre dw w)
  case none
  then show ?case by (subst mem_process_events.simps) simp
next
  case (more e pad es bs cookie)
  have more_pos: "int (length pre) < nbytes"
    using more.prems by (simp add: length_encode_event INOTIFY_EVENT_SIZE_def)
  have buf: "buf = pre @ encode_event e cookie pad @ (bs @ post)" using more.prems by simp
  have rest: "mem_process_events fnm h dw buf nbytes (length (pre @ encode_event e cookie pad)) w = process_events fnm h dw es w"
    for dw w using more.prems by (intro more.IH) simp_all
  show ?case
    unfolding process_record[OF more.hyps(1) more_pos buf refl] rest by simp
qed

subsection \<open>The listener\<close>

text \<open>A turn on bytes and the turn on the events they stand for; \<open>read\<close> may also fail.\<close>

definition decodes :: "mem_dw_event \<Rightarrow> dw_event \<Rightarrow> bool" where
  "decodes m e \<longleftrightarrow> me_stop_poll m = de_stop_poll e \<and> me_poll m = de_poll e \<and> me_stop_after m = de_stop_after e \<and>
     (case me_read m of None \<Rightarrow> de_events e = []
      | Some bs \<Rightarrow> kernel_events (de_events e) bs \<and> length bs \<le> EVENT_BUFFSIZE)"

lemma turn_decoded:
  assumes "decodes m e" and "length buf = EVENT_BUFFSIZE"
  shows "\<exists>buf'. length buf' = EVENT_BUFFSIZE \<and>
     mem_dw_turn fnm h dw buf w m = bind_res (dw_turn fnm h dw w e) (\<lambda>(dw, w). Inr (dw, buf', w))"
proof (cases "0 < me_poll m")
  case True
  let ?dw = "dw_signal (me_stop_poll m) dw"
  obtain buf' nbytes where r: "read_events buf (me_read m) = (buf', nbytes)" by fastforce
  have "length buf' = EVENT_BUFFSIZE \<and>
      mem_process_events fnm h ?dw buf' nbytes 0 w = process_events fnm h ?dw (de_events e) w"
  proof (cases "me_read m")
    case None
    then show ?thesis
      using r assms by (subst mem_process_events.simps) (auto simp: read_events_def decodes_def)
  next
    case (Some bs)
    then have bs: "kernel_events (de_events e) bs" "length bs \<le> EVENT_BUFFSIZE" "buf' = bs @ drop (length bs) buf"
      "nbytes = int (length bs)"
      using r assms by (auto simp: read_events_def decodes_def overwrite_def)
    show ?thesis
      using process_records[OF bs(1), of buf' "[]" "drop (length bs) buf" nbytes fnm h ?dw w] bs assms(2) by simp
  qed
  then show ?thesis
    using assms(1) True r
    by (intro exI[of _ buf']) (auto simp: mem_dw_turn_def dw_turn_def decodes_def Let_def bind_res_assoc split_beta)
next
  case False
  then show ?thesis
    using assms by (intro exI[of _ buf]) (auto simp: mem_dw_turn_def dw_turn_def decodes_def Let_def)
qed

lemma loop_decoded:
  "list_all2 decodes ms es \<Longrightarrow> length buf = EVENT_BUFFSIZE \<Longrightarrow>
   mem_dw_loop fnm h dw buf w ms = dw_loop fnm h dw w es"
proof (induction ms es arbitrary: dw buf w rule: list_all2_induct)
  case Nil
  show ?case by (subst mem_dw_loop.simps, subst dw_loop.simps) simp
next
  case (Cons m ms e es)
  obtain buf' where "length buf' = EVENT_BUFFSIZE" and
    t: "mem_dw_turn fnm h dw buf w m = bind_res (dw_turn fnm h dw w e) (\<lambda>(dw, w). Inr (dw, buf', w))"
    using turn_decoded[OF Cons.hyps(1) Cons.prems, of fnm h dw w] by blast
  then have "mem_dw_loop fnm h dw buf' w ms = dw_loop fnm h dw w es" for dw w using Cons.IH by blast
  then show ?case
    by (subst mem_dw_loop.simps, subst dw_loop.simps) (cases "dw_turn fnm h dw w e", simp_all add: t split_beta)
qed

section \<open>Properties\<close>

text \<open>The listener sets its flag on entry, and a request that was there before is gone.\<close>

lemma early_watcher_request_lost: "dirwatch_listen fnm h (dirwatch_stop dw) w es = dirwatch_listen fnm h dw w es"
  by (simp add: dirwatch_listen_def dirwatch_stop_def)

text \<open>
  C20: The listener on bytes. Whatever the buffer holds at first, if each \<open>read\<close> fails or delivers
  records as inotify documents them (whole records that fit into the buffer, names padded with
  zeros), the listener does exactly what it does for the events that the records stand for: the same
  calls of the callback, the same list afterwards, the same errors, and it waits exactly when that
  does. No name and no field is read outside the buffer or from an earlier \<open>read\<close>.
\<close>

theorem listener_reads_records:
  assumes "list_all2 decodes ms es" and "length buf = EVENT_BUFFSIZE"
  shows "mem_dirwatch_listen fnm h dw buf w ms = dirwatch_listen fnm h dw w es"
  unfolding mem_dirwatch_listen_def dirwatch_listen_def using assms by (rule loop_decoded)

text \<open>A file \<open>a\<close> is created and closed, in two reads; the second follows the rest of the first.\<close>

theorem listener_reads_records_witness:
  "mem_dirwatch_listen (\<lambda>f n. True) (\<lambda>seen d n. Inr (seen @ [(d, n)])) watching_dw (replicate EVENT_BUFFSIZE 7) []
     [\<lparr>me_stop_poll = False, me_poll = 1, me_read = Some (encode_event (create_event 1 ''a'') 0 15), me_stop_after = False\<rparr>,
      \<lparr>me_stop_poll = False, me_poll = 1, me_read = Some (encode_event (close_event 1 ''a'') 0 15), me_stop_after = True\<rparr>] =
   dirwatch_listen (\<lambda>f n. True) (\<lambda>seen d n. Inr (seen @ [(d, n)])) watching_dw []
     [\<lparr>de_stop_poll = False, de_poll = 1, de_events = [create_event 1 ''a''], de_stop_after = False\<rparr>,
      \<lparr>de_stop_poll = False, de_poll = 1, de_events = [close_event 1 ''a''], de_stop_after = True\<rparr>]"
proof -
  have k: "kernel_events [e] (encode_event e 0 15)" if "kernel_event e 15" for e
    using kernel_events.more[OF that kernel_events.none, of 0] by simp
  have "kernel_event (create_event 1 ''a'') 15" "kernel_event (close_event 1 ''a'') 15"
    by (simp_all add: kernel_event_def create_event_def close_event_def fits_int_def INT_MIN_def INT_MAX_def NAME_MAX_def)
  note k[OF this(1)] k[OF this(2)]
  moreover have "length (encode_event e 0 15) \<le> EVENT_BUFFSIZE" if "length (ie_name e) = 1" for e
    using that by (simp add: length_encode_event EVENT_BUFFSIZE_def INOTIFY_EVENT_SIZE_def NAME_MAX_def)
  ultimately show ?thesis
    by (intro listener_reads_records) (simp_all add: decodes_def create_event_def close_event_def)
qed

end
