(* ===== verification/DirwatchSafety.thy ===== *)
theory DirwatchSafety imports Dirwatch begin

text \<open>
  The life of a watcher: directories are added, events come in any order, the watcher is closed.
  What is shown here is that the ownership of its strings is kept throughout: every slot is
  either unused or owns a directory name, a filter and cached file names none of which is
  released, and closing releases each exactly once.
\<close>

text \<open>Any callback that goes from one state of the world to the next.\<close>

lemma create_close_run:
  assumes "watched dw k i d f" and "files_of dw i = Null # fs" and "\<forall>n \<in> set names. fnm f n" and "P names w"
    and step: "\<And>n ns w. P (n # ns) w \<Longrightarrow> \<exists>w'. h w d n = Inr w' \<and> P ns w'"
  shows "\<exists>w' gs. process_events fnm h dw (concat (map (\<lambda>n. [create_event k n, close_event k n]) names)) w =
     Inr (set_files dw i (Null # gs), w') \<and> P [] w' \<and> (Freed \<notin> set fs \<longrightarrow> Freed \<notin> set gs)"
  using assms(1-4)
proof (induction names arbitrary: dw fs w)
  case Nil
  have "set_files dw i (Null # fs) = dw"
    using Nil.prems(1,2) by (simp add: set_files_def upd_watchdir_def files_of_def watched_def list_update_same_conv)
  then show ?case using Nil by (intro exI[of _ w] exI[of _ fs]) simp
next
  case (Cons n names)
  note f = set_files_facts[OF Cons.prems(1)]
  obtain w1 where w1: "h w d n = Inr w1" "P names w1" using step Cons.prems(4) by blast
  obtain w' gs where w': "process_events fnm h (set_files dw i (Null # cache_name n fs))
       (concat (map (\<lambda>n. [create_event k n, close_event k n]) names)) w1 =
     Inr (set_files dw i (Null # gs), w')" "P [] w'" "Freed \<notin> set (cache_name n fs) \<longrightarrow> Freed \<notin> set gs"
    using Cons.IH[of "set_files dw i (Null # cache_name n fs)" "cache_name n fs" w1] Cons.prems(3) w1(2) f by auto
  have "Freed \<notin> set fs \<Longrightarrow> Freed \<notin> set (cache_name n fs)" by (auto simp: cache_name_def)
  then show ?case
    using create_close[OF Cons.prems(1) _ Cons.prems(2), of fnm n h] Cons.prems(3) w1(1) w' by auto
qed

lemma process_events_append:
  "process_events fnm h dw (es @ es') w =
   bind_res (process_events fnm h dw es w) (\<lambda>(dw, w). process_events fnm h dw es' w)"
  by (induction es arbitrary: dw w) (simp_all add: bind_res_assoc split_beta case_prod_unfold)

text \<open>How the events are spread over the turns of the loop does not matter.\<close>

definition busy_turn :: "dw_event \<Rightarrow> bool" where
  "busy_turn e \<longleftrightarrow> 0 < de_poll e \<and> \<not> de_stop_poll e \<and> \<not> de_stop_after e"

lemma on_create_listen: "on_create fnm dw e = Inr dw' \<Longrightarrow> dw_listen dw' = dw_listen dw"
  by (auto simp: on_create_def upd_watchdir_def bind_res_eq_Inr split: if_splits option.splits)

lemma on_close_listen: "on_close h dw e w = Inr (dw', w') \<Longrightarrow> dw_listen dw' = dw_listen dw"
  by (auto simp: on_close_def upd_watchdir_def bind_res_eq_Inr split: if_splits option.splits)

lemma process_events_listen: "process_events fnm h dw es w = Inr (dw', w') \<Longrightarrow> dw_listen dw' = dw_listen dw"
  by (induction es arbitrary: dw w) (auto simp: bind_res_eq_Inr dest!: on_create_listen on_close_listen)

lemma dw_loop_busy:
  assumes "\<forall>e \<in> set es. busy_turn e" and "dw_listen dw"
  shows "dw_loop fnm h dw w (es @ rest) =
     (case process_events fnm h dw (concat (map de_events es)) w of
        Inl err \<Rightarrow> Some (Inl err) | Inr (dw', w') \<Rightarrow> dw_loop fnm h dw' w' rest)"
  using assms
proof (induction es arbitrary: dw w)
  case (Cons e es)
  have turn: "dw_turn fnm h dw w e = process_events fnm h dw (de_events e) w"
    using Cons.prems(1) by (simp add: dw_turn_def busy_turn_def dw_signal_def split_beta bind_res_def split: sum.split)
  show ?case
  proof (cases "process_events fnm h dw (de_events e) w")
    case (Inl err)
    then show ?thesis using Cons.prems(2) turn
      by (simp add: dw_loop.simps[of _ _ dw] process_events_append)
  next
    case (Inr r)
    obtain dw1 w1 where r: "r = (dw1, w1)" by (cases r)
    have "dw_listen dw1" using process_events_listen Inr r Cons.prems(2) by metis
    then show ?thesis using Cons turn Inr r
      by (simp add: dw_loop.simps[of _ _ dw] process_events_append)
  qed
qed simp

text \<open>Slots that closing has to release, and slots that are released.\<close>

definition pointers :: "watchdir \<Rightarrow> string_ptr set" where
  "pointers w = {wd_dirname w, file_filter w} \<union> set (watchfiles w)"

definition releasable :: "watchdir \<Rightarrow> bool" where
  "releasable w \<longleftrightarrow> 0 < wd w \<and> Freed \<notin> pointers w"

definition released :: "watchdir \<Rightarrow> bool" where
  "released w \<longleftrightarrow> wd w = 0 \<and> (\<forall>s. Live s \<notin> pointers w)"

lemma free_ptr_ok: "p \<noteq> Freed \<Longrightarrow> \<exists>q. free_ptr p = Inr q \<and> (\<forall>s. q \<noteq> Live s)"
  by (cases p) simp_all

lemma free_all_releases: "Freed \<notin> set ps \<Longrightarrow> \<exists>qs. free_all ps = Inr qs \<and> (\<forall>s. Live s \<notin> set qs)"
proof (induction ps)
  case (Cons p ps)
  then show ?case by (cases p) auto
qed simp

lemma remove_releases:
  assumes "length (watchdirs dw) = DIRWATCH_MAX" and "i < DIRWATCH_MAX" and "releasable (watchdirs dw ! i)"
  shows "\<exists>w. dirwatch_remove dw i = Inr (True, upd_watchdir dw i (\<lambda>_. w)) \<and> released w"
proof -
  let ?w = "watchdirs dw ! i"
  obtain dn ff wf where "free_ptr (wd_dirname ?w) = Inr dn" "free_ptr (file_filter ?w) = Inr ff"
    "free_all (watchfiles ?w) = Inr wf" and dead: "\<forall>s. dn \<noteq> Live s \<and> ff \<noteq> Live s \<and> Live s \<notin> set wf"
    using assms(3) free_ptr_ok[of "wd_dirname ?w"] free_ptr_ok[of "file_filter ?w"] free_all_releases[of "watchfiles ?w"]
    by (auto simp: releasable_def pointers_def)
  then have "dirwatch_remove dw i = Inr (True, upd_watchdir dw i (\<lambda>_. ?w\<lparr>wd_dirname := dn, file_filter := ff,
      watchfiles := wf, wd := 0\<rparr>))"
    using assms by (simp add: dirwatch_remove_def releasable_def Let_def upd_watchdir_def)
  moreover have "released (?w\<lparr>wd_dirname := dn, file_filter := ff, watchfiles := wf, wd := 0\<rparr>)"
    using dead by (auto simp: released_def pointers_def)
  ultimately show ?thesis by blast
qed

lemma remove_from_releases:
  assumes "length (watchdirs dw) = DIRWATCH_MAX" and "\<forall>i \<in> set is. i < DIRWATCH_MAX"
    and "\<forall>i < DIRWATCH_MAX. releasable (watchdirs dw ! i) \<or> released (watchdirs dw ! i)"
  shows "\<exists>dw'. remove_from dw is = Inr dw' \<and> length (watchdirs dw') = DIRWATCH_MAX \<and>
     (\<forall>i < DIRWATCH_MAX. if i \<in> set is then released (watchdirs dw' ! i)
        else watchdirs dw' ! i = watchdirs dw ! i)"
  using assms
proof (induction "is" arbitrary: dw)
  case (Cons i "is")
  have i: "i < DIRWATCH_MAX" using Cons.prems(2) by simp
  obtain b dw1 where dw1: "dirwatch_remove dw i = Inr (b, dw1)" "length (watchdirs dw1) = DIRWATCH_MAX"
    "released (watchdirs dw1 ! i)" "\<forall>j. j \<noteq> i \<longrightarrow> watchdirs dw1 ! j = watchdirs dw ! j"
  proof (cases "releasable (watchdirs dw ! i)")
    case True
    then obtain w where "dirwatch_remove dw i = Inr (True, upd_watchdir dw i (\<lambda>_. w))" "released w"
      using remove_releases[OF Cons.prems(1) i] by blast
    then show thesis using Cons.prems(1) i
      by (intro that[of True "upd_watchdir dw i (\<lambda>_. w)"]) (simp_all add: upd_watchdir_def)
  next
    case False
    then have r: "released (watchdirs dw ! i)" using Cons.prems(3) i by blast
    then have "dirwatch_remove dw i = Inr (False, dw)" by (simp add: dirwatch_remove_def released_def)
    then show thesis using Cons.prems(1) r by (intro that[of False dw]) simp_all
  qed
  obtain dw' where "remove_from dw1 is = Inr dw'" "length (watchdirs dw') = DIRWATCH_MAX"
     "\<forall>j < DIRWATCH_MAX. if j \<in> set is then released (watchdirs dw' ! j) else watchdirs dw' ! j = watchdirs dw1 ! j"
    using Cons.IH[OF dw1(2)] Cons.prems dw1 by (metis list.set_intros(2))
  moreover from this have "released (watchdirs dw' ! i)" using dw1(3) i by (cases "i \<in> set is") auto
  ultimately show ?case using dw1 by (intro exI[of _ dw']) auto
qed auto

lemma close_releases:
  assumes "length (watchdirs dw) = DIRWATCH_MAX"
    and "\<forall>w \<in> set (watchdirs dw). releasable w \<or> released w"
  shows "\<exists>dw'. dirwatch_close dw = Inr dw' \<and> (\<forall>w \<in> set (watchdirs dw'). released w)"
proof -
  have "\<forall>i < DIRWATCH_MAX. releasable (watchdirs dw ! i) \<or> released (watchdirs dw ! i)"
    using assms by simp
  from remove_from_releases[OF assms(1) _ this, of "[0 ..< DIRWATCH_MAX]"]
  obtain dw' where "dirwatch_close dw = Inr dw'" "length (watchdirs dw') = DIRWATCH_MAX"
    "\<forall>i < DIRWATCH_MAX. released (watchdirs dw' ! i)"
    by (auto simp: dirwatch_close_def)
  then show ?thesis by (auto simp: in_set_conv_nth)
qed

subsection \<open>The invariant\<close>

definition slot_ok :: "watchdir \<Rightarrow> bool" where
  "slot_ok w \<longleftrightarrow>
     (0 < wd w \<and> (\<exists>d. wd_dirname w = Live d) \<and> (\<exists>f. file_filter w = Live f) \<and> Freed \<notin> set (watchfiles w)) \<or>
     (wd w = 0 \<and> wd_dirname w = Null \<and> file_filter w = Null \<and> set (watchfiles w) \<subseteq> {Null})"

definition dw_wf :: "dirwatch \<Rightarrow> bool" where
  "dw_wf dw \<longleftrightarrow> length (watchdirs dw) = DIRWATCH_MAX \<and> (\<forall>w \<in> set (watchdirs dw). slot_ok w)"

lemma slot_ok_release: "slot_ok w \<Longrightarrow> releasable w \<or> released w"
  by (auto simp: slot_ok_def releasable_def released_def pointers_def)

lemma close_wf: "dw_wf dw \<Longrightarrow> \<exists>dw'. dirwatch_close dw = Inr dw' \<and> (\<forall>w \<in> set (watchdirs dw'). released w)"
  using close_releases slot_ok_release by (simp add: dw_wf_def)

lemma wf_upd:
  assumes "dw_wf dw" and "i < DIRWATCH_MAX" and "slot_ok (f (watchdirs dw ! i))"
  shows "dw_wf (upd_watchdir dw i f)"
  using assms by (auto simp: dw_wf_def upd_watchdir_def dest!: set_update_subset_insert[THEN subsetD])

lemma wf_slot: "dw_wf dw \<Longrightarrow> i < DIRWATCH_MAX \<Longrightarrow> slot_ok (watchdirs dw ! i)"
  by (simp add: dw_wf_def)

lemma init_wf: "0 < fd \<Longrightarrow> \<exists>dw. dirwatch_init fd = Inr dw \<and> dw_wf dw"
  by (simp add: dirwatch_init_def dw_wf_def slot_ok_def empty_watchdir_def)

lemma find_from_total:
  "\<forall>w \<in> set ws. \<exists>b. m w = Inr b \<Longrightarrow> \<exists>r. find_from m i ws = Inr r"
proof (induction ws arbitrary: i)
  case (Cons w ws)
  then obtain b where "m w = Inr b" by auto
  then show ?case using Cons by (cases b) simp_all
qed simp

lemma get_idx_total:
  assumes "dw_wf dw" and "\<forall>w \<in> set (watchdirs dw). \<exists>b. m w = Inr b"
  obtains "get_watchdir_idx dw m = Inr (-1)"
  | i where "get_watchdir_idx dw m = Inr (int i)" "i < DIRWATCH_MAX" "m (watchdirs dw ! i) = Inr True"
proof -
  obtain r where r: "find_from m 0 (watchdirs dw) = Inr r" using find_from_total[OF assms(2)] by blast
  show thesis
  proof (cases r)
    case None
    then show ?thesis using r that(1) by (simp add: get_watchdir_idx_def)
  next
    case (Some i)
    then show ?thesis using r that(2)[of i] find_from_bound[of m 0 "watchdirs dw" i] assms(1)
      by (simp add: get_watchdir_idx_def dw_wf_def)
  qed
qed

lemma find_by_dirname_total: "slot_ok w \<Longrightarrow> \<exists>b. find_by_dirname n w = Inr b"
  by (auto simp: slot_ok_def find_by_dirname_def)

lemma add_wf:
  assumes "dw_wf dw" and "\<And>d m. 0 < add_watch d m"
  shows "\<exists>i dw'. dirwatch_add add_watch dw name filt events clobber = Inr (i, dw') \<and> dw_wf dw'"
proof -
  let ?new = "add_watch name (watch_mask events clobber)"
  have names: "\<forall>w \<in> set (watchdirs dw). \<exists>b. find_by_dirname name w = Inr b"
    using assms(1) find_by_dirname_total by (simp add: dw_wf_def)
  have len: "length (watchdirs dw) = DIRWATCH_MAX" using assms(1) by (simp add: dw_wf_def)
  from assms(1) names show ?thesis
  proof (cases rule: get_idx_total)
    case 1
    have "\<forall>w \<in> set (watchdirs dw). \<exists>b. find_by_wd 0 w = Inr b" by (simp add: find_by_wd_def)
    with assms(1) show ?thesis
    proof (cases rule: get_idx_total)
      case 1
      then show ?thesis
        using \<open>get_watchdir_idx dw (find_by_dirname name) = Inr (-1)\<close> assms(1)
        by (simp add: dirwatch_add_def Let_def)
    next
      case (2 i)
      have "slot_ok (watchdirs dw ! i)" by (rule wf_slot[OF assms(1) 2(2)])
      then have "dw_wf (upd_watchdir dw i (\<lambda>w. w\<lparr>wd := ?new, wd_dirname := Live name, file_filter := Live filt\<rparr>))"
        using assms 2(3) by (intro wf_upd[OF assms(1) 2(2)]) (auto simp: slot_ok_def find_by_wd_def)
      then show ?thesis
        using \<open>get_watchdir_idx dw (find_by_dirname name) = Inr (-1)\<close> 2(1)
        by (simp add: dirwatch_add_def Let_def watch_mask_def)
    qed
  next
    case (2 i)
    have s: "slot_ok (watchdirs dw ! i)" by (rule wf_slot[OF assms(1) 2(2)])
    then obtain f where f: "file_filter (watchdirs dw ! i) = Live f" "Freed \<notin> set (watchfiles (watchdirs dw ! i))"
      "\<exists>d. wd_dirname (watchdirs dw ! i) = Live d"
      using 2(3) by (auto simp: slot_ok_def find_by_dirname_def)
    have a: "dw_wf (upd_watchdir dw i (\<lambda>w. w\<lparr>wd := ?new\<rparr>))"
      using f assms(2) by (intro wf_upd[OF assms(1) 2(2)]) (simp add: slot_ok_def)
    moreover have "dw_wf (upd_watchdir (upd_watchdir dw i (\<lambda>w. w\<lparr>wd := ?new\<rparr>)) i (\<lambda>w. w\<lparr>file_filter := Live filt\<rparr>))"
      using f assms(2) 2(2) len by (intro wf_upd[OF a 2(2)]) (simp add: slot_ok_def)
    ultimately show ?thesis
      using 2(1,2) f len by (cases clobber) (simp_all add: dirwatch_add_def Let_def watch_mask_def)
  qed
qed

lemma cache_name_no_freed: "Freed \<in> set (cache_name n fs) \<longleftrightarrow> Freed \<in> set fs"
  by (auto simp: cache_name_def)

lemma find_watchdir_bound:
  "find_watchdir dw m = Inr (Some i) \<Longrightarrow> i < length (watchdirs dw) \<and> m (watchdirs dw ! i) = Inr True"
  using find_from_bound[of m 0 "watchdirs dw" i] by (simp add: find_watchdir_def)

lemma find_by_wd_total: "\<exists>r. find_watchdir dw (find_by_wd k) = Inr r"
  unfolding find_watchdir_def by (rule find_from_total) (simp add: find_by_wd_def)

lemma on_create_wf:
  assumes "dw_wf dw"
  shows "on_create fnm dw e = Inr dw' \<Longrightarrow> dw_wf dw'" and "on_create fnm dw e = Inl err \<Longrightarrow> err = Null_Deref"
proof -
  obtain r where r: "find_watchdir dw (find_by_wd (ie_wd e)) = Inr r" using find_by_wd_total by blast
  then have "i < DIRWATCH_MAX" if "r = Some i" for i
    using find_watchdir_bound[of dw "find_by_wd (ie_wd e)" i] assms that by (simp add: dw_wf_def)
  then consider "r = None" | i where "r = Some i" "i < DIRWATCH_MAX" "slot_ok (watchdirs dw ! i)"
    using wf_slot[OF assms] by (cases r) auto
  then have "(on_create fnm dw e = Inr dw' \<longrightarrow> dw_wf dw') \<and> (on_create fnm dw e = Inl err \<longrightarrow> err = Null_Deref)"
  proof cases
    case 1
    then show ?thesis using assms r by (auto simp: on_create_def)
  next
    case (2 i)
    show ?thesis
    proof (cases "wd (watchdirs dw ! i) = 0")
      case True
      then have "file_filter (watchdirs dw ! i) = Null" using 2(3) by (auto simp: slot_ok_def)
      then show ?thesis using assms r 2(1) by (auto simp: on_create_def split: if_splits)
    next
      case False
      then obtain f where f: "file_filter (watchdirs dw ! i) = Live f" using 2(3) by (auto simp: slot_ok_def)
      have "dw_wf (upd_watchdir dw i (\<lambda>w. w\<lparr>watchfiles := cache_name (ie_name e) (watchfiles w)\<rparr>))"
        using 2(3) False by (intro wf_upd[OF assms 2(2)]) (auto simp: slot_ok_def cache_name_no_freed)
      then show ?thesis using assms r 2(1) f by (auto simp: on_create_def split: if_splits)
    qed
  qed
  then show "on_create fnm dw e = Inr dw' \<Longrightarrow> dw_wf dw'" "on_create fnm dw e = Inl err \<Longrightarrow> err = Null_Deref"
    by blast+
qed

lemma close_file_safe:
  assumes "Freed \<notin> set fs" and "dn \<noteq> Freed"
  shows "close_file h dn n fs w = Inr (fs', w') \<Longrightarrow> Freed \<notin> set fs'"
    and "close_file h dn n fs w = Inl e \<Longrightarrow> e = Null_Deref \<or> (\<exists>w d s. h w d s = Inl e)"
proof -
  have "(close_file h dn n fs w = Inr (fs', w') \<longrightarrow> Freed \<notin> set fs') \<and>
      (close_file h dn n fs w = Inl e \<longrightarrow> e = Null_Deref \<or> (\<exists>w d s. h w d s = Inl e))"
    using assms
  proof (induction fs arbitrary: fs')
    case (Cons p ps)
    show ?case
    proof (cases p)
      case (Live s)
      show ?thesis
      proof (cases "n = s")
        case True
        then show ?thesis using Live Cons.prems
          by (cases dn; cases "h w (case dn of Live d \<Rightarrow> d | _ \<Rightarrow> undefined) s") auto
      next
        case False
        then show ?thesis using Live Cons
          by (cases "close_file h dn n ps w") (auto simp: split_beta)
      qed
    qed (use Cons.prems in auto)
  qed simp
  then show "close_file h dn n fs w = Inr (fs', w') \<Longrightarrow> Freed \<notin> set fs'"
    "close_file h dn n fs w = Inl e \<Longrightarrow> e = Null_Deref \<or> (\<exists>w d s. h w d s = Inl e)" by blast+
qed

lemma on_close_wf:
  assumes "dw_wf dw"
  shows "on_close h dw e w = Inr (dw', w') \<Longrightarrow> dw_wf dw'"
    and "on_close h dw e w = Inl err \<Longrightarrow> err = Null_Deref \<or> (\<exists>w d s. h w d s = Inl err)"
proof -
  obtain r where r: "find_watchdir dw (find_by_wd (ie_wd e)) = Inr r" using find_by_wd_total by blast
  then have "i < DIRWATCH_MAX" if "r = Some i" for i
    using find_watchdir_bound[of dw "find_by_wd (ie_wd e)" i] assms that by (simp add: dw_wf_def)
  then consider "r = None" | i where "r = Some i" "i < DIRWATCH_MAX" "slot_ok (watchdirs dw ! i)"
    using wf_slot[OF assms] by (cases r) auto
  then have "(on_close h dw e w = Inr (dw', w') \<longrightarrow> dw_wf dw') \<and>
      (on_close h dw e w = Inl err \<longrightarrow> err = Null_Deref \<or> (\<exists>w d s. h w d s = Inl err))"
  proof cases
    case 1
    then show ?thesis using assms r by (auto simp: on_close_def)
  next
    case (2 i)
    let ?w = "watchdirs dw ! i"
    have dn: "wd_dirname ?w \<noteq> Freed" and fs: "Freed \<notin> set (watchfiles ?w)"
      using 2(3) by (auto simp: slot_ok_def)
    show ?thesis
    proof (cases "close_file h (wd_dirname ?w) (ie_name e) (watchfiles ?w) w")
      case (Inl er)
      then show ?thesis
        using assms r 2(1) close_file_safe(2)[OF fs dn Inl] by (auto simp: on_close_def)
    next
      case (Inr x)
      obtain gs v where x: "x = (gs, v)" by (cases x)
      have gs: "Freed \<notin> set gs" using close_file_safe(1)[OF fs dn Inr[unfolded x]] .
      have "wd ?w = 0 \<Longrightarrow> watchfiles ?w = [] \<and> gs = []"
        using Inr x 2(3) by (cases "watchfiles ?w") (auto simp: slot_ok_def)
      then have "dw_wf (upd_watchdir dw i (\<lambda>d. d\<lparr>watchfiles := gs\<rparr>))"
        using gs 2(3) by (intro wf_upd[OF assms 2(2)]) (auto simp: slot_ok_def)
      then show ?thesis using assms r 2(1) Inr x by (auto simp: on_close_def)
    qed
  qed
  then show "on_close h dw e w = Inr (dw', w') \<Longrightarrow> dw_wf dw'"
    "on_close h dw e w = Inl err \<Longrightarrow> err = Null_Deref \<or> (\<exists>w d s. h w d s = Inl err)" by blast+
qed

text \<open>What any number of events can do to a watcher.\<close>

definition safe_outcome :: "'w dirwatch_handler \<Rightarrow> (dirwatch \<times> 'w) res \<Rightarrow> bool" where
  "safe_outcome h r \<longleftrightarrow> (case r of Inr (dw, w) \<Rightarrow> dw_wf dw
     | Inl err \<Rightarrow> err = Null_Deref \<or> (\<exists>w d s. h w d s = Inl err))"

lemma safe_outcome_simps [simp]:
  "safe_outcome h (Inr (dw, w)) = dw_wf dw"
  "safe_outcome h (Inl err) = (err = Null_Deref \<or> (\<exists>w d s. h w d s = Inl err))"
  by (simp_all add: safe_outcome_def)

lemma dw_wf_listen [simp]: "dw_wf (dw\<lparr>dw_listen := b\<rparr>) = dw_wf dw" "dw_wf (dw_signal c dw) = dw_wf dw"
  by (simp_all add: dw_wf_def dw_signal_def dirwatch_stop_def)

lemma process_events_safe: "dw_wf dw \<Longrightarrow> safe_outcome h (process_events fnm h dw es w)"
proof (induction es arbitrary: dw w)
  case (Cons e es)
  show ?case
  proof (cases "on_create fnm dw e")
    case (Inl err)
    then show ?thesis using on_create_wf(2)[OF Cons.prems Inl] by simp
  next
    case (Inr d1)
    note w1 = on_create_wf(1)[OF Cons.prems Inr]
    show ?thesis
    proof (cases "on_close h d1 e w")
      case (Inl err)
      then show ?thesis using on_close_wf(2)[OF w1 Inl] \<open>on_create fnm dw e = Inr d1\<close> by simp
    next
      case r: (Inr r)
      obtain d2 v where "r = (d2, v)" by (cases r)
      then show ?thesis using Cons.IH[of d2 v] on_close_wf(1)[OF w1, of h e w d2 v] r Inr by simp
    qed
  qed
qed simp

lemma dw_turn_safe: "dw_wf dw \<Longrightarrow> safe_outcome h (dw_turn fnm h dw w e)"
proof -
  assume wf: "dw_wf dw"
  let ?dw = "dw_signal (de_stop_poll e) dw"
  have s: "safe_outcome h (process_events fnm h ?dw (de_events e) w)"
    using process_events_safe wf by (metis dw_wf_listen(2))
  then show ?thesis
    using wf by (cases "process_events fnm h ?dw (de_events e) w") (auto simp: dw_turn_def Let_def split_beta)
qed

lemma dw_loop_safe: "dw_wf dw \<Longrightarrow> dw_loop fnm h dw w es = Some r \<Longrightarrow> safe_outcome h r"
proof (induction es arbitrary: dw w)
  case Nil
  then show ?case by (subst (asm) dw_loop.simps) (auto split: if_splits)
next
  case (Cons e es)
  note t = dw_turn_safe[OF Cons.prems(1), of h fnm w e]
  show ?case
  proof (cases "dw_listen dw")
    case False
    then show ?thesis using Cons.prems by (subst (asm) dw_loop.simps) auto
  next
    case True
    show ?thesis
    proof (cases "dw_turn fnm h dw w e")
      case (Inl err)
      then have "r = Inl err" using True Cons.prems(2) by (subst (asm) dw_loop.simps) simp
      then show ?thesis using t Inl by simp
    next
      case (Inr x)
      obtain d1 w1 where "x = (d1, w1)" by (cases x)
      then have "dw_loop fnm h d1 w1 es = Some r" "dw_wf d1"
        using True t Inr Cons.prems(2) by (subst (asm) dw_loop.simps, simp_all)
      then show ?thesis using Cons.IH by blast
    qed
  qed
qed

fun add_dirs :: "(string \<Rightarrow> u32 \<Rightarrow> int) \<Rightarrow> (string \<times> string \<times> u32 \<times> bool) list \<Rightarrow> dirwatch \<Rightarrow> dirwatch res" where
  "add_dirs add_watch [] dw = Inr dw"
| "add_dirs add_watch ((name, filt, events, clobber) # ds) dw =
     bind_res (dirwatch_add add_watch dw name filt events clobber) (\<lambda>(_, dw). add_dirs add_watch ds dw)"

lemma add_dirs_wf:
  assumes "\<And>d m. 0 < add_watch d m"
  shows "dw_wf dw \<Longrightarrow> \<exists>dw'. add_dirs add_watch ds dw = Inr dw' \<and> dw_wf dw'"
proof (induction ds arbitrary: dw)
  case (Cons a ds)
  obtain n f ev c where a: "a = (n, f, ev, c)" by (cases a) auto
  obtain i d where "dirwatch_add add_watch dw n f ev c = Inr (i, d)" "dw_wf d"
    using add_wf[of dw add_watch, OF Cons.prems assms] by metis
  then show ?case using Cons.IH a by simp
qed simp

section \<open>Properties\<close>

text \<open>
  C19: The whole life of a watcher. However many directories are added, known ones and more than
  the list holds included, and whatever events arrive, no string is used after it was released
  and none is released twice: listening either ends with every string still owned, and then
  closing releases them all, or it fails in the callback or with the null pointer of a file that
  is not cached. Every watch that is added must get a positive descriptor.
\<close>

theorem watcher_life:
  assumes "0 < fd" and "\<And>d m. 0 < add_watch d m"
  shows "\<exists>dw. bind_res (dirwatch_init fd) (add_dirs add_watch ds) = Inr dw \<and>
     (\<forall>dw' w'. dirwatch_listen fnm h dw w es = Some (Inr (dw', w')) \<longrightarrow>
        (\<exists>dw''. dirwatch_close dw' = Inr dw'' \<and> (\<forall>slot \<in> set (watchdirs dw''). released slot))) \<and>
     (\<forall>err. dirwatch_listen fnm h dw w es = Some (Inl err) \<longrightarrow>
        err = Null_Deref \<or> (\<exists>w d s. h w d s = Inl err))"
proof -
  obtain dw0 where "dirwatch_init fd = Inr dw0" "dw_wf dw0" using init_wf[OF assms(1)] by blast
  then obtain dw where dw: "bind_res (dirwatch_init fd) (add_dirs add_watch ds) = Inr dw" "dw_wf dw"
    using add_dirs_wf[of add_watch dw0 ds] assms(2) by auto
  have safe: "safe_outcome h r" if "dirwatch_listen fnm h dw w es = Some r" for r
    using dw_loop_safe that dw(2) unfolding dirwatch_listen_def by (metis dw_wf_listen(1))
  show ?thesis
    using dw(1) safe close_wf by (fastforce simp: safe_outcome_def)
qed

theorem watcher_life_witness:
  "\<exists>dw dw' dw''. bind_res (dirwatch_init 5) (add_dirs (\<lambda>d m. 1) [(''in'', ''*'', 1, True)]) = Inr dw \<and>
     dirwatch_listen (\<lambda>f n. True) (\<lambda>w d n. Inr w) dw ()
       [\<lparr>de_stop_poll = False, de_poll = 0, de_events = [], de_stop_after = False\<rparr>] = Some (Inr (dw', ())) \<and>
     dirwatch_close dw' = Inr dw'' \<and> (\<forall>slot \<in> set (watchdirs dw''). released slot)"
proof -
  obtain dw where dw: "bind_res (dirwatch_init 5) (add_dirs (\<lambda>d m. 1) [(''in'', ''*'', 1, True)]) = Inr dw"
    and life: "\<forall>dw' w'. dirwatch_listen (\<lambda>f n. True) (\<lambda>w d n. Inr w) dw ()
       [\<lparr>de_stop_poll = False, de_poll = 0, de_events = [], de_stop_after = False\<rparr>] = Some (Inr (dw', w')) \<longrightarrow>
        (\<exists>dw''. dirwatch_close dw' = Inr dw'' \<and> (\<forall>slot \<in> set (watchdirs dw''). released slot))"
    using watcher_life[of 5 "\<lambda>d m. 1" "[(''in'', ''*'', 1, True)]" "\<lambda>f n. True" "\<lambda>w d n. Inr w" "()"
        "[\<lparr>de_stop_poll = False, de_poll = 0, de_events = [], de_stop_after = False\<rparr>]"] by auto
  have "\<exists>dw'. dirwatch_listen (\<lambda>f n. True) (\<lambda>w d n. Inr w) dw ()
       [\<lparr>de_stop_poll = False, de_poll = 0, de_events = [], de_stop_after = False\<rparr>] = Some (Inr (dw', ()))"
    by (simp add: dirwatch_listen_def dw_loop.simps dw_turn_def dw_signal_def)
  then show ?thesis using dw life by blast
qed

end
