(* ===== verification/DirwatchSignals.thy ===== *)
theory DirwatchSignals imports DirwatchSafety begin

text \<open>
  \<open>dirwatch_listen\<close>, one step at a time, with the handler of \<open>SIGINT\<close> (\<open>watchdir_sigint_handler\<close> in
  \<open>dxwifi/tx/tx.c\<close>, which calls \<open>dirwatch_stop\<close>) running between any two of them. The loop of theory
  \<open>Dirwatch\<close> takes whole turns, each of which is told whether a request came before or after its work;
  here it is shown that this covers every interleaving, input by input, and that a request is obeyed.
  The callback is one step: while it transmits, the program has another handler installed.
\<close>

subsection \<open>Steps\<close>

datatype dw_pc =
    Dw_Test                                     \<comment> \<open>the condition of the loop\<close>
  | Dw_Poll                                     \<comment> \<open>about to call \<open>poll\<close>\<close>
  | Dw_Polled int                               \<comment> \<open>with its answer\<close>
  | Dw_Events "inotify_event list"              \<comment> \<open>records that are still to be processed\<close>
  | Dw_Close inotify_event "inotify_event list" \<comment> \<open>within a record, before the test for a closed file\<close>
  | Dw_Exited
  | Dw_Failed c_error

datatype dw_label = Dw_Signal | Dw_Tau | Dw_Poll_Returns int | Dw_Reads "inotify_event list"

type_synonym 'w dw_config = "dw_pc \<times> dirwatch \<times> 'w"

definition dw_ended :: "dw_pc \<Rightarrow> bool" where
  "dw_ended pc \<longleftrightarrow> pc = Dw_Exited \<or> (\<exists>e. pc = Dw_Failed e)"

inductive dw_step :: "(string \<Rightarrow> string \<Rightarrow> bool) \<Rightarrow> 'w dirwatch_handler \<Rightarrow> 'w dw_config \<Rightarrow> dw_label \<Rightarrow>
    'w dw_config \<Rightarrow> bool" for fnm h where
  dw_signal_step: "\<not> dw_ended pc \<Longrightarrow> dw_step fnm h (pc, dw, w) Dw_Signal (pc, dirwatch_stop dw, w)"
| dw_test_true: "dw_listen dw \<Longrightarrow> dw_step fnm h (Dw_Test, dw, w) Dw_Tau (Dw_Poll, dw, w)"
| dw_test_false: "\<not> dw_listen dw \<Longrightarrow> dw_step fnm h (Dw_Test, dw, w) Dw_Tau (Dw_Exited, dw, w)"
| dw_poll_returns: "dw_step fnm h (Dw_Poll, dw, w) (Dw_Poll_Returns n) (Dw_Polled n, dw, w)"
| dw_timeout: "dw_step fnm h (Dw_Polled 0, dw, w) Dw_Tau (Dw_Test, dw\<lparr>dw_listen := False\<rparr>, w)"
| dw_poll_error: "n < 0 \<Longrightarrow> dw_step fnm h (Dw_Polled n, dw, w) Dw_Tau (Dw_Test, dw, w)"
| dw_reads: "0 < n \<Longrightarrow> dw_step fnm h (Dw_Polled n, dw, w) (Dw_Reads es) (Dw_Events es, dw, w)"
| dw_no_event: "dw_step fnm h (Dw_Events [], dw, w) Dw_Tau (Dw_Test, dw, w)"
| dw_created: "on_create fnm dw e = Inr dw' \<Longrightarrow>
    dw_step fnm h (Dw_Events (e # es), dw, w) Dw_Tau (Dw_Close e es, dw', w)"
| dw_create_fails: "on_create fnm dw e = Inl err \<Longrightarrow>
    dw_step fnm h (Dw_Events (e # es), dw, w) Dw_Tau (Dw_Failed err, dw, w)"
| dw_closed: "on_close h dw e w = Inr (dw', w') \<Longrightarrow>
    dw_step fnm h (Dw_Close e es, dw, w) Dw_Tau (Dw_Events es, dw', w')"
| dw_close_fails: "on_close h dw e w = Inl err \<Longrightarrow>
    dw_step fnm h (Dw_Close e es, dw, w) Dw_Tau (Dw_Failed err, dw, w)"

inductive_cases dw_stepE: "dw_step fnm h (pc, dw, w) l c"

inductive dw_run :: "(string \<Rightarrow> string \<Rightarrow> bool) \<Rightarrow> 'w dirwatch_handler \<Rightarrow> 'w dw_config \<Rightarrow> dw_label list \<Rightarrow>
    'w dw_config \<Rightarrow> bool" for fnm h where
  dw_run_Nil: "dw_run fnm h c [] c"
| dw_run_Cons: "dw_step fnm h c l c' \<Longrightarrow> dw_run fnm h c' ls c'' \<Longrightarrow> dw_run fnm h c (l # ls) c''"

lemma dw_run_append: "dw_run fnm h a ls b \<Longrightarrow> dw_run fnm h b ms c \<Longrightarrow> dw_run fnm h a (ls @ ms) c"
  by (induction rule: dw_run.induct) (auto intro: dw_run.intros)

lemma dw_run_step: "dw_run fnm h a [l] b" if "dw_step fnm h a l b" using that by (auto intro: dw_run.intros)

text \<open>The inputs of a run are the answers of \<open>poll\<close> and \<open>read\<close>; those of a list of turns likewise.\<close>

fun is_input :: "dw_label \<Rightarrow> bool" where
  "is_input (Dw_Poll_Returns n) = True"
| "is_input (Dw_Reads es) = True"
| "is_input l = False"

definition dw_inputs :: "dw_label list \<Rightarrow> dw_label list" where
  "dw_inputs ls = filter is_input ls"

definition turn_inputs :: "dw_event \<Rightarrow> dw_label list" where
  "turn_inputs e = Dw_Poll_Returns (de_poll e) # (if 0 < de_poll e then [Dw_Reads (de_events e)] else [])"

definition turns_inputs :: "dw_event list \<Rightarrow> dw_label list" where
  "turns_inputs es = concat (map turn_inputs es)"

lemma dw_inputs_simps [simp]:
  "dw_inputs [] = []" "dw_inputs (l # ls) = (if is_input l then l # dw_inputs ls else dw_inputs ls)"
  "dw_inputs (ls @ ms) = dw_inputs ls @ dw_inputs ms"
  by (simp_all add: dw_inputs_def)

lemma turns_inputs_simps [simp]:
  "turns_inputs [] = []" "turns_inputs (e # es) = turn_inputs e @ turns_inputs es"
  by (simp_all add: turns_inputs_def)

subsection \<open>A request and the processing of events commute\<close>

lemma stop_upd: "upd_watchdir (dirwatch_stop dw) i f = dirwatch_stop (upd_watchdir dw i f)"
  by (simp add: upd_watchdir_def dirwatch_stop_def)

lemma stop_find: "find_watchdir (dirwatch_stop dw) m = find_watchdir dw m"
  by (simp add: find_watchdir_def dirwatch_stop_def)

lemma stop_watchdirs: "watchdirs (dirwatch_stop dw) = watchdirs dw"
  by (simp add: dirwatch_stop_def)

lemma stop_stop: "dirwatch_stop (dirwatch_stop dw) = dirwatch_stop dw"
  by (simp add: dirwatch_stop_def)

lemma on_create_stop: "on_create fnm (dirwatch_stop dw) e = map_res dirwatch_stop (on_create fnm dw e)"
  unfolding on_create_def stop_find stop_watchdirs stop_upd
  by (auto simp: map_res_def bind_res_def split: option.splits sum.splits)

lemma on_close_stop: "on_close h (dirwatch_stop dw) e w = map_res (apfst dirwatch_stop) (on_close h dw e w)"
  unfolding on_close_def stop_find stop_watchdirs stop_upd
  by (auto simp: map_res_def bind_res_def split: option.splits sum.splits)

lemma process_events_stop:
  "process_events fnm h (dirwatch_stop dw) es w = map_res (apfst dirwatch_stop) (process_events fnm h dw es w)"
proof (induction es arbitrary: dw w)
  case (Cons e es)
  show ?case
  proof (cases "on_create fnm dw e")
    case (Inr dw1)
    then show ?thesis using Cons.IH
      by (cases "on_close h dw1 e w") (auto simp: on_create_stop on_close_stop)
  qed (simp add: on_create_stop)
qed simp

lemma dw_signal_stop: "dw_signal b (dirwatch_stop dw) = dirwatch_stop dw" "dw_signal True dw = dirwatch_stop dw"
  "dw_signal False dw = dw" "dirwatch_stop (dw_signal b dw) = dirwatch_stop dw"
  by (simp_all add: dw_signal_def stop_stop)


subsection \<open>What remains of a run, in turns\<close>

text \<open>
  The loop ends with \<open>r\<close> and takes every one of the events; and the same from the result of a turn, a list
  of records, or a single one.
\<close>

fun dw_exactly :: "(string \<Rightarrow> string \<Rightarrow> bool) \<Rightarrow> 'w dirwatch_handler \<Rightarrow> dirwatch \<Rightarrow> 'w \<Rightarrow> dw_event list \<Rightarrow>
    (dirwatch \<times> 'w) res \<Rightarrow> bool" where
  "dw_exactly fnm h dw w [] r \<longleftrightarrow> \<not> dw_listen dw \<and> r = Inr (dw, w)"
| "dw_exactly fnm h dw w (e # es) r \<longleftrightarrow> dw_listen dw \<and>
     (case dw_turn fnm h dw w e of Inl err \<Rightarrow> es = [] \<and> r = Inl err | Inr (dw, w) \<Rightarrow> dw_exactly fnm h dw w es r)"

lemma dw_exactly_iff:
  "dw_exactly fnm h dw w es r \<longleftrightarrow>
     dw_loop fnm h dw w es = Some r \<and> (\<forall>k < length es. dw_loop fnm h dw w (take k es) = None)"
proof (induction es arbitrary: dw w)
  case Nil
  show ?case by (auto simp: dw_loop.simps[of fnm h dw w])
next
  case (Cons e es)
  have all: "(\<forall>k < length (e # es). P k) \<longleftrightarrow> P 0 \<and> (\<forall>k < length es. P (Suc k))" for P
    by (simp add: All_less_Suc2)
  show ?case
  proof (cases "dw_listen dw")
    case True
    show ?thesis
    proof (cases "dw_turn fnm h dw w e")
      case (Inl err)
      then show ?thesis using True unfolding all by (auto simp: dw_loop.simps[of fnm h dw w])
    next
      case (Inr p)
      then show ?thesis using True Cons.IH[of "fst p" "snd p"] unfolding all
        by (cases p) (simp add: dw_loop.simps[of fnm h dw w])
    qed
  next
    case False
    then show ?thesis unfolding all by (simp add: dw_loop.simps[of fnm h dw w])
  qed
qed

definition loop_on :: "(string \<Rightarrow> string \<Rightarrow> bool) \<Rightarrow> 'w dirwatch_handler \<Rightarrow> bool \<Rightarrow> dw_event list \<Rightarrow>
    (dirwatch \<times> 'w) res \<Rightarrow> (dirwatch \<times> 'w) res \<Rightarrow> bool" where
  "loop_on fnm h b es m r =
     (case m of Inl err \<Rightarrow> es = [] \<and> r = Inl err | Inr (dw, w) \<Rightarrow> dw_exactly fnm h (dw_signal b dw) w es r)"

lemma loop_on_simps [simp]:
  "loop_on fnm h b es (Inl err) r \<longleftrightarrow> es = [] \<and> r = Inl err"
  "loop_on fnm h b es (Inr (dw, w)) r \<longleftrightarrow> dw_exactly fnm h (dw_signal b dw) w es r"
  by (simp_all add: loop_on_def)

lemma loop_on_stop: "loop_on fnm h b es (map_res (apfst dirwatch_stop) m) r = loop_on fnm h True es m r"
  by (cases m) (auto simp: dw_signal_stop)

lemma loop_on_signal:
  "loop_on fnm h False es (bind_res m (\<lambda>(dw, w). Inr (dw_signal b dw, w))) r = loop_on fnm h b es m r"
  by (cases m) (auto simp: dw_signal_stop)

lemma dw_exactly_turn:
  "dw_exactly fnm h dw w (e # es) r \<longleftrightarrow> dw_listen dw \<and> loop_on fnm h False es (dw_turn fnm h dw w e) r"
  by (auto simp: loop_on_def dw_signal_stop split: sum.splits)

text \<open>The work of a turn after \<open>poll\<close>.\<close>

definition dw_work :: "(string \<Rightarrow> string \<Rightarrow> bool) \<Rightarrow> 'w dirwatch_handler \<Rightarrow> dirwatch \<Rightarrow> 'w \<Rightarrow> int \<Rightarrow>
    inotify_event list \<Rightarrow> (dirwatch \<times> 'w) res" where
  "dw_work fnm h dw w n es =
     (if n = 0 then Inr (dw\<lparr>dw_listen := False\<rparr>, w) else if n < 0 then Inr (dw, w) else process_events fnm h dw es w)"

lemma dw_turn_work:
  "loop_on fnm h False es (dw_turn fnm h dw w e) r =
   loop_on fnm h (de_stop_after e) es (dw_work fnm h (dw_signal (de_stop_poll e) dw) w (de_poll e) (de_events e)) r"
  unfolding dw_turn_def Let_def dw_work_def[symmetric] by (rule loop_on_signal)

fun dw_rest :: "(string \<Rightarrow> string \<Rightarrow> bool) \<Rightarrow> 'w dirwatch_handler \<Rightarrow> 'w dw_config \<Rightarrow> dw_label list \<Rightarrow>
    (dirwatch \<times> 'w) res \<Rightarrow> bool" where
  "dw_rest fnm h (Dw_Test, dw, w) ins r \<longleftrightarrow>
     (\<exists>b es. ins = turns_inputs es \<and> dw_exactly fnm h (dw_signal b dw) w es r)"
| "dw_rest fnm h (Dw_Poll, dw, w) ins r \<longleftrightarrow>
     (\<exists>a b n l es. ins = turns_inputs (\<lparr>de_stop_poll = a, de_poll = n, de_events = l, de_stop_after = b\<rparr> # es) \<and>
        loop_on fnm h b es (dw_work fnm h (dw_signal a dw) w n l) r)"
| "dw_rest fnm h (Dw_Polled n, dw, w) ins r \<longleftrightarrow>
     (\<exists>a b l es. ins = (if 0 < n then [Dw_Reads l] else []) @ turns_inputs es \<and>
        loop_on fnm h b es (dw_work fnm h (dw_signal a dw) w n l) r)"
| "dw_rest fnm h (Dw_Events l, dw, w) ins r \<longleftrightarrow>
     (\<exists>b es. ins = turns_inputs es \<and> loop_on fnm h b es (process_events fnm h dw l w) r)"
| "dw_rest fnm h (Dw_Close e l, dw, w) ins r \<longleftrightarrow>
     (\<exists>b es. ins = turns_inputs es \<and>
        loop_on fnm h b es (bind_res (on_close h dw e w) (\<lambda>(dw, w). process_events fnm h dw l w)) r)"
| "dw_rest fnm h (Dw_Exited, dw, w) ins r \<longleftrightarrow> ins = [] \<and> r = Inr (dw, w)"
| "dw_rest fnm h (Dw_Failed err, dw, w) ins r \<longleftrightarrow> ins = [] \<and> r = Inl err"

lemma dw_rest_signal:
  assumes "dw_rest fnm h (pc, dirwatch_stop dw, w) ins r" and "\<not> dw_ended pc"
  shows "dw_rest fnm h (pc, dw, w) ins r"
proof (cases pc)
  case Dw_Test
  then show ?thesis using assms(1) by (auto simp: dw_signal_stop intro!: exI[of _ True])
next
  case Dw_Poll
  then obtain a b n l es where
    "ins = turns_inputs (\<lparr>de_stop_poll = a, de_poll = n, de_events = l, de_stop_after = b\<rparr> # es)"
    "loop_on fnm h b es (dw_work fnm h (dw_signal True dw) w n l) r"
    using assms(1) unfolding Dw_Poll dw_rest.simps dw_signal_stop by blast
  then show ?thesis unfolding Dw_Poll dw_rest.simps turns_inputs_simps turn_inputs_def dw_event.select_convs by blast
next
  case (Dw_Polled n)
  then show ?thesis using assms(1) unfolding Dw_Polled dw_rest.simps dw_signal_stop by (metis dw_signal_stop(2))
next
  case (Dw_Events l)
  then show ?thesis using assms(1) by (auto simp: process_events_stop loop_on_stop intro!: exI[of _ True])
next
  case (Dw_Close e l)
  have "bind_res (on_close h (dirwatch_stop dw) e w) (\<lambda>(dw, w). process_events fnm h dw l w) =
      map_res (apfst dirwatch_stop) (bind_res (on_close h dw e w) (\<lambda>(dw, w). process_events fnm h dw l w))"
    by (cases "on_close h dw e w") (auto simp: on_close_stop process_events_stop)
  then show ?thesis using assms(1) Dw_Close by (auto simp: loop_on_stop intro!: exI[of _ True])
qed (use assms(2) in \<open>auto simp: dw_ended_def\<close>)

lemma turn_unfold:
  assumes "dw_listen dw" and "loop_on fnm h b es (dw_work fnm h (dw_signal a dw) w n l) r"
  shows "dw_exactly fnm h dw w (\<lparr>de_stop_poll = a, de_poll = n, de_events = l, de_stop_after = b\<rparr> # es) r"
  using assms by (simp only: dw_exactly_turn dw_turn_work dw_event.select_convs simp_thms)

lemma dw_rest_step:
  assumes "dw_step fnm h c l c'" and "dw_rest fnm h c' ins r"
  shows "dw_rest fnm h c ((if is_input l then [l] else []) @ ins) r"
  using assms
proof (induction rule: dw_step.induct)
  case (dw_signal_step pc dw w)
  then show ?case using dw_rest_signal by (simp add: dw_rest_signal)
next
  case (dw_test_true dw w)
  then obtain a b n l es where
    t: "ins = turns_inputs (\<lparr>de_stop_poll = a, de_poll = n, de_events = l, de_stop_after = b\<rparr> # es)"
      "loop_on fnm h b es (dw_work fnm h (dw_signal a dw) w n l) r"
    by auto
  show ?case using t(1) turn_unfold[OF dw_test_true(1) t(2)] by (auto simp: dw_signal_stop simp del: turns_inputs_simps intro!: exI[of _ False])
next
  case (dw_test_false dw w)
  then show ?case by (auto simp: dw_signal_stop intro!: exI[of _ False] exI[of _ "[]"])
next
  case (dw_poll_returns dw w n)
  then obtain a b l es where t: "ins = (if 0 < n then [Dw_Reads l] else []) @ turns_inputs es"
    "loop_on fnm h b es (dw_work fnm h (dw_signal a dw) w n l) r"
    by auto
  have "Dw_Poll_Returns n # ins = turns_inputs (\<lparr>de_stop_poll = a, de_poll = n, de_events = l, de_stop_after = b\<rparr> # es)"
    using t(1) by (simp add: turn_inputs_def)
  then show ?case using t(2) unfolding dw_rest.simps is_input.simps if_True append_Cons append_Nil by blast
next
  case (dw_timeout dw w)
  then obtain b es where "ins = turns_inputs es" "dw_exactly fnm h (dw_signal b (dw\<lparr>dw_listen := False\<rparr>)) w es r" by auto
  then have "loop_on fnm h b es (dw_work fnm h (dw_signal False dw) w 0 []) r" by (simp add: dw_work_def dw_signal_stop)
  then show ?case using \<open>ins = _\<close> by auto
next
  case (dw_poll_error n dw w)
  then obtain b es where t: "ins = turns_inputs es" "dw_exactly fnm h (dw_signal b dw) w es r" by auto
  then have "loop_on fnm h b es (dw_work fnm h (dw_signal False dw) w n []) r"
    using dw_poll_error(1) by (simp add: dw_work_def dw_signal_stop)
  then show ?case using t(1) dw_poll_error(1) by auto
next
  case (dw_reads n dw w evs)
  then obtain b es where t: "ins = turns_inputs es" "loop_on fnm h b es (process_events fnm h dw evs w) r" by auto
  then have "loop_on fnm h b es (dw_work fnm h (dw_signal False dw) w n evs) r"
    using dw_reads(1) by (simp add: dw_work_def dw_signal_stop)
  then show ?case using t(1) dw_reads(1) by auto
qed auto

lemma dw_rest_run:
  assumes "dw_run fnm h c ls c'" and "dw_rest fnm h c' [] r"
  shows "dw_rest fnm h c (dw_inputs ls) r"
  using assms
proof (induction rule: dw_run.induct)
  case (dw_run_Cons c l c' ls c'')
  then show ?case using dw_rest_step[OF dw_run_Cons.hyps(1)] by fastforce
qed simp

subsection \<open>Turns as runs\<close>

definition result_config :: "(dirwatch \<times> 'w) res \<Rightarrow> dw_pc \<Rightarrow> 'w dw_config \<Rightarrow> bool" where
  "result_config r pc c \<longleftrightarrow> (case r of Inl err \<Rightarrow> fst c = Dw_Failed err | Inr (dw, w) \<Rightarrow> c = (pc, dw, w))"

definition reaches :: "(string \<Rightarrow> string \<Rightarrow> bool) \<Rightarrow> 'w dirwatch_handler \<Rightarrow> 'w dw_config \<Rightarrow> dw_label list \<Rightarrow>
    (dirwatch \<times> 'w) res \<Rightarrow> dw_pc \<Rightarrow> bool" where
  "reaches fnm h c ins r pc \<longleftrightarrow> (\<exists>ls c'. dw_run fnm h c ls c' \<and> dw_inputs ls = ins \<and> result_config r pc c')"

lemma reaches_step:
  assumes "dw_step fnm h c l c'" and "reaches fnm h c' ins r pc"
  shows "reaches fnm h c ((if is_input l then [l] else []) @ ins) r pc"
proof -
  obtain ls c'' where "dw_run fnm h c' ls c''" "dw_inputs ls = ins" "result_config r pc c''" using assms(2) by (auto simp: reaches_def)
  then show ?thesis unfolding reaches_def using dw_run_Cons[OF assms(1)]
    by (intro exI[of _ "l # ls"] exI[of _ c'']) simp
qed

lemma reaches_tau: "dw_step fnm h c Dw_Tau c' \<Longrightarrow> reaches fnm h c' ins r pc \<Longrightarrow> reaches fnm h c ins r pc"
  using reaches_step[of fnm h c Dw_Tau] by simp

lemma reaches_now: "result_config r pc c \<Longrightarrow> reaches fnm h c [] r pc"
  unfolding reaches_def by (intro exI[of _ "[]"] exI[of _ c]) (simp add: dw_run_Nil)

lemma reaches_signal: "\<not> dw_ended pc' \<Longrightarrow> reaches fnm h (pc', dw_signal b dw, w) ins r pc \<Longrightarrow> reaches fnm h (pc', dw, w) ins r pc"
  using reaches_step[OF dw_signal_step, of pc' fnm h dw w ins r pc] by (cases b) (simp_all add: dw_signal_stop)

lemma reaches_then:
  assumes "reaches fnm h c ins r Dw_Test"
    and "\<And>dw w. r = Inr (dw, w) \<Longrightarrow> reaches fnm h (Dw_Test, dw, w) jns s Dw_Exited"
    and "\<And>err. r = Inl err \<Longrightarrow> s = Inl err \<and> jns = []"
  shows "reaches fnm h c (ins @ jns) s Dw_Exited"
proof -
  obtain ls c' where c: "dw_run fnm h c ls c'" "dw_inputs ls = ins" "result_config r Dw_Test c'" using assms(1) by (auto simp: reaches_def)
  show ?thesis
  proof (cases r)
    case (Inl err)
    then have "result_config s Dw_Exited c'" using c(3) assms(3) by (auto simp: result_config_def)
    moreover have "dw_inputs ls = ins @ jns" using c(2) assms(3)[OF Inl] by simp
    ultimately show ?thesis unfolding reaches_def using c(1) by blast
  next
    case (Inr p)
    then obtain ms c'' where "dw_run fnm h c' ms c''" "dw_inputs ms = jns" "result_config s Dw_Exited c''"
      using c(3) assms(2) by (cases p) (auto simp: result_config_def reaches_def)
    moreover from this c(1) have "dw_run fnm h c (ls @ ms) c''" by (intro dw_run_append)
    ultimately show ?thesis unfolding reaches_def using c(2) by (intro exI[of _ "ls @ ms"] exI[of _ c'']) simp
  qed
qed

lemma events_reach: "reaches fnm h (Dw_Events l, dw, w) [] (process_events fnm h dw l w) Dw_Test"
proof (induction l arbitrary: dw w)
  case Nil
  show ?case by (rule reaches_tau[OF dw_no_event], rule reaches_now) (simp add: result_config_def)
next
  case (Cons e l)
  show ?case
  proof (cases "on_create fnm dw e")
    case (Inl err)
    then show ?thesis by (intro reaches_tau[OF dw_create_fails[OF Inl]] reaches_now) (simp add: result_config_def)
  next
    case (Inr dw1)
    show ?thesis
    proof (cases "on_close h dw1 e w")
      case (Inl err)
      then show ?thesis
        by (intro reaches_tau[OF dw_created[OF Inr]] reaches_tau[OF dw_close_fails[OF Inl]] reaches_now) (simp add: result_config_def Inr)
    next
      case Inr2: (Inr p)
      then obtain dw2 w2 where p: "on_close h dw1 e w = Inr (dw2, w2)" by (cases p) auto
      then show ?thesis
        using reaches_tau[OF dw_created[OF Inr] reaches_tau[OF dw_closed[OF p] Cons.IH]] by (simp add: Inr)
    qed
  qed
qed

lemma turn_reaches:
  assumes "dw_listen dw"
  shows "reaches fnm h (Dw_Test, dw, w) (turn_inputs e)
    (dw_work fnm h (dw_signal (de_stop_poll e) dw) w (de_poll e) (de_events e)) Dw_Test" (is "reaches fnm h _ _ ?r _")
proof -
  let ?n = "de_poll e" and ?dw = "dw_signal (de_stop_poll e) dw"
  have "reaches fnm h (Dw_Polled ?n, ?dw, w) (if 0 < ?n then [Dw_Reads (de_events e)] else []) ?r Dw_Test"
  proof (cases "?n = 0")
    case True
    have "reaches fnm h (Dw_Polled 0, ?dw, w) [] ?r Dw_Test"
      by (rule reaches_tau[OF dw_timeout], rule reaches_now) (simp add: True dw_work_def result_config_def)
    then show ?thesis by (simp add: True)
  next
    case False
    show ?thesis
    proof (cases "?n < 0")
      case True
      then have "reaches fnm h (Dw_Polled ?n, ?dw, w) [] ?r Dw_Test"
        by (intro reaches_tau[OF dw_poll_error[OF True]] reaches_now) (simp add: dw_work_def result_config_def)
      then show ?thesis using True by simp
    next
      case pos: False
      then have p: "0 < ?n" using False by simp
      show ?thesis using reaches_step[OF dw_reads[OF p] events_reach] p by (simp add: dw_work_def)
    qed
  qed
  then have "reaches fnm h (Dw_Poll, ?dw, w) (turn_inputs e) ?r Dw_Test"
    using reaches_step[OF dw_poll_returns] by (fastforce simp: turn_inputs_def)
  then have "reaches fnm h (Dw_Poll, dw, w) (turn_inputs e) ?r Dw_Test"
    by (intro reaches_signal[where b = "de_stop_poll e" and dw = dw]) (simp_all add: dw_ended_def)
  then show ?thesis by (rule reaches_tau[OF dw_test_true[OF assms]])
qed

lemma loop_reaches:
  "dw_exactly fnm h dw w es r \<Longrightarrow> reaches fnm h (Dw_Test, dw, w) (turns_inputs es) r Dw_Exited"
proof (induction es arbitrary: dw w)
  case Nil
  then show ?case
    unfolding turns_inputs_simps by (intro reaches_tau[OF dw_test_false] reaches_now) (simp_all add: result_config_def)
next
  case (Cons e es)
  from Cons.prems have l: "dw_listen dw" and
    m: "loop_on fnm h (de_stop_after e) es (dw_work fnm h (dw_signal (de_stop_poll e) dw) w (de_poll e) (de_events e)) r"
    unfolding dw_exactly_turn dw_turn_work by blast+
  show ?case unfolding turns_inputs_simps
  proof (rule reaches_then[OF turn_reaches[OF l]])
    fix dw' w' assume "dw_work fnm h (dw_signal (de_stop_poll e) dw) w (de_poll e) (de_events e) = Inr (dw', w')"
    with m have "dw_exactly fnm h (dw_signal (de_stop_after e) dw') w' es r" by simp
    then show "reaches fnm h (Dw_Test, dw', w') (turns_inputs es) r Dw_Exited"
      by (intro reaches_signal[where b = "de_stop_after e" and dw = dw'] Cons.IH) (simp add: dw_ended_def)
  qed (use m in simp_all)
qed

text \<open>The result of a finished run.\<close>

fun dw_result :: "'w dw_config \<Rightarrow> (dirwatch \<times> 'w) res option" where
  "dw_result (Dw_Exited, dw, w) = Some (Inr (dw, w))"
| "dw_result (Dw_Failed err, dw, w) = Some (Inl err)"
| "dw_result (pc, dw, w) = None"

lemma dw_result_config: "dw_result c = Some r \<longleftrightarrow> result_config r Dw_Exited c"
  by (cases c; cases "fst c"; cases r) (auto simp: result_config_def)

lemma dw_result_rest: "dw_result c = Some r \<Longrightarrow> dw_rest fnm h c [] r"
  by (cases "(fnm, h, c, [] :: dw_label list, r)" rule: dw_rest.cases) auto

text \<open>A session: from the entry into the loop, with these answers of \<open>poll\<close> and \<open>read\<close>, to this result.\<close>

definition dw_session :: "(string \<Rightarrow> string \<Rightarrow> bool) \<Rightarrow> 'w dirwatch_handler \<Rightarrow> dirwatch \<Rightarrow> 'w \<Rightarrow> dw_label list \<Rightarrow>
    (dirwatch \<times> 'w) res \<Rightarrow> bool" where
  "dw_session fnm h dw w ins r \<longleftrightarrow>
     (\<exists>ls c. dw_run fnm h (Dw_Test, dw\<lparr>dw_listen := True\<rparr>, w) ls c \<and> dw_inputs ls = ins \<and> dw_result c = Some r)"

definition takes_all :: "(string \<Rightarrow> string \<Rightarrow> bool) \<Rightarrow> 'w dirwatch_handler \<Rightarrow> dirwatch \<Rightarrow> 'w \<Rightarrow> dw_event list \<Rightarrow> bool" where
  "takes_all fnm h dw w es \<longleftrightarrow> (\<forall>k < length es. dirwatch_listen fnm h dw w (take k es) = None)"

subsection \<open>After a request\<close>

text \<open>The steps that a stopped listener still makes by itself, and the answers it still waits for.\<close>

fun dw_left :: "dw_pc \<Rightarrow> nat" where
  "dw_left Dw_Test = 1"
| "dw_left Dw_Poll = 4"
| "dw_left (Dw_Polled n) = (if 0 < n then 3 else 2)"
| "dw_left (Dw_Events es) = 2 * length es + 2"
| "dw_left (Dw_Close e es) = 2 * length es + 3"
| "dw_left pc = 0"

fun dw_waits :: "dw_pc \<Rightarrow> nat" where
  "dw_waits Dw_Poll = 1"
| "dw_waits pc = 0"

fun records_read :: "dw_label list \<Rightarrow> nat" where
  "records_read [] = 0"
| "records_read (Dw_Reads es # ls) = length es + records_read ls"
| "records_read (l # ls) = records_read ls"

fun polls :: "dw_label list \<Rightarrow> nat" where
  "polls [] = 0"
| "polls (Dw_Poll_Returns n # ls) = Suc (polls ls)"
| "polls (l # ls) = polls ls"

definition own_steps :: "dw_label list \<Rightarrow> nat" where
  "own_steps ls = length (filter (\<lambda>l. l \<noteq> Dw_Signal) ls)"

lemma own_steps_simps [simp]:
  "own_steps [] = 0" "own_steps (l # ls) = (if l = Dw_Signal then own_steps ls else Suc (own_steps ls))"
  by (simp_all add: own_steps_def)

lemma dw_stopped_step:
  assumes "dw_step fnm h c l c'" and "\<not> dw_listen (fst (snd c))"
  shows "\<not> dw_listen (fst (snd c'))"
    and "dw_left (fst c') + (if l = Dw_Signal then 0 else 1) \<le> dw_left (fst c) + 2 * records_read [l]"
    and "dw_waits (fst c') + polls [l] = dw_waits (fst c)"
  using assms by (induction rule: dw_step.induct) (auto simp: dirwatch_stop_def dest: on_create_listen on_close_listen)

lemma records_read_Cons: "records_read (l # ls) = records_read [l] + records_read ls"
  and polls_Cons: "polls (l # ls) = polls [l] + polls ls"
  by (cases l; simp)+

lemma dw_stopped_run:
  assumes "dw_run fnm h c ls c'" and "\<not> dw_listen (fst (snd c))"
  shows "\<not> dw_listen (fst (snd c')) \<and> dw_left (fst c') + own_steps ls \<le> dw_left (fst c) + 2 * records_read ls \<and>
    dw_waits (fst c') + polls ls = dw_waits (fst c)"
  using assms
proof (induction rule: dw_run.induct)
  case (dw_run_Cons c l c' ls c'')
  note st = dw_stopped_step[OF dw_run_Cons.hyps(1) dw_run_Cons.prems]
  show ?case using st(2,3) dw_run_Cons.IH[OF st(1)] unfolding records_read_Cons[of l ls] polls_Cons[of l ls] by auto
qed simp

lemma dw_progress:
  assumes "\<not> dw_ended pc"
  shows "\<exists>l c. l \<noteq> Dw_Signal \<and> dw_step fnm h (pc, dw, w) l c"
proof -
  have own: "dw_step fnm h (pc, dw, w) l c \<Longrightarrow> l \<noteq> Dw_Signal \<Longrightarrow> \<exists>l c. l \<noteq> Dw_Signal \<and> dw_step fnm h (pc, dw, w) l c" for l c
    by blast
  show ?thesis
  proof (cases pc)
    case Dw_Test
    show ?thesis unfolding Dw_Test
      by (cases "dw_listen dw") (rule own[unfolded Dw_Test, OF dw_test_true] own[unfolded Dw_Test, OF dw_test_false]; simp)+
  next
    case Dw_Poll
    show ?thesis unfolding Dw_Poll by (rule own[unfolded Dw_Poll, OF dw_poll_returns]) simp
  next
    case (Dw_Polled n)
    note own' = own[unfolded Dw_Polled]
    consider "n = 0" | "n < 0" | "0 < n" by linarith
    then show ?thesis unfolding Dw_Polled
    proof cases
      case 1
      show "\<exists>l c. l \<noteq> Dw_Signal \<and> dw_step fnm h (Dw_Polled n, dw, w) l c"
        unfolding 1 by (rule own'[unfolded 1, OF dw_timeout]) simp
    qed (rule own'[OF dw_poll_error] own'[OF dw_reads]; simp)+
  next
    case (Dw_Events es)
    note own' = own[unfolded Dw_Events]
    show ?thesis unfolding Dw_Events
    proof (cases es)
      case Nil
      show "\<exists>l c. l \<noteq> Dw_Signal \<and> dw_step fnm h (Dw_Events es, dw, w) l c"
        unfolding Nil by (rule own'[unfolded Nil, OF dw_no_event]) simp
    next
      case (Cons e es')
      show "\<exists>l c. l \<noteq> Dw_Signal \<and> dw_step fnm h (Dw_Events es, dw, w) l c" unfolding Cons
        by (cases "on_create fnm dw e") (rule own'[unfolded Cons, OF dw_created] own'[unfolded Cons, OF dw_create_fails]; simp)+
    qed
  next
    case (Dw_Close e es)
    note own' = own[unfolded Dw_Close]
    show ?thesis unfolding Dw_Close
    proof (cases "on_close h dw e w")
      case (Inr p)
      then have "on_close h dw e w = Inr (fst p, snd p)" by simp
      from own'[OF dw_closed[OF this]] show "\<exists>l c. l \<noteq> Dw_Signal \<and> dw_step fnm h (Dw_Close e es, dw, w) l c" by simp
    qed (rule own'[OF dw_close_fails]; simp)
  qed (use assms in \<open>simp_all add: dw_ended_def\<close>)
qed

section \<open>Properties\<close>

text \<open>
  C9: Interleavings of the listener. A run of single steps of \<open>dirwatch_listen\<close>, with the signal handler
  between any two of them, ends with a result after certain answers of \<open>poll\<close> and \<open>read\<close> exactly if
  the loop of turns does, on a list of turns with the same answers that it uses up; or if the
  request comes between the entry and the first test of the loop, when nothing is awaited.
\<close>

theorem dw_interleavings_are_turns:
  "dw_session fnm h dw w ins r \<longleftrightarrow>
     ins = [] \<and> r = Inr (dirwatch_stop dw, w) \<or>
     (\<exists>es. turns_inputs es = ins \<and> dirwatch_listen fnm h dw w es = Some r \<and> takes_all fnm h dw w es)"
proof -
  let ?dw = "dw\<lparr>dw_listen := True\<rparr>"
  have "dw_session fnm h dw w ins r \<longleftrightarrow> (\<exists>b es. ins = turns_inputs es \<and> dw_exactly fnm h (dw_signal b ?dw) w es r)"
  proof
    assume "dw_session fnm h dw w ins r"
    then show "\<exists>b es. ins = turns_inputs es \<and> dw_exactly fnm h (dw_signal b ?dw) w es r"
      unfolding dw_session_def using dw_rest_run dw_result_rest by fastforce
  next
    assume "\<exists>b es. ins = turns_inputs es \<and> dw_exactly fnm h (dw_signal b ?dw) w es r"
    then obtain b es where b: "ins = turns_inputs es" "dw_exactly fnm h (dw_signal b ?dw) w es r" by blast
    have "reaches fnm h (Dw_Test, ?dw, w) ins r Dw_Exited"
      using loop_reaches[OF b(2)] unfolding b(1) by (intro reaches_signal[where b = b and dw = ?dw]) (simp add: dw_ended_def)
    then show "dw_session fnm h dw w ins r" unfolding reaches_def dw_session_def dw_result_config .
  qed
  also have "\<dots> \<longleftrightarrow> (\<exists>es. ins = turns_inputs es \<and> dw_exactly fnm h (dirwatch_stop ?dw) w es r) \<or>
      (\<exists>es. ins = turns_inputs es \<and> dw_exactly fnm h ?dw w es r)"
    by (metis (full_types) dw_signal_stop(2,3))
  also have "(\<exists>es. ins = turns_inputs es \<and> dw_exactly fnm h (dirwatch_stop ?dw) w es r) \<longleftrightarrow> ins = [] \<and> r = Inr (dirwatch_stop dw, w)"
  proof -
    have s: "dirwatch_stop ?dw = dirwatch_stop dw" "\<not> dw_listen (dirwatch_stop dw)" by (simp_all add: dirwatch_stop_def)
    then have "dw_exactly fnm h (dirwatch_stop ?dw) w es r \<longleftrightarrow> es = [] \<and> r = Inr (dirwatch_stop dw, w)" for es
      by (cases es) auto
    then show ?thesis by auto
  qed
  finally show ?thesis unfolding dw_exactly_iff takes_all_def dirwatch_listen_def by auto
qed

text \<open>
  C15: Stop requests to the listener. From whatever point a request arrives at, the listener stays stopped,
  and it makes a bounded number of further steps: it waits for \<open>poll\<close> only if the request fell between
  the test of the loop and the call, works off the records that were read, and never gets stuck before its end.
\<close>

theorem dw_stop_request_obeyed:
  assumes "dw_run fnm h (pc, dw, w) (Dw_Signal # ls) (pc', dw', w')"
  shows "\<not> dw_listen dw' \<and> own_steps ls \<le> dw_left pc + 2 * records_read ls \<and> polls ls \<le> dw_waits pc \<and>
    (dw_ended pc' \<or> (\<exists>l c. l \<noteq> Dw_Signal \<and> dw_step fnm h (pc', dw', w') l c))"
proof -
  have run: "dw_run fnm h (pc, dirwatch_stop dw, w) ls (pc', dw', w')"
    using assms by (cases rule: dw_run.cases) (auto elim: dw_stepE)
  have "\<not> dw_listen (dirwatch_stop dw)" by (simp add: dirwatch_stop_def)
  then show ?thesis using dw_stopped_run[OF run] dw_progress[of pc' fnm h dw' w'] by auto
qed

text \<open>
  The request falls between the test and \<open>poll\<close>, which then answers that a file was closed: the file is
  still handed over.
\<close>

theorem dw_stop_request_obeyed_witness:
  "\<exists>dw ls dw'. dw_run (\<lambda>f n. True) (\<lambda>w d f. Inr (w @ [f])) (Dw_Poll, dw, []) (Dw_Signal # ls) (Dw_Exited, dw', [''a'']) \<and>
     dw_listen dw \<and> \<not> dw_listen dw' \<and> own_steps ls = 6 \<and> own_steps ls \<le> dw_left Dw_Poll + 2 * records_read ls \<and> polls ls \<le> 1"
proof -
  let ?h = "\<lambda>w d f. Inr (w @ [f])" and ?f = "\<lambda>f n :: string. True"
  let ?dw = "\<lambda>p b. \<lparr>dw_fd = 3, watchdirs = [\<lparr>wd = 1, wd_dirname = Live ''in'', file_filter = Live ''*'', watchfiles = [p]\<rparr>],
      dw_listen = b\<rparr>"
  let ?e = "close_event 1 ''a''"
  let ?ls = "[Dw_Poll_Returns 1, Dw_Reads [?e], Dw_Tau, Dw_Tau, Dw_Tau, Dw_Tau]"
  have e: "ie_mask ?e AND IN_CREATE = 0" "ie_mask ?e AND IN_CLOSE_WRITE \<noteq> 0" "ie_wd ?e = 1" "ie_name ?e = ''a''"
    using create_only by (simp_all add: close_event_def)
  have create: "on_create ?f (?dw (Live ''a'') False) ?e = Inr (?dw (Live ''a'') False)"
    by (simp add: on_create_def e)
  have close: "on_close ?h (?dw (Live ''a'') False) ?e [] = Inr (?dw Null False, [''a''])"
    by (simp add: on_close_def e find_watchdir_def find_by_wd_def upd_watchdir_def)
  have request: "dw_step ?f ?h (Dw_Poll, ?dw (Live ''a'') True, []) Dw_Signal (Dw_Poll, ?dw (Live ''a'') False, [])"
    using dw_signal_step[of Dw_Poll ?f ?h "?dw (Live ''a'') True" "[]"] by (simp add: dw_ended_def dirwatch_stop_def)
  have test: "\<not> dw_listen (?dw Null False)" and one: "0 < (1 :: int)" by simp_all
  have run: "dw_run ?f ?h (Dw_Poll, ?dw (Live ''a'') True, []) (Dw_Signal # ?ls) (Dw_Exited, ?dw Null False, [''a''])"
    by (rule dw_run_Cons[OF request dw_run_Cons[OF dw_poll_returns dw_run_Cons[OF dw_reads[OF one] dw_run_Cons[OF
      dw_created[OF create] dw_run_Cons[OF dw_closed[OF close] dw_run_Cons[OF dw_no_event dw_run_Cons[OF
      dw_test_false[OF test] dw_run_Nil]]]]]]])
  show ?thesis using dw_stop_request_obeyed[OF run] run
    by (intro exI[of _ "?dw (Live ''a'') True"] exI[of _ ?ls] exI[of _ "?dw Null False"]) simp
qed

end
