(* ===== verification/Cli.thy ===== *)
theory Cli imports Dxwifi begin

text \<open>
  The pieces of the C library the two command lines use: \<open>atoi\<close>, the conversion \<open>%hhx\<close> of
  \<open>sscanf\<close>, and argp's keys. A parser answers 0 or \<open>ARGP_ERR_UNKNOWN\<close>, or ends the program
  through \<open>argp_usage\<close> or \<open>argp_error\<close>.
\<close>

unbundle bit_operations_syntax

datatype 'a argp_result = Parsed 'a | Unknown_Key 'a | Usage_Exit

definition ARGP_KEY_ARG :: int where "ARGP_KEY_ARG = 0"
definition ARGP_KEY_END :: int where "ARGP_KEY_END = 0x1000001"
definition ARGP_KEY_INIT :: int where "ARGP_KEY_INIT = 0x1000003"

definition GET_KEY :: "int \<Rightarrow> int \<Rightarrow> int" where "GET_KEY x grp = x + grp"

definition key_char :: "char \<Rightarrow> int" where "key_char c = int (of_char c)"

subsection \<open>Numbers\<close>

definition is_space :: "char \<Rightarrow> bool" where
  "is_space c \<longleftrightarrow> c = CHR '' '' \<or> (of_char c :: nat) \<in> {9, 10, 11, 12, 13}"

definition is_digit :: "char \<Rightarrow> bool" where
  "is_digit c \<longleftrightarrow> 48 \<le> (of_char c :: nat) \<and> (of_char c :: nat) \<le> 57"

definition digit_value :: "char \<Rightarrow> int" where
  "digit_value c = int (of_char c) - 48"

definition digits_value :: "string \<Rightarrow> int" where
  "digits_value s = foldl (\<lambda>v c. v * 10 + digit_value c) 0 s"

text \<open>
  \<open>atoi\<close>: white space, a sign, digits; what follows is ignored and no digits give 0. The value is
  that of \<open>strtol\<close>, which saturates at the range of a \<open>long\<close>, converted to \<open>int\<close>.
\<close>

definition c_strtol :: "string \<Rightarrow> int" where
  "c_strtol s =
     (let s = dropWhile is_space s;
          neg = (s \<noteq> [] \<and> hd s = CHR ''-'');
          s = (if s \<noteq> [] \<and> (hd s = CHR ''-'' \<or> hd s = CHR ''+'') then tl s else s);
          v = digits_value (takeWhile is_digit s);
          v = (if neg then - v else v)
      in max (- (2 ^ 63)) (min (2 ^ 63 - 1) v))"

definition c_atoi :: "string \<Rightarrow> int" where
  "c_atoi s = sint (word_of_int (c_strtol s) :: u32)"

text \<open>Conversions of an \<open>int\<close> when it is stored.\<close>

definition to_unsigned :: "int \<Rightarrow> u32" where "to_unsigned i = word_of_int i"
definition to_size :: "int \<Rightarrow> nat" where "to_size i = unat (word_of_int i :: size_t)"
definition to_byte :: "int \<Rightarrow> byte" where "to_byte i = word_of_int i"

subsection \<open>Hexadecimal octets\<close>

definition hex_value :: "char \<Rightarrow> nat option" where
  "hex_value c =
     (let n = of_char c :: nat in
      if 48 \<le> n \<and> n \<le> 57 then Some (n - 48)
      else if 97 \<le> n \<and> n \<le> 102 then Some (n - 87)
      else if 65 \<le> n \<and> n \<le> 70 then Some (n - 55) else None)"

fun scan_digits :: "nat \<Rightarrow> string \<Rightarrow> nat \<times> string" where
  "scan_digits v [] = (v, [])"
| "scan_digits v (c # cs) =
     (case hex_value c of None \<Rightarrow> (v, c # cs) | Some d \<Rightarrow> scan_digits (16 * v + d) cs)"

text \<open>
  \<open>%hhx\<close>: white space, a sign, an optional \<open>0x\<close> and at least one digit; the value is stored in
  an \<open>unsigned char\<close>.
\<close>

definition scan_hhx :: "string \<Rightarrow> (byte \<times> string) option" where
  "scan_hhx s =
     (let s = dropWhile is_space s;
          neg = (s \<noteq> [] \<and> hd s = CHR ''-'');
          s = (if s \<noteq> [] \<and> (hd s = CHR ''-'' \<or> hd s = CHR ''+'') then tl s else s);
          s = (if take 2 s = ''0x'' \<or> take 2 s = ''0X'' then drop 2 s else s)
      in case s of [] \<Rightarrow> None
         | c # cs \<Rightarrow> (case hex_value c of None \<Rightarrow> None
             | Some d \<Rightarrow> let (v, r) = scan_digits d cs in
                 Some (if neg then - of_nat v else of_nat v, r)))"

text \<open>The format \<open>%hhx:%hhx: \<dots>\<close> with \<open>n\<close> conversions.\<close>

fun scan_octets :: "nat \<Rightarrow> string \<Rightarrow> byte list option" where
  "scan_octets 0 s = Some []"
| "scan_octets (Suc n) s =
     (case scan_hhx s of None \<Rightarrow> None
      | Some (b, r) \<Rightarrow>
          if n = 0 then Some [b]
          else (case r of [] \<Rightarrow> None
                | c # cs \<Rightarrow> if c = CHR '':'' then map_option ((#) b) (scan_octets n cs) else None))"

definition parse_mac_address :: "string \<Rightarrow> byte list option" where
  "parse_mac_address arg = scan_octets 6 arg"

subsection \<open>Printing and parsing\<close>

definition hex_char :: "nat \<Rightarrow> char" where
  "hex_char d = (if d < 10 then char_of (48 + d) else char_of (87 + d))"

definition show_octet :: "byte \<Rightarrow> string" where
  "show_octet b = [hex_char (unat b div 16), hex_char (unat b mod 16)]"

fun show_octets :: "byte list \<Rightarrow> string" where
  "show_octets [] = []"
| "show_octets [b] = show_octet b"
| "show_octets (b # bs) = show_octet b @ '':'' @ show_octets bs"

lemma of_char_hex: "d < 16 \<Longrightarrow> (of_char (hex_char d) :: nat) = (if d < 10 then 48 + d else 87 + d)"
  by (simp add: hex_char_def)

lemma hex_value_hex_char: "d < 16 \<Longrightarrow> hex_value (hex_char d) = Some d"
  by (auto simp: hex_value_def of_char_hex Let_def)

lemma hex_char_plain:
  "d < 16 \<Longrightarrow> \<not> is_space (hex_char d) \<and> hex_char d \<noteq> CHR ''-'' \<and> hex_char d \<noteq> CHR ''+'' \<and>
     hex_char d \<noteq> CHR ''x'' \<and> hex_char d \<noteq> CHR ''X''"
proof -
  assume d: "d < 16"
  have "hex_char d \<noteq> c" if "(of_char c :: nat) < 48 \<or> 102 < (of_char c :: nat) \<or> (of_char c :: nat) = 88" for c
    using of_char_hex[OF d] that d by (auto split: if_splits)
  then show ?thesis using of_char_hex[OF d] d by (auto simp: is_space_def split: if_splits)
qed

lemma scan_hhx_octet:
  assumes "r = [] \<or> hd r = CHR '':''"
  shows "scan_hhx (show_octet b @ r) = Some (b, r)"
proof -
  let ?hi = "unat b div 16" and ?lo = "unat b mod 16"
  have b: "unat b < 256" using unsigned_less[of b] by simp
  then have hi: "?hi < 16" and lo: "?lo < 16" by simp_all
  have r: "scan_digits v r = (v, r)" for v
    using assms by (cases r) (auto simp: hex_value_def Let_def)
  have "of_nat (16 * ?hi + ?lo) = b" by (simp add: mult.commute)
  then show ?thesis
    using hex_char_plain[OF hi] hex_char_plain[OF lo] r
    by (simp add: scan_hhx_def show_octet_def Let_def hex_value_hex_char[OF hi] hex_value_hex_char[OF lo])
qed

lemma scan_show: "bs \<noteq> [] \<Longrightarrow> scan_octets (length bs) (show_octets bs) = Some bs"
proof (induction bs rule: show_octets.induct)
  case (2 b)
  then show ?case using scan_hhx_octet[of "[]" b] by simp
next
  case (3 b c bs)
  then show ?case using scan_hhx_octet[of "CHR '':'' # show_octets (c # bs)" b] by simp
qed simp

end
