(* ===== verification/Ieee80211.thy ===== *)
theory Ieee80211
  imports Prelude
begin

text \<open>
  \<open>libdxwifi/details/ieee80211.h\<close>: sizes, the MAC header and the radiotap header with their
  packed layout in memory, the frame control enumerations and the bit masks. A C enumeration
  is a datatype together with the function that gives the values of its constants.
\<close>

definition IEEE80211_MTU_MAX_LEN :: nat where [wire_defs]: "IEEE80211_MTU_MAX_LEN = 2304"
definition IEEE80211_MAC_ADDR_LEN :: nat where [wire_defs]: "IEEE80211_MAC_ADDR_LEN = 6"
definition IEEE80211_FCS_SIZE :: nat where [wire_defs]: "IEEE80211_FCS_SIZE = 4"
definition IEEE80211_PROTOCOL_VERSION :: byte where "IEEE80211_PROTOCOL_VERSION = 0"
definition IEEE80211_RADIOTAP_MAJOR_VERSION :: byte where "IEEE80211_RADIOTAP_MAJOR_VERSION = 0"

subsection \<open>The MAC header\<close>

record ieee80211_hdr =
  frame_control :: u16
  duration_id :: u16
  addr1 :: "byte list"
  addr2 :: "byte list"
  addr3 :: "byte list"
  seq_ctrl :: u16

definition mac_wf :: "ieee80211_hdr \<Rightarrow> bool" where
  "mac_wf h \<longleftrightarrow> length (addr1 h) = IEEE80211_MAC_ADDR_LEN \<and>
     length (addr2 h) = IEEE80211_MAC_ADDR_LEN \<and> length (addr3 h) = IEEE80211_MAC_ADDR_LEN"

text \<open>The packed struct as it lies in memory.\<close>

definition mac_bytes :: "ieee80211_hdr \<Rightarrow> byte list" where
  "mac_bytes h = le16_bytes (frame_control h) @ le16_bytes (duration_id h) @
     addr1 h @ addr2 h @ addr3 h @ le16_bytes (seq_ctrl h)"

definition IEEE80211_HDR_SIZE :: nat where [wire_defs]: "IEEE80211_HDR_SIZE = 24"

lemma length_mac_bytes [simp]: "mac_wf h \<Longrightarrow> length (mac_bytes h) = IEEE80211_HDR_SIZE"
  by (simp add: mac_bytes_def mac_wf_def wire_defs)

subsection \<open>The radiotap header\<close>

record ieee80211_radiotap_hdr =
  it_version :: byte
  it_pad :: byte
  it_len :: u16
  it_present :: u32

definition radiotap_bytes :: "ieee80211_radiotap_hdr \<Rightarrow> byte list" where
  "radiotap_bytes h =
     [it_version h, it_pad h] @ le16_bytes (it_len h) @ le32_bytes (it_present h)"

lemma length_radiotap_bytes [simp]: "length (radiotap_bytes h) = 8"
  by (simp add: radiotap_bytes_def)

subsection \<open>Frame control\<close>

datatype ieee80211_fctl_type =
  IEEE80211_FTYPE_MGMT | IEEE80211_FTYPE_CTL | IEEE80211_FTYPE_DATA | IEEE80211_FTYPE_EXT

fun fctl_type_value :: "ieee80211_fctl_type \<Rightarrow> u16" where
  "fctl_type_value IEEE80211_FTYPE_MGMT = 0x00"
| "fctl_type_value IEEE80211_FTYPE_CTL = 0x04"
| "fctl_type_value IEEE80211_FTYPE_DATA = 0x08"
| "fctl_type_value IEEE80211_FTYPE_EXT = 0x0c"

datatype ieee80211_fctl_management_stype =
    IEEE80211_STYPE_ASSOC_REQ | IEEE80211_STYPE_ASSOC_RESP | IEEE80211_STYPE_REASSOC_REQ
  | IEEE80211_STYPE_REASSOC_RESP | IEEE80211_STYPE_PROBE_REQ | IEEE80211_STYPE_PROBE_RESP
  | IEEE80211_STYPE_BEACON | IEEE80211_STYPE_ATIM | IEEE80211_STYPE_DISASSOC
  | IEEE80211_STYPE_AUTH | IEEE80211_STYPE_DEAUTH | IEEE80211_STYPE_ACTION

fun management_stype_value :: "ieee80211_fctl_management_stype \<Rightarrow> u16" where
  "management_stype_value IEEE80211_STYPE_ASSOC_REQ = 0x0000"
| "management_stype_value IEEE80211_STYPE_ASSOC_RESP = 0x0010"
| "management_stype_value IEEE80211_STYPE_REASSOC_REQ = 0x0020"
| "management_stype_value IEEE80211_STYPE_REASSOC_RESP = 0x0030"
| "management_stype_value IEEE80211_STYPE_PROBE_REQ = 0x0040"
| "management_stype_value IEEE80211_STYPE_PROBE_RESP = 0x0050"
| "management_stype_value IEEE80211_STYPE_BEACON = 0x0080"
| "management_stype_value IEEE80211_STYPE_ATIM = 0x0090"
| "management_stype_value IEEE80211_STYPE_DISASSOC = 0x00A0"
| "management_stype_value IEEE80211_STYPE_AUTH = 0x00B0"
| "management_stype_value IEEE80211_STYPE_DEAUTH = 0x00C0"
| "management_stype_value IEEE80211_STYPE_ACTION = 0x00D0"

datatype ieee80211_fctl_control_stype =
    IEEE80211_STYPE_CTL_EXT | IEEE80211_STYPE_BACK_REQ | IEEE80211_STYPE_BACK
  | IEEE80211_STYPE_PSPOLL | IEEE80211_STYPE_RTS | IEEE80211_STYPE_CTS | IEEE80211_STYPE_ACK
  | IEEE80211_STYPE_CFEND | IEEE80211_STYPE_CFENDACK

fun control_stype_value :: "ieee80211_fctl_control_stype \<Rightarrow> u16" where
  "control_stype_value IEEE80211_STYPE_CTL_EXT = 0x0060"
| "control_stype_value IEEE80211_STYPE_BACK_REQ = 0x0080"
| "control_stype_value IEEE80211_STYPE_BACK = 0x0090"
| "control_stype_value IEEE80211_STYPE_PSPOLL = 0x00A0"
| "control_stype_value IEEE80211_STYPE_RTS = 0x00B0"
| "control_stype_value IEEE80211_STYPE_CTS = 0x00C0"
| "control_stype_value IEEE80211_STYPE_ACK = 0x00D0"
| "control_stype_value IEEE80211_STYPE_CFEND = 0x00E0"
| "control_stype_value IEEE80211_STYPE_CFENDACK = 0x00F0"

datatype ieee80211_fctl_data_stype =
    IEEE80211_STYPE_DATA | IEEE80211_STYPE_DATA_CFACK | IEEE80211_STYPE_DATA_CFPOLL
  | IEEE80211_STYPE_DATA_CFACKPOLL | IEEE80211_STYPE_NULLFUNC | IEEE80211_STYPE_CFACK
  | IEEE80211_STYPE_CFPOLL | IEEE80211_STYPE_CFACKPOLL | IEEE80211_STYPE_QOS_DATA
  | IEEE80211_STYPE_QOS_DATA_CFACK | IEEE80211_STYPE_QOS_DATA_CFPOLL
  | IEEE80211_STYPE_QOS_DATA_CFACKPOLL | IEEE80211_STYPE_QOS_NULLFUNC
  | IEEE80211_STYPE_QOS_CFACK | IEEE80211_STYPE_QOS_CFPOLL | IEEE80211_STYPE_QOS_CFACKPOLL

fun data_stype_value :: "ieee80211_fctl_data_stype \<Rightarrow> u16" where
  "data_stype_value IEEE80211_STYPE_DATA = 0x0000"
| "data_stype_value IEEE80211_STYPE_DATA_CFACK = 0x0010"
| "data_stype_value IEEE80211_STYPE_DATA_CFPOLL = 0x0020"
| "data_stype_value IEEE80211_STYPE_DATA_CFACKPOLL = 0x0030"
| "data_stype_value IEEE80211_STYPE_NULLFUNC = 0x0040"
| "data_stype_value IEEE80211_STYPE_CFACK = 0x0050"
| "data_stype_value IEEE80211_STYPE_CFPOLL = 0x0060"
| "data_stype_value IEEE80211_STYPE_CFACKPOLL = 0x0070"
| "data_stype_value IEEE80211_STYPE_QOS_DATA = 0x0080"
| "data_stype_value IEEE80211_STYPE_QOS_DATA_CFACK = 0x0090"
| "data_stype_value IEEE80211_STYPE_QOS_DATA_CFPOLL = 0x00A0"
| "data_stype_value IEEE80211_STYPE_QOS_DATA_CFACKPOLL = 0x00B0"
| "data_stype_value IEEE80211_STYPE_QOS_NULLFUNC = 0x00C0"
| "data_stype_value IEEE80211_STYPE_QOS_CFACK = 0x00D0"
| "data_stype_value IEEE80211_STYPE_QOS_CFPOLL = 0x00E0"
| "data_stype_value IEEE80211_STYPE_QOS_CFACKPOLL = 0x00F0"

text \<open>The union \<open>stype\<close>; whichever member was written, \<open>stype.data\<close> reads its value.\<close>

datatype fctl_stype =
    Management ieee80211_fctl_management_stype
  | Control ieee80211_fctl_control_stype
  | Data ieee80211_fctl_data_stype

fun stype_data :: "fctl_stype \<Rightarrow> u16" where
  "stype_data (Management s) = management_stype_value s"
| "stype_data (Control s) = control_stype_value s"
| "stype_data (Data s) = data_stype_value s"

record ieee80211_frame_control =
  protocol_version :: byte
  fc_type :: ieee80211_fctl_type
  stype :: fctl_stype
  to_ds :: bool
  from_ds :: bool
  more_frag :: bool
  retry :: bool
  power_mgmt :: bool
  more_data :: bool
  wep :: bool
  order :: bool

datatype ieee80211_fctl_mask =
    IEEE80211_FCTL_VERS | IEEE80211_FCTL_FTYPE | IEEE80211_FCTL_STYPE | IEEE80211_FCTL_TODS
  | IEEE80211_FCTL_FROMDS | IEEE80211_FCTL_MOREFRAGS | IEEE80211_FCTL_RETRY | IEEE80211_FCTL_PM
  | IEEE80211_FCTL_MOREDATA | IEEE80211_FCTL_PROTECTED | IEEE80211_FCTL_ORDER
  | IEEE80211_FCTL_CTL_EXT

fun fctl_mask :: "ieee80211_fctl_mask \<Rightarrow> u16" where
  "fctl_mask IEEE80211_FCTL_VERS = 0x0003"
| "fctl_mask IEEE80211_FCTL_FTYPE = 0x000c"
| "fctl_mask IEEE80211_FCTL_STYPE = 0x00f0"
| "fctl_mask IEEE80211_FCTL_TODS = 0x0100"
| "fctl_mask IEEE80211_FCTL_FROMDS = 0x0200"
| "fctl_mask IEEE80211_FCTL_MOREFRAGS = 0x0400"
| "fctl_mask IEEE80211_FCTL_RETRY = 0x0800"
| "fctl_mask IEEE80211_FCTL_PM = 0x1000"
| "fctl_mask IEEE80211_FCTL_MOREDATA = 0x2000"
| "fctl_mask IEEE80211_FCTL_PROTECTED = 0x4000"
| "fctl_mask IEEE80211_FCTL_ORDER = 0x8000"
| "fctl_mask IEEE80211_FCTL_CTL_EXT = 0x0f00"

lemma fctl_type_in_mask:
  "fctl_type_value t AND fctl_mask IEEE80211_FCTL_FTYPE = fctl_type_value t"
  by (cases t) simp_all

lemma stype_in_mask: "stype_data s AND fctl_mask IEEE80211_FCTL_STYPE = stype_data s"
proof (cases s)
  case (Management x) then show ?thesis by (cases x) simp_all
next
  case (Control x) then show ?thesis by (cases x) simp_all
next
  case (Data x) then show ?thesis by (cases x) simp_all
qed

subsection \<open>Radiotap bits\<close>

text \<open>The fields of a radiotap header, with the bit of \<open>it_present\<close> that announces each.\<close>

datatype ieee80211_radiotap_presence =
    IEEE80211_RADIOTAP_TSFT | IEEE80211_RADIOTAP_FLAGS | IEEE80211_RADIOTAP_RATE
  | IEEE80211_RADIOTAP_CHANNEL | IEEE80211_RADIOTAP_FHSS | IEEE80211_RADIOTAP_DBM_ANTSIGNAL
  | IEEE80211_RADIOTAP_DBM_ANTNOISE | IEEE80211_RADIOTAP_LOCK_QUALITY
  | IEEE80211_RADIOTAP_TX_ATTENUATION | IEEE80211_RADIOTAP_DB_TX_ATTENUATION
  | IEEE80211_RADIOTAP_DBM_TX_POWER | IEEE80211_RADIOTAP_ANTENNA | IEEE80211_RADIOTAP_DB_ANTSIGNAL
  | IEEE80211_RADIOTAP_DB_ANTNOISE | IEEE80211_RADIOTAP_RX_FLAGS | IEEE80211_RADIOTAP_TX_FLAGS
  | IEEE80211_RADIOTAP_RTS_RETRIES | IEEE80211_RADIOTAP_DATA_RETRIES | IEEE80211_RADIOTAP_MCS
  | IEEE80211_RADIOTAP_AMPDU_STATUS | IEEE80211_RADIOTAP_VHT | IEEE80211_RADIOTAP_TIMESTAMP
  | IEEE80211_RADIOTAP_HE | IEEE80211_RADIOTAP_HE_MU | IEEE80211_RADIOTAP_ZERO_LEN_PSDU
  | IEEE80211_RADIOTAP_LSIG | IEEE80211_RADIOTAP_RADIOTAP_NAMESPACE
  | IEEE80211_RADIOTAP_VENDOR_NAMESPACE | IEEE80211_RADIOTAP_EXT

primrec radiotap_presence :: "ieee80211_radiotap_presence \<Rightarrow> nat" where
  "radiotap_presence IEEE80211_RADIOTAP_TSFT = 0"
| "radiotap_presence IEEE80211_RADIOTAP_FLAGS = 1"
| "radiotap_presence IEEE80211_RADIOTAP_RATE = 2"
| "radiotap_presence IEEE80211_RADIOTAP_CHANNEL = 3"
| "radiotap_presence IEEE80211_RADIOTAP_FHSS = 4"
| "radiotap_presence IEEE80211_RADIOTAP_DBM_ANTSIGNAL = 5"
| "radiotap_presence IEEE80211_RADIOTAP_DBM_ANTNOISE = 6"
| "radiotap_presence IEEE80211_RADIOTAP_LOCK_QUALITY = 7"
| "radiotap_presence IEEE80211_RADIOTAP_TX_ATTENUATION = 8"
| "radiotap_presence IEEE80211_RADIOTAP_DB_TX_ATTENUATION = 9"
| "radiotap_presence IEEE80211_RADIOTAP_DBM_TX_POWER = 10"
| "radiotap_presence IEEE80211_RADIOTAP_ANTENNA = 11"
| "radiotap_presence IEEE80211_RADIOTAP_DB_ANTSIGNAL = 12"
| "radiotap_presence IEEE80211_RADIOTAP_DB_ANTNOISE = 13"
| "radiotap_presence IEEE80211_RADIOTAP_RX_FLAGS = 14"
| "radiotap_presence IEEE80211_RADIOTAP_TX_FLAGS = 15"
| "radiotap_presence IEEE80211_RADIOTAP_RTS_RETRIES = 16"
| "radiotap_presence IEEE80211_RADIOTAP_DATA_RETRIES = 17"
| "radiotap_presence IEEE80211_RADIOTAP_MCS = 19"
| "radiotap_presence IEEE80211_RADIOTAP_AMPDU_STATUS = 20"
| "radiotap_presence IEEE80211_RADIOTAP_VHT = 21"
| "radiotap_presence IEEE80211_RADIOTAP_TIMESTAMP = 22"
| "radiotap_presence IEEE80211_RADIOTAP_HE = 23"
| "radiotap_presence IEEE80211_RADIOTAP_HE_MU = 24"
| "radiotap_presence IEEE80211_RADIOTAP_ZERO_LEN_PSDU = 26"
| "radiotap_presence IEEE80211_RADIOTAP_LSIG = 27"
| "radiotap_presence IEEE80211_RADIOTAP_RADIOTAP_NAMESPACE = 29"
| "radiotap_presence IEEE80211_RADIOTAP_VENDOR_NAMESPACE = 30"
| "radiotap_presence IEEE80211_RADIOTAP_EXT = 31"

datatype ieee80211_radiotap_flag =
    IEEE80211_RADIOTAP_F_CFP | IEEE80211_RADIOTAP_F_SHORTPRE | IEEE80211_RADIOTAP_F_WEP
  | IEEE80211_RADIOTAP_F_FRAG | IEEE80211_RADIOTAP_F_FCS | IEEE80211_RADIOTAP_F_DATAPAD
  | IEEE80211_RADIOTAP_F_BADFCS

fun radiotap_flag :: "ieee80211_radiotap_flag \<Rightarrow> byte" where
  "radiotap_flag IEEE80211_RADIOTAP_F_CFP = 0x01"
| "radiotap_flag IEEE80211_RADIOTAP_F_SHORTPRE = 0x02"
| "radiotap_flag IEEE80211_RADIOTAP_F_WEP = 0x04"
| "radiotap_flag IEEE80211_RADIOTAP_F_FRAG = 0x08"
| "radiotap_flag IEEE80211_RADIOTAP_F_FCS = 0x10"
| "radiotap_flag IEEE80211_RADIOTAP_F_DATAPAD = 0x20"
| "radiotap_flag IEEE80211_RADIOTAP_F_BADFCS = 0x40"

datatype ieee80211_radiotap_tx_flag =
    IEEE80211_RADIOTAP_F_TX_FAIL | IEEE80211_RADIOTAP_F_TX_CTS | IEEE80211_RADIOTAP_F_TX_RTS
  | IEEE80211_RADIOTAP_F_TX_NOACK | IEEE80211_RADIOTAP_F_TX_NOSEQNO
  | IEEE80211_RADIOTAP_F_TX_ORDER

fun radiotap_tx_flag :: "ieee80211_radiotap_tx_flag \<Rightarrow> u16" where
  "radiotap_tx_flag IEEE80211_RADIOTAP_F_TX_FAIL = 0x0001"
| "radiotap_tx_flag IEEE80211_RADIOTAP_F_TX_CTS = 0x0002"
| "radiotap_tx_flag IEEE80211_RADIOTAP_F_TX_RTS = 0x0004"
| "radiotap_tx_flag IEEE80211_RADIOTAP_F_TX_NOACK = 0x0008"
| "radiotap_tx_flag IEEE80211_RADIOTAP_F_TX_NOSEQNO = 0x0010"
| "radiotap_tx_flag IEEE80211_RADIOTAP_F_TX_ORDER = 0x0020"

end
