(* ===== verification/Transmitter.thy ===== *)
theory Transmitter
  imports Utils Ieee80211
begin

text \<open>
  \<open>libdxwifi/transmitter.h\<close> and \<open>transmitter.c\<close>: building the frame, the handler pipelines,
  injection, control frames and the transmission loop.

  The data frame is one array of \<open>IEEE80211_MTU_MAX_LEN\<close> bytes that the packed headers and the
  payload overlay without gaps; the model keeps the overlay (\<open>tx_frame\<close>) and gives the array as
  \<open>frame_bytes\<close>. What pcap, \<open>poll\<close> and \<open>read\<close> answer is an argument: the return value of
  each injection, and one \<open>tx_event\<close> per turn of the transmission loop, which also says at which
  points a signal handler ran \<open>stop_transmission\<close>. The frames handed to pcap are recorded in
  order. Log statements have no effect on this state; their texts are in \<open>Messages\<close>.
\<close>

subsection \<open>Data\<close>

record dxwifi_tx_radiotap_hdr =
  rtap_base :: ieee80211_radiotap_hdr
  rtap_hdr_flags :: byte
  rtap_hdr_rate :: byte
  rtap_hdr_tx_flags :: u16

definition tx_radiotap_bytes :: "dxwifi_tx_radiotap_hdr \<Rightarrow> byte list" where
  "tx_radiotap_bytes h = radiotap_bytes (rtap_base h) @
     [rtap_hdr_flags h, rtap_hdr_rate h] @ le16_bytes (rtap_hdr_tx_flags h)"

definition TX_RADIOTAP_HDR_SIZE :: nat where [wire_defs]: "TX_RADIOTAP_HDR_SIZE = 12"

lemma length_tx_radiotap_bytes [simp]: "length (tx_radiotap_bytes h) = TX_RADIOTAP_HDR_SIZE"
  by (simp add: tx_radiotap_bytes_def wire_defs)

definition DXWIFI_TX_HEADER_SIZE :: nat where [wire_defs]:
  "DXWIFI_TX_HEADER_SIZE = TX_RADIOTAP_HDR_SIZE + IEEE80211_HDR_SIZE"

definition DXWIFI_TX_FRAME_SIZE_MAX :: nat where [wire_defs]:
  "DXWIFI_TX_FRAME_SIZE_MAX = IEEE80211_MTU_MAX_LEN"

definition DXWIFI_TX_PAYLOAD_SIZE_MAX :: nat where [wire_defs]:
  "DXWIFI_TX_PAYLOAD_SIZE_MAX =
     DXWIFI_TX_FRAME_SIZE_MAX - DXWIFI_TX_HEADER_SIZE - IEEE80211_FCS_SIZE"

definition DXWIFI_TX_RADIOTAP_PRESENCE_BIT_FIELD :: u32 where
  "DXWIFI_TX_RADIOTAP_PRESENCE_BIT_FIELD =
     push_bit (radiotap_presence IEEE80211_RADIOTAP_FLAGS) 1
       OR push_bit (radiotap_presence IEEE80211_RADIOTAP_RATE) 1
       OR push_bit (radiotap_presence IEEE80211_RADIOTAP_TX_FLAGS) 1"

definition DXWIFI_TX_FRAME_HANDLER_MAX :: nat where "DXWIFI_TX_FRAME_HANDLER_MAX = 8"

text \<open>The overlay: \<open>payload\<close> is everything of the array after the two headers.\<close>

record dxwifi_tx_frame =
  radiotap_hdr :: dxwifi_tx_radiotap_hdr
  mac_hdr :: ieee80211_hdr
  payload :: "byte list"

definition frame_bytes :: "dxwifi_tx_frame \<Rightarrow> byte list" where
  "frame_bytes f = tx_radiotap_bytes (radiotap_hdr f) @ mac_bytes (mac_hdr f) @ payload f"

definition frame_wf :: "dxwifi_tx_frame \<Rightarrow> bool" where
  "frame_wf f \<longleftrightarrow> mac_wf (mac_hdr f) \<and>
     length (payload f) = DXWIFI_TX_FRAME_SIZE_MAX - DXWIFI_TX_HEADER_SIZE"

lemma length_frame_bytes [simp]: "frame_wf f \<Longrightarrow> length (frame_bytes f) = DXWIFI_TX_FRAME_SIZE_MAX"
  by (simp add: frame_bytes_def frame_wf_def wire_defs)

datatype dxwifi_tx_state =
  DXWIFI_TX_NORMAL | DXWIFI_TX_TIMED_OUT | DXWIFI_TX_DEACTIVATED | DXWIFI_TX_ERROR

record dxwifi_tx_stats =
  frame_count :: u32
  total_bytes_read :: u32
  total_bytes_sent :: u32
  prev_bytes_read :: u32
  prev_bytes_sent :: u32
  tx_state :: dxwifi_tx_state

definition init_tx_stats :: dxwifi_tx_stats where
  "init_tx_stats = \<lparr>frame_count = 0, total_bytes_read = 0, total_bytes_sent = 0,
     prev_bytes_read = 0, prev_bytes_sent = 0, tx_state = DXWIFI_TX_NORMAL\<rparr>"

text \<open>A callback may rewrite the frame and returns the new payload size.\<close>

type_synonym 'u dxwifi_tx_frame_cb =
  "dxwifi_tx_frame \<Rightarrow> size_t \<Rightarrow> dxwifi_tx_stats \<Rightarrow> 'u option \<Rightarrow> size_t \<times> dxwifi_tx_frame"

record 'u dxwifi_tx_frame_handler =
  callback :: "'u dxwifi_tx_frame_cb option"
  user_args :: "'u option"

definition no_handler :: "'u dxwifi_tx_frame_handler" where
  "no_handler = \<lparr>callback = None, user_args = None\<rparr>"

record 'u dxwifi_transmitter =
  blocksize :: nat
  transmit_timeout :: int
  redundant_ctrl_frames :: int
  tx_address :: "byte list"
  rtap_flags :: byte
  rtap_rate_mbps :: byte
  rtap_tx_flags :: u16
  fctl :: ieee80211_frame_control
  preinjection :: "'u dxwifi_tx_frame_handler list"
  postinjection :: "'u dxwifi_tx_frame_handler list"
  tx_activated :: bool

subsection \<open>Building the frame\<close>

definition setup_dxwifi_tx_frame :: dxwifi_tx_frame where
  "setup_dxwifi_tx_frame =
     \<lparr>radiotap_hdr = \<lparr>rtap_base = \<lparr>it_version = 0, it_pad = 0, it_len = 0, it_present = 0\<rparr>,
        rtap_hdr_flags = 0, rtap_hdr_rate = 0, rtap_hdr_tx_flags = 0\<rparr>,
      mac_hdr = \<lparr>frame_control = 0, duration_id = 0,
        addr1 = replicate IEEE80211_MAC_ADDR_LEN 0, addr2 = replicate IEEE80211_MAC_ADDR_LEN 0,
        addr3 = replicate IEEE80211_MAC_ADDR_LEN 0, seq_ctrl = 0\<rparr>,
      payload = replicate (DXWIFI_TX_FRAME_SIZE_MAX - DXWIFI_TX_HEADER_SIZE) 0\<rparr>"

text \<open>\<open>htole16\<close> and \<open>htole32\<close> are the identity on the target; \<open>rate_mbps * 2\<close> is stored in a byte.\<close>

definition construct_radiotap_header ::
    "dxwifi_tx_radiotap_hdr \<Rightarrow> byte \<Rightarrow> byte \<Rightarrow> u16 \<Rightarrow> dxwifi_tx_radiotap_hdr" where
  "construct_radiotap_header h flags rate_mbps tx_flags =
     h\<lparr>rtap_base := (rtap_base h)\<lparr>it_version := IEEE80211_RADIOTAP_MAJOR_VERSION,
         it_len := of_nat TX_RADIOTAP_HDR_SIZE,
         it_present := DXWIFI_TX_RADIOTAP_PRESENCE_BIT_FIELD\<rparr>,
       rtap_hdr_flags := flags, rtap_hdr_rate := rate_mbps * 2, rtap_hdr_tx_flags := tx_flags\<rparr>"

text \<open>The frame control word, one \<open>set_bits16\<close> per line of the code.\<close>

definition fctl_word :: "ieee80211_frame_control \<Rightarrow> u16" where
  "fctl_word fc =
     (let flag = (\<lambda>m b w. set_bits16 w (fctl_mask m) (if b then fctl_mask m else 0));
          w = set_bits16 0 (fctl_mask IEEE80211_FCTL_VERS) (ucast (protocol_version fc));
          w = set_bits16 w (fctl_mask IEEE80211_FCTL_FTYPE) (fctl_type_value (fc_type fc));
          w = set_bits16 w (fctl_mask IEEE80211_FCTL_STYPE) (stype_data (stype fc));
          w = flag IEEE80211_FCTL_TODS (to_ds fc) w;
          w = flag IEEE80211_FCTL_FROMDS (from_ds fc) w;
          w = flag IEEE80211_FCTL_RETRY (retry fc) w;
          w = flag IEEE80211_FCTL_PM (power_mgmt fc) w;
          w = flag IEEE80211_FCTL_MOREDATA (more_data fc) w;
          w = flag IEEE80211_FCTL_PROTECTED (wep fc) w;
          w = flag IEEE80211_FCTL_ORDER (order fc) w
      in w)"

definition htons :: "u16 \<Rightarrow> u16" where
  "htons w = push_bit 8 w OR drop_bit 8 w"

definition construct_ieee80211_header ::
    "ieee80211_hdr \<Rightarrow> ieee80211_frame_control \<Rightarrow> u16 \<Rightarrow> byte list \<Rightarrow> ieee80211_hdr" where
  "construct_ieee80211_header mac fcntl dur sender =
     mac\<lparr>frame_control := fctl_word fcntl,
         duration_id := htons dur,
         addr1 := replicate IEEE80211_MAC_ADDR_LEN 0xff,
         addr3 := replicate IEEE80211_MAC_ADDR_LEN 0xff,
         addr2 := sender,
         seq_ctrl := 0\<rparr>"

subsection \<open>Handler pipelines\<close>

text \<open>The search loop of \<open>attach_handler\<close> from index \<open>i\<close> on; \<open>-1\<close> when no slot is free.\<close>

fun attach_from :: "nat \<Rightarrow> 'u dxwifi_tx_frame_handler list \<Rightarrow> 'u dxwifi_tx_frame_handler \<Rightarrow>
    int \<times> 'u dxwifi_tx_frame_handler list" where
  "attach_from i [] h = (-1, [])"
| "attach_from i (p # ps) h =
     (if callback p = None then (int i, h # ps)
      else (let (r, ps') = attach_from (Suc i) ps h in (r, p # ps')))"

definition attach_handler :: "'u dxwifi_tx_frame_handler list \<Rightarrow> 'u dxwifi_tx_frame_cb \<Rightarrow>
    'u option \<Rightarrow> int \<times> 'u dxwifi_tx_frame_handler list" where
  "attach_handler pipeline cb user = attach_from 0 pipeline \<lparr>callback = Some cb, user_args = user\<rparr>"

definition remove_handler :: "'u dxwifi_tx_frame_handler list \<Rightarrow> int \<Rightarrow>
    bool \<times> 'u dxwifi_tx_frame_handler list" where
  "remove_handler pipeline index =
     (if index < 0
      then (True, replicate DXWIFI_TX_FRAME_HANDLER_MAX no_handler)
      else if index < int DXWIFI_TX_FRAME_HANDLER_MAX
      then (callback (pipeline ! nat index) \<noteq> None, pipeline[nat index := no_handler])
      else (False, pipeline))"

definition attach_preinject_handler :: "'u dxwifi_transmitter \<Rightarrow> 'u dxwifi_tx_frame_cb \<Rightarrow>
    'u option \<Rightarrow> int \<times> 'u dxwifi_transmitter" where
  "attach_preinject_handler tx cb user =
     (let (r, p) = attach_handler (preinjection tx) cb user in (r, tx\<lparr>preinjection := p\<rparr>))"

definition remove_preinject_handler :: "'u dxwifi_transmitter \<Rightarrow> int \<Rightarrow>
    bool \<times> 'u dxwifi_transmitter" where
  "remove_preinject_handler tx index =
     (let (r, p) = remove_handler (preinjection tx) index in (r, tx\<lparr>preinjection := p\<rparr>))"

definition attach_postinject_handler :: "'u dxwifi_transmitter \<Rightarrow> 'u dxwifi_tx_frame_cb \<Rightarrow>
    'u option \<Rightarrow> int \<times> 'u dxwifi_transmitter" where
  "attach_postinject_handler tx cb user =
     (let (r, p) = attach_handler (postinjection tx) cb user in (r, tx\<lparr>postinjection := p\<rparr>))"

definition remove_postinject_handler :: "'u dxwifi_transmitter \<Rightarrow> int \<Rightarrow>
    bool \<times> 'u dxwifi_transmitter" where
  "remove_postinject_handler tx index =
     (let (r, p) = remove_handler (postinjection tx) index in (r, tx\<lparr>postinjection := p\<rparr>))"

text \<open>
  \<open>invoke_handlers\<close>: each handler sees the size the previous one returned; the bounds check
  after each call is an \<open>assert_continue\<close>, which only logs.
\<close>

fun invoke_loop :: "'u dxwifi_tx_frame_handler list \<Rightarrow> dxwifi_tx_frame \<Rightarrow> size_t \<Rightarrow>
    dxwifi_tx_stats \<Rightarrow> size_t \<times> dxwifi_tx_frame" where
  "invoke_loop [] frame sz stats = (sz, frame)"
| "invoke_loop (p # ps) frame sz stats =
     (case callback p of
        None \<Rightarrow> invoke_loop ps frame sz stats
      | Some cb \<Rightarrow> (let (sz, frame) = cb frame sz stats (user_args p)
                   in invoke_loop ps frame sz stats))"

definition invoke_handlers :: "'u dxwifi_tx_frame_handler list \<Rightarrow> dxwifi_tx_frame \<Rightarrow>
    dxwifi_tx_stats \<Rightarrow> size_t \<times> dxwifi_tx_frame" where
  "invoke_handlers pipeline frame stats =
     invoke_loop pipeline frame (ucast (prev_bytes_read stats)) stats"

subsection \<open>Injection\<close>

text \<open>
  How frames leave: a build with \<open>DXWIFI_TESTS\<close> dumps them to a savefile; otherwise
  \<open>pcap_inject\<close> answers with its return value for the \<open>n\<close>-th frame.
\<close>

datatype tx_port = Savefile | Pcap "nat \<Rightarrow> byte list \<Rightarrow> int"

definition packet_size :: "size_t \<Rightarrow> size_t" where
  "packet_size payload_size =
     of_nat DXWIFI_TX_HEADER_SIZE + payload_size + of_nat IEEE80211_FCS_SIZE"

definition inject_packet :: "tx_port \<Rightarrow> byte list list \<Rightarrow> dxwifi_tx_frame \<Rightarrow> size_t \<Rightarrow>
    (int \<times> byte list list) res" where
  "inject_packet port air frame payload_size =
     (case port of
        Savefile \<Rightarrow>
          (let caplen = ucast (packet_size payload_size) :: u32 in
           bind_res (mem_read (frame_bytes frame) 0 (unat caplen)) (\<lambda>pkt.
           Inr (sint caplen, air @ [pkt])))
      | Pcap answer \<Rightarrow>
          bind_res (mem_read (frame_bytes frame) 0 (unat (packet_size payload_size))) (\<lambda>pkt.
          Inr (answer (length air) pkt, air @ [pkt])))"

fun inject_times :: "nat \<Rightarrow> tx_port \<Rightarrow> byte list list \<Rightarrow> dxwifi_tx_frame \<Rightarrow> size_t \<Rightarrow>
    byte list list res" where
  "inject_times 0 port air frame sz = Inr air"
| "inject_times (Suc n) port air frame sz =
     bind_res (inject_packet port air frame sz) (\<lambda>(status, air). inject_times n port air frame sz)"

definition send_control_frame :: "tx_port \<Rightarrow> 'u dxwifi_transmitter \<Rightarrow> byte list list \<Rightarrow>
    dxwifi_tx_frame \<Rightarrow> dxwifi_control_frame \<Rightarrow> (dxwifi_tx_frame \<times> byte list list) res" where
  "send_control_frame port tx air frame type =
     bind_res (mem_write (payload frame) 0
       (replicate DXWIFI_FRAME_CONTROL_DATA_SIZE (control_frame_value type))) (\<lambda>pl.
     let frame = frame\<lparr>payload := pl\<rparr> in
     bind_res (guard_res (fits_int (redundant_ctrl_frames tx + 1)) Signed_Overflow) (\<lambda>_.
     bind_res (inject_times (nat (redundant_ctrl_frames tx + 1)) port air frame
       (of_nat DXWIFI_FRAME_CONTROL_DATA_SIZE)) (\<lambda>air.
     Inr (frame, air))))"

subsection \<open>Transmission\<close>

definition init_transmitter :: "'u dxwifi_transmitter \<Rightarrow> 'u dxwifi_transmitter" where
  "init_transmitter tx =
     tx\<lparr>tx_activated := False,
        preinjection := replicate DXWIFI_TX_FRAME_HANDLER_MAX no_handler,
        postinjection := replicate DXWIFI_TX_FRAME_HANDLER_MAX no_handler\<rparr>"

definition stop_transmission :: "'u dxwifi_transmitter \<Rightarrow> 'u dxwifi_transmitter" where
  "stop_transmission tx = tx\<lparr>tx_activated := False\<rparr>"

text \<open>
  One turn of the loop as the environment sees it: whether the signal handler ran during
  \<open>poll\<close>, what \<open>poll\<close> returned, the bytes \<open>read\<close> returned (\<open>None\<close> for \<open>-1\<close>), and whether
  the handler ran in the rest of the turn. \<open>read\<close> returns at most \<open>blocksize\<close> bytes.
\<close>

record tx_event =
  ev_stop_poll :: bool
  ev_poll :: int
  ev_read :: "byte list option"
  ev_stop_after :: bool

record 'u tx_session =
  ts_tx :: "'u dxwifi_transmitter"
  ts_frame :: dxwifi_tx_frame
  ts_stats :: dxwifi_tx_stats
  ts_air :: "byte list list"

definition signal_stop :: "bool \<Rightarrow> 'u tx_session \<Rightarrow> 'u tx_session" where
  "signal_stop b s = (if b then s\<lparr>ts_tx := stop_transmission (ts_tx s)\<rparr> else s)"

text \<open>\<open>read(fd, data_frame.payload, tx->blocksize)\<close>; the result is stored in a \<open>uint32_t\<close>.\<close>

definition tx_read :: "'u tx_session \<Rightarrow> byte list option \<Rightarrow> 'u tx_session res" where
  "tx_read s r =
     (case r of
        None \<Rightarrow> Inr (s\<lparr>ts_stats := (ts_stats s)\<lparr>prev_bytes_read := word_of_int (-1)\<rparr>\<rparr>)
      | Some bs \<Rightarrow>
          (let bs = take (blocksize (ts_tx s)) bs in
           bind_res (mem_write (payload (ts_frame s)) 0 bs) (\<lambda>pl.
           Inr (s\<lparr>ts_frame := (ts_frame s)\<lparr>payload := pl\<rparr>,
                  ts_stats := (ts_stats s)\<lparr>prev_bytes_read := of_nat (length bs)\<rparr>\<rparr>))))"

text \<open>The body of \<open>if(stats.prev_bytes_read > 0)\<close>.\<close>

definition tx_send_block :: "tx_port \<Rightarrow> 'u tx_session \<Rightarrow> 'u tx_session res" where
  "tx_send_block port s =
     (let (payload_size, frame) = invoke_handlers (preinjection (ts_tx s)) (ts_frame s) (ts_stats s) in
      bind_res (inject_packet port (ts_air s) frame payload_size) (\<lambda>(status, air).
      let st = ts_stats s;
          st = st\<lparr>prev_bytes_sent := word_of_int status\<rparr>;
          st = st\<lparr>total_bytes_read := total_bytes_read st + prev_bytes_read st\<rparr>;
          st = st\<lparr>total_bytes_sent := total_bytes_sent st + prev_bytes_sent st\<rparr>;
          st = st\<lparr>frame_count := frame_count st + 1\<rparr>;
          (_, frame) = invoke_handlers (postinjection (ts_tx s)) frame st
      in Inr (s\<lparr>ts_frame := frame, ts_stats := st, ts_air := air\<rparr>)))"

definition tx_turn :: "tx_port \<Rightarrow> 'u tx_session \<Rightarrow> tx_event \<Rightarrow> 'u tx_session res" where
  "tx_turn port s e =
     (let s = signal_stop (ev_stop_poll e) s in
      bind_res
        (if ev_poll e = 0
         then Inr (s\<lparr>ts_stats := (ts_stats s)\<lparr>tx_state := DXWIFI_TX_TIMED_OUT\<rparr>,
                     ts_tx := (ts_tx s)\<lparr>tx_activated := False\<rparr>\<rparr>)
         else if ev_poll e < 0
         then Inr (s\<lparr>ts_stats := (ts_stats s)\<lparr>tx_state :=
                (if tx_activated (ts_tx s) then DXWIFI_TX_ERROR else DXWIFI_TX_DEACTIVATED)\<rparr>\<rparr>)
         else bind_res (tx_read s (ev_read e)) (\<lambda>s.
              if 0 < prev_bytes_read (ts_stats s) then tx_send_block port s else Inr s))
        (\<lambda>s. Inr (signal_stop (ev_stop_after e) s)))"

text \<open>The \<open>do .. while\<close> loop; \<open>None\<close> when it waits for more events than the environment has.\<close>

fun tx_loop :: "tx_port \<Rightarrow> 'u tx_session \<Rightarrow> tx_event list \<Rightarrow> 'u tx_session res option" where
  "tx_loop port s [] = None"
| "tx_loop port s (e # es) =
     (case tx_turn port s e of
        Inl err \<Rightarrow> Some (Inl err)
      | Inr s' \<Rightarrow>
          if tx_activated (ts_tx s') \<and> 0 < prev_bytes_read (ts_stats s')
          then tx_loop port s' es else Some (Inr s'))"

text \<open>\<open>start_transmission\<close> up to the loop, and after it.\<close>

definition tx_begin :: "tx_port \<Rightarrow> 'u dxwifi_transmitter \<Rightarrow> 'u tx_session res" where
  "tx_begin port tx =
     (let frame = setup_dxwifi_tx_frame;
          frame = frame\<lparr>radiotap_hdr := construct_radiotap_header (radiotap_hdr frame)
                    (rtap_flags tx) (rtap_rate_mbps tx) (rtap_tx_flags tx)\<rparr>;
          frame = frame\<lparr>mac_hdr := construct_ieee80211_header (mac_hdr frame)
                    (fctl tx) 0xffff (tx_address tx)\<rparr>;
          tx = tx\<lparr>tx_activated := True\<rparr> in
      bind_res (send_control_frame port tx [] frame DXWIFI_CONTROL_FRAME_PREAMBLE) (\<lambda>(frame, air).
      bind_res (guard_res (fits_int (transmit_timeout tx * 1000)) Signed_Overflow) (\<lambda>_.
      Inr \<lparr>ts_tx = tx, ts_frame = frame, ts_stats = init_tx_stats, ts_air = air\<rparr>)))"

definition tx_finish :: "tx_port \<Rightarrow> 'u tx_session \<Rightarrow> 'u tx_session res" where
  "tx_finish port s =
     bind_res (send_control_frame port (ts_tx s) (ts_air s) (ts_frame s) DXWIFI_CONTROL_FRAME_EOT)
       (\<lambda>(frame, air).
     let st = ts_stats s;
         st = (if tx_state st = DXWIFI_TX_NORMAL \<and> \<not> tx_activated (ts_tx s)
               then st\<lparr>tx_state := DXWIFI_TX_DEACTIVATED\<rparr> else st)
     in Inr (s\<lparr>ts_frame := frame, ts_air := air, ts_stats := st\<rparr>))"

definition start_transmission :: "tx_port \<Rightarrow> 'u dxwifi_transmitter \<Rightarrow> tx_event list \<Rightarrow>
    'u tx_session res option" where
  "start_transmission port tx es =
     (case tx_begin port tx of
        Inl err \<Rightarrow> Some (Inl err)
      | Inr s \<Rightarrow> map_option (\<lambda>r. bind_res r (tx_finish port)) (tx_loop port s es))"

end
