(* ===== verification/TransmitterRun.thy ===== *)
theory TransmitterRun
  imports Transmitter
begin

text \<open>
  What the transmitter promises: the frames an injection puts on the air, the effect of
  handlers that only rewrite headers, and the transmission loop over the events of an input that
  ends (\<open>tx_loop_blocks\<close>, \<open>start_transmission_ok\<close>); then the transmitter's properties.
\<close>

unbundle bit_operations_syntax

subsection \<open>Frames on the air\<close>

definition air_frame :: "dxwifi_tx_frame \<Rightarrow> nat \<Rightarrow> byte list" where
  "air_frame f n = take (DXWIFI_TX_HEADER_SIZE + n + IEEE80211_FCS_SIZE) (frame_bytes f)"

definition air_mac :: "byte list \<Rightarrow> byte list" where
  "air_mac pkt = slice pkt TX_RADIOTAP_HDR_SIZE IEEE80211_HDR_SIZE"

definition air_payload :: "byte list \<Rightarrow> byte list" where
  "air_payload pkt =
     slice pkt DXWIFI_TX_HEADER_SIZE (length pkt - DXWIFI_TX_HEADER_SIZE - IEEE80211_FCS_SIZE)"

lemma length_air_frame:
  "frame_wf f \<Longrightarrow> n \<le> DXWIFI_TX_PAYLOAD_SIZE_MAX \<Longrightarrow> length (air_frame f n) = n + 40"
  by (simp add: air_frame_def wire_defs)

lemma frame_prefix:
  assumes "frame_wf f"
  shows "length (tx_radiotap_bytes (radiotap_hdr f) @ mac_bytes (mac_hdr f)) = 36"
    and "length (mac_bytes (mac_hdr f)) = 24" and "length (tx_radiotap_bytes (radiotap_hdr f)) = 12"
    and "length (payload f) = 2268"
  using assms by (simp_all add: frame_wf_def wire_defs)

lemma air_frame_parts:
  assumes "frame_wf f" and "n \<le> DXWIFI_TX_PAYLOAD_SIZE_MAX"
  shows "air_frame f n = tx_radiotap_bytes (radiotap_hdr f) @ mac_bytes (mac_hdr f) @ take (n + 4) (payload f)"
  using frame_prefix[OF assms(1)]
  by (simp add: air_frame_def frame_bytes_def DXWIFI_TX_HEADER_SIZE_def TX_RADIOTAP_HDR_SIZE_def
      IEEE80211_HDR_SIZE_def IEEE80211_FCS_SIZE_def add.commute)

lemma air_frame_fields:
  assumes "frame_wf f" and "n \<le> DXWIFI_TX_PAYLOAD_SIZE_MAX"
  shows "air_payload (air_frame f n) = take n (payload f)"
    and "air_mac (air_frame f n) = mac_bytes (mac_hdr f)"
  unfolding air_payload_def air_mac_def length_air_frame[OF assms] air_frame_parts[OF assms]
  using frame_prefix[OF assms(1)] assms(2)
  by (simp_all add: slice_def wire_defs take_Cons')

lemma unat_packet_size:
  assumes "unat sz \<le> DXWIFI_TX_PAYLOAD_SIZE_MAX"
  shows "unat (packet_size sz) = DXWIFI_TX_HEADER_SIZE + unat sz + IEEE80211_FCS_SIZE"
    and "unat (ucast (packet_size sz) :: u32) = DXWIFI_TX_HEADER_SIZE + unat sz + IEEE80211_FCS_SIZE"
proof -
  have "packet_size sz = of_nat (DXWIFI_TX_HEADER_SIZE + unat sz + IEEE80211_FCS_SIZE)"
    by (simp add: packet_size_def)
  then show u: "unat (packet_size sz) = DXWIFI_TX_HEADER_SIZE + unat sz + IEEE80211_FCS_SIZE"
    using assms by (simp only: unat_of_nat) (simp add: wire_defs)
  have "unat (packet_size sz) < 2 ^ 32" unfolding u using assms by (simp add: wire_defs)
  then have "unat (ucast (packet_size sz) :: u32) = unat (packet_size sz)"
    by (simp add: unsigned_ucast_eq take_bit_nat_eq_self)
  then show "unat (ucast (packet_size sz) :: u32) = DXWIFI_TX_HEADER_SIZE + unat sz + IEEE80211_FCS_SIZE"
    using u by simp
qed

lemma inject_packet_ok:
  assumes "frame_wf f" and "unat sz \<le> DXWIFI_TX_PAYLOAD_SIZE_MAX"
  shows "\<exists>status. inject_packet port air f sz = Inr (status, air @ [air_frame f (unat sz)])"
proof -
  let ?n = "DXWIFI_TX_HEADER_SIZE + unat sz + IEEE80211_FCS_SIZE"
  have "0 + ?n \<le> length (frame_bytes f)" using assms by (simp add: wire_defs)
  then have "mem_read (frame_bytes f) 0 ?n = Inr (air_frame f (unat sz))"
    by (simp only: mem_read_ok) (simp add: air_frame_def slice_def)
  then show ?thesis
    using unat_packet_size[OF assms(2)] by (cases port) (simp_all add: inject_packet_def)
qed

text \<open>Nothing bounds the size a handler returns: a larger one reads past the frame.\<close>

lemma inject_packet_oversize:
  assumes "frame_wf f" and "DXWIFI_TX_PAYLOAD_SIZE_MAX < unat sz" and "unat sz < 2 ^ 31"
  shows "inject_packet port air f sz = Inl Out_Of_Bounds"
proof -
  have p: "packet_size sz = of_nat (DXWIFI_TX_HEADER_SIZE + unat sz + IEEE80211_FCS_SIZE)"
    by (simp add: packet_size_def)
  have u: "unat (packet_size sz) = DXWIFI_TX_HEADER_SIZE + unat sz + IEEE80211_FCS_SIZE"
    unfolding p using assms by (simp only: unat_of_nat) (simp add: wire_defs)
  have "unat (packet_size sz) < 2 ^ 32" unfolding u using assms by (simp add: wire_defs)
  then have u': "unat (ucast (packet_size sz) :: u32) = unat (packet_size sz)"
    by (simp add: unsigned_ucast_eq take_bit_nat_eq_self)
  have "\<not> 0 + unat (packet_size sz) \<le> length (frame_bytes f)"
    unfolding u using assms by (simp add: wire_defs)
  then have "mem_read (frame_bytes f) 0 (unat (packet_size sz)) = Inl Out_Of_Bounds"
    by (rule mem_read_oob)
  then show ?thesis by (cases port) (simp_all add: inject_packet_def u')
qed

lemma inject_times_ok:
  assumes "frame_wf f" and "unat sz \<le> DXWIFI_TX_PAYLOAD_SIZE_MAX"
  shows "inject_times n port air f sz = Inr (air @ replicate n (air_frame f (unat sz)))"
proof (induction n arbitrary: air)
  case (Suc n)
  obtain st where "inject_packet port air f sz = Inr (st, air @ [air_frame f (unat sz)])"
    using inject_packet_ok[OF assms] by blast
  with Suc show ?case by simp
qed simp

definition control_frame :: "dxwifi_tx_frame \<Rightarrow> dxwifi_control_frame \<Rightarrow> dxwifi_tx_frame" where
  "control_frame f t = f\<lparr>payload := overwrite (payload f) 0
     (replicate DXWIFI_FRAME_CONTROL_DATA_SIZE (control_frame_value t))\<rparr>"

lemma control_frame_wf: "frame_wf f \<Longrightarrow> frame_wf (control_frame f t)"
  by (simp add: frame_wf_def control_frame_def wire_defs)

lemma send_control_frame_ok:
  assumes "frame_wf f" and "fits_int (redundant_ctrl_frames tx + 1)"
  shows "send_control_frame port tx air f t = Inr (control_frame f t,
     air @ replicate (nat (redundant_ctrl_frames tx + 1))
       (air_frame (control_frame f t) DXWIFI_FRAME_CONTROL_DATA_SIZE))"
proof -
  have sz: "unat (of_nat DXWIFI_FRAME_CONTROL_DATA_SIZE :: size_t) = DXWIFI_FRAME_CONTROL_DATA_SIZE"
    by (simp add: wire_defs)
  have "inject_times n port air (control_frame f t) (of_nat DXWIFI_FRAME_CONTROL_DATA_SIZE) =
      Inr (air @ replicate n (air_frame (control_frame f t) DXWIFI_FRAME_CONTROL_DATA_SIZE))" for n
    using inject_times_ok[OF control_frame_wf[OF assms(1)], of "of_nat DXWIFI_FRAME_CONTROL_DATA_SIZE"]
    unfolding sz by (simp add: wire_defs)
  moreover have "mem_write (payload f) 0 (replicate DXWIFI_FRAME_CONTROL_DATA_SIZE (control_frame_value t)) =
      Inr (payload (control_frame f t))"
    using frame_prefix(4)[OF assms(1)] by (simp add: control_frame_def wire_defs)
  moreover have "f\<lparr>payload := payload (control_frame f t)\<rparr> = control_frame f t"
    by (simp add: control_frame_def)
  ultimately show ?thesis
    using assms(2) by (simp add: send_control_frame_def Let_def)
qed

lemma air_payload_control:
  assumes "frame_wf f"
  shows "air_payload (air_frame (control_frame f t) DXWIFI_FRAME_CONTROL_DATA_SIZE) =
     replicate DXWIFI_FRAME_CONTROL_DATA_SIZE (control_frame_value t)"
proof -
  have "air_payload (air_frame (control_frame f t) DXWIFI_FRAME_CONTROL_DATA_SIZE) =
      take DXWIFI_FRAME_CONTROL_DATA_SIZE (payload (control_frame f t))"
    by (intro air_frame_fields(1) control_frame_wf assms) (simp add: wire_defs)
  then show ?thesis by (simp add: control_frame_def overwrite_def)
qed

subsection \<open>Handlers\<close>

text \<open>A handler that may rewrite the headers but leaves the payload and its size alone.\<close>

definition header_only :: "'u dxwifi_tx_frame_handler \<Rightarrow> bool" where
  "header_only h \<longleftrightarrow> (\<forall>cb. callback h = Some cb \<longrightarrow>
     (\<forall>f sz st. fst (cb f sz st (user_args h)) = sz \<and>
        payload (snd (cb f sz st (user_args h))) = payload f \<and>
        (frame_wf f \<longrightarrow> frame_wf (snd (cb f sz st (user_args h))))))"

lemma header_only_none [simp]: "header_only no_handler"
  by (simp add: header_only_def no_handler_def)

lemma invoke_loop_header_only:
  "\<forall>h \<in> set p. header_only h \<Longrightarrow>
   fst (invoke_loop p f sz st) = sz \<and> payload (snd (invoke_loop p f sz st)) = payload f \<and>
   (frame_wf f \<longrightarrow> frame_wf (snd (invoke_loop p f sz st)))"
proof (induction p arbitrary: f)
  case (Cons h p)
  show ?case
  proof (cases "callback h")
    case (Some cb)
    obtain sz' f' where cb: "cb f sz st (user_args h) = (sz', f')" by fastforce
    have "sz' = sz \<and> payload f' = payload f \<and> (frame_wf f \<longrightarrow> frame_wf f')"
      using Cons.prems(1)[THEN bspec, of h] Some cb unfolding header_only_def
      by (metis fst_conv list.set_intros(1) snd_conv)
    then show ?thesis using Cons.IH[of f'] Cons.prems Some cb by auto
  qed (use Cons in simp)
qed simp

text \<open>Slots of a pipeline: attaching takes the first free one.\<close>

definition free_slot :: "'u dxwifi_tx_frame_handler list \<Rightarrow> nat \<Rightarrow> bool" where
  "free_slot p i \<longleftrightarrow> i < length p \<and> callback (p ! i) = None \<and> (\<forall>j < i. callback (p ! j) \<noteq> None)"

lemma attach_from_free:
  "free_slot p i \<Longrightarrow> attach_from k p h = (int (k + i), p[i := h])"
proof (induction p arbitrary: k i)
  case (Cons q p)
  show ?case
  proof (cases i)
    case (Suc j)
    have "callback q \<noteq> None" using Cons.prems Suc by (auto simp: free_slot_def)
    moreover have "free_slot p j" using Cons.prems Suc by (auto simp: free_slot_def)
    ultimately show ?thesis using Cons.IH[of j "Suc k"] Suc by simp
  qed (use Cons.prems in \<open>simp add: free_slot_def\<close>)
qed (simp add: free_slot_def)

lemma attach_from_full:
  "\<forall>q \<in> set p. callback q \<noteq> None \<Longrightarrow> attach_from k p h = (-1, p)"
  by (induction p arbitrary: k) simp_all

lemma free_slot_exists:
  assumes "\<exists>q \<in> set p. callback q = None"
  shows "\<exists>i. free_slot p i"
proof -
  define i where "i = (LEAST i. i < length p \<and> callback (p ! i) = None)"
  obtain k where k: "k < length p \<and> callback (p ! k) = None" using assms by (auto simp: in_set_conv_nth)
  then have "i < length p \<and> callback (p ! i) = None" unfolding i_def by (rule LeastI)
  moreover have "callback (p ! j) \<noteq> None" if "j < i" for j
    using not_less_Least[OF that[unfolded i_def]] that calculation by auto
  ultimately show ?thesis by (auto simp: free_slot_def)
qed

subsection \<open>A turn of the transmission loop\<close>

definition tx_ready :: "'u tx_session \<Rightarrow> bool" where
  "tx_ready s \<longleftrightarrow> frame_wf (ts_frame s) \<and> blocksize (ts_tx s) \<le> DXWIFI_BLOCK_SIZE_MAX \<and>
     (\<forall>h \<in> set (preinjection (ts_tx s)). header_only h) \<and>
     (\<forall>h \<in> set (postinjection (ts_tx s)). header_only h)"

text \<open>The frame a block goes out in: the block in the payload, then the pre-injection handlers.\<close>

definition block_stats :: "dxwifi_tx_stats \<Rightarrow> byte list \<Rightarrow> dxwifi_tx_stats" where
  "block_stats st b = st\<lparr>prev_bytes_read := of_nat (length b)\<rparr>"

definition block_frame :: "'u tx_session \<Rightarrow> byte list \<Rightarrow> dxwifi_tx_frame" where
  "block_frame s b =
     snd (invoke_handlers (preinjection (ts_tx s))
       ((ts_frame s)\<lparr>payload := overwrite (payload (ts_frame s)) 0 b\<rparr>) (block_stats (ts_stats s) b))"

definition good_block :: "'u dxwifi_transmitter \<Rightarrow> byte list \<Rightarrow> bool" where
  "good_block tx b \<longleftrightarrow> b \<noteq> [] \<and> length b \<le> blocksize tx"

lemma block_size_unat:
  "length b \<le> DXWIFI_BLOCK_SIZE_MAX \<Longrightarrow> unat (of_nat (length b) :: u32) = length b"
  by (simp only: unat_of_nat) (simp add: wire_defs)

lemma block_frame_ok:
  assumes "tx_ready s" and "good_block (ts_tx s) b"
  shows "frame_wf (block_frame s b)" and "take (length b) (payload (block_frame s b)) = b"
    and "fst (invoke_handlers (preinjection (ts_tx s))
       ((ts_frame s)\<lparr>payload := overwrite (payload (ts_frame s)) 0 b\<rparr>) (block_stats (ts_stats s) b))
       = of_nat (length b)"
proof -
  let ?f = "(ts_frame s)\<lparr>payload := overwrite (payload (ts_frame s)) 0 b\<rparr>"
  have small: "length b \<le> DXWIFI_BLOCK_SIZE_MAX" using assms by (simp add: tx_ready_def good_block_def)
  have wf: "frame_wf (ts_frame s)" using assms by (simp add: tx_ready_def)
  have "0 + length b \<le> length (payload (ts_frame s))"
    using small frame_prefix(4)[OF wf] by (simp add: wire_defs)
  then have "frame_wf ?f" using wf by (simp add: frame_wf_def)
  moreover note invoke_loop_header_only[of "preinjection (ts_tx s)" ?f
      "ucast (of_nat (length b) :: u32)" "block_stats (ts_stats s) b"]
  moreover have "ucast (of_nat (length b) :: u32) = (of_nat (length b) :: size_t)"
    using block_size_unat[OF small] by (metis of_nat_unat)
  ultimately show "frame_wf (block_frame s b)" "take (length b) (payload (block_frame s b)) = b"
    "fst (invoke_handlers (preinjection (ts_tx s)) ?f (block_stats (ts_stats s) b)) = of_nat (length b)"
    using assms by (simp_all add: tx_ready_def block_frame_def invoke_handlers_def block_stats_def
        overwrite_def)
qed

definition air_number :: "byte list \<Rightarrow> u32" where
  "air_number pkt = be32_of (slice (air_mac pkt) 6 4)"

text \<open>A pipeline that writes the frame count into the last four bytes of \<open>addr1\<close>.\<close>

definition numbering :: "'u dxwifi_tx_frame_handler list \<Rightarrow> bool" where
  "numbering p \<longleftrightarrow> (\<forall>f sz st. frame_wf f \<longrightarrow>
     slice (mac_bytes (mac_hdr (snd (invoke_loop p f sz st)))) 6 4 = be32_bytes (frame_count st))"

definition block_event :: "byte list \<Rightarrow> tx_event" where
  "block_event b = \<lparr>ev_stop_poll = False, ev_poll = 1, ev_read = Some b, ev_stop_after = False\<rparr>"

text \<open>The end of the input: end of file, or a timeout of \<open>poll\<close>.\<close>

definition final_event :: "tx_event \<Rightarrow> bool" where
  "final_event e \<longleftrightarrow> \<not> ev_stop_poll e \<and> \<not> ev_stop_after e \<and>
     (ev_poll e = 0 \<or> 0 < ev_poll e \<and> ev_read e = Some [])"

lemma tx_turn_block:
  assumes ready: "tx_ready s" and good: "good_block (ts_tx s) b"
  shows "\<exists>s'. tx_turn port s (block_event b) = Inr s' \<and> tx_ready s' \<and> ts_tx s' = ts_tx s \<and>
     ts_air s' = ts_air s @ [air_frame (block_frame s b) (length b)] \<and>
     0 < prev_bytes_read (ts_stats s') \<and> tx_state (ts_stats s') = tx_state (ts_stats s) \<and>
     frame_count (ts_stats s') = frame_count (ts_stats s) + 1 \<and>
     total_bytes_read (ts_stats s') = total_bytes_read (ts_stats s) + of_nat (length b)"
proof -
  have small: "length b \<le> DXWIFI_BLOCK_SIZE_MAX" using assms by (simp add: tx_ready_def good_block_def)
  have wf: "frame_wf (ts_frame s)" using ready by (simp add: tx_ready_def)
  have fit: "0 + length b \<le> length (payload (ts_frame s))"
    using small frame_prefix(4)[OF wf] by (simp add: wire_defs)
  let ?f = "(ts_frame s)\<lparr>payload := overwrite (payload (ts_frame s)) 0 b\<rparr>"
  let ?st = "block_stats (ts_stats s) b"
  define s1 where "s1 = s\<lparr>ts_frame := ?f, ts_stats := ?st\<rparr>"
  have take: "take (blocksize (ts_tx s)) b = b" using good by (simp add: good_block_def)
  have rd: "tx_read s (Some b) = Inr s1"
    using fit by (simp add: tx_read_def Let_def take s1_def block_stats_def)
  have pos: "0 < prev_bytes_read (ts_stats s1)"
  proof -
    have "unat (of_nat (length b) :: u32) \<noteq> 0"
      using good unfolding block_size_unat[OF small] by (simp add: good_block_def)
    then show ?thesis by (simp add: s1_def block_stats_def word_less_nat_alt)
  qed
  have usz: "unat (of_nat (length b) :: size_t) = length b"
    using small by (simp only: unat_of_nat) (simp add: wire_defs)
  have inv: "invoke_handlers (preinjection (ts_tx s)) ?f ?st = (of_nat (length b), block_frame s b)"
    using block_frame_ok(3)[OF assms] by (simp add: block_frame_def prod_eq_iff)
  obtain status where inj: "inject_packet port (ts_air s) (block_frame s b) (of_nat (length b)) =
      Inr (status, ts_air s @ [air_frame (block_frame s b) (length b)])"
    using inject_packet_ok[OF block_frame_ok(1)[OF assms], of "of_nat (length b)"] small
    unfolding usz by (auto simp: wire_defs)
  obtain st' where send: "tx_send_block port s1 = Inr (s1\<lparr>
      ts_frame := snd (invoke_handlers (postinjection (ts_tx s)) (block_frame s b) st'),
      ts_stats := st', ts_air := ts_air s @ [air_frame (block_frame s b) (length b)]\<rparr>)"
    and st': "frame_count st' = frame_count (ts_stats s) + 1" "tx_state st' = tx_state (ts_stats s)"
      "total_bytes_read st' = total_bytes_read (ts_stats s) + of_nat (length b)"
      "prev_bytes_read st' = of_nat (length b)"
  proof -
    have sel: "frame_count ?st = frame_count (ts_stats s)" "tx_state ?st = tx_state (ts_stats s)"
      "total_bytes_read ?st = total_bytes_read (ts_stats s)" "prev_bytes_read ?st = of_nat (length b)"
      by (simp_all add: block_stats_def)
    let ?u = "?st\<lparr>prev_bytes_sent := word_of_int status,
        total_bytes_read := total_bytes_read ?st + prev_bytes_read ?st,
        total_bytes_sent := total_bytes_sent ?st + word_of_int status,
        frame_count := frame_count ?st + 1\<rparr>"
    show thesis
      by (rule that[of ?u]) (simp_all add: tx_send_block_def s1_def inv inj Let_def split_beta sel)
  qed
  have "frame_wf (snd (invoke_handlers (postinjection (ts_tx s)) (block_frame s b) st'))"
    using ready block_frame_ok(1)[OF assms] invoke_loop_header_only[of "postinjection (ts_tx s)"]
    by (simp add: tx_ready_def invoke_handlers_def)
  then show ?thesis
    using ready rd send st' pos
    by (simp add: tx_turn_def block_event_def signal_stop_def tx_ready_def s1_def block_stats_def)
qed

lemma tx_turn_final:
  assumes "tx_ready s" and "final_event e"
  shows "\<exists>s'. tx_turn port s e = Inr s' \<and> frame_wf (ts_frame s') \<and> ts_air s' = ts_air s \<and>
     redundant_ctrl_frames (ts_tx s') = redundant_ctrl_frames (ts_tx s) \<and>
     \<not> (tx_activated (ts_tx s') \<and> 0 < prev_bytes_read (ts_stats s')) \<and>
     frame_count (ts_stats s') = frame_count (ts_stats s) \<and>
     total_bytes_read (ts_stats s') = total_bytes_read (ts_stats s)"
  using assms
  by (cases "ev_poll e = 0")
    (auto simp: tx_turn_def final_event_def signal_stop_def tx_read_def tx_ready_def overwrite_def)

lemma tx_loop_blocks:
  assumes "tx_ready s" and "tx_activated (ts_tx s)" and "\<forall>b \<in> set blocks. good_block (ts_tx s) b"
    and "final_event e"
  shows "\<exists>s' data. tx_loop port s (map block_event blocks @ e # es) = Some (Inr s') \<and>
     frame_wf (ts_frame s') \<and> redundant_ctrl_frames (ts_tx s') = redundant_ctrl_frames (ts_tx s) \<and>
     ts_air s' = ts_air s @ data \<and> map air_payload data = blocks \<and>
     frame_count (ts_stats s') = frame_count (ts_stats s) + of_nat (length blocks) \<and>
     total_bytes_read (ts_stats s') = total_bytes_read (ts_stats s) + of_nat (sum_list (map length blocks)) \<and>
     (numbering (preinjection (ts_tx s)) \<longrightarrow>
       map air_number data = map (\<lambda>i. frame_count (ts_stats s) + of_nat i) [0 ..< length blocks])"
  using assms
proof (induction blocks arbitrary: s)
  case Nil
  then obtain s' where "tx_turn port s e = Inr s'" "frame_wf (ts_frame s')" "ts_air s' = ts_air s"
     "redundant_ctrl_frames (ts_tx s') = redundant_ctrl_frames (ts_tx s)"
     "\<not> (tx_activated (ts_tx s') \<and> 0 < prev_bytes_read (ts_stats s'))"
     "frame_count (ts_stats s') = frame_count (ts_stats s)"
     "total_bytes_read (ts_stats s') = total_bytes_read (ts_stats s)"
    using tx_turn_final[of s e port] by blast
  then show ?case by (intro exI[of _ s'] exI[of _ "[]"]) auto
next
  case (Cons b blocks)
  have good: "good_block (ts_tx s) b" using Cons.prems(3) by simp
  have small: "length b \<le> DXWIFI_PAYLOAD_LIMIT" if "DXWIFI_PAYLOAD_LIMIT = DXWIFI_TX_PAYLOAD_SIZE_MAX"
    for DXWIFI_PAYLOAD_LIMIT
    using good Cons.prems(1) that by (simp add: tx_ready_def good_block_def wire_defs)
  obtain s1 where turn: "tx_turn port s (block_event b) = Inr s1" and r1: "tx_ready s1"
    and s1: "ts_tx s1 = ts_tx s" "ts_air s1 = ts_air s @ [air_frame (block_frame s b) (length b)]"
     "0 < prev_bytes_read (ts_stats s1)" "frame_count (ts_stats s1) = frame_count (ts_stats s) + 1"
     "total_bytes_read (ts_stats s1) = total_bytes_read (ts_stats s) + of_nat (length b)"
    using tx_turn_block[OF Cons.prems(1) good] by blast
  obtain s' data where IH: "tx_loop port s1 (map block_event blocks @ e # es) = Some (Inr s')"
     "frame_wf (ts_frame s')" "redundant_ctrl_frames (ts_tx s') = redundant_ctrl_frames (ts_tx s1)"
     "ts_air s' = ts_air s1 @ data" "map air_payload data = blocks"
     "frame_count (ts_stats s') = frame_count (ts_stats s1) + of_nat (length blocks)"
     "total_bytes_read (ts_stats s') = total_bytes_read (ts_stats s1) + of_nat (sum_list (map length blocks))"
     "numbering (preinjection (ts_tx s1)) \<longrightarrow>
       map air_number data = map (\<lambda>i. frame_count (ts_stats s1) + of_nat i) [0 ..< length blocks]"
    using Cons.IH[OF r1] Cons.prems s1(1) by auto
  let ?a = "air_frame (block_frame s b) (length b)"
  note bf = block_frame_ok[OF Cons.prems(1) good]
  have "air_payload ?a = b"
    using air_frame_fields(1)[OF bf(1) small[OF refl]] bf(2) by simp
  moreover have "air_number ?a = frame_count (ts_stats s)" if "numbering (preinjection (ts_tx s))"
  proof -
    have "0 + length b \<le> length (payload (ts_frame s))"
      using small[OF refl] Cons.prems(1) by (simp add: tx_ready_def frame_wf_def wire_defs)
    then have "frame_wf ((ts_frame s)\<lparr>payload := overwrite (payload (ts_frame s)) 0 b\<rparr>)"
      using Cons.prems(1) by (simp add: tx_ready_def frame_wf_def)
    then show ?thesis
      using that air_frame_fields(2)[OF bf(1) small[OF refl]]
      by (simp add: air_number_def numbering_def block_frame_def invoke_handlers_def block_stats_def)
  qed
  moreover have "map (\<lambda>i. c + of_nat i) [0 ..< Suc n] = c # map (\<lambda>i. c + (1 + of_nat i)) [0 ..< n]"
    for c :: u32 and n
    by (simp add: upt_conv_Cons map_Suc_upt[symmetric] del: upt_Suc)
  ultimately show ?case
    using turn Cons.prems(2) s1 IH
    by (intro exI[of _ s'] exI[of _ "?a # data"]) (simp add: add.assoc del: upt_Suc)
qed

subsection \<open>A whole transmission\<close>

lemma header_construction_wf:
  assumes "length (tx_address tx) = IEEE80211_MAC_ADDR_LEN"
  shows "frame_wf (setup_dxwifi_tx_frame\<lparr>radiotap_hdr := r,
     mac_hdr := construct_ieee80211_header m fcntl dur (tx_address tx)\<rparr>)"
  using assms
  by (simp add: frame_wf_def mac_wf_def construct_ieee80211_header_def setup_dxwifi_tx_frame_def)

definition transmitter_ok :: "'u dxwifi_transmitter \<Rightarrow> bool" where
  "transmitter_ok tx \<longleftrightarrow> length (tx_address tx) = IEEE80211_MAC_ADDR_LEN \<and>
     blocksize tx \<le> DXWIFI_BLOCK_SIZE_MAX \<and> fits_int (redundant_ctrl_frames tx + 1) \<and>
     fits_int (transmit_timeout tx * 1000) \<and>
     (\<forall>h \<in> set (preinjection tx). header_only h) \<and> (\<forall>h \<in> set (postinjection tx). header_only h)"

definition ctrl_copies :: "'u dxwifi_transmitter \<Rightarrow> nat" where
  "ctrl_copies tx = nat (redundant_ctrl_frames tx + 1)"

lemma tx_begin_ok:
  assumes "transmitter_ok tx"
  shows "\<exists>s. tx_begin port tx = Inr s \<and> tx_ready s \<and> ts_tx s = tx\<lparr>tx_activated := True\<rparr> \<and>
     ts_stats s = init_tx_stats \<and>
     map air_payload (ts_air s) =
       replicate (ctrl_copies tx) (replicate DXWIFI_FRAME_CONTROL_DATA_SIZE 0xff)"
proof -
  define f where "f = setup_dxwifi_tx_frame
    \<lparr>radiotap_hdr := construct_radiotap_header (radiotap_hdr setup_dxwifi_tx_frame)
        (rtap_flags tx) (rtap_rate_mbps tx) (rtap_tx_flags tx),
     mac_hdr := construct_ieee80211_header (mac_hdr setup_dxwifi_tx_frame) (fctl tx) 0xffff (tx_address tx)\<rparr>"
  have wf: "frame_wf f"
    unfolding f_def using assms by (intro header_construction_wf) (simp add: transmitter_ok_def)
  let ?tx = "tx\<lparr>tx_activated := True\<rparr>"
  have fits: "fits_int (redundant_ctrl_frames ?tx + 1)" "fits_int (transmit_timeout tx * 1000)"
    using assms by (simp_all add: transmitter_ok_def)
  let ?s = "\<lparr>ts_tx = ?tx, ts_frame = control_frame f DXWIFI_CONTROL_FRAME_PREAMBLE,
      ts_stats = init_tx_stats, ts_air = [] @ replicate (nat (redundant_ctrl_frames ?tx + 1))
       (air_frame (control_frame f DXWIFI_CONTROL_FRAME_PREAMBLE) DXWIFI_FRAME_CONTROL_DATA_SIZE)\<rparr>"
  have "tx_begin port tx = Inr ?s"
    using send_control_frame_ok[OF wf fits(1), of port "[]"] fits(2)
    by (simp add: tx_begin_def Let_def f_def[symmetric])
  moreover have "tx_ready ?s"
    using assms control_frame_wf[OF wf] by (simp add: tx_ready_def transmitter_ok_def)
  ultimately show ?thesis
    by (simp add: air_payload_control[OF wf] ctrl_copies_def)
qed

lemma start_transmission_ok:
  assumes ok: "transmitter_ok tx" and good: "\<forall>b \<in> set blocks. good_block tx b"
    and final: "final_event e"
  shows "\<exists>s pre data post. start_transmission port tx (map block_event blocks @ e # es) = Some (Inr s) \<and>
     ts_air s = pre @ data @ post \<and>
     map air_payload pre = replicate (ctrl_copies tx) (replicate DXWIFI_FRAME_CONTROL_DATA_SIZE 0xff) \<and>
     map air_payload data = blocks \<and>
     map air_payload post = replicate (ctrl_copies tx) (replicate DXWIFI_FRAME_CONTROL_DATA_SIZE 0xaa) \<and>
     frame_count (ts_stats s) = of_nat (length blocks) \<and>
     total_bytes_read (ts_stats s) = of_nat (sum_list (map length blocks)) \<and>
     (numbering (preinjection tx) \<longrightarrow> map air_number data = map of_nat [0 ..< length blocks])"
proof -
  obtain s0 where s0: "tx_begin port tx = Inr s0" "tx_ready s0" "ts_tx s0 = tx\<lparr>tx_activated := True\<rparr>"
     "ts_stats s0 = init_tx_stats"
     "map air_payload (ts_air s0) =
       replicate (ctrl_copies tx) (replicate DXWIFI_FRAME_CONTROL_DATA_SIZE 0xff)"
    using tx_begin_ok[OF ok] by blast
  have g: "\<forall>b \<in> set blocks. good_block (ts_tx s0) b" using good s0(3) by (simp add: good_block_def)
  obtain s1 data where s1: "tx_loop port s0 (map block_event blocks @ e # es) = Some (Inr s1)"
     "frame_wf (ts_frame s1)" "redundant_ctrl_frames (ts_tx s1) = redundant_ctrl_frames tx"
     "ts_air s1 = ts_air s0 @ data" "map air_payload data = blocks"
     "frame_count (ts_stats s1) = of_nat (length blocks)"
     "total_bytes_read (ts_stats s1) = of_nat (sum_list (map length blocks))"
     "numbering (preinjection tx) \<longrightarrow> map air_number data = map of_nat [0 ..< length blocks]"
    using tx_loop_blocks[OF s0(2) _ g final, of port es] s0(3,4) by (auto simp: init_tx_stats_def)
  have fits: "fits_int (redundant_ctrl_frames (ts_tx s1) + 1)"
    using ok s1(3) by (simp add: transmitter_ok_def)
  let ?post = "replicate (ctrl_copies tx) (air_frame (control_frame (ts_frame s1)
      DXWIFI_CONTROL_FRAME_EOT) DXWIFI_FRAME_CONTROL_DATA_SIZE)"
  have "\<exists>s. tx_finish port s1 = Inr s \<and> ts_air s = ts_air s0 @ data @ ?post \<and>
      frame_count (ts_stats s) = frame_count (ts_stats s1) \<and>
      total_bytes_read (ts_stats s) = total_bytes_read (ts_stats s1)"
    using send_control_frame_ok[OF s1(2) fits, of port "ts_air s1" DXWIFI_CONTROL_FRAME_EOT] s1(3,4)
    by (simp add: tx_finish_def Let_def ctrl_copies_def)
  then obtain s where "tx_finish port s1 = Inr s" "ts_air s = ts_air s0 @ data @ ?post"
      "frame_count (ts_stats s) = frame_count (ts_stats s1)"
      "total_bytes_read (ts_stats s) = total_bytes_read (ts_stats s1)"
    by blast
  then show ?thesis
    using s0 s1 air_payload_control[OF s1(2), of DXWIFI_CONTROL_FRAME_EOT]
    by (intro exI[of _ s] exI[of _ "ts_air s0"] exI[of _ data] exI[of _ ?post])
      (simp add: start_transmission_def)
qed

subsection \<open>The frame control word\<close>

lemma set_bits16_same: "set_bits16 w m v AND m = v AND m"
  by (rule bit_word_eqI) (auto simp: bit_set_bits16 bit_simps)

lemma set_bits16_other: "m AND k = 0 \<Longrightarrow> set_bits16 w m v AND k = w AND k"
  by (rule bit_word_eqI) (metis bit_and_iff bit_set_bits16 bit_0_eq bot_apply bot_bool_def)

lemma fctl_word_fields:
  "fctl_word fc AND fctl_mask IEEE80211_FCTL_VERS = ucast (protocol_version fc) AND 3"
  "fctl_word fc AND fctl_mask IEEE80211_FCTL_FTYPE = fctl_type_value (fc_type fc)"
  "fctl_word fc AND fctl_mask IEEE80211_FCTL_STYPE = stype_data (stype fc)"
  "fctl_word fc AND fctl_mask IEEE80211_FCTL_MOREFRAGS = 0"
  using fctl_type_in_mask[of "fc_type fc"] stype_in_mask[of "stype fc"]
  by (simp_all add: fctl_word_def Let_def set_bits16_same set_bits16_other)

lemma fctl_word_flags:
  "fctl_word fc AND fctl_mask IEEE80211_FCTL_TODS \<noteq> 0 \<longleftrightarrow> to_ds fc"
  "fctl_word fc AND fctl_mask IEEE80211_FCTL_FROMDS \<noteq> 0 \<longleftrightarrow> from_ds fc"
  "fctl_word fc AND fctl_mask IEEE80211_FCTL_RETRY \<noteq> 0 \<longleftrightarrow> retry fc"
  "fctl_word fc AND fctl_mask IEEE80211_FCTL_PM \<noteq> 0 \<longleftrightarrow> power_mgmt fc"
  "fctl_word fc AND fctl_mask IEEE80211_FCTL_MOREDATA \<noteq> 0 \<longleftrightarrow> more_data fc"
  "fctl_word fc AND fctl_mask IEEE80211_FCTL_PROTECTED \<noteq> 0 \<longleftrightarrow> wep fc"
  "fctl_word fc AND fctl_mask IEEE80211_FCTL_ORDER \<noteq> 0 \<longleftrightarrow> order fc"
  by (simp_all add: fctl_word_def Let_def set_bits16_same set_bits16_other)

subsection \<open>A failing read\<close>

lemma read_error_turn:
  assumes "tx_ready s" and "\<not> ev_stop_poll e" and "0 < ev_poll e" and "ev_read e = None"
  shows "tx_turn (Pcap answer) s e = Inl Out_Of_Bounds"
proof -
  have wf: "frame_wf (ts_frame s)" using assms(1) by (simp add: tx_ready_def)
  let ?st = "(ts_stats s)\<lparr>prev_bytes_read := word_of_int (-1)\<rparr>"
  let ?r = "invoke_loop (preinjection (ts_tx s)) (ts_frame s) (ucast (word_of_int (-1) :: u32)) ?st"
  have minus1: "(- 1 :: u32) = 0xffffffff" by simp
  have size: "ucast (- 1 :: u32) = (0xffffffff :: size_t)" unfolding minus1 by simp
  have pos: "(0 :: u32) < - 1" unfolding minus1 by simp
  have r: "fst ?r = 0xffffffff" "frame_wf (snd ?r)"
    using invoke_loop_header_only[of "preinjection (ts_tx s)" "ts_frame s"
        "ucast (word_of_int (-1) :: u32)" ?st] assms(1) wf
    by (simp_all add: tx_ready_def size)
  have "packet_size 0xffffffff = 0x100000027" by (simp add: packet_size_def wire_defs)
  then have "unat (packet_size 0xffffffff) = 0x100000027" by simp
  then have "inject_packet (Pcap answer) air (snd ?r) (fst ?r) = Inl Out_Of_Bounds" for air
    using r length_frame_bytes[OF r(2)] by (simp add: inject_packet_def wire_defs)
  then show ?thesis
    using assms(2-4) pos
    by (simp add: tx_turn_def signal_stop_def tx_read_def tx_send_block_def invoke_handlers_def split_beta)
qed

section \<open>Properties\<close>


definition sample_fctl :: ieee80211_frame_control where
  "sample_fctl = \<lparr>protocol_version = 0, fc_type = IEEE80211_FTYPE_DATA,
     stype = Data IEEE80211_STYPE_DATA, to_ds = False, from_ds = True, more_frag = True,
     retry = False, power_mgmt = False, more_data = True, wep = False, order = False\<rparr>"

definition sample_tx :: "unit dxwifi_transmitter" where
  "sample_tx = \<lparr>blocksize = 1024, transmit_timeout = -1, redundant_ctrl_frames = 1,
     tx_address = replicate 6 0xaa, rtap_flags = 0x10, rtap_rate_mbps = 1, rtap_tx_flags = 8,
     fctl = sample_fctl, preinjection = replicate 8 no_handler,
     postinjection = replicate 8 no_handler, tx_activated = False\<rparr>"

definition eof_event :: tx_event where
  "eof_event = \<lparr>ev_stop_poll = False, ev_poll = 1, ev_read = Some [], ev_stop_after = False\<rparr>"

lemma sample_tx_ok: "transmitter_ok sample_tx"
  by (simp add: transmitter_ok_def sample_tx_def wire_defs fits_int_def INT_MAX_def INT_MIN_def)

lemma eof_event_final: "final_event eof_event"
  by (simp add: final_event_def eof_event_def)


text \<open>
  C34: The frame control word of a frame carries the configured version, type, subtype and
  flags in the bits that the standard assigns to them, except that the bit for more fragments is
  always clear: the code never writes \<open>more_frag\<close>.
\<close>

theorem frame_control_bits:
  "fctl_word fc AND fctl_mask IEEE80211_FCTL_VERS = ucast (protocol_version fc) AND 3 \<and>
   fctl_word fc AND fctl_mask IEEE80211_FCTL_FTYPE = fctl_type_value (fc_type fc) \<and>
   fctl_word fc AND fctl_mask IEEE80211_FCTL_STYPE = stype_data (stype fc) \<and>
   (fctl_word fc AND fctl_mask IEEE80211_FCTL_TODS \<noteq> 0 \<longleftrightarrow> to_ds fc) \<and>
   (fctl_word fc AND fctl_mask IEEE80211_FCTL_FROMDS \<noteq> 0 \<longleftrightarrow> from_ds fc) \<and>
   fctl_word fc AND fctl_mask IEEE80211_FCTL_MOREFRAGS = 0 \<and>
   (fctl_word fc AND fctl_mask IEEE80211_FCTL_RETRY \<noteq> 0 \<longleftrightarrow> retry fc) \<and>
   (fctl_word fc AND fctl_mask IEEE80211_FCTL_PM \<noteq> 0 \<longleftrightarrow> power_mgmt fc) \<and>
   (fctl_word fc AND fctl_mask IEEE80211_FCTL_MOREDATA \<noteq> 0 \<longleftrightarrow> more_data fc) \<and>
   (fctl_word fc AND fctl_mask IEEE80211_FCTL_PROTECTED \<noteq> 0 \<longleftrightarrow> wep fc) \<and>
   (fctl_word fc AND fctl_mask IEEE80211_FCTL_ORDER \<noteq> 0 \<longleftrightarrow> order fc)"
  by (intro conjI fctl_word_fields fctl_word_flags)

text \<open>
  Attaching a handler takes the first free slot of the pipeline and returns its index, and
  removing that index restores the pipeline; with no free slot attaching returns -1 and changes
  nothing. The other slots are never touched, so handlers run in the order of their slots.
\<close>

theorem attach_remove_handler:
  assumes "length (preinjection tx) = DXWIFI_TX_FRAME_HANDLER_MAX"
    and "\<forall>q \<in> set (preinjection tx). callback q = None \<longrightarrow> q = no_handler"
  shows "(\<exists>i. free_slot (preinjection tx) i \<and>
       attach_preinject_handler tx cb user =
         (int i, tx\<lparr>preinjection := (preinjection tx)[i := \<lparr>callback = Some cb, user_args = user\<rparr>]\<rparr>) \<and>
       remove_preinject_handler (snd (attach_preinject_handler tx cb user)) (int i) = (True, tx)) \<or>
     ((\<forall>q \<in> set (preinjection tx). callback q \<noteq> None) \<and>
       attach_preinject_handler tx cb user = (-1, tx))"
proof (cases "\<exists>q \<in> set (preinjection tx). callback q = None")
  case True
  then obtain i where i: "free_slot (preinjection tx) i" using free_slot_exists by blast
  then have "i < 8" "preinjection tx ! i = no_handler"
    using assms by (auto simp: free_slot_def DXWIFI_TX_FRAME_HANDLER_MAX_def)
  then have "(preinjection tx)[i := no_handler] = preinjection tx"
    by (metis list_update_id)
  then show ?thesis
    using i attach_from_free[OF i, of 0] assms(1) \<open>i < 8\<close>
    by (auto simp: attach_preinject_handler_def attach_handler_def remove_preinject_handler_def
        remove_handler_def DXWIFI_TX_FRAME_HANDLER_MAX_def)
next
  case False
  then show ?thesis
    using attach_from_full[of "preinjection tx" 0]
    by (simp add: attach_preinject_handler_def attach_handler_def)
qed

theorem attach_remove_handler_witness:
  "fst (attach_preinject_handler sample_tx (\<lambda>f sz st u. (sz, f)) None) = 0"
proof -
  have "free_slot (preinjection sample_tx) i \<Longrightarrow> i = 0" for i
    by (cases i) (auto simp: free_slot_def sample_tx_def no_handler_def)
  then show ?thesis
    using attach_remove_handler[of sample_tx "\<lambda>f sz st u. (sz, f)" None]
    by (auto simp: sample_tx_def no_handler_def DXWIFI_TX_FRAME_HANDLER_MAX_def)
qed

text \<open>
  A frame with room for the payload is handed to pcap as the headers, the payload and four
  bytes for the frame check sequence; a handler that returns a larger size makes the injection
  read past the end of the frame, because the check of the returned size only logs.
\<close>

theorem injection_bounds:
  assumes "frame_wf f" and "unat sz < 2 ^ 31"
  shows "(unat sz \<le> DXWIFI_TX_PAYLOAD_SIZE_MAX \<longrightarrow>
       (\<exists>status pkt. inject_packet port air f sz = Inr (status, air @ [pkt]) \<and>
         length pkt = unat sz + 40 \<and> air_mac pkt = mac_bytes (mac_hdr f) \<and>
         air_payload pkt = take (unat sz) (payload f))) \<and>
     (DXWIFI_TX_PAYLOAD_SIZE_MAX < unat sz \<longrightarrow> inject_packet port air f sz = Inl Out_Of_Bounds)"
  using inject_packet_ok[OF assms(1), of sz port air] inject_packet_oversize[OF assms(1) _ assms(2), of port air]
    air_frame_fields[OF assms(1)] length_air_frame[OF assms(1)]
  by auto

theorem injection_bounds_witness:
  "inject_packet Savefile [] (setup_dxwifi_tx_frame) 3000 = Inl Out_Of_Bounds"
  using injection_bounds[of setup_dxwifi_tx_frame 3000 Savefile "[]"]
  by (simp add: frame_wf_def mac_wf_def setup_dxwifi_tx_frame_def wire_defs)

text \<open>
  A failing \<open>read\<close> is taken for a block of 4294967295 bytes: its result -1 is kept in an
  unsigned field, so the turn goes on to inject that many bytes from the frame.
\<close>

theorem read_error_overreads:
  assumes "tx_ready s" and "\<not> ev_stop_poll e" and "0 < ev_poll e" and "ev_read e = None"
  shows "tx_turn (Pcap answer) s e = Inl Out_Of_Bounds"
  using assms by (rule read_error_turn)

definition sample_session_tx :: "unit tx_session" where
  "sample_session_tx = \<lparr>ts_tx = sample_tx, ts_frame = setup_dxwifi_tx_frame,
     ts_stats = init_tx_stats, ts_air = []\<rparr>"

theorem read_error_overreads_witness:
  "tx_turn (Pcap (\<lambda>n pkt. int (length pkt))) sample_session_tx
     \<lparr>ev_stop_poll = False, ev_poll = 1, ev_read = None, ev_stop_after = False\<rparr> = Inl Out_Of_Bounds"
  by (rule read_error_overreads)
    (simp_all add: tx_ready_def sample_session_tx_def sample_tx_def frame_wf_def mac_wf_def
      setup_dxwifi_tx_frame_def wire_defs)

end
