(* ===== verification/TxCli.thy ===== *)
theory TxCli imports Cli TransmitterRun begin

text \<open>
  \<open>dxwifi/tx/cli.h\<close> and \<open>cli.c\<close>: the command line of the transmission program. \<open>lstat\<close> is an
  argument, and so is the sequence of keys that argp hands to the parser for a command line.
\<close>

unbundle bit_operations_syntax

definition TX_CLI_FILE_MAX :: nat where "TX_CLI_FILE_MAX = 1024"

datatype tx_mode = TX_FILE_MODE | TX_STREAM_MODE | TX_DIRECTORY_MODE

record 'u tx_cli_args =
  tx_mode :: tx_mode
  files :: "string option list"
  file_count :: nat
  tx_file_filter :: string
  retransmit_count :: int
  transmit_current_files :: bool
  listen_for_new_files :: bool
  dirwatch_timeout :: int
  tx_verbosity :: int
  tx_quiet :: bool
  tx_use_syslog :: bool
  tx_delay :: u32
  file_delay :: u32
  tx_device :: string
  tx_savefile :: "string option"
  cli_tx :: "'u dxwifi_transmitter"

definition TX_DIRECTORY_GROUP :: int where "TX_DIRECTORY_GROUP = 500"
definition TX_MAC_HEADER_GROUP :: int where "TX_MAC_HEADER_GROUP = 1000"
definition TX_RTAP_CONF_GROUP :: int where "TX_RTAP_CONF_GROUP = 1500"
definition TX_RTAP_FLAGS_GROUP :: int where "TX_RTAP_FLAGS_GROUP = 2000"
definition TX_RTAP_TX_FLAGS_GROUP :: int where "TX_RTAP_TX_FLAGS_GROUP = 2500"
definition TX_TEST_GROUP :: int where "TX_TEST_GROUP = 3500"

lemmas tx_groups = TX_DIRECTORY_GROUP_def TX_MAC_HEADER_GROUP_def TX_RTAP_CONF_GROUP_def
  TX_RTAP_FLAGS_GROUP_def TX_RTAP_TX_FLAGS_GROUP_def TX_TEST_GROUP_def

datatype directory_setting = FILE_FILTER | INCLUDE_ALL_FLAG | NO_LISTEN_FLAG | WATCHDIR_TIMEOUT

fun directory_key :: "directory_setting \<Rightarrow> int" where
  "directory_key FILE_FILTER = GET_KEY 0 TX_DIRECTORY_GROUP"
| "directory_key INCLUDE_ALL_FLAG = GET_KEY 1 TX_DIRECTORY_GROUP"
| "directory_key NO_LISTEN_FLAG = GET_KEY 2 TX_DIRECTORY_GROUP"
| "directory_key WATCHDIR_TIMEOUT = GET_KEY 3 TX_DIRECTORY_GROUP"

definition flag_key :: "ieee80211_radiotap_flag \<Rightarrow> int" where
  "flag_key f = GET_KEY (uint (radiotap_flag f)) TX_RTAP_FLAGS_GROUP"

definition tx_flag_key :: "ieee80211_radiotap_tx_flag \<Rightarrow> int" where
  "tx_flag_key f = GET_KEY (uint (radiotap_tx_flag f)) TX_RTAP_TX_FLAGS_GROUP"

definition set_tx :: "'u tx_cli_args \<Rightarrow> ('u dxwifi_transmitter \<Rightarrow> 'u dxwifi_transmitter) \<Rightarrow>
    'u tx_cli_args argp_result" where
  "set_tx args f = Parsed (args\<lparr>cli_tx := f (cli_tx args)\<rparr>)"

definition tx_key_end :: "stat_call \<Rightarrow> 'u tx_cli_args \<Rightarrow> 'u tx_cli_args argp_result" where
  "tx_key_end lstat args =
     (let args = args\<lparr>tx_mode :=
        (if 0 < file_count args
         then if file_count args = 1 \<and> is_directory lstat (the (files args ! 0))
              then TX_DIRECTORY_MODE else TX_FILE_MODE
         else TX_STREAM_MODE)\<rparr>
      in Parsed (if tx_quiet args then args\<lparr>tx_verbosity := 0\<rparr> else args))"

definition tx_key_arg :: "'u tx_cli_args \<Rightarrow> string \<Rightarrow> 'u tx_cli_args argp_result" where
  "tx_key_arg args arg =
     (if TX_CLI_FILE_MAX \<le> file_count args then Usage_Exit
      else Parsed (args\<lparr>files := (files args)[file_count args := Some arg],
             file_count := file_count args + 1\<rparr>))"

text \<open>The cases of the switch, in its order; \<open>tests\<close> is \<open>DXWIFI_TESTS\<close>.\<close>

definition tx_parse_opt :: "bool \<Rightarrow> stat_call \<Rightarrow> int \<Rightarrow> string \<Rightarrow> 'u tx_cli_args \<Rightarrow>
    'u tx_cli_args argp_result" where
  "tx_parse_opt tests lstat key arg args =
     (if key = ARGP_KEY_END then tx_key_end lstat args
      else if key = ARGP_KEY_INIT
      then Parsed (let args = args\<lparr>files := replicate TX_CLI_FILE_MAX None\<rparr>
                   in if tests then args\<lparr>tx_savefile := None\<rparr> else args)
      else if key = ARGP_KEY_ARG then tx_key_arg args arg
      else if key = key_char CHR ''d'' then Parsed (args\<lparr>tx_device := arg\<rparr>)
      else if key = key_char CHR ''b''
      then let n = to_size (c_atoi arg) in
           if n < DXWIFI_BLOCK_SIZE_MIN \<or> DXWIFI_BLOCK_SIZE_MAX < n then Usage_Exit
           else set_tx args (\<lambda>tx. tx\<lparr>blocksize := n\<rparr>)
      else if key = key_char CHR ''t''
      then let n = c_atoi arg in
           if n = 0 then Usage_Exit else set_tx args (\<lambda>tx. tx\<lparr>transmit_timeout := n\<rparr>)
      else if key = key_char CHR ''v'' then Parsed (args\<lparr>tx_verbosity := tx_verbosity args + 1\<rparr>)
      else if key = key_char CHR ''q'' then Parsed (args\<lparr>tx_quiet := True\<rparr>)
      else if key = key_char CHR ''u'' then Parsed (args\<lparr>tx_delay := to_unsigned (c_atoi arg)\<rparr>)
      else if key = key_char CHR ''r''
      then set_tx args (\<lambda>tx. tx\<lparr>redundant_ctrl_frames := c_atoi arg\<rparr>)
      else if key = key_char CHR ''f'' then Parsed (args\<lparr>file_delay := to_unsigned (c_atoi arg)\<rparr>)
      else if key = key_char CHR ''c'' then Parsed (args\<lparr>retransmit_count := c_atoi arg\<rparr>)
      else if key = key_char CHR ''s'' then Parsed (args\<lparr>tx_use_syslog := True\<rparr>)
      else if key = directory_key FILE_FILTER then Parsed (args\<lparr>tx_file_filter := arg\<rparr>)
      else if key = directory_key INCLUDE_ALL_FLAG then Parsed (args\<lparr>transmit_current_files := True\<rparr>)
      else if key = directory_key NO_LISTEN_FLAG then Parsed (args\<lparr>listen_for_new_files := False\<rparr>)
      else if key = directory_key WATCHDIR_TIMEOUT
      then Parsed (args\<lparr>dirwatch_timeout := c_atoi arg\<rparr>)
      else if key = GET_KEY 1 TX_MAC_HEADER_GROUP
      then (case parse_mac_address arg of None \<Rightarrow> Usage_Exit
            | Some a \<Rightarrow> set_tx args (\<lambda>tx. tx\<lparr>tx_address := a\<rparr>))
      else if key = flag_key IEEE80211_RADIOTAP_F_CFP
      then set_tx args (\<lambda>tx. tx\<lparr>rtap_flags := rtap_flags tx OR radiotap_flag IEEE80211_RADIOTAP_F_CFP\<rparr>)
      else if key = flag_key IEEE80211_RADIOTAP_F_SHORTPRE
      then set_tx args (\<lambda>tx. tx\<lparr>rtap_flags := rtap_flags tx OR radiotap_flag IEEE80211_RADIOTAP_F_SHORTPRE\<rparr>)
      else if key = flag_key IEEE80211_RADIOTAP_F_WEP
      then set_tx args (\<lambda>tx. tx\<lparr>rtap_flags := rtap_flags tx OR radiotap_flag IEEE80211_RADIOTAP_F_WEP\<rparr>)
      else if key = flag_key IEEE80211_RADIOTAP_F_FRAG
      then set_tx args (\<lambda>tx. tx\<lparr>rtap_flags := rtap_flags tx OR radiotap_flag IEEE80211_RADIOTAP_F_FRAG\<rparr>)
      else if key = flag_key IEEE80211_RADIOTAP_F_FCS
      then set_tx args (\<lambda>tx. tx\<lparr>rtap_flags := rtap_flags tx AND NOT (radiotap_flag IEEE80211_RADIOTAP_F_FCS)\<rparr>)
      else if key = GET_KEY (int (radiotap_presence IEEE80211_RADIOTAP_RATE)) TX_RTAP_CONF_GROUP
      then set_tx args (\<lambda>tx. tx\<lparr>rtap_rate_mbps := to_byte (c_atoi arg)\<rparr>)
      else if key = tx_flag_key IEEE80211_RADIOTAP_F_TX_NOACK
      then set_tx args (\<lambda>tx. tx\<lparr>rtap_tx_flags :=
             rtap_tx_flags tx AND NOT (radiotap_tx_flag IEEE80211_RADIOTAP_F_TX_NOACK)\<rparr>)
      else if key = tx_flag_key IEEE80211_RADIOTAP_F_TX_NOSEQNO
      then set_tx args (\<lambda>tx. tx\<lparr>rtap_tx_flags :=
             rtap_tx_flags tx OR radiotap_tx_flag IEEE80211_RADIOTAP_F_TX_NOSEQNO\<rparr>)
      else if key = tx_flag_key IEEE80211_RADIOTAP_F_TX_ORDER
      then set_tx args (\<lambda>tx. tx\<lparr>rtap_tx_flags :=
             rtap_tx_flags tx OR radiotap_tx_flag IEEE80211_RADIOTAP_F_TX_ORDER\<rparr>)
      else if tests \<and> key = GET_KEY 1 TX_TEST_GROUP then Parsed (args\<lparr>tx_savefile := Some arg\<rparr>)
      else Unknown_Key args)"

text \<open>\<open>argp_parse\<close> on the keys it derives from a command line; \<open>None\<close> when the program exits.\<close>

fun tx_parse_args :: "bool \<Rightarrow> stat_call \<Rightarrow> (int \<times> string) list \<Rightarrow> 'u tx_cli_args \<Rightarrow>
    'u tx_cli_args option" where
  "tx_parse_args tests lstat [] args = Some args"
| "tx_parse_args tests lstat ((key, arg) # opts) args =
     (case tx_parse_opt tests lstat key arg args of
        Parsed args \<Rightarrow> tx_parse_args tests lstat opts args
      | Unknown_Key args \<Rightarrow> tx_parse_args tests lstat opts args
      | Usage_Exit \<Rightarrow> None)"

text \<open>The defaults of \<open>main\<close>.\<close>

definition tx_default_fctl :: ieee80211_frame_control where
  "tx_default_fctl = \<lparr>protocol_version = IEEE80211_PROTOCOL_VERSION, fc_type = IEEE80211_FTYPE_DATA,
     stype = Data IEEE80211_STYPE_DATA, to_ds = False, from_ds = True, more_frag = False,
     retry = False, power_mgmt = False, more_data = True, wep = False, order = False\<rparr>"

definition tx_default_args :: "'u tx_cli_args" where
  "tx_default_args = \<lparr>tx_mode = TX_STREAM_MODE, files = [], file_count = 0, tx_file_filter = ''*'',
     retransmit_count = 0, transmit_current_files = False, listen_for_new_files = True,
     dirwatch_timeout = -1, tx_verbosity = 4, tx_quiet = False, tx_use_syslog = False,
     tx_delay = 0, file_delay = 0, tx_device = ''mon0'', tx_savefile = None,
     cli_tx = \<lparr>blocksize = 1024, transmit_timeout = -1, redundant_ctrl_frames = 0,
       tx_address = replicate 6 0xAA,
       rtap_flags = radiotap_flag IEEE80211_RADIOTAP_F_FCS, rtap_rate_mbps = 1,
       rtap_tx_flags = radiotap_tx_flag IEEE80211_RADIOTAP_F_TX_NOACK, fctl = tx_default_fctl,
       preinjection = replicate DXWIFI_TX_FRAME_HANDLER_MAX no_handler,
       postinjection = replicate DXWIFI_TX_FRAME_HANDLER_MAX no_handler,
       tx_activated = False\<rparr>\<rparr>"

subsection \<open>What every command line keeps\<close>

definition tx_args_ok :: "'u tx_cli_args \<Rightarrow> bool" where
  "tx_args_ok args \<longleftrightarrow> DXWIFI_BLOCK_SIZE_MIN \<le> blocksize (cli_tx args) \<and>
     blocksize (cli_tx args) \<le> DXWIFI_BLOCK_SIZE_MAX \<and> transmit_timeout (cli_tx args) \<noteq> 0 \<and>
     length (tx_address (cli_tx args)) = IEEE80211_MAC_ADDR_LEN \<and> file_count args \<le> TX_CLI_FILE_MAX"

lemma tx_args_ok_cong:
  "blocksize (cli_tx a) = blocksize (cli_tx b) \<Longrightarrow> transmit_timeout (cli_tx a) = transmit_timeout (cli_tx b) \<Longrightarrow>
   tx_address (cli_tx a) = tx_address (cli_tx b) \<Longrightarrow> file_count a = file_count b \<Longrightarrow>
   tx_args_ok a = tx_args_ok b"
  by (simp add: tx_args_ok_def)

lemma scan_octets_length: "scan_octets n s = Some bs \<Longrightarrow> length bs = n"
proof (induction n arbitrary: s bs)
  case (Suc n)
  then show ?case by (auto split: option.splits prod.splits if_splits list.splits)
qed simp

definition result_ok :: "'u tx_cli_args argp_result \<Rightarrow> bool" where
  "result_ok r \<longleftrightarrow> (case r of Parsed a \<Rightarrow> tx_args_ok a | Unknown_Key a \<Rightarrow> tx_args_ok a | Usage_Exit \<Rightarrow> True)"

lemma result_ok_simps [simp]:
  "result_ok (Parsed a) = tx_args_ok a" "result_ok (Unknown_Key a) = tx_args_ok a" "result_ok Usage_Exit"
  by (simp_all add: result_ok_def)

lemma result_ok_if: "(b \<Longrightarrow> result_ok x) \<Longrightarrow> (\<not> b \<Longrightarrow> result_ok y) \<Longrightarrow> result_ok (if b then x else y)"
  by simp

lemma tx_parse_opt_ok:
  assumes "tx_args_ok args"
  shows "result_ok (tx_parse_opt tests lstat key arg args)"
proof -
  have 1: "result_ok (tx_key_end lstat args)" using assms by (simp add: tx_key_end_def tx_args_ok_def Let_def)
  have 2: "result_ok (tx_key_arg args arg)" using assms by (simp add: tx_key_arg_def tx_args_ok_def)
  have 3: "result_ok (case parse_mac_address arg of None \<Rightarrow> Usage_Exit
            | Some a \<Rightarrow> set_tx args (\<lambda>tx. tx\<lparr>tx_address := a\<rparr>))"
    using assms scan_octets_length[of 6 arg]
    by (auto simp: set_tx_def tx_args_ok_def parse_mac_address_def IEEE80211_MAC_ADDR_LEN_def split: option.splits)
  show ?thesis
    unfolding tx_parse_opt_def
    by (intro result_ok_if 1 2 3; use assms in \<open>auto simp: tx_args_ok_def set_tx_def Let_def\<close>)
qed

lemma tx_parse_args_ok:
  "tx_args_ok args \<Longrightarrow> tx_parse_args tests lstat opts args = Some args' \<Longrightarrow> tx_args_ok args'"
proof (induction opts arbitrary: args)
  case (Cons p ps)
  obtain key arg where p: "p = (key, arg)" by (cases p)
  have "result_ok (tx_parse_opt tests lstat key arg args)" using Cons.prems(1) by (rule tx_parse_opt_ok)
  then show ?case
    using Cons p by (cases "tx_parse_opt tests lstat key arg args") auto
qed simp

lemma tx_default_args_ok: "tx_args_ok tx_default_args"
  by (simp add: tx_args_ok_def tx_default_args_def wire_defs)


section \<open>Properties\<close>

text \<open>
  C32: Whatever options the command line has, if the parser does not end the program then the
  block size is between 257 and 2048, the timeout is not zero, the address has six bytes and the
  file list is within its array.
\<close>

theorem tx_command_line_safe:
  assumes "tx_parse_args tests lstat opts tx_default_args = Some args"
  shows "257 \<le> blocksize (cli_tx args) \<and> blocksize (cli_tx args) \<le> 2048 \<and>
     transmit_timeout (cli_tx args) \<noteq> 0 \<and> length (tx_address (cli_tx args)) = 6 \<and>
     file_count args \<le> 1024"
  using tx_parse_args_ok[OF tx_default_args_ok assms]
  by (simp add: tx_args_ok_def wire_defs TX_CLI_FILE_MAX_def)

lemma key_char_values:
  "key_char CHR ''d'' = 100" "key_char CHR ''b'' = 98" "key_char CHR ''t'' = 116" "key_char CHR ''v'' = 118"
  "key_char CHR ''q'' = 113" "key_char CHR ''u'' = 117" "key_char CHR ''r'' = 114" "key_char CHR ''f'' = 102"
  "key_char CHR ''c'' = 99" "key_char CHR ''s'' = 115"
  by (simp_all add: key_char_def)

lemmas tx_key_defs = key_char_values tx_groups ARGP_KEY_ARG_def ARGP_KEY_END_def ARGP_KEY_INIT_def
  GET_KEY_def flag_key_def tx_flag_key_def

lemma parse_blocksize:
  "tx_parse_opt tests lstat 98 arg args =
     (let n = to_size (c_atoi arg) in
      if n < DXWIFI_BLOCK_SIZE_MIN \<or> DXWIFI_BLOCK_SIZE_MAX < n then Usage_Exit
      else set_tx args (\<lambda>tx. tx\<lparr>blocksize := n\<rparr>))"
  by (simp add: tx_parse_opt_def tx_key_defs)

theorem tx_command_line_safe_witness:
  "\<exists>args. tx_parse_args False (\<lambda>p. None) [(98, ''512'')] (tx_default_args :: unit tx_cli_args) = Some args \<and>
     blocksize (cli_tx args) = 512 \<and> 257 \<le> blocksize (cli_tx args)"
proof -
  have n: "to_size (c_atoi ''512'') = 512" by code_simp
  obtain args where a: "tx_parse_args False (\<lambda>p. None) [(98, ''512'')] (tx_default_args :: unit tx_cli_args) = Some args"
    "blocksize (cli_tx args) = 512"
    by (simp add: parse_blocksize n wire_defs set_tx_def)
  then show ?thesis using tx_command_line_safe[OF a(1)] by blast
qed

text \<open>
  C35: Round trip of the address option: the address printed as six octets in hexadecimal is
  parsed back to the same six bytes, and nothing else of the settings changes.
\<close>

theorem mac_address_roundtrip:
  assumes "length mac = 6"
  shows "tx_parse_opt tests lstat (GET_KEY 1 TX_MAC_HEADER_GROUP) (show_octets mac) args =
     Parsed (args\<lparr>cli_tx := (cli_tx args)\<lparr>tx_address := mac\<rparr>\<rparr>)"
proof -
  have "scan_octets 6 (show_octets mac) = Some mac" 
  proof -
    have "mac \<noteq> []" using assms by auto
    from scan_show[OF this] show ?thesis using assms by simp
  qed
  then show ?thesis by (simp add: tx_parse_opt_def tx_key_defs parse_mac_address_def set_tx_def)
qed

theorem mac_address_roundtrip_witness:
  "tx_parse_opt False (\<lambda>p. None) 1001 ''01:0a:ff:00:9c:10'' (tx_default_args :: unit tx_cli_args) =
     Parsed (tx_default_args\<lparr>cli_tx := (cli_tx tx_default_args)\<lparr>tx_address := [1, 10, 255, 0, 156, 16]\<rparr>\<rparr>)"
proof -
  have "show_octets [1, 10, 255, 0, 156, 16] = ''01:0a:ff:00:9c:10''" by code_simp
  then show ?thesis
    using mac_address_roundtrip[of "[1, 10, 255, 0, 156, 16]" False "\<lambda>p. None" tx_default_args]
    by (simp add: GET_KEY_def TX_MAC_HEADER_GROUP_def)
qed

end
