(* ===== verification/TxApp.thy ===== *)
theory TxApp imports TxCli Dirwatch begin

text \<open>
  \<open>dxwifi/tx/tx.c\<close>: the frame handlers of the transmission program, transmitting files with
  retransmission, directories, and the choice of the mode. The file system and the transmitter's
  surroundings are given as \<open>tx_world\<close>: whether a path can be opened and, for each transmission
  in turn, the answer of \<open>lseek\<close> and the events of the transmission loop. What a transmission
  put on the air is recorded in order. Log output, descriptors and signal handlers are added in
  \<open>SystemCalls\<close>; the time that \<open>msleep\<close> takes is not modelled.
\<close>

unbundle bit_operations_syntax

subsection \<open>Frame handlers\<close>

definition delay_transmission :: "'u dxwifi_tx_frame_cb" where
  "delay_transmission frame payload_size stats user = (payload_size, frame)"

definition log_frame_stats :: "'u dxwifi_tx_frame_cb" where
  "log_frame_stats frame payload_size stats user = (payload_size, frame)"

definition attach_frame_number :: "'u dxwifi_tx_frame_cb" where
  "attach_frame_number frame payload_size stats user =
     (payload_size, frame\<lparr>mac_hdr := (mac_hdr frame)\<lparr>addr1 :=
        take 2 (addr1 (mac_hdr frame)) @ be32_bytes (frame_count stats)\<rparr>\<rparr>)"

subsection \<open>Transmitting files\<close>

record tx_run =
  run_seek :: int
  run_events :: "tx_event list"

record 'u tx_world =
  w_tx :: "'u dxwifi_transmitter"
  w_runs :: "tx_run list"
  w_air :: "byte list list list"

text \<open>\<open>setup_handlers_and_transmit\<close>: the final state and the world after the transmission.\<close>

definition setup_handlers_and_transmit :: "tx_port \<Rightarrow> tx_event list \<Rightarrow> 'u tx_world \<Rightarrow>
    (dxwifi_tx_state \<times> 'u tx_world) res option" where
  "setup_handlers_and_transmit port es w =
     map_option (\<lambda>r. bind_res r (\<lambda>s.
       Inr (tx_state (ts_stats s), w\<lparr>w_tx := ts_tx s, w_air := w_air w @ [ts_air s]\<rparr>)))
     (start_transmission port (w_tx w) es)"

text \<open>
  The \<open>while\<close> loop of \<open>transmit_files\<close> for one open file. \<open>None\<close> when a transmission waits for
  ever, or when the runs of the world are used up.
\<close>

function retransmit :: "tx_port \<Rightarrow> int \<Rightarrow> bool \<Rightarrow> dxwifi_tx_state \<Rightarrow> 'u tx_world \<Rightarrow>
    (dxwifi_tx_state \<times> 'u tx_world) res option" where
  "retransmit port cnt transmit_forever state w =
     (if (0 \<le> cnt \<or> transmit_forever) \<and> state = DXWIFI_TX_NORMAL
      then case w_runs w of
             [] \<Rightarrow> None
           | r # rs \<Rightarrow>
               (case (if run_seek r = -1 then Some (Inr (DXWIFI_TX_ERROR, w))
                      else setup_handlers_and_transmit port (run_events r) w) of
                  None \<Rightarrow> None
                | Some (Inl e) \<Rightarrow> Some (Inl e)
                | Some (Inr (state, w)) \<Rightarrow>
                    if fits_int (cnt - 1)
                    then retransmit port (cnt - 1) transmit_forever state (w\<lparr>w_runs := rs\<rparr>)
                    else Some (Inl Signed_Overflow))
      else Some (Inr (state, w)))"
  by pat_completeness auto
termination by (relation "measure (\<lambda>(p, c, f, s, w). length (w_runs w))") auto

declare retransmit.simps [simp del]

fun transmit_files_from :: "tx_port \<Rightarrow> (string \<Rightarrow> bool) \<Rightarrow> int \<Rightarrow> string list \<Rightarrow> dxwifi_tx_state \<Rightarrow>
    'u tx_world \<Rightarrow> (dxwifi_tx_state \<times> 'u tx_world) res option" where
  "transmit_files_from port opens n [] state w = Some (Inr (state, w))"
| "transmit_files_from port opens n (f # fs) state w =
     (if state = DXWIFI_TX_NORMAL
      then if \<not> opens f then transmit_files_from port opens n fs state w
           else (case retransmit port n (n = -1) state w of
                   None \<Rightarrow> None
                 | Some (Inl e) \<Rightarrow> Some (Inl e)
                 | Some (Inr (state, w)) \<Rightarrow> transmit_files_from port opens n fs state w)
      else Some (Inr (state, w)))"

definition transmit_files :: "tx_port \<Rightarrow> (string \<Rightarrow> bool) \<Rightarrow> string list \<Rightarrow> int \<Rightarrow> 'u tx_world \<Rightarrow>
    (dxwifi_tx_state \<times> 'u tx_world) res option" where
  "transmit_files port opens fs n w =
     transmit_files_from port opens n fs DXWIFI_TX_NORMAL w"

subsection \<open>Directories\<close>

definition PATH_MAX :: nat where "PATH_MAX = 4096"

text \<open>The loop over \<open>readdir\<close>; \<open>names\<close> are the entries of the directory.\<close>

fun transmit_entries :: "tx_port \<Rightarrow> (string \<Rightarrow> bool) \<Rightarrow> stat_call \<Rightarrow> (string \<Rightarrow> string \<Rightarrow> bool) \<Rightarrow>
    string \<Rightarrow> string \<Rightarrow> int \<Rightarrow> string list \<Rightarrow> dxwifi_tx_state \<Rightarrow> 'u tx_world \<Rightarrow>
    (dxwifi_tx_state \<times> 'u tx_world) res option" where
  "transmit_entries port opens lstat fnmatch filt dirname n [] state w = Some (Inr (state, w))"
| "transmit_entries port opens lstat fnmatch filt dirname n (f # fs) state w =
     (if state = DXWIFI_TX_NORMAL
      then if fnmatch filt f \<and> is_regular_file lstat (combine_path PATH_MAX dirname f)
           then (case transmit_files port opens [combine_path PATH_MAX dirname f] n w of
                   None \<Rightarrow> None
                 | Some (Inl e) \<Rightarrow> Some (Inl e)
                 | Some (Inr (state, w)) \<Rightarrow>
                     transmit_entries port opens lstat fnmatch filt dirname n fs state w)
           else transmit_entries port opens lstat fnmatch filt dirname n fs state w
      else Some (Inr (state, w)))"

text \<open>\<open>opendir\<close> answers with the names, or fails.\<close>

definition transmit_directory_contents :: "tx_port \<Rightarrow> (string \<Rightarrow> bool) \<Rightarrow> stat_call \<Rightarrow>
    (string \<Rightarrow> string \<Rightarrow> bool) \<Rightarrow> (string \<Rightarrow> string list option) \<Rightarrow> string \<Rightarrow> string \<Rightarrow> int \<Rightarrow>
    'u tx_world \<Rightarrow> 'u tx_world res option" where
  "transmit_directory_contents port opens lstat fnmatch opendir filt dirname n w =
     (case opendir dirname of
        None \<Rightarrow> Some (Inr w)
      | Some names \<Rightarrow> map_option (\<lambda>r. bind_res r (\<lambda>(state, w). Inr w))
          (transmit_entries port opens lstat fnmatch filt dirname n names DXWIFI_TX_NORMAL w))"

text \<open>
  The dirwatch callback. It may wait for ever, which is kept as the world \<open>None\<close>: from then on no
  event is handled.
\<close>

definition transmit_new_file :: "tx_port \<Rightarrow> (string \<Rightarrow> bool) \<Rightarrow> int \<Rightarrow>
    ('u tx_world option) dirwatch_handler" where
  "transmit_new_file port opens n w dirname filename =
     (case w of
        None \<Rightarrow> Inr None
      | Some w \<Rightarrow> (case transmit_files port opens [combine_path PATH_MAX dirname filename] n w of
            None \<Rightarrow> Inr None
          | Some r \<Rightarrow> bind_res r (\<lambda>(state, w). Inr (Some w))))"

record tx_dir_env =
  env_opens :: "string \<Rightarrow> bool"
  env_lstat :: stat_call
  env_fnmatch :: "string \<Rightarrow> string \<Rightarrow> bool"
  env_opendir :: "string \<Rightarrow> string list option"
  env_inotify_fd :: int
  env_add_watch :: "string \<Rightarrow> u32 \<Rightarrow> int"
  env_dir_events :: "dw_event list"

definition watch_new_files :: "tx_port \<Rightarrow> tx_dir_env \<Rightarrow> 'u tx_cli_args \<Rightarrow> string \<Rightarrow> 'u tx_world \<Rightarrow>
    'u tx_world res option" where
  "watch_new_files port env args dirname w =
     (case bind_res (dirwatch_init (env_inotify_fd env)) (\<lambda>dw.
             bind_res (dirwatch_add (env_add_watch env) dw dirname (tx_file_filter args)
               DW_CREATE_AND_CLOSE True) (\<lambda>(_, dw).
             bind_res (guard_res (fits_int (dirwatch_timeout args * 1000)) Signed_Overflow) (\<lambda>_.
             Inr dw))) of
        Inl e \<Rightarrow> Some (Inl e)
      | Inr dw \<Rightarrow>
          (case dirwatch_listen (env_fnmatch env)
                  (transmit_new_file port (env_opens env) (retransmit_count args)) dw (Some w)
                  (env_dir_events env) of
             None \<Rightarrow> None
           | Some (Inl e) \<Rightarrow> Some (Inl e)
           | Some (Inr (dw, None)) \<Rightarrow> None
           | Some (Inr (dw, Some w)) \<Rightarrow> Some (bind_res (dirwatch_close dw) (\<lambda>_. Inr w))))"

definition transmit_directory :: "tx_port \<Rightarrow> tx_dir_env \<Rightarrow> 'u tx_cli_args \<Rightarrow> 'u tx_world \<Rightarrow>
    'u tx_world res option" where
  "transmit_directory port env args w =
     (let dirname = the (files args ! 0) in
      case (if transmit_current_files args
            then transmit_directory_contents port (env_opens env) (env_lstat env) (env_fnmatch env)
                   (env_opendir env) (tx_file_filter args) dirname (retransmit_count args) w
            else Some (Inr w)) of
        None \<Rightarrow> None
      | Some (Inl e) \<Rightarrow> Some (Inl e)
      | Some (Inr w) \<Rightarrow> if listen_for_new_files args then watch_new_files port env args dirname w
                       else Some (Inr w))"

subsection \<open>The program\<close>

text \<open>The handlers that \<open>transmit\<close> attaches; \<open>delay\<close> is the pointer to the delay setting.\<close>

definition attach_all :: "'u \<Rightarrow> 'u tx_cli_args \<Rightarrow> 'u dxwifi_transmitter \<Rightarrow> 'u dxwifi_transmitter" where
  "attach_all delay args tx =
     (let tx = (if 0 < tx_delay args
                then snd (attach_preinject_handler tx delay_transmission (Some delay)) else tx);
          tx = (if rtap_tx_flags (cli_tx args) AND radiotap_tx_flag IEEE80211_RADIOTAP_F_TX_ORDER \<noteq> 0
                then snd (attach_preinject_handler tx attach_frame_number None) else tx)
      in (if 4 < tx_verbosity args then snd (attach_postinject_handler tx log_frame_stats None) else tx))"

text \<open>\<open>transmit\<close>; in stream mode standard input gives the events of the first run.\<close>

definition transmit :: "tx_port \<Rightarrow> tx_dir_env \<Rightarrow> 'u \<Rightarrow> 'u tx_cli_args \<Rightarrow> 'u tx_world \<Rightarrow>
    'u tx_world res option" where
  "transmit port env delay args w =
     (let w = w\<lparr>w_tx := attach_all delay args (w_tx w)\<rparr> in
      case tx_mode args of
        TX_STREAM_MODE \<Rightarrow>
          (case w_runs w of [] \<Rightarrow> None
           | r # rs \<Rightarrow> map_option (\<lambda>r. bind_res r (\<lambda>(state, w). Inr w))
               (setup_handlers_and_transmit port (run_events r) (w\<lparr>w_runs := rs\<rparr>)))
      | TX_FILE_MODE \<Rightarrow>
          map_option (\<lambda>r. bind_res r (\<lambda>(state, w). Inr w))
            (transmit_files port (env_opens env) (map the (take (file_count args) (files args)))
               (retransmit_count args) w)
      | TX_DIRECTORY_MODE \<Rightarrow> transmit_directory port env args w)"


subsection \<open>Transmissions that nothing disturbs\<close>

text \<open>Nothing but \<open>tx_activated\<close> changes in the transmitter while it transmits.\<close>

definition same_tx :: "'u dxwifi_transmitter \<Rightarrow> 'u dxwifi_transmitter \<Rightarrow> bool" where
  "same_tx a b \<longleftrightarrow> a\<lparr>tx_activated := True\<rparr> = b\<lparr>tx_activated := True\<rparr>"

lemma same_tx_upd [simp]: "same_tx (a\<lparr>tx_activated := b\<rparr>) c = same_tx a c" "same_tx a a"
  "same_tx c (a\<lparr>tx_activated := b\<rparr>) = same_tx c a"
  by (simp_all add: same_tx_def)

lemma same_tx_trans: "same_tx a b \<Longrightarrow> same_tx b c \<Longrightarrow> same_tx a c"
  by (simp add: same_tx_def)

lemma signal_stop_same [simp]:
  "same_tx (ts_tx (signal_stop b s)) (ts_tx s)" "ts_stats (signal_stop b s) = ts_stats s"
  "ts_frame (signal_stop b s) = ts_frame s"
  by (simp_all add: signal_stop_def stop_transmission_def)

lemma tx_read_tx: "tx_read s r = Inr s' \<Longrightarrow> ts_tx s' = ts_tx s \<and> tx_state (ts_stats s') = tx_state (ts_stats s)"
  by (auto simp: tx_read_def Let_def bind_res_eq_Inr split: option.splits)

lemma tx_send_block_tx:
  "tx_send_block port s = Inr s' \<Longrightarrow> ts_tx s' = ts_tx s \<and> tx_state (ts_stats s') = tx_state (ts_stats s)"
  by (auto simp: tx_send_block_def Let_def split_beta bind_res_eq_Inr)

lemma tx_turn_tx:
  assumes "tx_turn port s e = Inr s'"
  shows "same_tx (ts_tx s') (ts_tx s)"
    and "\<not> ev_stop_poll e \<Longrightarrow> \<not> ev_stop_after e \<Longrightarrow> 0 < ev_poll e \<Longrightarrow>
      ts_tx s' = ts_tx s \<and> tx_state (ts_stats s') = tx_state (ts_stats s)"
proof -
  define t where "t = signal_stop (ev_stop_poll e) s"
  define r where "r = (if ev_poll e = 0
         then Inr (t\<lparr>ts_stats := (ts_stats t)\<lparr>tx_state := DXWIFI_TX_TIMED_OUT\<rparr>,
                     ts_tx := (ts_tx t)\<lparr>tx_activated := False\<rparr>\<rparr>)
         else if ev_poll e < 0
         then Inr (t\<lparr>ts_stats := (ts_stats t)\<lparr>tx_state :=
                (if tx_activated (ts_tx t) then DXWIFI_TX_ERROR else DXWIFI_TX_DEACTIVATED)\<rparr>\<rparr>)
         else bind_res (tx_read t (ev_read e)) (\<lambda>s.
              if 0 < prev_bytes_read (ts_stats s) then tx_send_block port s else Inr s))"
  obtain u where u: "r = Inr u" "s' = signal_stop (ev_stop_after e) u"
    using assms by (auto simp: tx_turn_def t_def[symmetric] r_def[symmetric] bind_res_eq_Inr Let_def)
  have ut: "same_tx (ts_tx u) (ts_tx t) \<and>
      (0 < ev_poll e \<longrightarrow> ts_tx u = ts_tx t \<and> tx_state (ts_stats u) = tx_state (ts_stats t))"
    using u(1) unfolding r_def
    by (auto simp: bind_res_eq_Inr split: if_splits dest!: tx_read_tx tx_send_block_tx)
  then show "same_tx (ts_tx s') (ts_tx s)"
    unfolding u(2) t_def by (meson same_tx_trans signal_stop_same(1))
  assume "\<not> ev_stop_poll e" "\<not> ev_stop_after e" "0 < ev_poll e"
  then show "ts_tx s' = ts_tx s \<and> tx_state (ts_stats s') = tx_state (ts_stats s)"
    using ut unfolding u(2) t_def by (simp add: signal_stop_def)
qed

lemma tx_loop_tx:
  "tx_loop port s es = Some (Inr s') \<Longrightarrow> same_tx (ts_tx s') (ts_tx s) \<and>
   ((\<forall>e \<in> set es. \<not> ev_stop_poll e \<and> \<not> ev_stop_after e \<and> 0 < ev_poll e) \<longrightarrow>
     ts_tx s' = ts_tx s \<and> tx_state (ts_stats s') = tx_state (ts_stats s))"
proof (induction es arbitrary: s)
  case (Cons e es)
  then obtain t where t: "tx_turn port s e = Inr t"
    and t': "if tx_activated (ts_tx t) \<and> 0 < prev_bytes_read (ts_stats t)
      then tx_loop port t es = Some (Inr s') else s' = t"
    by (auto split: sum.splits if_splits)
  show ?case
  proof (cases "tx_activated (ts_tx t) \<and> 0 < prev_bytes_read (ts_stats t)")
    case True
    then show ?thesis using Cons.IH[of t] t' tx_turn_tx[OF t] by (auto intro: same_tx_trans)
  next
    case False
    then show ?thesis using t' tx_turn_tx[OF t] by auto
  qed
qed simp

lemma start_transmission_tx:
  assumes "start_transmission port tx es = Some (Inr s)"
  shows "same_tx (ts_tx s) tx"
    and "(\<forall>e \<in> set es. \<not> ev_stop_poll e \<and> \<not> ev_stop_after e \<and> 0 < ev_poll e) \<Longrightarrow>
      tx_state (ts_stats s) = DXWIFI_TX_NORMAL"
proof -
  obtain s0 s1 where s0: "tx_begin port tx = Inr s0" and s1: "tx_loop port s0 es = Some (Inr s1)"
    and s: "tx_finish port s1 = Inr s"
    using assms by (auto simp: start_transmission_def bind_res_eq_Inr split: sum.splits)
  have b: "ts_tx s0 = tx\<lparr>tx_activated := True\<rparr>" "tx_state (ts_stats s0) = DXWIFI_TX_NORMAL"
    using s0 by (auto simp: tx_begin_def Let_def bind_res_eq_Inr init_tx_stats_def)
  have f: "ts_tx s = ts_tx s1" "tx_state (ts_stats s) = (if tx_state (ts_stats s1) = DXWIFI_TX_NORMAL
      \<and> \<not> tx_activated (ts_tx s1) then DXWIFI_TX_DEACTIVATED else tx_state (ts_stats s1))"
    using s by (auto simp: tx_finish_def Let_def bind_res_eq_Inr)
  show "same_tx (ts_tx s) tx" using tx_loop_tx[OF s1] b f by simp
  assume "\<forall>e \<in> set es. \<not> ev_stop_poll e \<and> \<not> ev_stop_after e \<and> 0 < ev_poll e"
  then show "tx_state (ts_stats s) = DXWIFI_TX_NORMAL" using tx_loop_tx[OF s1] b f by simp
qed

lemma same_tx_fields:
  assumes "same_tx a b"
  shows "transmitter_ok a = transmitter_ok b" "good_block a = good_block b" "ctrl_copies a = ctrl_copies b"
    "preinjection a = preinjection b"
proof -
  have f: "f (a\<lparr>tx_activated := True\<rparr>) = f (b\<lparr>tx_activated := True\<rparr>)" for f :: "'a dxwifi_transmitter \<Rightarrow> 'c"
    using assms by (simp add: same_tx_def)
  show "transmitter_ok a = transmitter_ok b" using f[of transmitter_ok] by (simp add: transmitter_ok_def)
  show "good_block a = good_block b" using f[of blocksize] by (simp add: good_block_def fun_eq_iff)
  show "ctrl_copies a = ctrl_copies b" using f[of redundant_ctrl_frames] by (simp add: ctrl_copies_def)
  show "preinjection a = preinjection b" using f[of preinjection] by simp
qed

text \<open>The run of a file that is read to its end in the given blocks.\<close>

definition eof_event :: tx_event where
  "eof_event = \<lparr>ev_stop_poll = False, ev_poll = 1, ev_read = Some [], ev_stop_after = False\<rparr>"

definition file_run :: "byte list list \<Rightarrow> tx_run" where
  "file_run blocks = \<lparr>run_seek = 0, run_events = map block_event blocks @ [eof_event]\<rparr>"

definition payloads_on_air :: "'u dxwifi_transmitter \<Rightarrow> byte list list \<Rightarrow> byte list list" where
  "payloads_on_air tx blocks =
     replicate (ctrl_copies tx) (replicate DXWIFI_FRAME_CONTROL_DATA_SIZE 0xff) @ blocks @
     replicate (ctrl_copies tx) (replicate DXWIFI_FRAME_CONTROL_DATA_SIZE 0xaa)"

lemma transmit_file_run:
  assumes "transmitter_ok (w_tx w)" and "\<forall>b \<in> set blocks. good_block (w_tx w) b"
  shows "\<exists>w'. setup_handlers_and_transmit port (run_events (file_run blocks)) w =
       Some (Inr (DXWIFI_TX_NORMAL, w')) \<and> same_tx (w_tx w') (w_tx w) \<and> w_runs w' = w_runs w \<and>
     map (map air_payload) (w_air w') = map (map air_payload) (w_air w) @ [payloads_on_air (w_tx w) blocks]"
proof -
  have "final_event eof_event" by (simp add: final_event_def eof_event_def)
  from start_transmission_ok[OF assms this, of port "[]"]
  obtain s where s: "start_transmission port (w_tx w) (run_events (file_run blocks)) = Some (Inr s)"
    "map air_payload (ts_air s) = payloads_on_air (w_tx w) blocks"
    by (auto simp: file_run_def payloads_on_air_def)
  have "tx_state (ts_stats s) = DXWIFI_TX_NORMAL"
    using start_transmission_tx(2)[OF s(1)] by (auto simp: file_run_def eof_event_def block_event_def)
  then show ?thesis
    using s start_transmission_tx(1)[OF s(1)] by (simp add: setup_handlers_and_transmit_def)
qed

lemma file_run_seek [simp]: "run_seek (file_run blocks) \<noteq> -1" "run_seek (file_run blocks) = 0"
  by (simp_all add: file_run_def)

text \<open>A file is sent once more than it is to be sent again.\<close>

lemma retransmit_run:
  assumes "transmitter_ok (w_tx w)" and "\<forall>b \<in> set blocks. good_block (w_tx w) b"
    and "w_runs w = replicate k (file_run blocks) @ rest" and "k \<le> 2 ^ 31"
  shows "\<exists>w'. retransmit port (int k - 1) False DXWIFI_TX_NORMAL w = Some (Inr (DXWIFI_TX_NORMAL, w')) \<and>
     same_tx (w_tx w') (w_tx w) \<and> w_runs w' = rest \<and>
     map (map air_payload) (w_air w') = map (map air_payload) (w_air w) @
       replicate k (payloads_on_air (w_tx w) blocks)"
  using assms
proof (induction k arbitrary: w)
  case 0
  then show ?case by (subst retransmit.simps) simp
next
  case (Suc k)
  obtain w1 where w1: "setup_handlers_and_transmit port (run_events (file_run blocks)) w =
       Some (Inr (DXWIFI_TX_NORMAL, w1))" "same_tx (w_tx w1) (w_tx w)"
     "map (map air_payload) (w_air w1) = map (map air_payload) (w_air w) @ [payloads_on_air (w_tx w) blocks]"
    using transmit_file_run[OF Suc.prems(1,2)] by blast
  let ?w = "w1\<lparr>w_runs := replicate k (file_run blocks) @ rest\<rparr>"
  note f = same_tx_fields[OF w1(2)]
  have p: "payloads_on_air (w_tx w1) blocks = payloads_on_air (w_tx w) blocks"
    by (simp add: payloads_on_air_def f)
  obtain w' where w': "retransmit port (int k - 1) False DXWIFI_TX_NORMAL ?w = Some (Inr (DXWIFI_TX_NORMAL, w'))"
     "same_tx (w_tx w') (w_tx w1)" "w_runs w' = rest"
     "map (map air_payload) (w_air w') = map (map air_payload) (w_air w1) @
       replicate k (payloads_on_air (w_tx w) blocks)"
    using Suc.IH[of ?w] Suc.prems f p by auto
  have "fits_int (int k - 1)" using Suc.prems(4) by (simp add: fits_int_def INT_MIN_def INT_MAX_def)
  then have "retransmit port (int (Suc k) - 1) False DXWIFI_TX_NORMAL w = Some (Inr (DXWIFI_TX_NORMAL, w'))"
    using w1(1) w'(1) Suc.prems(3) by (subst retransmit.simps) simp
  then show ?case using w' w1(2,3) by (auto intro: same_tx_trans)
qed


lemma transmit_files_run:
  assumes "transmitter_ok (w_tx w)" and "\<forall>f \<in> set fs. \<forall>b \<in> set (content f). good_block (w_tx w) b"
    and "k \<le> 2 ^ 31" and "0 < k"
    and "w_runs w = concat (map (\<lambda>f. replicate k (file_run (content f))) (filter opens fs))"
  shows "\<exists>w'. transmit_files_from port opens (int k - 1) fs DXWIFI_TX_NORMAL w =
       Some (Inr (DXWIFI_TX_NORMAL, w')) \<and> w_runs w' = [] \<and>
     map (map air_payload) (w_air w') = map (map air_payload) (w_air w) @
       concat (map (\<lambda>f. replicate k (payloads_on_air (w_tx w) (content f))) (filter opens fs))"
  using assms
proof (induction fs arbitrary: w)
  case (Cons f fs)
  show ?case
  proof (cases "opens f")
    case True
    obtain w1 where w1: "retransmit port (int k - 1) False DXWIFI_TX_NORMAL w = Some (Inr (DXWIFI_TX_NORMAL, w1))"
       "same_tx (w_tx w1) (w_tx w)"
       "w_runs w1 = concat (map (\<lambda>f. replicate k (file_run (content f))) (filter opens fs))"
       "map (map air_payload) (w_air w1) = map (map air_payload) (w_air w) @
         replicate k (payloads_on_air (w_tx w) (content f))"
      using retransmit_run[OF Cons.prems(1), of "content f" k _ port] Cons.prems True by auto
    note e = same_tx_fields[OF w1(2)]
    obtain w' where w': "transmit_files_from port opens (int k - 1) fs DXWIFI_TX_NORMAL w1 =
         Some (Inr (DXWIFI_TX_NORMAL, w'))" "w_runs w' = []"
       "map (map air_payload) (w_air w') = map (map air_payload) (w_air w1) @
       concat (map (\<lambda>f. replicate k (payloads_on_air (w_tx w1) (content f))) (filter opens fs))"
      using Cons.IH[of w1] Cons.prems e w1(3) by auto
    have "payloads_on_air (w_tx w1) = payloads_on_air (w_tx w)"
      by (simp add: payloads_on_air_def e fun_eq_iff)
    moreover have "(int k - 1 = -1) = False" using Cons.prems(4) by simp
    ultimately show ?thesis using True w1 w' by simp
  next
    case False
    then show ?thesis using Cons.IH[of w] Cons.prems by simp
  qed
qed simp

text \<open>With the count \<open>-1\<close> the loop has no end but a failure; its counter overflows.\<close>

lemma retransmit_forever:
  assumes "transmitter_ok (w_tx w)" and "\<forall>b \<in> set blocks. good_block (w_tx w) b"
    and "w_runs w = replicate (Suc k) (file_run blocks)" and "fits_int cnt" and "cnt = INT_MIN + int k"
  shows "retransmit port cnt True DXWIFI_TX_NORMAL w = Some (Inl Signed_Overflow)"
  using assms
proof (induction k arbitrary: w cnt)
  case 0
  have "\<not> fits_int (cnt - 1)" using 0 by (simp add: fits_int_def INT_MIN_def)
  then show ?case using transmit_file_run[OF 0(1,2), of port] 0(3) by (subst retransmit.simps) auto
next
  case (Suc k)
  obtain w1 where w1: "setup_handlers_and_transmit port (run_events (file_run blocks)) w =
       Some (Inr (DXWIFI_TX_NORMAL, w1))" "same_tx (w_tx w1) (w_tx w)"
    using transmit_file_run[OF Suc.prems(1,2)] by blast
  note f = same_tx_fields[OF w1(2)]
  have c: "fits_int (cnt - 1)" using Suc.prems(4,5) by (simp add: fits_int_def)
  have "retransmit port (cnt - 1) True DXWIFI_TX_NORMAL (w1\<lparr>w_runs := replicate (Suc k) (file_run blocks)\<rparr>) =
      Some (Inl Signed_Overflow)"
    using Suc.IH[of "w1\<lparr>w_runs := replicate (Suc k) (file_run blocks)\<rparr>" "cnt - 1"] Suc.prems f c by auto
  then show ?case using w1(1) Suc.prems(3) c by (subst retransmit.simps) simp
qed

subsection \<open>The handlers of the program\<close>

lemma delay_header_only: "header_only \<lparr>callback = Some delay_transmission, user_args = u\<rparr>"
  by (simp add: header_only_def delay_transmission_def)

lemma log_header_only: "header_only \<lparr>callback = Some log_frame_stats, user_args = u\<rparr>"
  by (simp add: header_only_def log_frame_stats_def)

lemma number_header_only: "header_only \<lparr>callback = Some attach_frame_number, user_args = u\<rparr>"
  by (simp add: header_only_def attach_frame_number_def frame_wf_def mac_wf_def wire_defs)

lemma number_written:
  assumes "frame_wf f"
  shows "slice (mac_bytes (mac_hdr (snd (attach_frame_number f sz st u)))) 6 4 = be32_bytes (frame_count st)"
  using assms
  by (simp add: attach_frame_number_def mac_bytes_def slice_def frame_wf_def mac_wf_def wire_defs le16_bytes_def)

lemma invoke_none: "\<forall>h \<in> set p. callback h = None \<Longrightarrow> invoke_loop p f sz st = (sz, f)"
  by (induction p) simp_all

definition program_preinjection :: "'u \<Rightarrow> 'u tx_cli_args \<Rightarrow> 'u dxwifi_tx_frame_handler list" where
  "program_preinjection delay args =
     (if 0 < tx_delay args then [\<lparr>callback = Some delay_transmission, user_args = Some delay\<rparr>] else []) @
     (if rtap_tx_flags (cli_tx args) AND radiotap_tx_flag IEEE80211_RADIOTAP_F_TX_ORDER \<noteq> 0
      then [\<lparr>callback = Some attach_frame_number, user_args = None\<rparr>] else [])"

definition program_postinjection :: "'u tx_cli_args \<Rightarrow> 'u dxwifi_tx_frame_handler list" where
  "program_postinjection args =
     (if 4 < tx_verbosity args then [\<lparr>callback = Some log_frame_stats, user_args = None\<rparr>] else [])"

lemma attach_from_append:
  "\<forall>q \<in> set p. callback q \<noteq> None \<Longrightarrow>
   attach_from i (p @ replicate (Suc n) no_handler) h = (int (i + length p), p @ h # replicate n no_handler)"
  by (induction p arbitrary: i) (simp_all add: no_handler_def)

lemma attach_handler_append:
  "\<forall>q \<in> set p. callback q \<noteq> None \<Longrightarrow> length p < DXWIFI_TX_FRAME_HANDLER_MAX \<Longrightarrow>
   snd (attach_handler (p @ replicate (DXWIFI_TX_FRAME_HANDLER_MAX - length p) no_handler) cb u) =
   (p @ [\<lparr>callback = Some cb, user_args = u\<rparr>]) @
     replicate (DXWIFI_TX_FRAME_HANDLER_MAX - length (p @ [\<lparr>callback = Some cb, user_args = u\<rparr>])) no_handler"
  using attach_from_append[of p 0 "DXWIFI_TX_FRAME_HANDLER_MAX - Suc (length p)"]
  by (simp add: attach_handler_def Suc_diff_Suc)

lemma attach_all_pipelines:
  assumes "preinjection tx = replicate DXWIFI_TX_FRAME_HANDLER_MAX no_handler"
    and "postinjection tx = replicate DXWIFI_TX_FRAME_HANDLER_MAX no_handler"
  shows "attach_all delay args tx = tx\<lparr>
      preinjection := program_preinjection delay args @
        replicate (DXWIFI_TX_FRAME_HANDLER_MAX - length (program_preinjection delay args)) no_handler,
      postinjection := program_postinjection args @
        replicate (DXWIFI_TX_FRAME_HANDLER_MAX - length (program_postinjection args)) no_handler\<rparr>"
proof -
  note a = attach_handler_append[of "[]", simplified]
    attach_handler_append[of "[\<lparr>callback = Some delay_transmission, user_args = Some delay\<rparr>]", simplified]
  have m: "1 < DXWIFI_TX_FRAME_HANDLER_MAX" "0 < DXWIFI_TX_FRAME_HANDLER_MAX"
    by (simp_all add: DXWIFI_TX_FRAME_HANDLER_MAX_def)
  show ?thesis
    using assms m
    by (simp add: attach_all_def attach_preinject_handler_def attach_postinject_handler_def Let_def split_beta
        program_preinjection_def program_postinjection_def a)
qed

lemma program_pipeline_header_only:
  "h \<in> set (program_preinjection delay args) \<Longrightarrow> header_only h"
  "h \<in> set (program_postinjection args) \<Longrightarrow> header_only h"
  by (auto simp: program_preinjection_def program_postinjection_def delay_header_only number_header_only
      log_header_only split: if_splits)

lemma program_numbering:
  fixes delay :: 'u
  assumes "rtap_tx_flags (cli_tx args) AND radiotap_tx_flag IEEE80211_RADIOTAP_F_TX_ORDER \<noteq> 0"
  shows "numbering (program_preinjection delay args @ replicate n no_handler)"
proof -
  let ?nh = "\<lparr>callback = Some attach_frame_number, user_args = None\<rparr>"
  have tail: "invoke_loop (replicate n no_handler) f sz st = (sz, f)" for f sz st
    by (rule invoke_none) (simp add: no_handler_def)
  have one: "invoke_loop (program_preinjection delay args @ replicate n no_handler) f sz st =
      attach_frame_number f sz st (None :: 'u option)" for f sz st
    using assms by (simp add: program_preinjection_def delay_transmission_def tail split_beta)
  show ?thesis unfolding numbering_def one using number_written by blast
qed

lemma attach_all_ok:
  assumes "tx_args_ok args" and "fits_int (redundant_ctrl_frames (cli_tx args) + 1)"
    and "fits_int (transmit_timeout (cli_tx args) * 1000)"
  shows "transmitter_ok (attach_all delay args (init_transmitter (cli_tx args)))"
proof -
  have p: "preinjection (init_transmitter (cli_tx args)) = replicate DXWIFI_TX_FRAME_HANDLER_MAX no_handler"
    "postinjection (init_transmitter (cli_tx args)) = replicate DXWIFI_TX_FRAME_HANDLER_MAX no_handler"
    by (simp_all add: init_transmitter_def)
  show ?thesis
    unfolding attach_all_pipelines[OF p] transmitter_ok_def
    using assms by (auto simp: tx_args_ok_def init_transmitter_def intro: program_pipeline_header_only)
qed


text \<open>File mode, for the property and for the link.\<close>

lemma file_mode_air:
  assumes parsed: "tx_parse_args tests lstat opts tx_default_args = Some args"
    and mode: "tx_mode args = TX_FILE_MODE"
    and n: "0 \<le> retransmit_count args" "fits_int (retransmit_count args)"
    and fits: "fits_int (redundant_ctrl_frames (cli_tx args) + 1)"
      "fits_int (transmit_timeout (cli_tx args) * 1000)"
    and tx: "w_tx w = init_transmitter (cli_tx args)"
    and fs: "fs = filter (env_opens env) (map the (take (file_count args) (files args)))"
    and good: "\<forall>f \<in> set (map the (take (file_count args) (files args))).
      \<forall>b \<in> set (content f). good_block (cli_tx args) b"
    and runs: "w_runs w = concat (map (\<lambda>f. replicate (nat (retransmit_count args + 1))
      (file_run (content f))) fs)"
  shows "\<exists>w'. transmit port env delay args w = Some (Inr w') \<and>
     map (map air_payload) (w_air w') = map (map air_payload) (w_air w) @
       concat (map (\<lambda>f. replicate (nat (retransmit_count args + 1))
         (payloads_on_air (cli_tx args) (content f))) fs)"
proof -
  let ?tx = "attach_all delay args (w_tx w)"
  have p: "preinjection (w_tx w) = replicate DXWIFI_TX_FRAME_HANDLER_MAX no_handler"
    "postinjection (w_tx w) = replicate DXWIFI_TX_FRAME_HANDLER_MAX no_handler"
    by (simp_all add: tx init_transmitter_def)
  have ok: "transmitter_ok ?tx"
    using attach_all_ok[OF tx_parse_args_ok[OF tx_default_args_ok parsed] fits] by (simp add: tx)
  have tx': "good_block ?tx = good_block (cli_tx args)" "payloads_on_air ?tx = payloads_on_air (cli_tx args)"
    unfolding attach_all_pipelines[OF p]
    by (simp_all add: tx init_transmitter_def good_block_def payloads_on_air_def ctrl_copies_def fun_eq_iff)
  obtain k where k: "retransmit_count args = int k - 1" "0 < k" "k \<le> 2 ^ 31"
  proof
    show "retransmit_count args = int (nat (retransmit_count args + 1)) - 1" using n by simp
    have "retransmit_count args \<le> 2147483647" using n by (simp add: fits_int_def INT_MAX_def)
    then show "nat (retransmit_count args + 1) \<le> 2 ^ 31" by simp
  qed (use n in simp)
  have k': "nat (retransmit_count args + 1) = k" using k(1) by simp
  let ?w = "w\<lparr>w_tx := ?tx\<rparr>"
  let ?fs = "map the (take (file_count args) (files args))"
  obtain w' where w': "transmit_files_from port (env_opens env) (int k - 1) ?fs DXWIFI_TX_NORMAL ?w =
       Some (Inr (DXWIFI_TX_NORMAL, w'))"
     "map (map air_payload) (w_air w') = map (map air_payload) (w_air ?w) @
       concat (map (\<lambda>f. replicate k (payloads_on_air (w_tx ?w) (content f))) (filter (env_opens env) ?fs))"
    using transmit_files_run[of ?w ?fs content k "env_opens env" port] ok good runs k(2,3)
    unfolding k' fs by (auto simp: tx')
  have "transmit port env delay args w = Some (Inr w')"
    using w'(1) by (simp add: transmit_def mode Let_def transmit_files_def k(1))
  then show ?thesis using w'(2) by (simp add: k' fs tx')
qed


section \<open>Properties\<close>

text \<open>
  In file mode, for any command line that the parser accepts and a repeat count of \<open>n\<close>, the
  program sends every file it can open \<open>n + 1\<close> times, in the order of the command line: each
  time the preambles, the blocks of the file in order and the end-of-transmission frames. A file
  that cannot be opened is skipped.
\<close>

theorem file_mode_sends_all:
  assumes parsed: "tx_parse_args tests lstat opts tx_default_args = Some args"
    and mode: "tx_mode args = TX_FILE_MODE"
    and n: "0 \<le> retransmit_count args" "fits_int (retransmit_count args)"
    and fits: "fits_int (redundant_ctrl_frames (cli_tx args) + 1)"
      "fits_int (transmit_timeout (cli_tx args) * 1000)"
    and tx: "w_tx w = init_transmitter (cli_tx args)"
    and fs: "fs = filter (env_opens env) (map the (take (file_count args) (files args)))"
    and good: "\<forall>f \<in> set (map the (take (file_count args) (files args))).
      \<forall>b \<in> set (content f). good_block (cli_tx args) b"
    and runs: "w_runs w = concat (map (\<lambda>f. replicate (nat (retransmit_count args + 1))
      (file_run (content f))) fs)"
  shows "\<exists>w'. transmit port env delay args w = Some (Inr w') \<and>
     map (map air_payload) (w_air w') = map (map air_payload) (w_air w) @
       concat (map (\<lambda>f. replicate (nat (retransmit_count args + 1))
         (payloads_on_air (cli_tx args) (content f))) fs)"
  by (rule file_mode_air[OF assms])

definition sample_file_args :: "unit tx_cli_args" where
  "sample_file_args = tx_default_args\<lparr>tx_mode := TX_FILE_MODE,
     files := [Some ''a'', Some ''b''] @ replicate 1022 None, file_count := 2, retransmit_count := 1\<rparr>"

lemma sample_file_args_parsed:
  "tx_parse_args False (\<lambda>p. None) [(ARGP_KEY_INIT, []), (99, ''1''), (ARGP_KEY_ARG, ''a''), (ARGP_KEY_ARG, ''b''),
     (ARGP_KEY_END, [])] tx_default_args = Some sample_file_args"
proof -
  have a: "c_atoi ''1'' = 1" by code_simp
  have r: "replicate 1024 None = None # None # replicate 1022 (None :: string option)"
    by (simp add: numeral_eq_Suc)
  show ?thesis
    by (simp add: tx_parse_opt_def tx_key_defs a r tx_key_end_def tx_key_arg_def TX_CLI_FILE_MAX_def
        sample_file_args_def tx_default_args_def)
qed

text \<open>The commands files \<open>a\<close> and \<open>b\<close>, the first of which does not exist, and one repetition.\<close>

theorem file_mode_sends_all_witness:
  "\<exists>w'. transmit Savefile \<lparr>env_opens = (\<lambda>f. f = ''b''), env_lstat = (\<lambda>p. None), env_fnmatch = (\<lambda>p s. True),
       env_opendir = (\<lambda>d. None), env_inotify_fd = 3, env_add_watch = (\<lambda>d m. 1), env_dir_events = []\<rparr>
     () sample_file_args \<lparr>w_tx = init_transmitter (cli_tx sample_file_args),
       w_runs = [file_run [[1, 2, 3]], file_run [[1, 2, 3]]], w_air = []\<rparr> = Some (Inr w') \<and>
     map (map air_payload) (w_air w') =
       [[replicate 256 0xff, [1, 2, 3], replicate 256 0xaa], [replicate 256 0xff, [1, 2, 3], replicate 256 0xaa]]"
proof -
  let ?env = "\<lparr>env_opens = (\<lambda>f. f = ''b''), env_lstat = (\<lambda>p. None), env_fnmatch = (\<lambda>p s. True),
       env_opendir = (\<lambda>d. None), env_inotify_fd = 3, env_add_watch = (\<lambda>d m. 1), env_dir_events = []\<rparr>"
  let ?w = "\<lparr>w_tx = init_transmitter (cli_tx sample_file_args),
       w_runs = [file_run [[1, 2, 3]], file_run [[1, 2, 3]]], w_air = []\<rparr>"
  have s: "retransmit_count sample_file_args = 1" "tx_mode sample_file_args = TX_FILE_MODE"
    "file_count sample_file_args = 2" "take 2 (files sample_file_args) = [Some ''a'', Some ''b'']"
    "cli_tx sample_file_args = cli_tx tx_default_args"
    "blocksize (cli_tx tx_default_args) = 1024" "redundant_ctrl_frames (cli_tx tx_default_args) = 0"
    "transmit_timeout (cli_tx tx_default_args) = -1"
    by (simp_all add: sample_file_args_def tx_default_args_def numeral_2_eq_2)
  have two: "replicate 2 x = [x, x]" for x :: 'a by (simp add: numeral_2_eq_2)
  have "payloads_on_air (cli_tx sample_file_args) [[1, 2, 3]] = [replicate 256 0xff, [1, 2, 3], replicate 256 0xaa]"
    by (simp add: payloads_on_air_def ctrl_copies_def s wire_defs)
  moreover have "\<exists>w'. transmit Savefile ?env () sample_file_args ?w = Some (Inr w') \<and>
     map (map air_payload) (w_air w') = map (map air_payload) (w_air ?w) @
       concat (map (\<lambda>f. replicate (nat (retransmit_count sample_file_args + 1))
         (payloads_on_air (cli_tx sample_file_args) [[1, 2, 3]])) [''b''])"
    by (rule file_mode_sends_all[OF sample_file_args_parsed, where content = "\<lambda>f. [[1, 2, 3]]"])
      (simp_all add: s two fits_int_def INT_MIN_def INT_MAX_def good_block_def)
  ultimately show ?thesis by (simp add: s two)
qed

text \<open>
  With the option for ordered frames on the command line, the data frames of a transmission
  carry the numbers 0, 1, 2, ... in the last four bytes of the first address, big endian, which
  is where the receiver looks for them. The other handlers the program attaches do not disturb
  this, and the blocks are sent unchanged.
\<close>

theorem ordered_option_numbers:
  assumes parsed: "tx_parse_args tests lstat opts tx_default_args = Some args"
    and ord: "rtap_tx_flags (cli_tx args) AND radiotap_tx_flag IEEE80211_RADIOTAP_F_TX_ORDER \<noteq> 0"
    and fits: "fits_int (redundant_ctrl_frames (cli_tx args) + 1)"
      "fits_int (transmit_timeout (cli_tx args) * 1000)"
    and good: "\<forall>b \<in> set blocks. good_block (cli_tx args) b" and final: "final_event e"
  shows "\<exists>s pre data post. start_transmission port (attach_all delay args (init_transmitter (cli_tx args)))
       (map block_event blocks @ [e]) = Some (Inr s) \<and> ts_air s = pre @ data @ post \<and>
     map air_payload data = blocks \<and> map air_number data = map of_nat [0 ..< length blocks]"
proof -
  let ?tx = "attach_all delay args (init_transmitter (cli_tx args))"
  have p: "preinjection (init_transmitter (cli_tx args)) = replicate DXWIFI_TX_FRAME_HANDLER_MAX no_handler"
    "postinjection (init_transmitter (cli_tx args)) = replicate DXWIFI_TX_FRAME_HANDLER_MAX no_handler"
    by (simp_all add: init_transmitter_def)
  have "numbering (preinjection ?tx)" "\<forall>b \<in> set blocks. good_block ?tx b"
    unfolding attach_all_pipelines[OF p] using program_numbering[OF ord] good
    by (simp_all add: good_block_def init_transmitter_def)
  then show ?thesis
    using start_transmission_ok[OF attach_all_ok[OF tx_parse_args_ok[OF tx_default_args_ok parsed] fits] _ final,
        where blocks = blocks and es = "[]"] by blast
qed

lemma tx_order_key: "tx_flag_key IEEE80211_RADIOTAP_F_TX_ORDER = 2532"
  by (simp add: tx_key_defs)

definition sample_ordered_args :: "unit tx_cli_args" where
  "sample_ordered_args = tx_default_args\<lparr>cli_tx := (cli_tx tx_default_args)\<lparr>rtap_tx_flags := 0x28\<rparr>\<rparr>"

lemma sample_ordered_parsed:
  "tx_parse_args False (\<lambda>p. None) [(2532, [])] tx_default_args = Some sample_ordered_args"
  by (simp add: tx_parse_opt_def tx_key_defs set_tx_def sample_ordered_args_def tx_default_args_def)

theorem ordered_option_numbers_witness:
  "\<exists>s pre data post. start_transmission Savefile
       (attach_all () sample_ordered_args (init_transmitter (cli_tx sample_ordered_args)))
       (map block_event [[1, 2], [3]] @ [eof_event]) = Some (Inr s) \<and> ts_air s = pre @ data @ post \<and>
     map air_payload data = [[1, 2], [3]] \<and> map air_number data = [0, 1]"
proof -
  have s: "blocksize (cli_tx sample_ordered_args) = 1024" "redundant_ctrl_frames (cli_tx sample_ordered_args) = 0"
    "transmit_timeout (cli_tx sample_ordered_args) = -1" "rtap_tx_flags (cli_tx sample_ordered_args) = 0x28"
    by (simp_all add: sample_ordered_args_def tx_default_args_def)
  have "map of_nat [0 ..< length [[1, 2], [3 :: byte]]] = [0, 1 :: u32]" by (simp add: upt_rec)
  then show ?thesis
    using ordered_option_numbers[OF sample_ordered_parsed, where blocks = "[[1, 2], [3]]" and e = eof_event
        and port = Savefile and delay = "()"]
    by (simp add: s fits_int_def INT_MIN_def INT_MAX_def good_block_def final_event_def eof_event_def)
qed

text \<open>
  The repeat count \<open>-1\<close>, "forever", does not last: the counter is still decremented at every
  pass, and after 2147483648 transmissions of the file the decrement overflows \<open>int\<close>, which is
  undefined in C.
\<close>

theorem repeat_forever_overflows:
  assumes "transmitter_ok (w_tx w)" and "\<forall>b \<in> set blocks. good_block (w_tx w) b" and "opens f"
    and "w_runs w = replicate (2 ^ 31) (file_run blocks)"
  shows "transmit_files port opens (f # fs) (-1) w = Some (Inl Signed_Overflow)"
proof -
  have k: "w_runs w = replicate (Suc 2147483647) (file_run blocks)" using assms(4) by (simp del: replicate.simps)
  have "retransmit port (-1) True DXWIFI_TX_NORMAL w = Some (Inl Signed_Overflow)"
    by (rule retransmit_forever[OF assms(1,2) k]) (simp_all add: fits_int_def INT_MIN_def INT_MAX_def)
  then show ?thesis using assms(3) by (simp add: transmit_files_def)
qed

theorem repeat_forever_overflows_witness:
  "transmit_files Savefile (\<lambda>f. True) [''beacon''] (-1)
     \<lparr>w_tx = cli_tx (tx_default_args :: unit tx_cli_args), w_runs = replicate (2 ^ 31) (file_run [[1]]), w_air = []\<rparr> =
   Some (Inl Signed_Overflow)"
proof (rule repeat_forever_overflows)
  show "transmitter_ok (w_tx \<lparr>w_tx = cli_tx (tx_default_args :: unit tx_cli_args),
      w_runs = replicate (2 ^ 31) (file_run [[1]]), w_air = []\<rparr>)"
    by (simp add: transmitter_ok_def tx_default_args_def wire_defs fits_int_def INT_MIN_def INT_MAX_def)
qed (simp_all add: good_block_def tx_default_args_def del: replicate.simps)

end
