(* ===== verification/Receiver.thy ===== *)
theory Receiver
  imports BinHeap Utils Ieee80211
begin

text \<open>
  \<open>libdxwifi/receiver.h\<close> and \<open>receiver.c\<close>: recognising control frames, buffering captured
  frames, ordering them with the packet heap, and writing the payloads out.

  A pointer into the packet buffer is an offset into the list of its bytes, so that a heap node
  aliases the buffer exactly as in the code: later writes to the buffer change what the node
  denotes. The sink is any type with a \<open>write\<close> call, an argument. The frames pcap delivers,
  the answers of \<open>poll\<close> and \<open>pcap_dispatch\<close>, and the points where the signal handler runs
  \<open>receiver_stop_capture\<close> are given by one \<open>rx_event\<close> per turn of the capture loop.
\<close>

subsection \<open>Data\<close>

definition DXWIFI_RX_PACKET_BUFFER_SIZE_MIN :: nat where
  "DXWIFI_RX_PACKET_BUFFER_SIZE_MIN = IEEE80211_MTU_MAX_LEN"
definition DXWIFI_RX_PACKET_BUFFER_SIZE_MAX :: nat where
  "DXWIFI_RX_PACKET_BUFFER_SIZE_MAX = 1024 * 1024 * 5"
definition DXWIFI_RX_PACKET_HEAP_CAPACITY :: nat where
  "DXWIFI_RX_PACKET_HEAP_CAPACITY =
     DXWIFI_RX_PACKET_BUFFER_SIZE_MAX div DXWIFI_BLOCK_SIZE_MIN + 1"

lemmas rx_size_defs = DXWIFI_RX_PACKET_BUFFER_SIZE_MIN_def DXWIFI_RX_PACKET_BUFFER_SIZE_MAX_def
  DXWIFI_RX_PACKET_HEAP_CAPACITY_def

text \<open>The compile-time switches that change the receiver's behaviour.\<close>

record build =
  dxwifi_tests :: bool
  ndebug :: bool

datatype dxwifi_rx_state =
  DXWIFI_RX_NORMAL | DXWIFI_RX_TIMED_OUT | DXWIFI_RX_DEACTIVATED | DXWIFI_RX_ERROR

record pcap_pkthdr =
  ts_sec :: int
  ts_usec :: int
  caplen :: u32
  pktlen :: u32

record pcap_stat =
  ps_recv :: u32
  ps_drop :: u32
  ps_ifdrop :: u32

record dxwifi_rx_stats =
  total_payload_size :: u32
  total_writelen :: u32
  total_caplen :: u32
  total_blocks_lost :: u32
  total_noise_added :: u32
  num_packets_processed :: u32
  capture_state :: dxwifi_rx_state
  pkt_stats :: pcap_pkthdr
  pcap_stats :: pcap_stat

definition zero_rx_stats :: dxwifi_rx_stats where
  "zero_rx_stats = \<lparr>total_payload_size = 0, total_writelen = 0, total_caplen = 0,
     total_blocks_lost = 0, total_noise_added = 0, num_packets_processed = 0,
     capture_state = DXWIFI_RX_NORMAL,
     pkt_stats = \<lparr>ts_sec = 0, ts_usec = 0, caplen = 0, pktlen = 0\<rparr>,
     pcap_stats = \<lparr>ps_recv = 0, ps_drop = 0, ps_ifdrop = 0\<rparr>\<rparr>"

record dxwifi_receiver =
  dispatch_count :: u32
  capture_timeout :: u32
  packet_buffer_size :: nat
  ordered :: bool
  add_noise :: bool
  noise_value :: byte
  rx_filter :: string
  rx_optimize :: bool
  rx_snaplen :: int
  rx_pb_timeout :: int
  rx_activated :: bool

text \<open>\<open>int32_t frame_number\<close> is kept as its 32 bits and read with \<open>sint\<close>.\<close>

record packet_heap_node =
  frame_number :: u32
  node_data :: nat
  node_size :: int
  crc_valid :: bool

definition zero_node :: packet_heap_node where
  "zero_node = \<lparr>frame_number = 0, node_data = 0, node_size = 0, crc_valid = False\<rparr>"

record 's frame_controller =
  packet_heap :: "packet_heap_node binary_heap"
  packet_buffer :: "byte list"
  pb_size :: nat
  buf_index :: nat
  eot_reached :: bool
  preamble_recv :: bool
  end_capture :: bool
  fc_rx :: dxwifi_receiver
  rx_stats :: dxwifi_rx_stats
  sink :: 's

subsection \<open>The packet order\<close>

definition order_by_frame_number_desc :: "packet_heap_node \<Rightarrow> packet_heap_node \<Rightarrow> bool" where
  "order_by_frame_number_desc n1 n2 \<longleftrightarrow> sint (frame_number n1) < sint (frame_number n2)"

interpretation frame_order: comparator order_by_frame_number_desc
  by unfold_locales (auto simp: order_by_frame_number_desc_def)

subsection \<open>Frame controller\<close>

definition init_frame_controller :: "dxwifi_receiver \<Rightarrow> 's \<Rightarrow> 's frame_controller" where
  "init_frame_controller rx fd =
     \<lparr>packet_heap = init_heap zero_node DXWIFI_RX_PACKET_HEAP_CAPACITY 32 order_by_frame_number_desc,
      packet_buffer = replicate (packet_buffer_size rx) 0,
      pb_size = packet_buffer_size rx, buf_index = 0, eot_reached = False,
      preamble_recv = False, end_capture = False, fc_rx = rx,
      rx_stats = zero_rx_stats\<lparr>capture_state := DXWIFI_RX_NORMAL\<rparr>, sink = fd\<rparr>"

definition teardown_frame_controller :: "'s frame_controller \<Rightarrow> 's frame_controller" where
  "teardown_frame_controller fc =
     fc\<lparr>packet_heap := teardown_heap (packet_heap fc), packet_buffer := [], pb_size := 0,
        buf_index := 0, rx_stats := zero_rx_stats\<rparr>"

subsection \<open>Parsing\<close>

text \<open>\<open>ntohl\<close> of the last four bytes of \<open>addr1\<close>, which starts at offset 4 of the MAC header.\<close>

definition extract_frame_number :: "byte list \<Rightarrow> nat \<Rightarrow> u32 res" where
  "extract_frame_number mem mac = bind_res (mem_read mem (mac + 4 + 2) 4) (\<lambda>bs. Inr (be32_of bs))"

text \<open>The pointers of \<open>dxwifi_rx_frame\<close>, as offsets.\<close>

record dxwifi_rx_frame =
  rxf_rtap_hdr :: nat
  rxf_mac_hdr :: nat
  rxf_payload :: nat
  rxf_fcs :: int

definition parse_rx_frame_fields :: "pcap_pkthdr \<Rightarrow> byte list \<Rightarrow> nat \<Rightarrow> dxwifi_rx_frame res" where
  "parse_rx_frame_fields pkt mem data_ptr =
     bind_res (mem_read mem (data_ptr + 2) 2) (\<lambda>bs.
     let rtap_len = unat (le16_of bs) in
     Inr \<lparr>rxf_rtap_hdr = data_ptr,
          rxf_mac_hdr = data_ptr + rtap_len,
          rxf_payload = data_ptr + rtap_len + IEEE80211_HDR_SIZE,
          rxf_fcs = int data_ptr + int (unat (caplen pkt)) - int IEEE80211_FCS_SIZE\<rparr>)"

subsection \<open>Control frames\<close>

text \<open>The counting loop: \<open>eot\<close> and \<open>preamble\<close> after the \<open>switch\<close> on each payload byte.\<close>

fun count_control :: "byte list \<Rightarrow> nat \<Rightarrow> nat \<Rightarrow> nat \<times> nat" where
  "count_control [] eot preamble = (eot, preamble)"
| "count_control (b # bs) eot preamble =
     (if b = control_frame_value DXWIFI_CONTROL_FRAME_PREAMBLE
      then count_control bs eot (preamble + 1)
      else if b = control_frame_value DXWIFI_CONTROL_FRAME_EOT
      then count_control bs (eot + 1) preamble
      else count_control bs eot preamble)"

text \<open>
  The payload size is computed with the C conversions: the first difference on \<open>uint32_t\<close>, the
  rest on \<open>size_t\<close>. The two ratios are integer divisions, compared with the threshold.
\<close>

definition ctrl_payload_size :: "u32 \<Rightarrow> u16 \<Rightarrow> size_t" where
  "ctrl_payload_size cap rtap_len =
     ucast (cap - ucast rtap_len) - of_nat IEEE80211_HDR_SIZE - of_nat IEEE80211_FCS_SIZE"

definition check_frame_control :: "byte list \<Rightarrow> pcap_pkthdr \<Rightarrow> rat \<Rightarrow> dxwifi_control_frame res" where
  "check_frame_control frame pkt check_threshold =
     bind_res (mem_read frame 2 2) (\<lambda>bs.
     let rtap_len = le16_of bs;
         payload_size = unat (ctrl_payload_size (caplen pkt) rtap_len) in
     if payload_size = DXWIFI_FRAME_CONTROL_DATA_SIZE
     then bind_res (mem_read frame (unat rtap_len + IEEE80211_HDR_SIZE) payload_size) (\<lambda>pl.
          let (eot, preamble) = count_control pl 0 0 in
          Inr (if of_nat (eot div payload_size) > check_threshold
               then DXWIFI_CONTROL_FRAME_EOT
               else if of_nat (preamble div payload_size) > check_threshold
               then DXWIFI_CONTROL_FRAME_PREAMBLE
               else DXWIFI_CONTROL_FRAME_NONE))
     else Inr DXWIFI_CONTROL_FRAME_NONE)"

fun handle_frame_control :: "build \<Rightarrow> 's frame_controller \<Rightarrow> dxwifi_control_frame \<Rightarrow>
    's frame_controller res" where
  "handle_frame_control bld fc DXWIFI_CONTROL_FRAME_PREAMBLE =
     (let fc = (if 0 < num_packets_processed (rx_stats fc) then fc\<lparr>end_capture := True\<rparr> else fc)
      in Inr (fc\<lparr>preamble_recv := True\<rparr>))"
| "handle_frame_control bld fc DXWIFI_CONTROL_FRAME_EOT = Inr (fc\<lparr>eot_reached := True\<rparr>)"
| "handle_frame_control bld fc DXWIFI_CONTROL_FRAME_NONE =
     (if ndebug bld then Inr fc else Inl Aborted)"

subsection \<open>Writing out\<close>

text \<open>\<open>write(fd, buf, n)\<close>: the returned count (\<open>-1\<close> on failure) and the sink after the call.\<close>

type_synonym 's write_call = "'s \<Rightarrow> byte list \<Rightarrow> int \<times> 's"

text \<open>The noise loop: \<open>n\<close> writes, whose results are added to \<open>total_noise_added\<close>.\<close>

fun noise_loop :: "'s write_call \<Rightarrow> byte list \<Rightarrow> nat \<Rightarrow> u32 \<Rightarrow> 's \<Rightarrow> u32 \<times> 's" where
  "noise_loop wr noise 0 tot fd = (tot, fd)"
| "noise_loop wr noise (Suc n) tot fd =
     (let (r, fd) = wr fd noise in noise_loop wr noise n (tot + word_of_int r) fd)"

text \<open>The missing-block branch of \<open>dump_packet_buffer\<close>.\<close>

definition fill_missing :: "'s write_call \<Rightarrow> 's frame_controller \<Rightarrow> u32 \<Rightarrow> packet_heap_node \<Rightarrow>
    's frame_controller res" where
  "fill_missing wr fc expected_frame node =
     (if ordered (fc_rx fc) \<and> expected_frame \<noteq> frame_number node
      then
        let missing_blocks = sint (frame_number node) - sint expected_frame in
        bind_res (guard_res (fits_int missing_blocks) Signed_Overflow) (\<lambda>_.
        bind_res
          (if add_noise (fc_rx fc)
           then bind_res (guard_res (0 < node_size node) Bad_VLA) (\<lambda>_.
                let noise = replicate (nat (node_size node)) (noise_value (fc_rx fc));
                    (noise_sum, fd) = noise_loop wr noise (nat missing_blocks)
                                    (total_noise_added (rx_stats fc)) (sink fc)
                in Inr (fc\<lparr>rx_stats := (rx_stats fc)\<lparr>total_noise_added := noise_sum\<rparr>, sink := fd\<rparr>))
           else Inr fc) (\<lambda>fc.
        Inr (fc\<lparr>rx_stats := (rx_stats fc)\<lparr>total_blocks_lost :=
                total_blocks_lost (rx_stats fc) + word_of_int missing_blocks\<rparr>\<rparr>)))
      else Inr fc)"

text \<open>The bytes a node denotes: \<open>node.size\<close> bytes of the packet buffer at \<open>node.data\<close>.\<close>

definition node_bytes :: "byte list \<Rightarrow> packet_heap_node \<Rightarrow> byte list res" where
  "node_bytes buf node =
     (if node_size node < 0 then Inl Out_Of_Bounds
      else mem_read buf (node_data node) (nat (node_size node)))"

definition dump_node :: "'s write_call \<Rightarrow> 's frame_controller \<Rightarrow> u32 \<Rightarrow> packet_heap_node \<Rightarrow>
    ('s frame_controller \<times> u32) res" where
  "dump_node wr fc expected_frame node =
     bind_res (fill_missing wr fc expected_frame node) (\<lambda>fc.
     bind_res (node_bytes (packet_buffer fc) node) (\<lambda>bs.
     let (nbytes, fd) = wr (sink fc) bs;
         fc = fc\<lparr>sink := fd, rx_stats := (rx_stats fc)\<lparr>total_writelen :=
                total_writelen (rx_stats fc) + word_of_int nbytes\<rparr>\<rparr> in
     bind_res (guard_res (fits_int (sint (frame_number node) + 1)) Signed_Overflow) (\<lambda>_.
     Inr (fc, frame_number node + 1))))"

text \<open>\<open>while(heap_pop(&fc->packet_heap, &node))\<close>.\<close>

function dump_loop :: "'s write_call \<Rightarrow> 's frame_controller \<Rightarrow> u32 \<Rightarrow> 's frame_controller res" where
  "dump_loop wr fc expected_frame =
     (case heap_pop (packet_heap fc) of
        Inl e \<Rightarrow> Inl e
      | Inr (None, h) \<Rightarrow> Inr (fc\<lparr>packet_heap := h\<rparr>)
      | Inr (Some node, h) \<Rightarrow>
          (case dump_node wr (fc\<lparr>packet_heap := h\<rparr>) expected_frame node of
             Inl e \<Rightarrow> Inl e
           | Inr (fc', expected') \<Rightarrow> dump_loop wr (fc'\<lparr>packet_heap := h\<rparr>) expected'))"
  by pat_completeness auto
termination
  by (relation "measure (\<lambda>(wr, fc, ex). count (packet_heap fc))") (auto dest: heap_pop_count)

declare dump_loop.simps [simp del]

definition dump_packet_buffer :: "'s write_call \<Rightarrow> 's frame_controller \<Rightarrow> 's frame_controller res" where
  "dump_packet_buffer wr fc =
     bind_res (arr_get (tree (packet_heap fc)) 0) (\<lambda>root.
     bind_res (dump_loop wr fc (frame_number root)) (\<lambda>fc.
     Inr (fc\<lparr>buf_index := 0\<rparr>)))"

subsection \<open>Processing a frame\<close>

text \<open>The part of \<open>process_frame\<close> after the buffer was flushed, if it had to be.\<close>

definition store_frame :: "'s frame_controller \<Rightarrow> pcap_pkthdr \<Rightarrow> byte list \<Rightarrow>
    's frame_controller res" where
  "store_frame fc pkt frame =
     (let buffer_slot = buf_index fc in
      bind_res (mem_read frame 0 (unat (caplen pkt))) (\<lambda>bytes.
      bind_res (mem_write (packet_buffer fc) buffer_slot bytes) (\<lambda>buf.
      bind_res (parse_rx_frame_fields pkt buf buffer_slot) (\<lambda>rx_frame.
      let payload_size = rxf_fcs rx_frame - int (rxf_payload rx_frame) in
      bind_res (if ordered (fc_rx fc) then extract_frame_number buf (rxf_mac_hdr rx_frame)
                else Inr (num_packets_processed (rx_stats fc))) (\<lambda>fno.
      bind_res (heap_push (packet_heap fc)
          \<lparr>frame_number = fno, node_data = rxf_payload rx_frame, node_size = payload_size,
           crc_valid = False\<rparr>) (\<lambda>h.
      let st = rx_stats fc in
      Inr (fc\<lparr>packet_heap := h, packet_buffer := buf,
              buf_index := buf_index fc + unat (caplen pkt),
              rx_stats := st\<lparr>
                total_caplen := total_caplen st + caplen pkt,
                total_payload_size := total_payload_size st + word_of_int payload_size,
                num_packets_processed := num_packets_processed st + 1,
                pkt_stats := pkt\<rparr>\<rparr>)))))))"

definition process_frame :: "build \<Rightarrow> 's write_call \<Rightarrow> 's frame_controller \<Rightarrow> pcap_pkthdr \<Rightarrow>
    byte list \<Rightarrow> 's frame_controller res" where
  "process_frame bld wr fc pkt frame =
     bind_res (check_frame_control frame pkt DXWIFI_FRAME_CONTROL_CHECK_THRESHOLD) (\<lambda>ctrl_frame.
     if ctrl_frame \<noteq> DXWIFI_CONTROL_FRAME_NONE
     then handle_frame_control bld fc ctrl_frame
     else bind_res
            (if buf_index fc + unat (caplen pkt) \<ge> pb_size fc then dump_packet_buffer wr fc
             else Inr fc)
            (\<lambda>fc. store_frame fc pkt frame))"

subsection \<open>Capture\<close>

type_synonym capture = "pcap_pkthdr \<times> byte list"

text \<open>\<open>pcap_dispatch\<close> runs the callback on each frame it delivers.\<close>

fun dispatch :: "build \<Rightarrow> 's write_call \<Rightarrow> 's frame_controller \<Rightarrow> capture list \<Rightarrow>
    's frame_controller res" where
  "dispatch bld wr fc [] = Inr fc"
| "dispatch bld wr fc ((pkt, frame) # ps) =
     bind_res (process_frame bld wr fc pkt frame) (\<lambda>fc. dispatch bld wr fc ps)"

record rx_event =
  rx_stop_poll :: bool
  rx_poll :: int
  rx_packets :: "capture list"
  rx_dispatch :: int
  rx_stop_after :: bool

definition receiver_stop_capture :: "dxwifi_receiver \<Rightarrow> dxwifi_receiver" where
  "receiver_stop_capture rx = rx\<lparr>rx_activated := False\<rparr>"

definition rx_signal_stop :: "bool \<Rightarrow> 's frame_controller \<Rightarrow> 's frame_controller" where
  "rx_signal_stop b fc = (if b then fc\<lparr>fc_rx := receiver_stop_capture (fc_rx fc)\<rparr> else fc)"

definition set_capture_state :: "dxwifi_rx_state \<Rightarrow> 's frame_controller \<Rightarrow> 's frame_controller" where
  "set_capture_state st fc = fc\<lparr>rx_stats := (rx_stats fc)\<lparr>capture_state := st\<rparr>\<rparr>"

definition rx_turn :: "build \<Rightarrow> 's write_call \<Rightarrow> 's frame_controller \<Rightarrow> rx_event \<Rightarrow>
    's frame_controller res" where
  "rx_turn bld wr fc e =
     (let fc = rx_signal_stop (rx_stop_poll e) fc in
      bind_res
        (if rx_poll e = 0
         then Inr (set_capture_state DXWIFI_RX_TIMED_OUT
                (fc\<lparr>fc_rx := (fc_rx fc)\<lparr>rx_activated := False\<rparr>\<rparr>))
         else if rx_poll e < 0
         then Inr (set_capture_state
                (if rx_activated (fc_rx fc) then DXWIFI_RX_ERROR else DXWIFI_RX_DEACTIVATED) fc)
         else bind_res (dispatch bld wr fc (rx_packets e)) (\<lambda>fc.
              Inr (if dxwifi_tests bld \<and> rx_dispatch e = 0
                   then set_capture_state DXWIFI_RX_DEACTIVATED
                          (fc\<lparr>fc_rx := (fc_rx fc)\<lparr>rx_activated := False\<rparr>\<rparr>)
                   else fc)))
        (\<lambda>fc. Inr (rx_signal_stop (rx_stop_after e) fc)))"

text \<open>\<open>None\<close>: the loop waits for more events than the environment has.\<close>

fun rx_loop :: "build \<Rightarrow> 's write_call \<Rightarrow> 's frame_controller \<Rightarrow> rx_event list \<Rightarrow>
    's frame_controller res option" where
  "rx_loop bld wr fc es =
     (if rx_activated (fc_rx fc) \<and> \<not> end_capture fc
      then case es of
             [] \<Rightarrow> None
           | e # es \<Rightarrow> (case rx_turn bld wr fc e of
                          Inl err \<Rightarrow> Some (Inl err)
                        | Inr fc \<Rightarrow> rx_loop bld wr fc es)
      else Some (Inr fc))"

declare rx_loop.simps [simp del]

text \<open>What follows the loop; \<open>ps\<close> is the answer of \<open>pcap_stats\<close>.\<close>

definition rx_finish :: "'s write_call \<Rightarrow> pcap_stat option \<Rightarrow> 's frame_controller \<Rightarrow>
    (dxwifi_receiver \<times> 's \<times> dxwifi_rx_stats) res" where
  "rx_finish wr ps fc =
     bind_res (dump_packet_buffer wr fc) (\<lambda>fc.
     let st = (case ps of None \<Rightarrow> rx_stats fc | Some p \<Rightarrow> (rx_stats fc)\<lparr>pcap_stats := p\<rparr>);
         fc' = teardown_frame_controller fc
     in Inr (fc_rx fc', sink fc', st))"

definition receiver_activate_capture :: "build \<Rightarrow> 's write_call \<Rightarrow> int \<Rightarrow> pcap_stat option \<Rightarrow>
    dxwifi_receiver \<Rightarrow> 's \<Rightarrow> rx_event list \<Rightarrow>
    (dxwifi_receiver \<times> 's \<times> dxwifi_rx_stats) res option" where
  "receiver_activate_capture bld wr selectable_fd ps rx fd es =
     (if selectable_fd < 0 then Some (Inl Aborted)
      else
        let fc = init_frame_controller rx fd;
            fc = fc\<lparr>fc_rx := (fc_rx fc)\<lparr>rx_activated := True\<rparr>\<rparr>
        in map_option (\<lambda>r. bind_res r (rx_finish wr ps)) (rx_loop bld wr fc es))"

end
