(* ===== verification/RxCli.thy ===== *)
theory RxCli imports Cli Receiver begin

text \<open>
  \<open>dxwifi/rx/cli.h\<close> and \<open>cli.c\<close>: the command line of the reception program, and the defaults
  that \<open>main\<close> in \<open>rx.c\<close> gives it. As in \<open>TxCli\<close>, \<open>lstat\<close> and the keys argp derives from a
  command line are arguments; argp also counts the arguments that are not options.
\<close>

datatype rx_mode = RX_FILE_MODE | RX_STREAM_MODE | RX_DIRECTORY_MODE

record rx_cli_args =
  rx_mode :: rx_mode
  rx_verbosity :: int
  rx_quiet :: bool
  rx_append :: bool
  rx_use_syslog :: bool
  rx_device :: string
  output_path :: string
  rx_file_prefix :: string
  rx_file_extension :: string
  rx_savefile :: "string option"
  cli_rx :: dxwifi_receiver

definition RX_PCAP_SETTINGS_GROUP :: int where "RX_PCAP_SETTINGS_GROUP = 1000"
definition RX_HELP_GROUP :: int where "RX_HELP_GROUP = 1500"
definition RX_TEST_GROUP :: int where "RX_TEST_GROUP = RX_HELP_GROUP + 500"

datatype pcap_setting = SNAPLEN | BUFFER_TIMEOUT | FILTER | NO_OPTIMIZE

fun pcap_key :: "pcap_setting \<Rightarrow> int" where
  "pcap_key SNAPLEN = GET_KEY 0 RX_PCAP_SETTINGS_GROUP"
| "pcap_key BUFFER_TIMEOUT = GET_KEY 1 RX_PCAP_SETTINGS_GROUP"
| "pcap_key FILTER = GET_KEY 2 RX_PCAP_SETTINGS_GROUP"
| "pcap_key NO_OPTIMIZE = GET_KEY 3 RX_PCAP_SETTINGS_GROUP"

definition set_rx :: "rx_cli_args \<Rightarrow> (dxwifi_receiver \<Rightarrow> dxwifi_receiver) \<Rightarrow> rx_cli_args argp_result" where
  "set_rx args f = Parsed (args\<lparr>cli_rx := f (cli_rx args)\<rparr>)"

definition rx_key_end :: "stat_call \<Rightarrow> nat \<Rightarrow> rx_cli_args \<Rightarrow> rx_cli_args argp_result" where
  "rx_key_end lstat arg_num args =
     (let args = args\<lparr>rx_mode :=
        (if 0 < arg_num
         then if is_directory lstat (output_path args) then RX_DIRECTORY_MODE else RX_FILE_MODE
         else RX_STREAM_MODE)\<rparr>
      in Parsed (if rx_quiet args then args\<lparr>rx_verbosity := 0\<rparr> else args))"

text \<open>The cases of the switch, in its order; \<open>tests\<close> is \<open>DXWIFI_TESTS\<close>.\<close>

definition rx_parse_opt :: "bool \<Rightarrow> stat_call \<Rightarrow> nat \<Rightarrow> int \<Rightarrow> string \<Rightarrow> rx_cli_args \<Rightarrow>
    rx_cli_args argp_result" where
  "rx_parse_opt tests lstat arg_num key arg args =
     (if key = ARGP_KEY_ARG
      then if 1 \<le> arg_num then Usage_Exit else Parsed (args\<lparr>output_path := arg\<rparr>)
      else if key = ARGP_KEY_END then rx_key_end lstat arg_num args
      else if key = key_char CHR ''d'' then Parsed (args\<lparr>rx_device := arg\<rparr>)
      else if key = key_char CHR ''a'' then Parsed (args\<lparr>rx_append := True\<rparr>)
      else if key = key_char CHR ''t'' then set_rx args (\<lambda>rx. rx\<lparr>capture_timeout := to_unsigned (c_atoi arg)\<rparr>)
      else if key = key_char CHR ''c'' then set_rx args (\<lambda>rx. rx\<lparr>dispatch_count := to_unsigned (c_atoi arg)\<rparr>)
      else if key = key_char CHR ''b''
      then let n = to_size (c_atoi arg) in
           if n < DXWIFI_RX_PACKET_BUFFER_SIZE_MIN \<or> DXWIFI_RX_PACKET_BUFFER_SIZE_MAX < n then Usage_Exit
           else set_rx args (\<lambda>rx. rx\<lparr>packet_buffer_size := n\<rparr>)
      else if key = key_char CHR ''v'' then Parsed (args\<lparr>rx_verbosity := rx_verbosity args + 1\<rparr>)
      else if key = key_char CHR ''q'' then Parsed (args\<lparr>rx_quiet := True\<rparr>)
      else if key = key_char CHR ''p'' then Parsed (args\<lparr>rx_file_prefix := arg\<rparr>)
      else if key = key_char CHR ''e'' then Parsed (args\<lparr>rx_file_extension := arg\<rparr>)
      else if key = key_char CHR ''o'' then set_rx args (\<lambda>rx. rx\<lparr>ordered := True\<rparr>)
      else if key = key_char CHR ''n'' then set_rx args (\<lambda>rx. rx\<lparr>add_noise := True\<rparr>)
      else if key = key_char CHR ''s'' then Parsed (args\<lparr>rx_use_syslog := True\<rparr>)
      else if key = pcap_key SNAPLEN then set_rx args (\<lambda>rx. rx\<lparr>rx_snaplen := c_atoi arg\<rparr>)
      else if key = pcap_key BUFFER_TIMEOUT then set_rx args (\<lambda>rx. rx\<lparr>rx_pb_timeout := c_atoi arg\<rparr>)
      else if key = pcap_key FILTER then set_rx args (\<lambda>rx. rx\<lparr>rx_filter := arg\<rparr>)
      else if key = pcap_key NO_OPTIMIZE then set_rx args (\<lambda>rx. rx\<lparr>rx_optimize := False\<rparr>)
      else if tests \<and> key = ARGP_KEY_INIT then Parsed (args\<lparr>rx_savefile := None\<rparr>)
      else if tests \<and> key = GET_KEY 1 RX_TEST_GROUP then Parsed (args\<lparr>rx_savefile := Some arg\<rparr>)
      else Unknown_Key args)"

fun rx_parse_args :: "bool \<Rightarrow> stat_call \<Rightarrow> nat \<Rightarrow> (int \<times> string) list \<Rightarrow> rx_cli_args \<Rightarrow>
    rx_cli_args option" where
  "rx_parse_args tests lstat arg_num [] args = Some args"
| "rx_parse_args tests lstat arg_num ((key, arg) # opts) args =
     (let arg_num' = (if key = ARGP_KEY_ARG then Suc arg_num else arg_num) in
      case rx_parse_opt tests lstat arg_num key arg args of
        Parsed args \<Rightarrow> rx_parse_args tests lstat arg_num' opts args
      | Unknown_Key args \<Rightarrow> rx_parse_args tests lstat arg_num' opts args
      | Usage_Exit \<Rightarrow> None)"

definition DXWIFI_DFLT_PACKET_BUFFER_TIMEOUT :: int where "DXWIFI_DFLT_PACKET_BUFFER_TIMEOUT = 20"

definition rx_default_args :: rx_cli_args where
  "rx_default_args = \<lparr>rx_mode = RX_STREAM_MODE, rx_verbosity = 4, rx_quiet = False, rx_append = False,
     rx_use_syslog = False, rx_device = ''mon0'', output_path = ''.'', rx_file_prefix = ''rx'',
     rx_file_extension = ''cap'', rx_savefile = None,
     cli_rx = \<lparr>dispatch_count = 1, capture_timeout = - 1,
       packet_buffer_size = DXWIFI_RX_PACKET_BUFFER_SIZE_MAX, ordered = False, add_noise = False,
       noise_value = 0xff, rx_filter = ''wlan addr2 aa:aa:aa:aa:aa:aa'', rx_optimize = True,
       rx_snaplen = int DXWIFI_SNAPLEN_MAX, rx_pb_timeout = DXWIFI_DFLT_PACKET_BUFFER_TIMEOUT,
       rx_activated = False\<rparr>\<rparr>"

subsection \<open>What every command line keeps\<close>

definition rx_args_ok :: "rx_cli_args \<Rightarrow> bool" where
  "rx_args_ok args \<longleftrightarrow> DXWIFI_RX_PACKET_BUFFER_SIZE_MIN \<le> packet_buffer_size (cli_rx args) \<and>
     packet_buffer_size (cli_rx args) \<le> DXWIFI_RX_PACKET_BUFFER_SIZE_MAX \<and>
     noise_value (cli_rx args) = 0xff"

definition rx_result_ok :: "rx_cli_args argp_result \<Rightarrow> bool" where
  "rx_result_ok r \<longleftrightarrow> (case r of Parsed a \<Rightarrow> rx_args_ok a | Unknown_Key a \<Rightarrow> rx_args_ok a | Usage_Exit \<Rightarrow> True)"

lemma rx_result_ok_simps [simp]:
  "rx_result_ok (Parsed a) = rx_args_ok a" "rx_result_ok (Unknown_Key a) = rx_args_ok a"
  "rx_result_ok Usage_Exit"
  by (simp_all add: rx_result_ok_def)

lemma rx_result_ok_if: "(b \<Longrightarrow> rx_result_ok x) \<Longrightarrow> (\<not> b \<Longrightarrow> rx_result_ok y) \<Longrightarrow> rx_result_ok (if b then x else y)"
  by simp

lemma rx_parse_opt_ok:
  assumes "rx_args_ok args"
  shows "rx_result_ok (rx_parse_opt tests lstat arg_num key arg args)"
proof -
  have 1: "rx_result_ok (rx_key_end lstat arg_num args)" using assms by (simp add: rx_key_end_def rx_args_ok_def Let_def)
  show ?thesis
    unfolding rx_parse_opt_def
    by (intro rx_result_ok_if 1; use assms in \<open>auto simp: rx_args_ok_def set_rx_def Let_def\<close>)
qed

lemma rx_parse_args_ok:
  "rx_args_ok args \<Longrightarrow> rx_parse_args tests lstat k opts args = Some args' \<Longrightarrow> rx_args_ok args'"
proof (induction opts arbitrary: args k)
  case (Cons p ps)
  obtain key arg where p: "p = (key, arg)" by (cases p)
  have "rx_result_ok (rx_parse_opt tests lstat k key arg args)" using Cons.prems(1) by (rule rx_parse_opt_ok)
  then show ?case
    using Cons p by (cases "rx_parse_opt tests lstat k key arg args") (auto simp: Let_def)
qed simp

lemma rx_default_args_ok: "rx_args_ok rx_default_args"
  by (simp add: rx_args_ok_def rx_default_args_def rx_size_defs wire_defs)

lemma rx_keys:
  "key_char CHR ''d'' = 100" "key_char CHR ''b'' = 98" "key_char CHR ''t'' = 116" "key_char CHR ''v'' = 118"
  "key_char CHR ''q'' = 113" "key_char CHR ''a'' = 97" "key_char CHR ''p'' = 112" "key_char CHR ''e'' = 101"
  "key_char CHR ''c'' = 99" "key_char CHR ''s'' = 115" "key_char CHR ''o'' = 111" "key_char CHR ''n'' = 110"
  by (simp_all add: key_char_def)

lemmas rx_key_defs = rx_keys RX_PCAP_SETTINGS_GROUP_def RX_HELP_GROUP_def RX_TEST_GROUP_def
  ARGP_KEY_ARG_def ARGP_KEY_END_def ARGP_KEY_INIT_def GET_KEY_def

text \<open>Only the output path depends on the count of arguments, and only one is accepted.\<close>

definition arguments :: "(int \<times> string) list \<Rightarrow> string list" where
  "arguments opts = map snd (filter (\<lambda>p. fst p = ARGP_KEY_ARG) opts)"

lemma rx_parse_opt_path:
  assumes "key \<noteq> ARGP_KEY_ARG" and "rx_parse_opt tests lstat k key arg args = r"
    and "r = Parsed a \<or> r = Unknown_Key a"
  shows "output_path a = output_path args"
  using assms
  by (auto simp: rx_parse_opt_def rx_key_end_def set_rx_def Let_def split: if_splits)

lemma rx_parse_args_append:
  "rx_parse_args tests lstat k (xs @ ys) args = (case rx_parse_args tests lstat k xs args of
     None \<Rightarrow> None | Some args \<Rightarrow> rx_parse_args tests lstat (k + length (arguments xs)) ys args)"
  by (induction xs arbitrary: k args) (auto simp: arguments_def Let_def split: argp_result.splits option.splits)

lemma rx_parse_args_arguments:
  "rx_parse_args tests lstat k opts args = Some args' \<Longrightarrow> k \<le> 1 \<Longrightarrow>
   k + length (arguments opts) \<le> 1 \<and>
   output_path args' = (if arguments opts = [] then output_path args else hd (arguments opts))"
proof (induction opts arbitrary: k args)
  case (Cons p ps)
  obtain key arg where p: "p = (key, arg)" by (cases p)
  show ?case
  proof (cases "key = ARGP_KEY_ARG")
    case True
    then have k: "k = 0" and rest: "rx_parse_args tests lstat (Suc k) ps (args\<lparr>output_path := arg\<rparr>) = Some args'"
      using Cons.prems p by (auto simp: rx_parse_opt_def split: if_splits)
    have "arguments (p # ps) = arg # arguments ps" using True p by (simp add: arguments_def)
    then show ?thesis using Cons.IH[OF rest] k by simp
  next
    case False
    then show ?thesis
      using Cons p rx_parse_opt_path[OF False, of tests lstat k arg args]
      by (cases "rx_parse_opt tests lstat k key arg args") (auto simp: arguments_def)
  qed
qed (simp add: arguments_def)


section \<open>Properties\<close>

text \<open>
  C33: Whatever options the command line has, if the parser does not end the program then the size
  of the packet buffer is between 2304 bytes and 5 MiB, so that its packet heap cannot fill up, and
  the value of noise bytes is the default.
\<close>

theorem rx_command_line_safe:
  assumes "rx_parse_args tests lstat 0 opts rx_default_args = Some args"
  shows "2304 \<le> packet_buffer_size (cli_rx args) \<and> packet_buffer_size (cli_rx args) \<le> 5242880 \<and>
     packet_buffer_size (cli_rx args) div DXWIFI_BLOCK_SIZE_MIN < DXWIFI_RX_PACKET_HEAP_CAPACITY \<and>
     noise_value (cli_rx args) = 0xff"
proof -
  have ok: "rx_args_ok args" using rx_parse_args_ok[OF rx_default_args_ok assms] .
  then have "packet_buffer_size (cli_rx args) div 257 \<le> DXWIFI_RX_PACKET_BUFFER_SIZE_MAX div 257"
    by (intro div_le_mono) (simp add: rx_args_ok_def)
  then show ?thesis using ok by (simp add: rx_args_ok_def rx_size_defs wire_defs)
qed

theorem rx_command_line_safe_witness:
  "\<exists>args. rx_parse_args False (\<lambda>p. None) 0 [(98, ''4096''), (111, [])] rx_default_args = Some args \<and>
     packet_buffer_size (cli_rx args) = 4096 \<and> ordered (cli_rx args) \<and>
     noise_value (cli_rx args) = 0xff"
proof -
  have n: "to_size (c_atoi ''4096'') = 4096" by code_simp
  obtain args where a: "rx_parse_args False (\<lambda>p. None) 0 [(98, ''4096''), (111, [])] rx_default_args = Some args"
    "packet_buffer_size (cli_rx args) = 4096" "ordered (cli_rx args)"
    by (simp add: rx_parse_opt_def rx_key_defs n rx_size_defs wire_defs set_rx_def)
  then show ?thesis using rx_command_line_safe[OF a(1)] by blast
qed

text \<open>
  The mode follows from the arguments: none gives stream mode; one is the output path, and
  gives directory mode when it names a directory and file mode otherwise; the program does not
  run with more than one.
\<close>

theorem rx_mode_of_arguments:
  assumes "rx_parse_args tests lstat 0 (opts @ [(ARGP_KEY_END, x)]) rx_default_args = Some args"
  shows "case arguments opts of
       [] \<Rightarrow> rx_mode args = RX_STREAM_MODE
     | [path] \<Rightarrow> output_path args = path \<and>
         rx_mode args = (if is_directory lstat path then RX_DIRECTORY_MODE else RX_FILE_MODE)
     | _ \<Rightarrow> False"
proof -
  obtain a where a: "rx_parse_args tests lstat 0 opts rx_default_args = Some a"
    and e: "rx_parse_args tests lstat (length (arguments opts)) [(ARGP_KEY_END, x)] a = Some args"
    using assms by (auto simp: rx_parse_args_append split: option.splits)
  have "rx_parse_opt tests lstat (length (arguments opts)) ARGP_KEY_END x a =
      rx_key_end lstat (length (arguments opts)) a"
    by (simp add: rx_parse_opt_def ARGP_KEY_ARG_def ARGP_KEY_END_def)
  then show ?thesis
    using e rx_parse_args_arguments[OF a]
    by (auto simp: rx_key_end_def Let_def split: list.splits if_splits)
qed

theorem rx_mode_of_arguments_witness:
  "\<exists>args. rx_parse_args False (\<lambda>p. None) 0 ([(ARGP_KEY_ARG, ''out''), (97, [])] @ [(ARGP_KEY_END, [])])
     rx_default_args = Some args \<and> rx_mode args = RX_FILE_MODE \<and> output_path args = ''out''"
proof -
  obtain args where a: "rx_parse_args False (\<lambda>p. None) 0
      ([(ARGP_KEY_ARG, ''out''), (97, [])] @ [(ARGP_KEY_END, [])]) rx_default_args = Some args"
    by (simp add: rx_parse_opt_def rx_key_defs rx_key_end_def Let_def)
  from rx_mode_of_arguments[OF a] have "output_path args = ''out'' \<and> rx_mode args = RX_FILE_MODE"
    by (simp add: arguments_def ARGP_KEY_ARG_def is_directory_def)
  then show ?thesis using a by blast
qed

end
