(* ===== verification/ReceiverBuffer.thy ===== *)
theory ReceiverBuffer
  imports Receiver
begin

text \<open>
  What the receiver's packet buffer promises: which captures are control frames, how a data frame
  is stored behind the heap's nodes, and what a flush of the buffer writes. The contract of the
  heap is used through the interpretation \<open>frame_order\<close> of \<open>comparator\<close>.
\<close>

unbundle bit_operations_syntax

subsection \<open>Well-formed captures\<close>

text \<open>
  A capture that holds a radiotap header, a MAC header and a frame check sequence, delivered by
  pcap with as many bytes as its header says. Its payload is what lies between.
\<close>

definition rtap_len_of :: "byte list \<Rightarrow> nat" where
  "rtap_len_of frame = unat (le16_of (slice frame 2 2))"

definition capture_ok :: "capture \<Rightarrow> bool" where
  "capture_ok c \<longleftrightarrow>
     length (snd c) = unat (caplen (fst c)) \<and> 4 \<le> length (snd c) \<and>
     rtap_len_of (snd c) + IEEE80211_HDR_SIZE + IEEE80211_FCS_SIZE \<le> length (snd c)"

definition payload_of :: "byte list \<Rightarrow> byte list" where
  "payload_of frame =
     slice frame (rtap_len_of frame + IEEE80211_HDR_SIZE)
       (length frame - rtap_len_of frame - IEEE80211_HDR_SIZE - IEEE80211_FCS_SIZE)"

definition frame_number_of :: "byte list \<Rightarrow> u32" where
  "frame_number_of frame = be32_of (slice frame (rtap_len_of frame + 4 + 2) 4)"

lemma length_payload_of:
  "capture_ok (pkt, frame) \<Longrightarrow>
   length (payload_of frame) = length frame - rtap_len_of frame - IEEE80211_HDR_SIZE - IEEE80211_FCS_SIZE"
  by (simp add: capture_ok_def payload_of_def wire_defs)

lemma ctrl_payload_size_ok:
  assumes "capture_ok (pkt, frame)"
  shows "unat (ctrl_payload_size (caplen pkt) (le16_of (slice frame 2 2))) = length (payload_of frame)"
proof -
  let ?r = "le16_of (slice frame 2 2)" and ?c = "caplen pkt"
  have le: "unat ?r + 28 \<le> unat ?c"
    using assms by (simp add: capture_ok_def rtap_len_of_def wire_defs)
  have "unat ?r < 2 ^ 16" using unsigned_less[of ?r] by simp
  then have ur: "unat (ucast ?r :: u32) = unat ?r"
    by (simp add: unat_ucast_up)
  then have d: "unat (?c - ucast ?r) = unat ?c - unat ?r"
    using le by (simp add: unat_sub word_le_nat_alt)
  have "unat (ucast (?c - ucast ?r) :: size_t) = unat ?c - unat ?r"
    using d by (simp add: unat_ucast_up)
  then have "unat (ucast (?c - ucast ?r) - 24 - 4 :: size_t) = unat ?c - unat ?r - 24 - 4"
    using le by (simp add: unat_sub word_le_nat_alt)
  with assms show ?thesis
    by (simp add: ctrl_payload_size_def length_payload_of wire_defs rtap_len_of_def capture_ok_def)
qed

lemma count_control_le: "fst (count_control bs e p) + snd (count_control bs e p) \<le> length bs + e + p"
  by (induction bs e p rule: count_control.induct) (auto split: if_splits)

lemma count_control_eq:
  "count_control bs e p =
     (e + length (filter (\<lambda>b. b = 0xaa) bs), p + length (filter (\<lambda>b. b = 0xff) bs))"
  by (induction bs e p rule: count_control.induct) auto

text \<open>An integer ratio exceeds the threshold only when every byte counts.\<close>

lemma ratio_all:
  assumes "0 < length bs"
  shows "DXWIFI_FRAME_CONTROL_CHECK_THRESHOLD < of_nat (length (filter P bs) div length bs)
     \<longleftrightarrow> (\<forall>b \<in> set bs. P b)"
proof (cases "\<forall>b \<in> set bs. P b")
  case True
  then have "filter P bs = bs" by simp
  with True assms show ?thesis by (simp add: DXWIFI_FRAME_CONTROL_CHECK_THRESHOLD_def)
next
  case False
  then have "length (filter P bs) < length bs" by (auto intro: length_filter_less)
  with False show ?thesis by (simp add: DXWIFI_FRAME_CONTROL_CHECK_THRESHOLD_def)
qed

definition classify :: "byte list \<Rightarrow> dxwifi_control_frame" where
  "classify pl =
     (if pl = replicate DXWIFI_FRAME_CONTROL_DATA_SIZE 0xaa then DXWIFI_CONTROL_FRAME_EOT
      else if pl = replicate DXWIFI_FRAME_CONTROL_DATA_SIZE 0xff then DXWIFI_CONTROL_FRAME_PREAMBLE
      else DXWIFI_CONTROL_FRAME_NONE)"

lemma all_eq_replicate: "length xs = n \<Longrightarrow> (\<forall>x \<in> set xs. x = a) \<longleftrightarrow> xs = replicate n a"
  by (metis in_set_replicate replicate_length_same)

lemma check_frame_control_classify:
  assumes ok: "capture_ok (pkt, frame)"
  shows "check_frame_control frame pkt DXWIFI_FRAME_CONTROL_CHECK_THRESHOLD =
           Inr (classify (payload_of frame))"
proof -
  let ?r = "le16_of (slice frame 2 2)" and ?pl = "payload_of frame"
  have len: "2 + 2 \<le> length frame" using ok by (simp add: capture_ok_def)
  show ?thesis
  proof (cases "length ?pl = DXWIFI_FRAME_CONTROL_DATA_SIZE")
    case False
    then have "classify ?pl = DXWIFI_CONTROL_FRAME_NONE" by (auto simp: classify_def)
    with False len ok show ?thesis
      by (simp add: check_frame_control_def ctrl_payload_size_ok Let_def)
  next
    case True
    have fits: "unat ?r + IEEE80211_HDR_SIZE + length ?pl \<le> length frame"
      using ok True by (simp add: length_payload_of capture_ok_def rtap_len_of_def wire_defs)
    have sl: "slice frame (unat ?r + IEEE80211_HDR_SIZE) (length ?pl) = ?pl"
      using ok by (simp add: length_payload_of) (simp add: payload_of_def rtap_len_of_def)
    have pos: "0 < length ?pl" using True by (simp add: wire_defs)
    show ?thesis
      using True len ok fits
      by (simp add: check_frame_control_def ctrl_payload_size_ok Let_def sl count_control_eq
          ratio_all[OF pos] all_eq_replicate[OF True] classify_def flip: True)
  qed
qed

subsection \<open>The packet buffer and its index\<close>

text \<open>
  The invariant between two frames: the heap is well-formed, and each of its nodes points to a
  region of the buffer below the write position. The abstract value of the buffer is the
  multiset of the frame numbers and payload bytes that the nodes denote.
\<close>

definition node_in :: "nat \<Rightarrow> packet_heap_node \<Rightarrow> bool" where
  "node_in used n \<longleftrightarrow> 0 \<le> node_size n \<and> node_data n + nat (node_size n) \<le> used"

definition node_value :: "byte list \<Rightarrow> packet_heap_node \<Rightarrow> u32 \<times> byte list" where
  "node_value buf n = (frame_number n, slice buf (node_data n) (nat (node_size n)))"

definition fc_inv :: "'s frame_controller \<Rightarrow> bool" where
  "fc_inv fc \<longleftrightarrow>
     heap_wf order_by_frame_number_desc (packet_heap fc) \<and> 0 < capacity (packet_heap fc) \<and>
     length (packet_buffer fc) = pb_size fc \<and> buf_index fc \<le> pb_size fc \<and>
     (\<forall>n \<in># heap_elems (packet_heap fc). node_in (buf_index fc) n)"

definition fc_pending :: "'s frame_controller \<Rightarrow> (u32 \<times> byte list) multiset" where
  "fc_pending fc = image_mset (node_value (packet_buffer fc)) (heap_elems (packet_heap fc))"

definition number_for :: "'s frame_controller \<Rightarrow> byte list \<Rightarrow> u32" where
  "number_for fc frame =
     (if ordered (fc_rx fc) then frame_number_of frame else num_packets_processed (rx_stats fc))"

text \<open>Writing a frame above the used part changes no pending payload.\<close>

lemma node_value_overwrite:
  assumes "node_in used n" and "used + length bs \<le> length buf"
  shows "node_value (overwrite buf used bs) n = node_value buf n"
  using assms by (simp add: node_in_def node_value_def slice_overwrite_below)

lemma node_in_mono: "node_in k n \<Longrightarrow> k \<le> k' \<Longrightarrow> node_in k' n"
  by (simp add: node_in_def)

lemma slice_of_overwrite:
  assumes "off + length bs \<le> length m" and "k + n \<le> length bs"
  shows "slice (overwrite m off bs) (off + k) n = slice bs k n"
  using assms by (simp add: slice_overwrite_inside)

lemma store_frame_ok:
  assumes inv: "fc_inv fc" and ok: "capture_ok (pkt, frame)"
    and fits: "buf_index fc + length frame \<le> pb_size fc"
    and room: "count (packet_heap fc) < capacity (packet_heap fc)"
  defines "st \<equiv> rx_stats fc" and "psz \<equiv> length (payload_of frame)"
  shows "\<exists>fc'. store_frame fc pkt frame = Inr fc' \<and> fc_inv fc' \<and>
     fc_pending fc' = add_mset (number_for fc frame, payload_of frame) (fc_pending fc) \<and>
     fc' = fc\<lparr>packet_heap := packet_heap fc', packet_buffer := packet_buffer fc',
       buf_index := buf_index fc + length frame,
       rx_stats := st\<lparr>total_caplen := total_caplen st + caplen pkt,
         total_payload_size := total_payload_size st + of_nat psz,
         num_packets_processed := num_packets_processed st + 1, pkt_stats := pkt\<rparr>\<rparr> \<and>
     count (packet_heap fc') = Suc (count (packet_heap fc)) \<and>
     capacity (packet_heap fc') = capacity (packet_heap fc)"
proof -
  let ?i = "buf_index fc" and ?r = "rtap_len_of frame"
  have cap: "unat (caplen pkt) = length frame" using ok by (simp add: capture_ok_def)
  have lenb: "length (packet_buffer fc) = pb_size fc" using inv by (simp add: fc_inv_def)
  define buf where "buf = overwrite (packet_buffer fc) ?i frame"
  have bl: "length buf = pb_size fc" using fits lenb by (simp add: buf_def)
  have sl: "slice buf (?i + k) n = slice frame k n" if "k + n \<le> length frame" for k n
    unfolding buf_def using fits lenb that by (intro slice_of_overwrite) simp_all
  have h: "?r + 28 \<le> length frame" "4 \<le> length frame"
    using ok by (simp_all add: capture_ok_def wire_defs)
  have rtap: "slice buf (Suc (Suc ?i)) 2 = slice frame 2 2" using h sl[of 2 2] by simp
  have fno: "slice buf (6 + (?i + ?r)) 4 = slice frame (6 + ?r) 4"
    using sl[of "?r + 4 + 2" 4] h by (simp add: ac_simps)
  have parse: "parse_rx_frame_fields pkt buf ?i = Inr \<lparr>rxf_rtap_hdr = ?i, rxf_mac_hdr = ?i + ?r,
      rxf_payload = ?i + ?r + 24, rxf_fcs = int ?i + int (length frame) - 4\<rparr>"
    using h bl fits by (simp add: parse_rx_frame_fields_def rtap rtap_len_of_def cap wire_defs Let_def)
  have psz: "psz = length frame - ?r - 28"
    using ok by (simp add: psz_def length_payload_of wire_defs)
  have size: "int ?i + int (length frame) - 4 - int (?i + ?r + 24) = int psz"
    using h psz by simp
  define node where "node = \<lparr>frame_number = number_for fc frame, node_data = ?i + ?r + 24,
      node_size = int psz, crc_valid = False\<rparr>"
  obtain hp where push: "heap_push (packet_heap fc) node = Inr hp"
      and hp: "heap_wf order_by_frame_number_desc hp"
        "heap_elems hp = add_mset node (heap_elems (packet_heap fc))"
        "count hp = Suc (count (packet_heap fc))" "capacity hp = capacity (packet_heap fc)"
    using frame_order.heap_push_ok[of "packet_heap fc" node] inv room by (auto simp: fc_inv_def)
  have number: "(if ordered (fc_rx fc) then extract_frame_number buf (?i + ?r)
       else Inr (num_packets_processed (rx_stats fc))) = Inr (number_for fc frame)"
    using h bl fits by (simp add: extract_frame_number_def number_for_def frame_number_of_def fno)
  let ?fc' = "fc\<lparr>packet_heap := hp, packet_buffer := buf, buf_index := ?i + length frame,
       rx_stats := st\<lparr>total_caplen := total_caplen st + caplen pkt,
         total_payload_size := total_payload_size st + of_nat psz,
         num_packets_processed := num_packets_processed st + 1, pkt_stats := pkt\<rparr>\<rparr>"
  have rd: "mem_read frame 0 (length frame) = Inr frame" by simp
  have wr: "mem_write (packet_buffer fc) ?i frame = Inr buf" using fits lenb by (simp add: buf_def)
  have run: "store_frame fc pkt frame = Inr ?fc'"
    unfolding store_frame_def
    by (simp only: Let_def rd wr bind_res_simps parse dxwifi_rx_frame.simps size number
        push[unfolded node_def] of_int_of_nat_eq cap st_def)
  have old: "node_in ?i n" if "n \<in># heap_elems (packet_heap fc)" for n
    using that inv by (simp add: fc_inv_def)
  have new: "node_in (?i + length frame) node" using h psz by (simp add: node_in_def node_def)
  have pl: "payload_of frame = slice frame (?r + 24) psz"
    by (simp add: payload_of_def psz wire_defs add.commute)
  have sl': "slice buf (?i + ?r + 24) psz = slice frame (?r + 24) psz"
    using sl[of "?r + 24" psz] h psz by (simp add: add.assoc)
  have "node_value buf node = (number_for fc frame, payload_of frame)"
    unfolding node_value_def node_def by (simp add: pl sl')
  moreover have "node_value buf n = node_value (packet_buffer fc) n"
    if "n \<in># heap_elems (packet_heap fc)" for n
    unfolding buf_def using old[OF that] fits lenb by (intro node_value_overwrite) simp_all
  then have "image_mset (node_value buf) (heap_elems (packet_heap fc)) =
      image_mset (node_value (packet_buffer fc)) (heap_elems (packet_heap fc))"
    by (rule image_mset_cong)
  ultimately have pend: "fc_pending ?fc' =
      add_mset (number_for fc frame, payload_of frame) (fc_pending fc)"
    using hp by (simp add: fc_pending_def)
  have old': "node_in (?i + length frame) n" if "n \<in># heap_elems (packet_heap fc)" for n
    using node_in_mono[OF old[OF that]] by simp
  have "fc_inv ?fc'"
    using inv hp bl fits old' new by (simp add: fc_inv_def)
  then show ?thesis using run pend hp by (intro exI[of _ ?fc']) simp
qed

subsection \<open>Flushing the packet buffer\<close>

text \<open>
  \<open>write\<close> on a regular file: every byte is accepted and appended. The output of a flush is then
  a function of the numbers and payloads in the order in which the heap delivers them.
\<close>

definition file_write :: "byte list write_call" where
  "file_write fd bs = (int (length bs), fd @ bs)"

text \<open>Blocks missing before a node: only an ordered receiver looks for them.\<close>

definition missing_before :: "dxwifi_receiver \<Rightarrow> u32 \<Rightarrow> u32 \<Rightarrow> int" where
  "missing_before rx ex n = (if ordered rx then sint n - sint ex else 0)"

definition noise_before :: "dxwifi_receiver \<Rightarrow> u32 \<Rightarrow> u32 \<times> byte list \<Rightarrow> byte list" where
  "noise_before rx ex v =
     (if add_noise rx
      then concat (replicate (nat (missing_before rx ex (fst v)))
             (replicate (length (snd v)) (noise_value rx)))
      else [])"

fun render :: "dxwifi_receiver \<Rightarrow> u32 \<Rightarrow> (u32 \<times> byte list) list \<Rightarrow> byte list" where
  "render rx ex [] = []"
| "render rx ex (v # vs) = noise_before rx ex v @ snd v @ render rx (fst v + 1) vs"

fun noise_total :: "dxwifi_receiver \<Rightarrow> u32 \<Rightarrow> (u32 \<times> byte list) list \<Rightarrow> nat" where
  "noise_total rx ex [] = 0"
| "noise_total rx ex (v # vs) = length (noise_before rx ex v) + noise_total rx (fst v + 1) vs"

fun lost_total :: "dxwifi_receiver \<Rightarrow> u32 \<Rightarrow> (u32 \<times> byte list) list \<Rightarrow> int" where
  "lost_total rx ex [] = 0"
| "lost_total rx ex (v # vs) = missing_before rx ex (fst v) + lost_total rx (fst v + 1) vs"

definition payload_total :: "(u32 \<times> byte list) list \<Rightarrow> nat" where
  "payload_total vs = sum_list (map (length \<circ> snd) vs)"

definition flushed :: "u32 \<Rightarrow> (u32 \<times> byte list) list \<Rightarrow> byte list frame_controller \<Rightarrow>
    byte list frame_controller" where
  "flushed ex vs fc = fc\<lparr>
     sink := sink fc @ render (fc_rx fc) ex vs,
     rx_stats := (rx_stats fc)\<lparr>
       total_writelen := total_writelen (rx_stats fc) + of_nat (payload_total vs),
       total_noise_added := total_noise_added (rx_stats fc) + of_nat (noise_total (fc_rx fc) ex vs),
       total_blocks_lost := total_blocks_lost (rx_stats fc) + of_int (lost_total (fc_rx fc) ex vs)\<rparr>\<rparr>"

lemma flushed_Nil [simp]: "flushed ex [] fc = fc"
  by (simp add: flushed_def payload_total_def)

lemma flushed_Cons:
  "flushed ex (v # vs) fc = flushed (fst v + 1) vs (flushed ex [v] fc)"
  by (simp add: flushed_def payload_total_def ac_simps)

lemma flushed_sel [simp]:
  "packet_heap (flushed ex vs fc) = packet_heap fc" "packet_buffer (flushed ex vs fc) = packet_buffer fc"
  "fc_rx (flushed ex vs fc) = fc_rx fc" "pb_size (flushed ex vs fc) = pb_size fc"
  "sink (flushed ex vs fc) = sink fc @ render (fc_rx fc) ex vs"
  by (simp_all add: flushed_def)

lemma flushed_heap [simp]:
  "flushed ex vs (fc\<lparr>packet_heap := h\<rparr>) = (flushed ex vs fc)\<lparr>packet_heap := h\<rparr>"
  by (simp add: flushed_def)

lemma noise_loop_file:
  "noise_loop file_write noise n tot fd =
     (tot + of_nat (n * length noise), fd @ concat (replicate n noise))"
  by (induction n arbitrary: tot fd) (simp_all add: file_write_def algebra_simps)

text \<open>A node that a flush can write: in the buffer, numbered within a positive \<open>int\<close>.\<close>

definition node_good :: "nat \<Rightarrow> packet_heap_node \<Rightarrow> bool" where
  "node_good used n \<longleftrightarrow> node_in used n \<and> 0 < node_size n \<and>
     0 \<le> sint (frame_number n) \<and> sint (frame_number n) < INT_MAX"

lemma sint_succ:
  fixes n :: u32
  assumes "0 \<le> sint n" "sint n < INT_MAX"
  shows "sint (n + 1) = sint n + 1"
proof -
  have "sint n + 1 \<in> {- (2 ^ 31) ..< 2 ^ 31}" using assms by (simp add: INT_MAX_def)
  then have "signed_take_bit 31 (sint n + 1) = sint n + 1"
    by (intro signed_take_bit_int_eq_self) simp_all
  then show ?thesis by (simp add: sint_word_ariths)
qed

lemma dump_node_file:
  assumes good: "node_good used node" and used: "used \<le> length (packet_buffer fc)"
    and ex: "0 \<le> sint ex"
  shows "dump_node file_write fc ex node =
     Inr (flushed ex [node_value (packet_buffer fc) node] fc, frame_number node + 1)"
proof -
  have fit: "fits_int (sint (frame_number node) + 1)"
    using good by (simp add: node_good_def fits_int_def INT_MAX_def INT_MIN_def)
  have "sint ex \<le> INT_MAX" "sint ex < 2 ^ 31"
    using sint_lt[of ex] by (simp_all add: INT_MAX_def)
  then have fit': "fits_int (sint (frame_number node) - sint ex)"
    using good ex by (simp add: node_good_def fits_int_def INT_MAX_def INT_MIN_def)
  have bytes: "node_bytes (packet_buffer fc) node =
      Inr (slice (packet_buffer fc) (node_data node) (nat (node_size node)))"
    and len: "length (slice (packet_buffer fc) (node_data node) (nat (node_size node))) =
      nat (node_size node)"
    using good used by (simp_all add: node_bytes_def node_good_def node_in_def)
  have pos: "0 < node_size node" using good by (simp add: node_good_def)
  let ?v = "node_value (packet_buffer fc) node"
  have fill: "fill_missing file_write fc ex node =
      Inr (fc\<lparr>sink := sink fc @ noise_before (fc_rx fc) ex ?v,
        rx_stats := (rx_stats fc)\<lparr>
          total_noise_added := total_noise_added (rx_stats fc) + of_nat (noise_total (fc_rx fc) ex [?v]),
          total_blocks_lost := total_blocks_lost (rx_stats fc) + of_int (lost_total (fc_rx fc) ex [?v])\<rparr>\<rparr>)"
    using fit' pos len
    by (auto simp: fill_missing_def noise_before_def missing_before_def noise_loop_file node_value_def
        length_concat sum_list_replicate)
  show ?thesis
    unfolding dump_node_def fill using bytes len fit
    by (simp add: file_write_def flushed_def payload_total_def node_value_def)
qed

lemma heap_pop_root: "heap_pop h = Inr (Some x, h') \<Longrightarrow> x = tree h ! 0 \<and> 0 < length (tree h)"
  by (auto simp: heap_pop_def bind_res_eq_Inr Let_def arr_get_def split: if_splits option.splits)

definition by_number :: "(u32 \<times> byte list) list \<Rightarrow> bool" where
  "by_number vs \<longleftrightarrow> sorted (map (sint \<circ> fst) vs)"

lemma node_value_fst [simp]: "fst (node_value buf n) = frame_number n"
  by (simp add: node_value_def)

text \<open>The loop of a flush empties the heap and writes every pending payload, in number order.\<close>

lemma dump_loop_file:
  assumes "heap_wf order_by_frame_number_desc (packet_heap fc)"
    and "\<forall>n \<in># heap_elems (packet_heap fc). node_good used n"
    and "used \<le> length (packet_buffer fc)" and "0 \<le> sint ex"
  shows "\<exists>vs h. dump_loop file_write fc ex = Inr ((flushed ex vs fc)\<lparr>packet_heap := h\<rparr>) \<and>
     heap_wf order_by_frame_number_desc h \<and> count h = 0 \<and>
     capacity h = capacity (packet_heap fc) \<and> mset vs = fc_pending fc \<and> by_number vs \<and>
     (vs \<noteq> [] \<longrightarrow> fst (hd vs) = frame_number (tree (packet_heap fc) ! 0))"
  using assms
proof (induction "count (packet_heap fc)" arbitrary: fc ex)
  case 0
  then have "heap_elems (packet_heap fc) = {#}" by (simp add: heap_elems_def)
  with 0 show ?case
    by (intro exI[of _ "[]"] exI[of _ "packet_heap fc"])
      (simp add: dump_loop.simps heap_pop_empty fc_pending_def by_number_def)
next
  case (Suc k)
  obtain n h1 where pop: "heap_pop (packet_heap fc) = Inr (Some n, h1)"
    and h1: "heap_wf order_by_frame_number_desc h1"
      "heap_elems (packet_heap fc) = add_mset n (heap_elems h1)"
      "count (packet_heap fc) = Suc (count h1)" "capacity h1 = capacity (packet_heap fc)"
    and least: "\<forall>m \<in># heap_elems (packet_heap fc). \<not> order_by_frame_number_desc m n"
    using frame_order.heap_pop_ok[OF Suc.prems(1)] Suc.hyps(2) by auto
  let ?buf = "packet_buffer fc"
  let ?v = "node_value ?buf n" and ?fc1 = "(flushed ex [node_value (packet_buffer fc) n] fc)\<lparr>packet_heap := h1\<rparr>"
  have good: "node_good used n" using Suc.prems(2) h1(2) by simp
  have dump: "dump_node file_write (fc\<lparr>packet_heap := h1\<rparr>) ex n = Inr (?fc1, frame_number n + 1)"
    using dump_node_file[of used n "fc\<lparr>packet_heap := h1\<rparr>" ex] good Suc.prems by simp
  have ex': "0 \<le> sint (frame_number n + 1)"
    using good by (simp add: node_good_def sint_succ)
  obtain vs h where IH: "dump_loop file_write ?fc1 (frame_number n + 1) =
      Inr ((flushed (frame_number n + 1) vs ?fc1)\<lparr>packet_heap := h\<rparr>)"
    and h: "heap_wf order_by_frame_number_desc h" "count h = 0" "capacity h = capacity h1"
    and vs: "mset vs = fc_pending ?fc1" "by_number vs"
    using Suc.hyps(1)[of ?fc1 "frame_number n + 1"] Suc.hyps(2) h1 Suc.prems ex' by auto
  have pend: "fc_pending fc = add_mset ?v (mset vs)"
    using vs(1) h1(2) by (simp add: fc_pending_def)
  have "dump_loop file_write fc ex = Inr ((flushed ex (?v # vs) fc)\<lparr>packet_heap := h\<rparr>)"
    by (subst dump_loop.simps) (simp add: pop dump IH flushed_Cons[of ex ?v vs])
  moreover have "sint (frame_number n) \<le> sint (fst w)" if "w \<in> set vs" for w
  proof -
    have "w \<in># fc_pending fc" using that pend by simp
    then show ?thesis using least by (auto simp: fc_pending_def order_by_frame_number_desc_def)
  qed
  then have "by_number (?v # vs)" using vs(2) by (auto simp: by_number_def)
  ultimately show ?case
    using h h1 pend heap_pop_root[OF pop] by (intro exI[of _ "?v # vs"] exI[of _ h]) simp
qed

definition flush_of :: "byte list frame_controller \<Rightarrow> (u32 \<times> byte list) list \<Rightarrow>
    byte list frame_controller" where
  "flush_of fc vs = (flushed (fst (hd vs)) vs fc)\<lparr>buf_index := 0\<rparr>"

lemma dump_packet_buffer_file:
  assumes inv: "fc_inv fc" and ne: "fc_pending fc \<noteq> {#}"
    and good: "\<forall>n \<in># heap_elems (packet_heap fc). node_good (buf_index fc) n"
  shows "\<exists>vs h. dump_packet_buffer file_write fc = Inr ((flush_of fc vs)\<lparr>packet_heap := h\<rparr>) \<and>
     mset vs = fc_pending fc \<and> by_number vs \<and> heap_wf order_by_frame_number_desc h \<and>
     count h = 0 \<and> capacity h = capacity (packet_heap fc)"
proof -
  let ?root = "tree (packet_heap fc) ! 0"
  have len: "0 < length (tree (packet_heap fc))"
    using inv by (simp add: fc_inv_def heap_wf_def)
  have "0 < count (packet_heap fc)"
    using ne inv by (auto simp: fc_pending_def fc_inv_def heap_elems_empty_iff)
  then have "?root \<in># heap_elems (packet_heap fc)"
    using len by (cases "tree (packet_heap fc)"; cases "count (packet_heap fc)")
      (simp_all add: heap_elems_def)
  then have "0 \<le> sint (frame_number ?root)" using good by (simp add: node_good_def)
  then obtain vs h where loop: "dump_loop file_write fc (frame_number ?root) =
      Inr ((flushed (frame_number ?root) vs fc)\<lparr>packet_heap := h\<rparr>)"
    and h: "heap_wf order_by_frame_number_desc h" "count h = 0" "capacity h = capacity (packet_heap fc)"
    and vs: "mset vs = fc_pending fc" "by_number vs" "vs \<noteq> [] \<longrightarrow> fst (hd vs) = frame_number ?root"
    using dump_loop_file[of fc "buf_index fc" "frame_number ?root"] inv good
    by (auto simp: fc_inv_def)
  have "vs \<noteq> []" using vs(1) ne by auto
  then have "fst (hd vs) = frame_number ?root" using vs(3) by simp
  then show ?thesis
    using loop h vs len by (intro exI[of _ vs] exI[of _ h]) (simp add: dump_packet_buffer_def flush_of_def)
qed

lemma dump_packet_buffer_empty:
  assumes "0 < length (tree (packet_heap fc))" and "count (packet_heap fc) = 0"
  shows "dump_packet_buffer wr fc = Inr (fc\<lparr>buf_index := 0\<rparr>)"
  using assms by (simp add: dump_packet_buffer_def dump_loop.simps heap_pop_empty)

end
