(* ===== verification/ReceiverSession.thy ===== *)
theory ReceiverSession
  imports ReceiverBuffer
begin

text \<open>
  The receiver as a whole: an abstract receiver that keeps the pending frames as a list and
  flushes them sorted by number (\<open>buffered\<close>), the simulation of it by the code's heap and
  buffer (\<open>fc_abs\<close>, \<open>dispatch_ok\<close>, \<open>rx_loop_ok\<close>), and what a session writes.
\<close>

unbundle bit_operations_syntax

subsection \<open>One frame\<close>

definition good_number :: "u32 \<Rightarrow> bool" where
  "good_number n \<longleftrightarrow> 0 \<le> sint n \<and> sint n < INT_MAX"

definition is_data :: "capture \<Rightarrow> bool" where
  "is_data c \<longleftrightarrow> classify (payload_of (snd c)) = DXWIFI_CONTROL_FRAME_NONE"

definition capture_fits :: "nat \<Rightarrow> capture \<Rightarrow> bool" where
  "capture_fits psz c \<longleftrightarrow> capture_ok c \<and>
     (is_data c \<longrightarrow> length (snd c) \<le> psz \<and> payload_of (snd c) \<noteq> [])"

text \<open>
  The heap's capacity was chosen for frames of at least \<open>DXWIFI_BLOCK_SIZE_MIN\<close> bytes. By how much
  frames fall short of that is what a buffer and its heap must have to spare; \<open>fc_ready d\<close> says
  that \<open>d\<close> more bytes may be missing before the heap can fill up ahead of the buffer.
\<close>

definition shortfall :: "capture \<Rightarrow> nat" where
  "shortfall c = (if is_data c then DXWIFI_BLOCK_SIZE_MIN - length (snd c) else 0)"

definition shortfalls :: "capture list \<Rightarrow> nat" where
  "shortfalls cs = sum_list (map shortfall cs)"

lemma shortfalls_simps [simp]:
  "shortfalls [] = 0" "shortfalls (c # cs) = shortfall c + shortfalls cs"
  "shortfalls (cs @ ds) = shortfalls cs + shortfalls ds"
  by (simp_all add: shortfalls_def)

definition fc_room :: "nat \<Rightarrow> 's frame_controller \<Rightarrow> bool" where
  "fc_room d fc \<longleftrightarrow>
     pb_size fc + (DXWIFI_BLOCK_SIZE_MIN * count (packet_heap fc) - buf_index fc) + d
       < DXWIFI_BLOCK_SIZE_MIN * Suc (capacity (packet_heap fc))"

definition fc_ready :: "nat \<Rightarrow> 's frame_controller \<Rightarrow> bool" where
  "fc_ready d fc \<longleftrightarrow> fc_inv fc \<and>
     (\<forall>v \<in># fc_pending fc. good_number (fst v) \<and> snd v \<noteq> []) \<and> fc_room d fc"

definition flush_out :: "dxwifi_receiver \<Rightarrow> (u32 \<times> byte list) list \<Rightarrow> byte list" where
  "flush_out rx pend = (let vs = sort_key (sint \<circ> fst) pend in render rx (fst (hd vs)) vs)"

lemma sorted_values_unique:
  assumes "mset vs = mset pend" and "by_number vs" and "distinct (map fst pend)"
  shows "vs = sort_key (sint \<circ> fst) pend"
proof -
  let ?f = "sint \<circ> (fst :: u32 \<times> byte list \<Rightarrow> u32)"
  have set: "set vs = set pend" using assms(1) by (metis set_mset_mset)
  have "mset (map fst vs) = mset (map fst pend)" using assms(1) by simp
  then have dv: "distinct (map fst vs)" using assms(3) by (metis mset_eq_imp_distinct_iff)
  have inj: "inj_on fst (set pend)" using assms(3) by (simp add: distinct_map)
  have inj': "inj_on ?f (set pend)"
    using inj unfolding inj_on_def comp_def by (metis signed_word_eqI)
  have d: "distinct (map ?f xs)" if "mset xs = mset pend" for xs
  proof -
    have "distinct xs" using that assms(3) by (metis distinct_map mset_eq_imp_distinct_iff)
    moreover have "set xs = set pend" using that by (metis set_mset_mset)
    ultimately show ?thesis using inj' by (simp add: distinct_map)
  qed
  show ?thesis
  proof (rule map_sorted_distinct_set_unique[where f = ?f])
    show "inj_on ?f (set vs \<union> set (sort_key ?f pend))" using inj' set by simp
    show "sorted (map ?f vs)" using assms(2) by (simp add: by_number_def)
    show "distinct (map ?f vs)" "distinct (map ?f (sort_key ?f pend))" using assms(1) by (auto intro: d)
  qed (use set in simp_all)
qed

lemma fc_ready_good:
  assumes "fc_ready d fc"
  shows "\<forall>n \<in># heap_elems (packet_heap fc). node_good (buf_index fc) n"
proof
  fix n assume n: "n \<in># heap_elems (packet_heap fc)"
  let ?v = "node_value (packet_buffer fc) n"
  have "?v \<in># fc_pending fc" using n by (simp add: fc_pending_def)
  then have "good_number (fst ?v) \<and> snd ?v \<noteq> []" using assms unfolding fc_ready_def by blast
  then have v: "good_number (fst ?v)" "snd ?v \<noteq> []" by simp_all
  have "node_in (buf_index fc) n" using assms n by (simp add: fc_ready_def fc_inv_def)
  moreover have "0 < node_size n" using v(2) by (cases "0 < node_size n") (simp_all add: node_value_def)
  ultimately show "node_good (buf_index fc) n"
    using v(1) by (simp add: node_good_def good_number_def)
qed

lemma fc_ready_room:
  assumes "fc_ready (shortfall c + d) fc" and "is_data c" and "buf_index fc + length (snd c) \<le> pb_size fc"
  shows "count (packet_heap fc) < capacity (packet_heap fc)"
  using assms by (simp add: fc_ready_def fc_room_def shortfall_def wire_defs split: nat_diff_split_asm)

lemma fc_room_step:
  assumes "fc_room (shortfall c + d) fc" and "is_data c"
    and "buf_index fc' = buf_index fc + length (snd c)" and "pb_size fc' = pb_size fc"
    and "count (packet_heap fc') = Suc (count (packet_heap fc))"
    and "capacity (packet_heap fc') = capacity (packet_heap fc)"
  shows "fc_room d fc'"
  using assms by (simp add: fc_room_def shortfall_def wire_defs split: nat_diff_split nat_diff_split_asm)

lemma fc_room_empty:
  assumes "fc_room d fc" and "pb_size fc' = pb_size fc" and "count (packet_heap fc') = 0"
    and "capacity (packet_heap fc') = capacity (packet_heap fc)"
  shows "fc_room d fc'"
  using assms by (simp add: fc_room_def)

lemma process_control:
  assumes "capture_ok (pkt, frame)" and "\<not> is_data (pkt, frame)"
  shows "process_frame bld wr fc pkt frame =
     Inr (if classify (payload_of frame) = DXWIFI_CONTROL_FRAME_EOT then fc\<lparr>eot_reached := True\<rparr>
       else fc\<lparr>preamble_recv := True,
         end_capture := end_capture fc \<or> 0 < num_packets_processed (rx_stats fc)\<rparr>)"
  using assms
  by (cases "classify (payload_of frame)")
    (auto simp: process_frame_def check_frame_control_classify is_data_def Let_def)

lemma flush_step:
  assumes ready: "fc_ready k fc" and pend: "fc_pending fc = mset pend" and d: "distinct (map fst pend)"
  shows "\<exists>h st. dump_packet_buffer file_write fc = Inr (fc\<lparr>packet_heap := h, buf_index := 0,
       sink := sink fc @ flush_out (fc_rx fc) pend, rx_stats := st\<rparr>) \<and>
     heap_wf order_by_frame_number_desc h \<and> count h = 0 \<and> capacity h = capacity (packet_heap fc) \<and>
     num_packets_processed st = num_packets_processed (rx_stats fc) \<and>
     total_payload_size st = total_payload_size (rx_stats fc) \<and>
     total_caplen st = total_caplen (rx_stats fc) \<and>
     capture_state st = capture_state (rx_stats fc) \<and>
     total_writelen st = total_writelen (rx_stats fc) + of_nat (payload_total pend)"
proof (cases "pend = []")
  case True
  then have "count (packet_heap fc) = 0" "0 < length (tree (packet_heap fc))"
    "heap_wf order_by_frame_number_desc (packet_heap fc)"
    using ready pend by (auto simp: fc_ready_def fc_inv_def fc_pending_def heap_elems_empty_iff heap_wf_def)
  then show ?thesis using True
    by (intro exI[of _ "packet_heap fc"] exI[of _ "rx_stats fc"])
      (simp add: dump_packet_buffer_empty flush_out_def payload_total_def)
next
  case False
  then obtain vs h where dump: "dump_packet_buffer file_write fc = Inr ((flush_of fc vs)\<lparr>packet_heap := h\<rparr>)"
    and vs: "mset vs = fc_pending fc" "by_number vs"
    and h: "heap_wf order_by_frame_number_desc h" "count h = 0" "capacity h = capacity (packet_heap fc)"
    using dump_packet_buffer_file[OF _ _ fc_ready_good[OF ready]] ready pend by (auto simp: fc_ready_def)
  have "vs = sort_key (sint \<circ> fst) pend"
    using vs pend d by (intro sorted_values_unique) simp_all
  moreover have "payload_total vs = payload_total pend"
    using vs pend by (metis mset_map payload_total_def sum_mset_sum_list)
  ultimately show ?thesis
    using dump h
    by (intro exI[of _ h] exI[of _ "rx_stats (flush_of fc vs)"])
      (simp add: flush_of_def flushed_def flush_out_def Let_def)
qed

text \<open>
  The abstract receiver: pending frames in arrival order and the used bytes of the buffer. An
  input is a numbered payload with the length of the frame that carried it.
\<close>

fun buffered :: "dxwifi_receiver \<Rightarrow> nat \<Rightarrow> (u32 \<times> byte list) list \<Rightarrow> nat \<Rightarrow>
    ((u32 \<times> byte list) \<times> nat) list \<Rightarrow> byte list" where
  "buffered rx psz pend used [] = flush_out rx pend"
| "buffered rx psz pend used ((v, n) # inp) =
     (if psz \<le> used + n then flush_out rx pend @ buffered rx psz [v] n inp
      else buffered rx psz (pend @ [v]) (used + n) inp)"

lemma process_data:
  assumes ready: "fc_ready (shortfall (pkt, frame) + k) fc" and fits: "capture_fits (pb_size fc) (pkt, frame)"
    and data: "is_data (pkt, frame)"
    and pend: "fc_pending fc = mset pend" and d: "distinct (map fst pend)"
    and num: "good_number (number_for fc frame)"
  defines "v \<equiv> (number_for fc frame, payload_of frame)"
    and "full \<equiv> pb_size fc \<le> buf_index fc + length frame"
  shows "\<exists>fc'. process_frame bld file_write fc pkt frame = Inr fc' \<and> fc_ready k fc' \<and>
     fc_pending fc' = mset (if full then [v] else pend @ [v]) \<and>
     buf_index fc' = (if full then length frame else buf_index fc + length frame) \<and>
     sink fc' = (if full then sink fc @ flush_out (fc_rx fc) pend else sink fc) \<and>
     fc_rx fc' = fc_rx fc \<and> pb_size fc' = pb_size fc \<and> end_capture fc' = end_capture fc \<and>
     num_packets_processed (rx_stats fc') = num_packets_processed (rx_stats fc) + 1 \<and>
     capture_state (rx_stats fc') = capture_state (rx_stats fc)"
proof -
  have ok: "capture_ok (pkt, frame)" and small: "length frame \<le> pb_size fc"
    and ne: "payload_of frame \<noteq> []"
    using fits data by (simp_all add: capture_fits_def)
  have cap: "unat (caplen pkt) = length frame" using ok by (simp add: capture_ok_def)
  have check: "check_frame_control frame pkt DXWIFI_FRAME_CONTROL_CHECK_THRESHOLD =
      Inr DXWIFI_CONTROL_FRAME_NONE"
    using data ok by (simp add: check_frame_control_classify is_data_def)
  have store: "\<exists>fc'. store_frame fc0 pkt frame = Inr fc' \<and> fc_ready k fc' \<and>
      fc_pending fc' = add_mset v (fc_pending fc0) \<and> buf_index fc' = buf_index fc0 + length frame \<and>
      sink fc' = sink fc0 \<and> fc_rx fc' = fc_rx fc0 \<and> pb_size fc' = pb_size fc0 \<and>
      end_capture fc' = end_capture fc0 \<and>
      num_packets_processed (rx_stats fc') = num_packets_processed (rx_stats fc0) + 1 \<and>
      capture_state (rx_stats fc') = capture_state (rx_stats fc0)"
    if r0: "fc_ready (shortfall (pkt, frame) + k) fc0" and s0: "buf_index fc0 + length frame \<le> pb_size fc0"
      and n0: "number_for fc0 frame = number_for fc frame" for fc0
  proof -
    obtain fc' where run: "store_frame fc0 pkt frame = Inr fc'" and inv': "fc_inv fc'"
      and p': "fc_pending fc' = add_mset (number_for fc0 frame, payload_of frame) (fc_pending fc0)"
      and fc': "fc' = fc0\<lparr>packet_heap := packet_heap fc', packet_buffer := packet_buffer fc',
          buf_index := buf_index fc0 + length frame, rx_stats := rx_stats fc'\<rparr>"
      and cnt: "count (packet_heap fc') = Suc (count (packet_heap fc0))"
        "capacity (packet_heap fc') = capacity (packet_heap fc0)"
      and st: "num_packets_processed (rx_stats fc') = num_packets_processed (rx_stats fc0) + 1"
        "capture_state (rx_stats fc') = capture_state (rx_stats fc0)"
    proof -
      have "fc_inv fc0" using r0 by (simp add: fc_ready_def)
      moreover have "count (packet_heap fc0) < capacity (packet_heap fc0)"
        using fc_ready_room[OF r0 data] s0 by simp
      ultimately obtain fc' where
        a: "store_frame fc0 pkt frame = Inr fc'" "fc_inv fc'"
          "fc_pending fc' = add_mset (number_for fc0 frame, payload_of frame) (fc_pending fc0)"
          "count (packet_heap fc') = Suc (count (packet_heap fc0))"
          "capacity (packet_heap fc') = capacity (packet_heap fc0)"
        and b: "fc' = fc0\<lparr>packet_heap := packet_heap fc', packet_buffer := packet_buffer fc',
          buf_index := buf_index fc0 + length frame, rx_stats := (rx_stats fc0)\<lparr>
            total_caplen := total_caplen (rx_stats fc0) + caplen pkt,
            total_payload_size := total_payload_size (rx_stats fc0) + of_nat (length (payload_of frame)),
            num_packets_processed := num_packets_processed (rx_stats fc0) + 1, pkt_stats := pkt\<rparr>\<rparr>"
        using store_frame_ok[OF _ ok s0] by blast
      have st: "rx_stats fc' = (rx_stats fc0)\<lparr>
            total_caplen := total_caplen (rx_stats fc0) + caplen pkt,
            total_payload_size := total_payload_size (rx_stats fc0) + of_nat (length (payload_of frame)),
            num_packets_processed := num_packets_processed (rx_stats fc0) + 1, pkt_stats := pkt\<rparr>"
        by (subst b) simp
      show thesis
        by (rule that[OF a(1-3) _ a(4,5)]) (subst b, simp add: st, simp_all add: st)
    qed
    have fld: "buf_index fc' = buf_index fc0 + length frame" "sink fc' = sink fc0"
      "fc_rx fc' = fc_rx fc0" "pb_size fc' = pb_size fc0" "end_capture fc' = end_capture fc0"
      by (subst fc', simp)+
    have pv: "fc_pending fc' = add_mset v (fc_pending fc0)" using p' n0 by (simp add: v_def)
    have "good_number (fst v)" "snd v \<noteq> []" using num ne by (simp_all add: v_def)
    moreover have "fc_room k fc'"
      using r0 fld cnt data by (intro fc_room_step[of "(pkt, frame)" k fc0]) (simp_all add: fc_ready_def)
    ultimately have "fc_ready k fc'"
      using r0 inv' pv by (auto simp: fc_ready_def)
    then show ?thesis using run pv fld st by blast
  qed
  show ?thesis
  proof (cases full)
    case False
    then have le: "buf_index fc + length frame \<le> pb_size fc" by (simp add: full_def)
    show ?thesis
      using store[OF ready le refl] False check pend cap
      by (auto simp: process_frame_def full_def)
  next
    case True
    obtain h st where dump: "dump_packet_buffer file_write fc = Inr (fc\<lparr>packet_heap := h, buf_index := 0,
         sink := sink fc @ flush_out (fc_rx fc) pend, rx_stats := st\<rparr>)"
      and h: "heap_wf order_by_frame_number_desc h" "count h = 0" "capacity h = capacity (packet_heap fc)"
      and st: "num_packets_processed st = num_packets_processed (rx_stats fc)"
        "capture_state st = capture_state (rx_stats fc)"
      using flush_step[OF ready pend d] by blast
    let ?fc0 = "fc\<lparr>packet_heap := h, buf_index := 0,
         sink := sink fc @ flush_out (fc_rx fc) pend, rx_stats := st\<rparr>"
    have he: "heap_elems h = {#}" using h by (simp add: heap_elems_empty_iff)
    then have p0: "fc_pending ?fc0 = {#}" by (simp add: fc_pending_def)
    have "fc_room (shortfall (pkt, frame) + k) ?fc0"
      by (rule fc_room_empty[of _ fc]) (use ready h in \<open>simp_all add: fc_ready_def\<close>)
    then have r0: "fc_ready (shortfall (pkt, frame) + k) ?fc0"
      using ready h he by (simp add: fc_ready_def fc_inv_def fc_pending_def)
    have n0: "number_for ?fc0 frame = number_for fc frame" using st by (simp add: number_for_def)
    have s0: "buf_index ?fc0 + length frame \<le> pb_size ?fc0" using small by simp
    have "process_frame bld file_write fc pkt frame = store_frame ?fc0 pkt frame"
      using check True dump cap by (simp add: process_frame_def full_def)
    with store[OF r0 s0 n0] p0 True st show ?thesis by auto
  qed
qed

subsection \<open>A batch of frames\<close>

fun inputs :: "dxwifi_receiver \<Rightarrow> nat \<Rightarrow> capture list \<Rightarrow> ((u32 \<times> byte list) \<times> nat) list" where
  "inputs rx n [] = []"
| "inputs rx n (c # cs) =
     (if is_data c
      then (((if ordered rx then frame_number_of (snd c) else of_nat n), payload_of (snd c)),
            length (snd c)) # inputs rx (Suc n) cs
      else inputs rx n cs)"

definition data_count :: "capture list \<Rightarrow> nat" where
  "data_count cs = length (filter is_data cs)"

text \<open>A preamble that arrives after a data frame.\<close>

fun second_preamble :: "nat \<Rightarrow> capture list \<Rightarrow> bool" where
  "second_preamble n [] = False"
| "second_preamble n (c # cs) =
     (classify (payload_of (snd c)) = DXWIFI_CONTROL_FRAME_PREAMBLE \<and> 0 < n
      \<or> second_preamble (if is_data c then Suc n else n) cs)"

lemma data_count_simps [simp]:
  "data_count [] = 0"
  "data_count (c # cs) = (if is_data c then Suc (data_count cs) else data_count cs)"
  "data_count (cs @ ds) = data_count cs + data_count ds"
  by (simp_all add: data_count_def)

lemma inputs_append: "inputs rx n (cs @ ds) = inputs rx n cs @ inputs rx (n + data_count cs) ds"
  by (induction cs arbitrary: n) simp_all

lemma second_preamble_append:
  "second_preamble n (cs @ ds) \<longleftrightarrow> second_preamble n cs \<or> second_preamble (n + data_count cs) ds"
  by (induction cs arbitrary: n) simp_all

text \<open>
  The simulation. A concrete controller stands for \<open>n\<close> data frames received, of which \<open>pend\<close>
  wait in the buffer; \<open>rest\<close> are the inputs to come, all numbers of a session being distinct.
\<close>

definition numbers_ok :: "(u32 \<times> byte list) list \<Rightarrow> ((u32 \<times> byte list) \<times> nat) list \<Rightarrow> bool" where
  "numbers_ok pend inp \<longleftrightarrow> distinct (map fst (pend @ map fst inp)) \<and>
     (\<forall>i \<in> set inp. good_number (fst (fst i)))"

definition fc_abs :: "nat \<Rightarrow> nat \<Rightarrow> (u32 \<times> byte list) list \<Rightarrow> 's frame_controller \<Rightarrow> bool" where
  "fc_abs k n pend fc \<longleftrightarrow> fc_ready k fc \<and> fc_pending fc = mset pend \<and> n < 2 ^ 32 \<and>
     num_packets_processed (rx_stats fc) = of_nat n"

lemma fc_abs_positive:
  assumes "fc_abs k n pend fc"
  shows "0 < num_packets_processed (rx_stats fc) \<longleftrightarrow> 0 < n"
proof -
  have "unat (of_nat n :: u32) = n" using assms by (simp add: fc_abs_def unat_of_nat)
  then show ?thesis using assms by (simp add: fc_abs_def word_less_nat_alt)
qed

lemma dispatch_ok:
  assumes "fc_abs (shortfalls cs + k) n pend fc" and "\<forall>c \<in> set cs. capture_fits (pb_size fc) c"
    and "numbers_ok pend (inputs (fc_rx fc) n cs @ rest)" and "n + data_count cs < 2 ^ 32"
  shows "\<exists>fc' pend'. dispatch bld file_write fc cs = Inr fc' \<and>
     fc_abs k (n + data_count cs) pend' fc' \<and> numbers_ok pend' rest \<and>
     (\<forall>inp. sink fc @ buffered (fc_rx fc) (pb_size fc) pend (buf_index fc)
              (inputs (fc_rx fc) n cs @ inp) =
           sink fc' @ buffered (fc_rx fc) (pb_size fc) pend' (buf_index fc') inp) \<and>
     fc_rx fc' = fc_rx fc \<and> pb_size fc' = pb_size fc \<and>
     end_capture fc' = (end_capture fc \<or> second_preamble n cs) \<and>
     capture_state (rx_stats fc') = capture_state (rx_stats fc)"
  using assms
proof (induction cs arbitrary: n pend fc)
  case Nil
  then show ?case by (intro exI[of _ fc] exI[of _ pend]) simp
next
  case (Cons c cs)
  obtain pkt frame where c: "c = (pkt, frame)" by (cases c)
  have fits: "capture_fits (pb_size fc) (pkt, frame)" using Cons.prems(2) c by simp
  show ?case
  proof (cases "is_data c")
    case False
    let ?pre = "classify (payload_of frame) = DXWIFI_CONTROL_FRAME_PREAMBLE"
    define fc1 where "fc1 = (if ?pre then fc\<lparr>preamble_recv := True,
         end_capture := end_capture fc \<or> 0 < n\<rparr> else fc\<lparr>eot_reached := True\<rparr>)"
    have f: "fc_ready (shortfalls cs + k) fc1" "fc_pending fc1 = fc_pending fc" "rx_stats fc1 = rx_stats fc"
      "sink fc1 = sink fc" "fc_rx fc1 = fc_rx fc" "pb_size fc1 = pb_size fc"
      "buf_index fc1 = buf_index fc" "end_capture fc1 = (end_capture fc \<or> ?pre \<and> 0 < n)"
      using Cons.prems(1)
      by (auto simp: fc1_def fc_abs_def fc_ready_def fc_inv_def fc_pending_def fc_room_def shortfall_def False)
    have ne: "classify (payload_of frame) \<noteq> DXWIFI_CONTROL_FRAME_NONE"
      using False c by (simp add: is_data_def)
    have run: "process_frame bld file_write fc pkt frame = Inr fc1"
      using fits False c ne fc_abs_positive[OF Cons.prems(1)]
      by (cases "classify (payload_of frame)")
        (simp_all add: process_control capture_fits_def fc1_def)
    have "fc_abs (shortfalls cs + k) n pend fc1" using Cons.prems(1) f by (simp add: fc_abs_def)
    then have "\<exists>fc' pend'. dispatch bld file_write fc1 cs = Inr fc' \<and>
     fc_abs k (n + data_count cs) pend' fc' \<and> numbers_ok pend' rest \<and>
     (\<forall>inp. sink fc1 @ buffered (fc_rx fc1) (pb_size fc1) pend (buf_index fc1)
              (inputs (fc_rx fc1) n cs @ inp) =
           sink fc' @ buffered (fc_rx fc1) (pb_size fc1) pend' (buf_index fc') inp) \<and>
     fc_rx fc' = fc_rx fc1 \<and> pb_size fc' = pb_size fc1 \<and>
     end_capture fc' = (end_capture fc1 \<or> second_preamble n cs) \<and>
     capture_state (rx_stats fc') = capture_state (rx_stats fc1)"
      using Cons.prems False f by (intro Cons.IH) simp_all
    then show ?thesis using False c f run by simp
  next
    case True
    let ?v = "(number_for fc frame, payload_of frame)"
    let ?full = "pb_size fc \<le> buf_index fc + length frame"
    let ?pend = "if ?full then [?v] else pend @ [?v]"
    have vin: "inputs (fc_rx fc) n (c # cs) = (?v, length frame) # inputs (fc_rx fc) (Suc n) cs"
      using True Cons.prems(1) c by (simp add: number_for_def fc_abs_def)
    have data: "is_data (pkt, frame)" using True c by simp
    have ready: "fc_ready (shortfall (pkt, frame) + (shortfalls cs + k)) fc" and pend: "fc_pending fc = mset pend"
      using Cons.prems(1) c by (simp_all add: fc_abs_def add.assoc)
    have d: "distinct (map fst pend)" and num: "good_number (number_for fc frame)"
      using Cons.prems(3) unfolding vin by (simp_all add: numbers_ok_def)
    obtain fc1 where run: "process_frame bld file_write fc pkt frame = Inr fc1"
      and r1: "fc_ready (shortfalls cs + k) fc1" "fc_pending fc1 = mset ?pend"
      and f: "buf_index fc1 = (if ?full then length frame else buf_index fc + length frame)"
        "sink fc1 = (if ?full then sink fc @ flush_out (fc_rx fc) pend else sink fc)"
        "fc_rx fc1 = fc_rx fc" "pb_size fc1 = pb_size fc" "end_capture fc1 = end_capture fc"
        "num_packets_processed (rx_stats fc1) = num_packets_processed (rx_stats fc) + 1"
        "capture_state (rx_stats fc1) = capture_state (rx_stats fc)"
      using process_data[OF ready fits data pend d num, of bld] by blast
    have abs1: "fc_abs (shortfalls cs + k) (Suc n) ?pend fc1"
      using r1 f Cons.prems(1,4) True by (simp add: fc_abs_def)
    have "numbers_ok ?pend (inputs (fc_rx fc1) (Suc n) cs @ rest)"
      using Cons.prems(3) f unfolding vin by (auto simp: numbers_ok_def)
    then obtain fc' pend' where IH: "dispatch bld file_write fc1 cs = Inr fc'"
      "fc_abs k (Suc n + data_count cs) pend' fc'" "numbers_ok pend' rest"
      "\<forall>inp. sink fc1 @ buffered (fc_rx fc1) (pb_size fc1) ?pend (buf_index fc1)
              (inputs (fc_rx fc1) (Suc n) cs @ inp) =
           sink fc' @ buffered (fc_rx fc1) (pb_size fc1) pend' (buf_index fc') inp"
      "fc_rx fc' = fc_rx fc1 \<and> pb_size fc' = pb_size fc1 \<and>
       end_capture fc' = (end_capture fc1 \<or> second_preamble (Suc n) cs) \<and>
       capture_state (rx_stats fc') = capture_state (rx_stats fc1)"
      using Cons.IH[OF abs1] Cons.prems f True by auto
    have pre: "classify (payload_of (snd c)) \<noteq> DXWIFI_CONTROL_FRAME_PREAMBLE"
      using True by (simp add: is_data_def)
    have out: "sink fc @ buffered (fc_rx fc) (pb_size fc) pend (buf_index fc)
              (inputs (fc_rx fc) n (c # cs) @ inp) =
           sink fc' @ buffered (fc_rx fc) (pb_size fc) pend' (buf_index fc') inp" for inp
      using IH(4)[rule_format, of inp] f unfolding vin by (cases ?full) simp_all
    show ?thesis
      by (intro exI[of _ fc'] exI[of _ pend'] conjI allI)
        (use run IH f True c pre out in simp_all)
  qed
qed

subsection \<open>A capture session\<close>

definition turn_captures :: "rx_event \<Rightarrow> capture list" where
  "turn_captures e = (if 0 < rx_poll e then rx_packets e else [])"

definition turn_stops :: "build \<Rightarrow> rx_event \<Rightarrow> bool" where
  "turn_stops bld e \<longleftrightarrow> rx_stop_poll e \<or> rx_stop_after e \<or> rx_poll e = 0 \<or>
     0 < rx_poll e \<and> dxwifi_tests bld \<and> rx_dispatch e = 0"

text \<open>The captures of a session up to its end; \<open>None\<close> when it does not end.\<close>

fun session :: "build \<Rightarrow> nat \<Rightarrow> rx_event list \<Rightarrow> capture list option" where
  "session bld n [] = None"
| "session bld n (e # es) =
     (let cs = turn_captures e in
      if turn_stops bld e \<or> second_preamble n cs then Some cs
      else map_option ((@) cs) (session bld (n + data_count cs) es))"

lemma session_ends:
  "\<exists>e \<in> set es. turn_stops bld e \<Longrightarrow> \<exists>cs. session bld n es = Some cs"
  by (induction es arbitrary: n) (auto simp: Let_def)

lemma missing_before_activated [simp]:
  "missing_before (rx\<lparr>rx_activated := b\<rparr>) = missing_before rx"
  by (simp add: missing_before_def fun_eq_iff)

lemma noise_before_activated [simp]:
  "noise_before (rx\<lparr>rx_activated := b\<rparr>) = noise_before rx"
  by (simp add: noise_before_def fun_eq_iff)

lemma render_activated [simp]: "render (rx\<lparr>rx_activated := b\<rparr>) ex vs = render rx ex vs"
  by (induction vs arbitrary: ex) simp_all

lemma flush_out_activated [simp]: "flush_out (rx\<lparr>rx_activated := b\<rparr>) vs = flush_out rx vs"
  by (simp add: flush_out_def)

lemma buffered_activated [simp]:
  "buffered (rx\<lparr>rx_activated := b\<rparr>) psz pend used inp = buffered rx psz pend used inp"
  by (induction rx psz pend used inp rule: buffered.induct) simp_all

lemma inputs_activated [simp]: "inputs (rx\<lparr>rx_activated := b\<rparr>) n cs = inputs rx n cs"
  by (induction cs arbitrary: n) simp_all

lemma fc_abs_cong [simp]:
  "fc_abs k n pend (fc\<lparr>fc_rx := rx\<rparr>) = fc_abs k n pend fc"
  "fc_abs k n pend (set_capture_state s fc) = fc_abs k n pend fc"
  by (simp_all add: fc_abs_def fc_ready_def fc_inv_def fc_pending_def fc_room_def set_capture_state_def)

lemma set_capture_state_sel [simp]:
  "sink (set_capture_state s fc) = sink fc" "fc_rx (set_capture_state s fc) = fc_rx fc"
  "pb_size (set_capture_state s fc) = pb_size fc" "buf_index (set_capture_state s fc) = buf_index fc"
  "end_capture (set_capture_state s fc) = end_capture fc"
  by (simp_all add: set_capture_state_def)

lemma rx_turn_ok:
  assumes abs: "fc_abs (shortfalls (turn_captures e) + k) n pend fc" and fits: "\<forall>c \<in> set (turn_captures e). capture_fits (pb_size fc) c"
    and num: "numbers_ok pend (inputs (fc_rx fc) n (turn_captures e) @ rest)"
    and small: "n + data_count (turn_captures e) < 2 ^ 32"
    and act: "rx_activated (fc_rx fc)" "\<not> end_capture fc"
  shows "\<exists>fc' pend'. rx_turn bld file_write fc e = Inr fc' \<and>
     fc_abs k (n + data_count (turn_captures e)) pend' fc' \<and> numbers_ok pend' rest \<and>
     (\<forall>inp. sink fc @ buffered (fc_rx fc) (pb_size fc) pend (buf_index fc)
              (inputs (fc_rx fc) n (turn_captures e) @ inp) =
           sink fc' @ buffered (fc_rx fc) (pb_size fc) pend' (buf_index fc') inp) \<and>
     fc_rx fc' = (fc_rx fc)\<lparr>rx_activated := \<not> turn_stops bld e\<rparr> \<and> pb_size fc' = pb_size fc \<and>
     end_capture fc' = second_preamble n (turn_captures e)"
proof (cases "0 < rx_poll e")
  case False
  have self: "(fc_rx fc)\<lparr>rx_activated := True\<rparr> = fc_rx fc" using act(1) by simp
  from False show ?thesis using assms
    by (cases "rx_poll e = 0"; cases "rx_stop_poll e"; cases "rx_stop_after e")
      (auto simp: rx_turn_def turn_captures_def rx_signal_stop_def receiver_stop_capture_def
        turn_stops_def Let_def self)
next
  case True
  let ?b = "rx_stop_poll e"
  define fc0 where "fc0 = rx_signal_stop ?b fc"
  have fc0: "fc_rx fc0 = (fc_rx fc)\<lparr>rx_activated := \<not> ?b\<rparr>" "sink fc0 = sink fc"
    "pb_size fc0 = pb_size fc" "buf_index fc0 = buf_index fc" "end_capture fc0 = end_capture fc"
    "fc_abs (shortfalls (turn_captures e) + k) n pend fc0"
    using abs act by (simp_all add: fc0_def rx_signal_stop_def receiver_stop_capture_def)
  have tc: "turn_captures e = rx_packets e" using True by (simp add: turn_captures_def)
  obtain fc1 pend' where run: "dispatch bld file_write fc0 (rx_packets e) = Inr fc1"
    and a1: "fc_abs k (n + data_count (rx_packets e)) pend' fc1" "numbers_ok pend' rest"
    and out: "\<forall>inp. sink fc0 @ buffered (fc_rx fc0) (pb_size fc0) pend (buf_index fc0)
              (inputs (fc_rx fc0) n (rx_packets e) @ inp) =
           sink fc1 @ buffered (fc_rx fc0) (pb_size fc0) pend' (buf_index fc1) inp"
    and f1: "fc_rx fc1 = fc_rx fc0" "pb_size fc1 = pb_size fc0"
       "end_capture fc1 = (end_capture fc0 \<or> second_preamble n (rx_packets e))"
    using dispatch_ok[OF fc0(6), where rest = rest and bld = bld] fits num small fc0(1,3) tc by auto
  show ?thesis
    unfolding tc rx_turn_def fc0_def[symmetric] Let_def using True run a1 out f1 fc0 act
    by (auto simp: rx_signal_stop_def receiver_stop_capture_def turn_stops_def
        intro!: exI[of _ pend'])
qed

lemma rx_loop_ok:
  assumes "session bld n es = Some cs" and "fc_abs (shortfalls cs + k) n pend fc"
    and "\<forall>c \<in> set cs. capture_fits (pb_size fc) c" and "numbers_ok pend (inputs (fc_rx fc) n cs)"
    and "n + data_count cs < 2 ^ 32" and "rx_activated (fc_rx fc)" and "\<not> end_capture fc"
  shows "\<exists>fc' pend' b. rx_loop bld file_write fc es = Some (Inr fc') \<and>
     fc_abs k (n + data_count cs) pend' fc' \<and> distinct (map fst pend') \<and>
     sink fc @ buffered (fc_rx fc) (pb_size fc) pend (buf_index fc) (inputs (fc_rx fc) n cs) =
       sink fc' @ flush_out (fc_rx fc) pend' \<and>
     fc_rx fc' = (fc_rx fc)\<lparr>rx_activated := b\<rparr> \<and> pb_size fc' = pb_size fc"
  using assms
proof (induction es arbitrary: n cs pend fc)
  case (Cons e es)
  let ?cs = "turn_captures e"
  define stop where "stop \<longleftrightarrow> turn_stops bld e \<or> second_preamble n ?cs"
  obtain ds where cs: "cs = ?cs @ ds"
    and ds: "if stop then ds = [] else session bld (n + data_count ?cs) es = Some ds"
    using Cons.prems(1) by (cases stop) (auto simp: stop_def Let_def)
  have fits: "\<forall>c \<in> set ?cs. capture_fits (pb_size fc) c" using Cons.prems(3) cs by simp
  have num: "numbers_ok pend (inputs (fc_rx fc) n ?cs @ inputs (fc_rx fc) (n + data_count ?cs) ds)"
    using Cons.prems(4) cs by (simp add: inputs_append)
  have small: "n + data_count ?cs < 2 ^ 32" using Cons.prems(5) cs by simp
  have abs: "fc_abs (shortfalls ?cs + (shortfalls ds + k)) n pend fc"
    using Cons.prems(2) cs by (simp add: add.assoc)
  obtain fc1 pend1 where turn: "rx_turn bld file_write fc e = Inr fc1"
    and a1: "fc_abs (shortfalls ds + k) (n + data_count ?cs) pend1 fc1"
      "numbers_ok pend1 (inputs (fc_rx fc) (n + data_count ?cs) ds)"
    and out: "\<forall>inp. sink fc @ buffered (fc_rx fc) (pb_size fc) pend (buf_index fc)
              (inputs (fc_rx fc) n ?cs @ inp) =
           sink fc1 @ buffered (fc_rx fc) (pb_size fc) pend1 (buf_index fc1) inp"
    and f1: "fc_rx fc1 = (fc_rx fc)\<lparr>rx_activated := \<not> turn_stops bld e\<rparr>"
      "pb_size fc1 = pb_size fc" "end_capture fc1 = second_preamble n ?cs"
    using rx_turn_ok[OF abs fits num small Cons.prems(6,7)] by blast
  have step: "rx_loop bld file_write fc (e # es) = rx_loop bld file_write fc1 es"
    using Cons.prems(6,7) turn by (simp add: rx_loop.simps[of _ _ fc])
  show ?case
  proof (cases stop)
    case True
    then have "rx_loop bld file_write fc1 es = Some (Inr fc1)"
      using f1 by (auto simp: rx_loop.simps[of _ _ fc1] stop_def)
    moreover have "distinct (map fst pend1)" using a1(2) by (simp add: numbers_ok_def)
    ultimately show ?thesis
      using step True cs ds a1 f1 out[rule_format, of "[]"]
      by (intro exI[of _ fc1] exI[of _ pend1] exI[of _ "\<not> turn_stops bld e"]) simp
  next
    case False
    then have ses: "session bld (n + data_count ?cs) es = Some ds" using ds by simp
    have "\<not> turn_stops bld e" using False by (simp add: stop_def)
    then have same: "fc_rx fc1 = fc_rx fc" using f1(1) Cons.prems(6) by simp
    have "\<exists>fc' pend' b. rx_loop bld file_write fc1 es = Some (Inr fc') \<and>
     fc_abs k (n + data_count ?cs + data_count ds) pend' fc' \<and> distinct (map fst pend') \<and>
     sink fc1 @ buffered (fc_rx fc1) (pb_size fc1) pend1 (buf_index fc1)
         (inputs (fc_rx fc1) (n + data_count ?cs) ds) =
       sink fc' @ flush_out (fc_rx fc1) pend' \<and>
     fc_rx fc' = (fc_rx fc1)\<lparr>rx_activated := b\<rparr> \<and> pb_size fc' = pb_size fc1"
      using Cons.prems False f1 a1 same cs ses by (intro Cons.IH) (simp_all add: stop_def)
    then show ?thesis
      using step cs same f1 out[rule_format, of "inputs (fc_rx fc) (n + data_count ?cs) ds"]
      by (simp add: inputs_append add.assoc)
  qed
qed simp

text \<open>
  Every session that ends writes what the abstract receiver writes: the frames of each buffer
  load in the order of their numbers, one load after the other.
\<close>

text \<open>The buffer with what its frames may be short of leaves room in the heap.\<close>

definition session_fits :: "dxwifi_receiver \<Rightarrow> capture list \<Rightarrow> bool" where
  "session_fits rx cs \<longleftrightarrow> (\<forall>c \<in> set cs. capture_fits (packet_buffer_size rx) c) \<and>
     packet_buffer_size rx + shortfalls cs < DXWIFI_BLOCK_SIZE_MIN * Suc DXWIFI_RX_PACKET_HEAP_CAPACITY"

definition config_ok :: "dxwifi_receiver \<Rightarrow> bool" where
  "config_ok rx \<longleftrightarrow> packet_buffer_size rx \<le> DXWIFI_RX_PACKET_BUFFER_SIZE_MAX"

lemma init_controller_abs:
  assumes "packet_buffer_size rx + k < DXWIFI_BLOCK_SIZE_MIN * Suc DXWIFI_RX_PACKET_HEAP_CAPACITY"
  shows "fc_abs k 0 [] (init_frame_controller rx out)"
proof -
  have "0 < DXWIFI_RX_PACKET_HEAP_CAPACITY" by (simp add: rx_size_defs wire_defs)
  then show ?thesis
    using assms by (simp add: fc_abs_def fc_ready_def fc_inv_def fc_pending_def fc_room_def
        init_frame_controller_def zero_rx_stats_def)
qed

lemma receiver_session:
  assumes "0 \<le> selectable_fd" and "session bld 0 es = Some cs" and "session_fits rx cs"
    and "numbers_ok [] (inputs rx 0 cs)" and "data_count cs < 2 ^ 32"
  shows "\<exists>rx' st. receiver_activate_capture bld file_write selectable_fd ps rx out es =
     Some (Inr (rx', out @ buffered rx (packet_buffer_size rx) [] 0 (inputs rx 0 cs), st)) \<and>
     num_packets_processed st = of_nat (data_count cs)"
proof -
  define fc where "fc = (init_frame_controller rx out)\<lparr>fc_rx := rx\<lparr>rx_activated := True\<rparr>\<rparr>"
  have f: "fc_rx fc = rx\<lparr>rx_activated := True\<rparr>" "sink fc = out" "buf_index fc = 0"
    "pb_size fc = packet_buffer_size rx" "\<not> end_capture fc"
    by (simp_all add: fc_def init_frame_controller_def)
  have "packet_buffer_size rx + (shortfalls cs + 0) < DXWIFI_BLOCK_SIZE_MIN * Suc DXWIFI_RX_PACKET_HEAP_CAPACITY"
    using assms(3) by (simp add: session_fits_def)
  then have abs: "fc_abs (shortfalls cs + 0) 0 [] fc"
    using init_controller_abs[of rx "shortfalls cs + 0" out] unfolding fc_def by simp
  obtain fc' pend' b where run: "rx_loop bld file_write fc es = Some (Inr fc')"
    and a: "fc_abs 0 (data_count cs) pend' fc'" "distinct (map fst pend')"
    and out: "out @ buffered rx (packet_buffer_size rx) [] 0 (inputs rx 0 cs) =
       sink fc' @ flush_out rx pend'"
    and f': "fc_rx fc' = rx\<lparr>rx_activated := b\<rparr>" "pb_size fc' = packet_buffer_size rx"
    using rx_loop_ok[OF assms(2) abs] assms f by (auto simp: session_fits_def)
  have "fc_ready 0 fc'" "fc_pending fc' = mset pend'" using a by (simp_all add: fc_abs_def)
  then obtain h st where dump: "dump_packet_buffer file_write fc' = Inr (fc'\<lparr>packet_heap := h,
      buf_index := 0, sink := sink fc' @ flush_out (fc_rx fc') pend', rx_stats := st\<rparr>)"
    and st: "num_packets_processed st = num_packets_processed (rx_stats fc')"
    using flush_step[OF _ _ a(2)] by blast
  have start: "receiver_activate_capture bld file_write selectable_fd ps rx out es =
      map_option (\<lambda>r. bind_res r (rx_finish file_write ps)) (rx_loop bld file_write fc es)"
    using assms(1) by (simp add: receiver_activate_capture_def fc_def init_frame_controller_def Let_def)
  show ?thesis
    using a st f' unfolding start run
    by (cases ps) (simp_all add: rx_finish_def dump out teardown_frame_controller_def fc_abs_def)
qed

text \<open>With frames of the minimal size, or one short frame, any accepted buffer size leaves room.\<close>

lemma session_fits_config:
  assumes "config_ok rx" and "\<forall>c \<in> set cs. capture_fits (packet_buffer_size rx) c" and "shortfalls cs \<le> 256"
  shows "session_fits rx cs"
  using assms by (simp add: session_fits_def config_ok_def rx_size_defs wire_defs)

subsection \<open>Unordered sessions\<close>

lemma render_unordered: "\<not> ordered rx \<Longrightarrow> render rx ex vs = concat (map snd vs)"
  by (induction rx ex vs rule: render.induct) (simp_all add: noise_before_def missing_before_def)

definition data_payloads :: "capture list \<Rightarrow> byte list list" where
  "data_payloads cs = map (payload_of \<circ> snd) (filter is_data cs)"

lemma data_payloads_simps [simp]:
  "data_payloads [] = []"
  "data_payloads (c # cs) = (if is_data c then [payload_of (snd c)] else []) @ data_payloads cs"
  by (simp_all add: data_payloads_def)

lemma sint_of_nat: "n < 2 ^ 31 \<Longrightarrow> sint (of_nat n :: u32) = int n"
  by (simp add: signed_of_nat signed_take_bit_int_eq_self)

lemma flush_out_unordered:
  "\<not> ordered rx \<Longrightarrow> by_number pend \<Longrightarrow> flush_out rx pend = concat (map snd pend)"
  by (simp add: flush_out_def render_unordered by_number_def sort_key_id_if_sorted)

lemma buffered_unordered:
  assumes "\<not> ordered rx" and "by_number pend" and "\<forall>v \<in> set pend. sint (fst v) < int n"
    and "n + data_count cs < 2 ^ 31"
  shows "buffered rx psz pend used (inputs rx n cs) = concat (map snd pend) @ concat (data_payloads cs)"
  using assms
proof (induction cs arbitrary: pend n used)
  case Nil
  then show ?case by (simp add: flush_out_unordered)
next
  case (Cons c cs)
  show ?case
  proof (cases "is_data c")
    case True
    let ?v = "(of_nat n :: u32, payload_of (snd c))"
    have sn: "sint (of_nat n :: u32) = int n" using Cons.prems(4) True by (intro sint_of_nat) simp
    have b1: "by_number [?v]" "by_number (pend @ [?v])"
      using Cons.prems(2,3) sn by (auto simp: by_number_def sorted_append intro: less_imp_le)
    have lt: "\<forall>v \<in> set [?v]. sint (fst v) < int (Suc n)" "\<forall>v \<in> set (pend @ [?v]). sint (fst v) < int (Suc n)"
      using Cons.prems(3) sn by (auto intro: less_trans)
    show ?thesis
      using Cons.IH[OF Cons.prems(1) b1(1) lt(1)] Cons.IH[OF Cons.prems(1) b1(2) lt(2)] Cons.prems True
      by (simp add: flush_out_unordered)
  qed (use Cons in simp)
qed

lemma inputs_unordered_numbers:
  "\<not> ordered rx \<Longrightarrow> map (fst \<circ> fst) (inputs rx n cs) = map of_nat [n ..< n + data_count cs]"
  by (induction cs arbitrary: n) (simp_all add: upt_conv_Cons del: upt_Suc)

lemma numbers_ok_unordered:
  assumes "\<not> ordered rx" and "data_count cs < 2 ^ 31"
  shows "numbers_ok [] (inputs rx 0 cs)"
proof -
  have m: "map (fst \<circ> fst) (inputs rx 0 cs) = map of_nat [0 ..< data_count cs]"
    using inputs_unordered_numbers[OF assms(1), of 0] by simp
  have "inj_on (of_nat :: nat \<Rightarrow> u32) {0 ..< data_count cs}"
    using assms(2) by (intro inj_onI) (metis atLeastLessThan_iff less_trans of_nat_eq_iff sint_of_nat)
  then have "distinct (map (fst \<circ> fst) (inputs rx 0 cs))" unfolding m by (simp add: distinct_map)
  moreover have "good_number (fst (fst i))" if "i \<in> set (inputs rx 0 cs)" for i
  proof -
    have "fst (fst i) \<in> set (map (fst \<circ> fst) (inputs rx 0 cs))" using that by force
    then obtain k where "k < data_count cs" "fst (fst i) = of_nat k" unfolding m by auto
    then show ?thesis using assms(2) by (simp add: good_number_def sint_of_nat INT_MAX_def)
  qed
  ultimately show ?thesis by (simp add: numbers_ok_def comp_def)
qed

subsection \<open>Ordered sessions that fit in one buffer\<close>

lemma buffered_one_load:
  "used + sum_list (map snd inp) < psz \<Longrightarrow>
   buffered rx psz pend used inp = flush_out rx (pend @ map fst inp)"
  by (induction inp arbitrary: pend used) auto

text \<open>Blocks \<open>k, k + 1, \<dots>\<close>, some of them lost.\<close>

fun numbered_blocks :: "nat \<Rightarrow> byte list option list \<Rightarrow> (u32 \<times> byte list) list" where
  "numbered_blocks k [] = []"
| "numbered_blocks k (b # bs) =
     (case b of None \<Rightarrow> [] | Some p \<Rightarrow> [(of_nat k, p)]) @ numbered_blocks (Suc k) bs"

lemma numbered_blocks_range:
  "v \<in> set (numbered_blocks k bs) \<Longrightarrow> \<exists>i \<ge> k. i < k + length bs \<and> fst v = of_nat i"
proof (induction bs arbitrary: k)
  case (Cons b bs)
  then consider "fst v = of_nat k" | "v \<in> set (numbered_blocks (Suc k) bs)"
    by (auto split: option.splits)
  then show ?case
  proof cases
    case 2
    then show ?thesis using Cons.IH[of "Suc k"] by (auto intro: Suc_leD)
  qed auto
qed simp

lemma numbered_blocks_sorted:
  "k + length bs < 2 ^ 31 \<Longrightarrow>
   by_number (numbered_blocks k bs) \<and> distinct (map fst (numbered_blocks k bs)) \<and>
   (\<forall>v \<in> set (numbered_blocks k bs). good_number (fst v))"
proof (induction bs arbitrary: k)
  case (Cons b bs)
  have r: "int (Suc k) \<le> sint (fst v) \<and> sint (fst v) < INT_MAX"
    if "v \<in> set (numbered_blocks (Suc k) bs)" for v
    using numbered_blocks_range[OF that] Cons.prems by (auto simp: sint_of_nat INT_MAX_def)
  have sk: "sint (of_nat k :: u32) = int k" using Cons.prems by (intro sint_of_nat) simp
  have "fst v \<noteq> of_nat k" if "v \<in> set (numbered_blocks (Suc k) bs)" for v
    using r[OF that] sk by auto
  with Cons r sk show ?case
    by (cases b) (force simp: by_number_def good_number_def INT_MAX_def)+
qed (simp add: by_number_def)

lemma concat_replicate2: "concat (replicate a (replicate b x)) = replicate (a * b) x"
  by (induction a) (simp_all add: replicate_add)

text \<open>
  The code fills a gap with noise blocks of the size of the frame that follows the gap. This is the
  size \<open>n\<close> of the lost blocks when every block behind a gap has it.
\<close>

fun gaps_sized :: "nat \<Rightarrow> bool \<Rightarrow> byte list option list \<Rightarrow> bool" where
  "gaps_sized n g [] \<longleftrightarrow> \<not> g"
| "gaps_sized n g (None # bs) \<longleftrightarrow> gaps_sized n True bs"
| "gaps_sized n g (Some p # bs) \<longleftrightarrow> (g \<longrightarrow> length p = n) \<and> gaps_sized n False bs"

lemma render_blocks:
  assumes "ordered rx" and "add_noise rx" and "j \<le> k" and "k + length bs < 2 ^ 31"
    and "gaps_sized n (j < k) bs"
  shows "render rx (of_nat j) (numbered_blocks k bs) =
     replicate ((k - j) * n) (noise_value rx) @
     concat (map (\<lambda>b. case b of None \<Rightarrow> replicate n (noise_value rx) | Some p \<Rightarrow> p) bs)"
  using assms
proof (induction bs arbitrary: j k)
  case (Cons b bs)
  show ?case
  proof (cases b)
    case None
    have "(Suc k - j) * n = (k - j) * n + n" using Cons.prems(3) by (simp add: Suc_diff_le)
    moreover have "j < Suc k" using Cons.prems(3) by simp
    ultimately show ?thesis
      using None Cons.IH[of j "Suc k"] Cons.prems by (simp add: replicate_add)
  next
    case (Some p)
    have "sint (of_nat k :: u32) - sint (of_nat j :: u32) = int (k - j)"
      using Cons.prems(3,4) by (simp add: sint_of_nat of_nat_diff)
    moreover have "nat (int k - int j) = k - j" by simp
    ultimately have nb: "noise_before rx (of_nat j) (of_nat k, p) = replicate ((k - j) * n) (noise_value rx)"
      using Cons.prems(1,2,3,5) Some
      by (cases "j < k") (simp_all add: noise_before_def missing_before_def concat_replicate2)
    have "of_nat (Suc k) = (of_nat k + 1 :: u32)" by simp
    then have "render rx (of_nat k + 1) (numbered_blocks (Suc k) bs) =
        concat (map (\<lambda>b. case b of None \<Rightarrow> replicate n (noise_value rx) | Some p \<Rightarrow> p) bs)"
      using Cons.IH[of "Suc k" "Suc k"] Cons.prems Some by (auto simp: add.commute split: if_splits)
    then show ?thesis using Some nb by simp
  qed
qed simp

end
