(* ===== verification/ReceiverProperties.thy ===== *)
theory ReceiverProperties
  imports ReceiverSession
begin

text \<open>
  Concrete frames for examples, and the receiver's properties: control frames, data frames,
  whole sessions (unordered, ordered, with noise), termination, and the errors that the code
  does not guard against.
\<close>

unbundle bit_operations_syntax

subsection \<open>Concrete frames\<close>

text \<open>A captured frame put together from its parts; the radiotap length field is the header's own.\<close>

definition radio_frame :: "byte list \<Rightarrow> byte list \<Rightarrow> byte list \<Rightarrow> byte list \<Rightarrow> byte list" where
  "radio_frame rtap mac pl fcs = rtap @ mac @ pl @ fcs"

definition parts_ok :: "byte list \<Rightarrow> byte list \<Rightarrow> byte list \<Rightarrow> bool" where
  "parts_ok rtap mac fcs \<longleftrightarrow> 4 \<le> length rtap \<and> unat (le16_of (slice rtap 2 2)) = length rtap \<and>
     length mac = IEEE80211_HDR_SIZE \<and> length fcs = IEEE80211_FCS_SIZE"

lemma radio_frame_fields:
  assumes "parts_ok rtap mac fcs"
  shows "length (radio_frame rtap mac pl fcs) = length rtap + length pl + 28"
    and "rtap_len_of (radio_frame rtap mac pl fcs) = length rtap"
    and "payload_of (radio_frame rtap mac pl fcs) = pl"
    and "frame_number_of (radio_frame rtap mac pl fcs) = be32_of (slice mac 6 4)"
proof -
  have l: "4 \<le> length rtap" "length mac = 24" "length fcs = 4"
    using assms by (simp_all add: parts_ok_def wire_defs)
  show len: "length (radio_frame rtap mac pl fcs) = length rtap + length pl + 28"
    using l by (simp add: radio_frame_def)
  have "slice (radio_frame rtap mac pl fcs) 2 2 = slice rtap 2 2"
    unfolding radio_frame_def using l by (intro slice_append_left) simp
  then show r: "rtap_len_of (radio_frame rtap mac pl fcs) = length rtap"
    using assms by (simp add: rtap_len_of_def parts_ok_def)
  show "payload_of (radio_frame rtap mac pl fcs) = pl"
    unfolding payload_of_def r len
    using l by (simp add: radio_frame_def wire_defs slice_def)
  show "frame_number_of (radio_frame rtap mac pl fcs) = be32_of (slice mac 6 4)"
    unfolding frame_number_of_def r
    using l by (simp add: radio_frame_def slice_def)
qed

definition capture_of :: "byte list \<Rightarrow> capture" where
  "capture_of frame = (\<lparr>ts_sec = 0, ts_usec = 0, caplen = of_nat (length frame),
     pktlen = of_nat (length frame)\<rparr>, frame)"

lemma snd_capture_of [simp]: "snd (capture_of f) = f"
  by (simp add: capture_of_def)

lemma capture_of_ok:
  assumes "parts_ok rtap mac fcs" and "length rtap + length pl + 28 < 2 ^ 32"
  shows "capture_ok (capture_of (radio_frame rtap mac pl fcs))"
proof -
  have "unat (of_nat (length rtap + length pl + 28) :: u32) = length rtap + length pl + 28"
    using assms(2) by (simp only: unat_of_nat) simp
  then show ?thesis
    using radio_frame_fields[OF assms(1), of pl] assms(1)
    by (simp add: capture_ok_def capture_of_def parts_ok_def wire_defs)
qed

text \<open>The frames of the examples: an 8-byte radiotap header, as a capture device adds it.\<close>

definition rtap8 :: "byte list" where "rtap8 = [0, 0, 8, 0, 0, 0, 0, 0]"
definition numbered_mac :: "u32 \<Rightarrow> byte list" where
  "numbered_mac n = replicate 6 0 @ be32_bytes n @ replicate 14 0"

definition sample :: "u32 \<Rightarrow> byte list \<Rightarrow> capture" where
  "sample n pl = capture_of (radio_frame rtap8 (numbered_mac n) pl [0, 0, 0, 0])"

lemma parts_ok_sample: "parts_ok rtap8 (numbered_mac n) [0, 0, 0, 0]"
  by (simp add: parts_ok_def rtap8_def numbered_mac_def wire_defs slice_def le16_of_def)

lemma sample_fields:
  "length (snd (sample n pl)) = length pl + 36" "payload_of (snd (sample n pl)) = pl"
  "frame_number_of (snd (sample n pl)) = n"
proof -
  have "slice (numbered_mac n) 6 4 = be32_bytes n" by (simp add: numbered_mac_def slice_def)
  then show "length (snd (sample n pl)) = length pl + 36" "payload_of (snd (sample n pl)) = pl"
    "frame_number_of (snd (sample n pl)) = n"
    using parts_ok_sample[of n]
    by (simp_all add: sample_def radio_frame_fields rtap8_def)
qed

lemma sample_ok: "length pl < 100000 \<Longrightarrow> capture_ok (sample n pl)"
  unfolding sample_def by (intro capture_of_ok parts_ok_sample) (simp add: rtap8_def)

lemma sample_data: "length pl \<noteq> 256 \<Longrightarrow> is_data (sample n pl)"
  by (auto simp: is_data_def classify_def sample_fields wire_defs)

lemma sample_fits:
  "length pl \<noteq> 256 \<Longrightarrow> pl \<noteq> [] \<Longrightarrow> length pl + 36 \<le> psz \<Longrightarrow> length pl < 100000 \<Longrightarrow>
   capture_fits psz (sample n pl)"
  by (auto simp: capture_fits_def sample_ok sample_fields wire_defs)

definition sample_build :: build where
  "sample_build = \<lparr>dxwifi_tests = False, ndebug = False\<rparr>"

definition sample_rx :: "bool \<Rightarrow> bool \<Rightarrow> dxwifi_receiver" where
  "sample_rx ord noise = \<lparr>dispatch_count = 1, capture_timeout = 10, packet_buffer_size = 1500,
     ordered = ord, add_noise = noise, noise_value = 0x55, rx_filter = [], rx_optimize = True,
     rx_snaplen = 65535, rx_pb_timeout = 0, rx_activated = False\<rparr>"

definition sample_fc :: "byte list frame_controller" where
  "sample_fc = init_frame_controller (sample_rx True True) []"

lemma sample_config [simp]: "config_ok (sample_rx ord noise)"
  by (simp add: config_ok_def sample_rx_def rx_size_defs)

lemma sample_fc_sel [simp]:
  "pb_size sample_fc = 1500" "fc_rx sample_fc = sample_rx True True" "buf_index sample_fc = 0"
  "end_capture sample_fc = False" "sink sample_fc = []" "num_packets_processed (rx_stats sample_fc) = 0"
  by (simp_all add: sample_fc_def init_frame_controller_def sample_rx_def zero_rx_stats_def)

lemma sample_rx_sel [simp]:
  "ordered (sample_rx ord noise) = ord" "add_noise (sample_rx ord noise) = noise"
  "packet_buffer_size (sample_rx ord noise) = 1500" "noise_value (sample_rx ord noise) = 0x55"
  by (simp_all add: sample_rx_def)

lemma sample_fc_abs: "k < 1000 \<Longrightarrow> fc_abs k 0 [] sample_fc"
  unfolding sample_fc_def by (rule init_controller_abs) (simp add: sample_rx_def rx_size_defs wire_defs)

lemma sample_shortfall [simp]: "length pl \<noteq> 256 \<Longrightarrow> shortfall (sample n pl) = 221 - length pl"
  by (simp add: shortfall_def sample_data sample_fields wire_defs)

lemma sample_session_fits:
  "\<forall>c \<in> set cs. capture_fits 1500 c \<Longrightarrow> shortfalls cs \<le> 256 \<Longrightarrow> session_fits (sample_rx ord noise) cs"
  by (simp add: session_fits_config)

lemma number_for_sample [simp]: "number_for sample_fc (snd (sample n pl)) = n"
  by (simp add: number_for_def sample_fields)

definition sample_turn :: "int \<Rightarrow> capture list \<Rightarrow> rx_event" where
  "sample_turn poll cs = \<lparr>rx_stop_poll = False, rx_poll = poll, rx_packets = cs,
     rx_dispatch = int (length cs), rx_stop_after = False\<rparr>"

section \<open>Properties\<close>

text \<open>
  C29: A capture is taken for an end-of-transmission frame exactly when its payload is 256
  bytes 0xaa, and for a preamble exactly when it is 256 bytes 0xff. The intended threshold of
  three quarters has no effect, because the ratio it is compared with is an integer division.
\<close>

theorem control_frame_detection:
  assumes "capture_ok (pkt, frame)"
  shows "\<exists>t. check_frame_control frame pkt DXWIFI_FRAME_CONTROL_CHECK_THRESHOLD = Inr t \<and>
     (t = DXWIFI_CONTROL_FRAME_EOT \<longleftrightarrow> payload_of frame = replicate 256 0xaa) \<and>
     (t = DXWIFI_CONTROL_FRAME_PREAMBLE \<longleftrightarrow> payload_of frame = replicate 256 0xff)"
proof -
  have "replicate 256 (0xaa :: byte) \<noteq> replicate 256 0xff" by (simp add: replicate_eq_replicate)
  then show ?thesis
    using check_frame_control_classify[OF assms]
    by (simp add: classify_def DXWIFI_FRAME_CONTROL_DATA_SIZE_def)
qed

theorem control_frame_detection_witness:
  "\<exists>t. check_frame_control (snd (sample 0 (replicate 255 0xaa @ [0]))) (fst (sample 0 (replicate 255 0xaa @ [0])))
      DXWIFI_FRAME_CONTROL_CHECK_THRESHOLD = Inr t \<and>
     (t = DXWIFI_CONTROL_FRAME_EOT \<longleftrightarrow>
       payload_of (snd (sample 0 (replicate 255 0xaa @ [0]))) = replicate 256 0xaa) \<and>
     (t = DXWIFI_CONTROL_FRAME_PREAMBLE \<longleftrightarrow>
       payload_of (snd (sample 0 (replicate 255 0xaa @ [0]))) = replicate 256 0xff)"
  by (rule control_frame_detection) (simp add: sample_ok)

text \<open>
  A preamble marks the capture as started and ends it when a data frame has been
  processed; an end-of-transmission frame only sets its flag and never ends the capture. Neither
  touches the buffer, the heap, the statistics or the output.
\<close>

theorem control_frame_effect:
  assumes "capture_ok (pkt, frame)" and "\<not> is_data (pkt, frame)"
  shows "process_frame bld wr fc pkt frame =
     Inr (if payload_of frame = replicate 256 0xaa then fc\<lparr>eot_reached := True\<rparr>
       else fc\<lparr>preamble_recv := True,
         end_capture := end_capture fc \<or> 0 < num_packets_processed (rx_stats fc)\<rparr>)"
  using process_control[OF assms, of bld wr fc]
  by (simp add: classify_def DXWIFI_FRAME_CONTROL_DATA_SIZE_def split: if_splits)

theorem control_frame_effect_witness:
  "process_frame sample_build file_write sample_fc (fst (sample 0 (replicate 256 0xaa)))
      (snd (sample 0 (replicate 256 0xaa))) = Inr (sample_fc\<lparr>eot_reached := True\<rparr>)"
  using control_frame_effect[of "fst (sample 0 (replicate 256 0xaa))"
      "snd (sample 0 (replicate 256 0xaa))" sample_build file_write sample_fc]
  by (simp add: sample_ok is_data_def sample_fields classify_def DXWIFI_FRAME_CONTROL_DATA_SIZE_def)

text \<open>
  C30: A data frame that fits is copied behind the buffered ones and queued under its number;
  one that does not first flushes the buffer: every pending payload is written, in number order,
  before the frame is stored at the start of the buffer. The buffer's invariant is preserved,
  with what the frame falls short of the minimal size taken from the room that is left in the heap.
\<close>

theorem data_frame_effect:
  assumes "fc_ready (shortfall (pkt, frame) + d) fc" and "capture_fits (pb_size fc) (pkt, frame)"
    and "is_data (pkt, frame)" and "fc_pending fc = mset pend" and "distinct (map fst pend)"
    and "good_number (number_for fc frame)"
  shows "\<exists>fc'. process_frame bld file_write fc pkt frame = Inr fc' \<and> fc_ready d fc' \<and>
     (if buf_index fc + length frame < pb_size fc
      then fc_pending fc' = add_mset (number_for fc frame, payload_of frame) (fc_pending fc) \<and>
           buf_index fc' = buf_index fc + length frame \<and> sink fc' = sink fc
      else fc_pending fc' = {#(number_for fc frame, payload_of frame)#} \<and>
           buf_index fc' = length frame \<and> sink fc' = sink fc @ flush_out (fc_rx fc) pend)"
  using process_data[OF assms, of bld] assms(4) by (auto simp: not_le split: if_splits)

theorem data_frame_effect_witness:
  "\<exists>fc'. process_frame sample_build file_write sample_fc (fst (sample 3 (replicate 300 7)))
       (snd (sample 3 (replicate 300 7))) = Inr fc' \<and> fc_ready 0 fc' \<and>
     fc_pending fc' = {#(3, replicate 300 7)#} \<and> buf_index fc' = 336 \<and> sink fc' = []"
proof -
  let ?c = "sample 3 (replicate 300 7)"
  have a: "fc_ready (shortfall (fst ?c, snd ?c) + 0) sample_fc" "fc_pending sample_fc = mset []"
    using sample_fc_abs[of 0] by (simp_all add: fc_abs_def)
  have b: "capture_fits (pb_size sample_fc) (fst ?c, snd ?c)" "is_data (fst ?c, snd ?c)"
    using sample_fits[of "replicate 300 7" 1500 3] sample_data[of "replicate 300 7" 3] by simp_all
  have c: "good_number (number_for sample_fc (snd ?c))" by (simp add: good_number_def INT_MAX_def)
  show ?thesis
    using data_frame_effect[OF a(1) b a(2) _ c, of sample_build] a by (simp add: sample_fields)
qed

text \<open>
  C5: Refinement. A capture session that ends writes exactly what the abstract receiver writes
  on the session's data frames: the buffer loads one after the other, each sorted by frame number
  (and, if configured, with noise in place of the missing blocks). It counts every data frame, and
  never reads or writes outside of its buffers, whatever the order of arrival.
\<close>

theorem session_output:
  assumes "0 \<le> selectable_fd" and "session bld 0 es = Some cs"
    and "session_fits rx cs"
    and "numbers_ok [] (inputs rx 0 cs)" and "data_count cs < 2 ^ 32"
  shows "\<exists>rx' st. receiver_activate_capture bld file_write selectable_fd ps rx out es =
     Some (Inr (rx', out @ buffered rx (packet_buffer_size rx) [] 0 (inputs rx 0 cs), st)) \<and>
     num_packets_processed st = of_nat (data_count cs)"
  using assms by (rule receiver_session)

text \<open>The examples' session: two turns with frames 8 and 7, then a timeout.\<close>

definition sample_captures :: "capture list" where
  "sample_captures = [sample 8 (replicate 300 8), sample 7 (replicate 300 7)]"

definition sample_events :: "rx_event list" where
  "sample_events = [sample_turn 1 [sample 8 (replicate 300 8)],
     sample_turn 1 [sample 7 (replicate 300 7)], sample_turn 0 []]"

lemma sample_captures_facts:
  "session_fits (sample_rx ord noise) sample_captures" "data_count sample_captures = 2"
  by (rule sample_session_fits) (simp_all add: sample_captures_def sample_fits sample_data)

lemma not_preamble_sample [simp]: "length pl \<noteq> 256 \<Longrightarrow>
    classify (payload_of (snd (sample n pl))) = DXWIFI_CONTROL_FRAME_NONE"
  using sample_data[of pl n] by (simp add: is_data_def)

lemma sample_session: "session sample_build 0 sample_events = Some sample_captures"
  by (simp add: sample_events_def sample_captures_def sample_turn_def turn_captures_def
      turn_stops_def sample_build_def)

lemma sample_inputs:
  "inputs (sample_rx ord noise) 0 sample_captures =
     (if ord then [((8, replicate 300 8), 336), ((7, replicate 300 7), 336)]
      else [((0, replicate 300 8), 336), ((1, replicate 300 7), 336)])"
  by (simp add: sample_captures_def sample_data sample_fields)

lemma sample_numbers: "numbers_ok [] (inputs (sample_rx ord noise) 0 sample_captures)"
  by (simp add: sample_inputs numbers_ok_def good_number_def INT_MAX_def)

theorem session_output_witness:
  "\<exists>rx' st. receiver_activate_capture sample_build file_write 3 None (sample_rx True True) [] sample_events =
     Some (Inr (rx', replicate 300 7 @ replicate 300 8, st)) \<and> num_packets_processed st = 2"
proof -
  have "buffered (sample_rx True True) 1500 [] 0 (inputs (sample_rx True True) 0 sample_captures) =
      replicate 300 7 @ replicate 300 8"
    by (simp add: sample_inputs flush_out_def Let_def noise_before_def missing_before_def)
  then show ?thesis
    using session_output[of 3 sample_build sample_events sample_captures "sample_rx True True" None "[]"]
    by (simp add: sample_session sample_captures_facts sample_numbers)
qed

text \<open>
  A receiver that does not order its frames writes their payloads in the order of
  arrival, with nothing lost, repeated or reordered, whatever the sizes of the frames and however
  often the buffer had to be flushed in between.
\<close>

theorem unordered_session_output:
  assumes "\<not> ordered rx" and "0 \<le> selectable_fd"
    and "session bld 0 es = Some cs"
    and "session_fits rx cs" and "data_count cs < 2 ^ 31"
  shows "\<exists>rx' st. receiver_activate_capture bld file_write selectable_fd ps rx out es =
     Some (Inr (rx', out @ concat (data_payloads cs), st)) \<and>
     num_packets_processed st = of_nat (data_count cs)"
  using receiver_session[OF assms(2,3,4) numbers_ok_unordered[OF assms(1,5)], of ps out]
    buffered_unordered[OF assms(1), of "[]" 0 cs] assms(5)
  by (simp add: by_number_def)

theorem unordered_session_output_witness:
  "\<exists>rx' st. receiver_activate_capture sample_build file_write 3 None (sample_rx False False) [] sample_events =
     Some (Inr (rx', replicate 300 8 @ replicate 300 7, st)) \<and> num_packets_processed st = 2"
  using unordered_session_output[of "sample_rx False False" 3 sample_build sample_events sample_captures None "[]"]
  by (simp add: sample_session sample_captures_facts) (simp add: sample_captures_def sample_data sample_fields)

lemma render_no_noise: "\<not> add_noise rx \<Longrightarrow> render rx ex vs = concat (map snd vs)"
  by (induction rx ex vs rule: render.induct) (simp_all add: noise_before_def)

lemma numbered_payloads:
  "map snd (numbered_blocks k bs) = map the (filter (\<lambda>b. b \<noteq> None) bs)"
  by (induction bs arbitrary: k) (auto split: option.splits)

text \<open>The inputs of one buffer load are numbered blocks in any order: sorting recovers them.\<close>

lemma one_load_sorted:
  assumes "mset (map fst inp) = mset (numbered_blocks k bs)" and "k + length bs < 2 ^ 31"
    and "sum_list (map snd inp) < psz"
  shows "buffered rx psz [] 0 inp =
     render rx (fst (hd (numbered_blocks k bs))) (numbered_blocks k bs)"
    and "numbers_ok [] inp"
proof -
  let ?nb = "numbered_blocks k bs"
  have nb: "by_number ?nb" "distinct (map fst ?nb)" "\<forall>v \<in> set ?nb. good_number (fst v)"
    using numbered_blocks_sorted[OF assms(2)] by simp_all
  have "mset (map fst (map fst inp)) = mset (map fst ?nb)" using assms(1) by (metis mset_map)
  then have d: "distinct (map fst (map fst inp))" using nb(2) by (metis mset_eq_imp_distinct_iff)
  have "?nb = sort_key (sint \<circ> fst) (map fst inp)"
    using assms(1) nb(1) d by (intro sorted_values_unique) simp_all
  then show "buffered rx psz [] 0 inp = render rx (fst (hd ?nb)) ?nb"
    using buffered_one_load[of 0 inp psz rx "[]"] assms(3) by (simp add: flush_out_def Let_def)
  have "set (map fst inp) = set ?nb" using assms(1) by (metis set_mset_mset)
  then show "numbers_ok [] inp" using d nb(3) by (auto simp: numbers_ok_def)
qed

text \<open>
  C17: An ordered receiver repairs reordering. When the frames of a session fit in one buffer
  and carry consecutive numbers, some of them lost, the output is the received payloads in the
  order of their numbers, for every order of arrival.
\<close>

theorem ordered_session_output:
  assumes "ordered rx" and "\<not> add_noise rx" and "0 \<le> selectable_fd"
    and "session bld 0 es = Some cs"
    and "session_fits rx cs" and "data_count cs < 2 ^ 31"
    and "mset (map fst (inputs rx 0 cs)) = mset (numbered_blocks k bs)" and "k + length bs < 2 ^ 31"
    and "sum_list (map snd (inputs rx 0 cs)) < packet_buffer_size rx"
  shows "\<exists>rx' st. receiver_activate_capture bld file_write selectable_fd ps rx out es =
     Some (Inr (rx', out @ concat (map the (filter (\<lambda>b. b \<noteq> None) bs)), st))"
  using receiver_session[OF assms(3,4,5) one_load_sorted(2)[OF assms(7-9)], of ps out]
    one_load_sorted(1)[OF assms(7-9)] assms(6) numbered_payloads[of k bs]
  by (auto simp: render_no_noise[OF assms(2)])

theorem ordered_session_output_witness:
  "\<exists>rx' st. receiver_activate_capture sample_build file_write 3 None (sample_rx True False) [] sample_events =
     Some (Inr (rx', replicate 300 7 @ replicate 300 8, st))"
  using ordered_session_output[of "sample_rx True False" 3 sample_build sample_events sample_captures
      7 "[Some (replicate 300 7), Some (replicate 300 8)]" None "[]"]
  by (simp add: sample_session sample_captures_facts sample_inputs)

lemma noise_session:
  assumes "ordered rx" and "add_noise rx" and "0 \<le> selectable_fd"
    and "session bld 0 es = Some cs"
    and "session_fits rx cs" and "data_count cs < 2 ^ 31"
    and "mset (map fst (inputs rx 0 cs)) = mset (numbered_blocks k bs)" and "k + length bs < 2 ^ 31"
    and "sum_list (map snd (inputs rx 0 cs)) < packet_buffer_size rx"
    and "bs \<noteq> []" and "hd bs \<noteq> None" and "gaps_sized n False bs"
  shows "\<exists>rx' st. receiver_activate_capture bld file_write selectable_fd ps rx out es =
     Some (Inr (rx', out @ concat (map (\<lambda>b. case b of None \<Rightarrow> replicate n (noise_value rx)
       | Some p \<Rightarrow> p) bs), st))"
proof -
  have "fst (hd (numbered_blocks k bs)) = of_nat k" using assms(10,11) by (cases bs) auto
  then show ?thesis
    using receiver_session[OF assms(3,4,5) one_load_sorted(2)[OF assms(7-9)], of ps out]
      one_load_sorted(1)[OF assms(7-9), of rx] render_blocks[OF assms(1,2) order_refl assms(8), of n]
      assms(6,12)
    by auto
qed

text \<open>
  C18: Noise keeps the output aligned. With noise on and the first and the last block received,
  every lost block is replaced by as many noise bytes, so that each received payload lands at the
  offset its number gives it. The code takes the size of the frame behind a gap for the noise, so
  every block that follows a lost one must have the size of the lost blocks; the others, a shorter
  last block included, may have any size.
\<close>

theorem noise_session_output:
  assumes "ordered rx" and "add_noise rx" and "0 \<le> selectable_fd"
    and "session bld 0 es = Some cs"
    and "session_fits rx cs" and "data_count cs < 2 ^ 31"
    and "mset (map fst (inputs rx 0 cs)) = mset (numbered_blocks k bs)" and "k + length bs < 2 ^ 31"
    and "sum_list (map snd (inputs rx 0 cs)) < packet_buffer_size rx"
    and "bs \<noteq> []" and "hd bs \<noteq> None" and "gaps_sized n False bs"
  shows "\<exists>rx' st. receiver_activate_capture bld file_write selectable_fd ps rx out es =
     Some (Inr (rx', out @ concat (map (\<lambda>b. case b of None \<Rightarrow> replicate n (noise_value rx)
       | Some p \<Rightarrow> p) bs), st))"
  using assms by (rule noise_session)

definition gap_captures :: "capture list" where
  "gap_captures = [sample 9 (replicate 300 9), sample 7 (replicate 300 7)]"

definition gap_events :: "rx_event list" where
  "gap_events = [sample_turn 1 gap_captures, sample_turn 0 []]"

lemma gap_facts:
  "session sample_build 0 gap_events = Some gap_captures"
  "inputs (sample_rx True True) 0 gap_captures = [((9, replicate 300 9), 336), ((7, replicate 300 7), 336)]"
  "data_count gap_captures = 2" "session_fits (sample_rx True True) gap_captures"
proof -
  show "session sample_build 0 gap_events = Some gap_captures"
    by (simp add: gap_events_def gap_captures_def sample_turn_def turn_captures_def
      turn_stops_def sample_build_def sample_data)
  show "inputs (sample_rx True True) 0 gap_captures =
      [((9, replicate 300 9), 336), ((7, replicate 300 7), 336)]"
    "data_count gap_captures = 2"
    by (simp_all add: gap_captures_def sample_data sample_fields)
  show "session_fits (sample_rx True True) gap_captures"
    by (rule sample_session_fits) (simp_all add: gap_captures_def sample_fits)
qed

lemma gap_session:
  "\<exists>rx' st. receiver_activate_capture sample_build file_write 3 None (sample_rx True True) [] gap_events =
     Some (Inr (rx', replicate 300 7 @ replicate 300 0x55 @ replicate 300 9, st))"
  using noise_session[of "sample_rx True True" 3 sample_build gap_events gap_captures 7
      "[Some (replicate 300 7), None, Some (replicate 300 9)]" 300 None "[]"]
  by (simp add: gap_facts)

theorem noise_session_output_witness:
  "\<exists>rx' st. receiver_activate_capture sample_build file_write 3 None (sample_rx True True) [] gap_events =
     Some (Inr (rx', replicate 300 7 @ replicate 300 0x55 @ replicate 300 9, st))"
  using noise_session_output[of "sample_rx True True" 3 sample_build gap_events gap_captures 7
      "[Some (replicate 300 7), None, Some (replicate 300 9)]" 300 None "[]"]
  by (simp add: gap_facts)



text \<open>
  A frame number that is received twice wraps the count of lost blocks: flushing a
  buffer with two frames of the same number subtracts one from the unsigned counter, so that a
  session without any loss reports 4294967295 lost blocks.
\<close>

theorem duplicate_number_wraps:
  assumes "fc_ready d fc" and "ordered (fc_rx fc)" and "fc_pending fc = {#(n, p), (n, q)#}"
  shows "\<exists>fc'. dump_packet_buffer file_write fc = Inr fc' \<and>
     total_blocks_lost (rx_stats fc') = total_blocks_lost (rx_stats fc) - 1"
proof -
  obtain vs h where dump: "dump_packet_buffer file_write fc = Inr ((flush_of fc vs)\<lparr>packet_heap := h\<rparr>)"
    and vs: "mset vs = fc_pending fc"
    using dump_packet_buffer_file[OF _ _ fc_ready_good[OF assms(1)]] assms(1,3)
    by (auto simp: fc_ready_def)
  have "mset (map fst vs) = {#n, n#}" using vs assms(3) by simp
  moreover have "length vs = 2" using vs assms(3) by (metis size_mset size_add_mset size_empty Suc_1 One_nat_def)
  ultimately obtain a b where ab: "vs = [(n, a), (n, b)]"
    by (auto simp: numeral_2_eq_2 length_Suc_conv add_eq_conv_ex)
  have "good_number n" using assms(1,3) by (simp add: fc_ready_def)
  then have "sint (n + 1) = sint n + 1" by (simp add: good_number_def sint_succ)
  then have "lost_total (fc_rx fc) n vs = -1" using assms(2) by (simp add: ab missing_before_def)
  then show ?thesis using dump by (simp add: flush_of_def flushed_def ab)
qed

theorem duplicate_number_wraps_witness:
  "\<exists>fc fc'. fc_pending fc = {#(5, replicate 300 1), (5, replicate 300 1)#} \<and>
     dump_packet_buffer file_write fc = Inr fc' \<and>
     total_blocks_lost (rx_stats fc') = total_blocks_lost (rx_stats fc) - 1"
proof -
  let ?c = "sample 5 (replicate 300 1)" and ?v = "(5 :: u32, replicate 300 (1 :: byte))"
  have s: "shortfall (fst ?c, snd ?c) = 0" using sample_shortfall[of "replicate 300 1" 5] by simp
  have a: "fc_ready (shortfall (fst ?c, snd ?c) + 0) sample_fc" "fc_pending sample_fc = mset []"
    using sample_fc_abs[of 0] s by (simp_all add: fc_abs_def)
  have b: "capture_fits 1500 (fst ?c, snd ?c)" "is_data (fst ?c, snd ?c)"
    using sample_fits[of "replicate 300 1" 1500 5] sample_data[of "replicate 300 1" 5] by simp_all
  have g: "good_number 5" by (simp add: good_number_def INT_MAX_def)
  obtain fc1 :: "byte list frame_controller" where fc1: "fc_ready (shortfall (fst ?c, snd ?c) + 0) fc1" "fc_pending fc1 = mset [?v]" "fc_rx fc1 = sample_rx True True"
      "pb_size fc1 = 1500" "buf_index fc1 = 336"
    using process_data[OF a(1) _ b(2) a(2), of sample_build] a b g s by (auto simp: sample_fields)
  have n1: "number_for fc1 (snd ?c) = 5" using fc1 by (simp add: number_for_def sample_fields)
  obtain fc2 :: "byte list frame_controller" where fc2: "fc_ready 0 fc2" "fc_pending fc2 = mset ([?v] @ [?v])" "fc_rx fc2 = sample_rx True True"
    using process_data[OF fc1(1) _ b(2) fc1(2), of sample_build] fc1 b g n1 by (auto simp: sample_fields)
  have "fc_pending fc2 = {#?v, ?v#}" using fc2(2) by simp
  then show ?thesis using duplicate_number_wraps[OF fc2(1)] fc2(3) by auto
qed

text \<open>
  C38: The receiver makes room for a frame by flushing, but never compares the frame with the
  size of its buffer: a frame longer than the whole buffer, which the configuration allows, is
  copied past the end of the buffer.
\<close>

theorem oversize_frame_overflows:
  assumes "fc_ready d fc" and "fc_pending fc = mset pend" and "distinct (map fst pend)"
    and "capture_ok (pkt, frame)" and "is_data (pkt, frame)" and "pb_size fc < length frame"
  shows "process_frame bld file_write fc pkt frame = Inl Out_Of_Bounds"
proof -
  have cap: "unat (caplen pkt) = length frame" using assms(4) by (simp add: capture_ok_def)
  have len: "length (packet_buffer fc) = pb_size fc" using assms(1) by (simp add: fc_ready_def fc_inv_def)
  have check: "check_frame_control frame pkt DXWIFI_FRAME_CONTROL_CHECK_THRESHOLD =
      Inr DXWIFI_CONTROL_FRAME_NONE"
    using assms(4,5) by (simp add: check_frame_control_classify is_data_def)
  from flush_step[OF assms(1-3)] obtain h st where "dump_packet_buffer file_write fc =
      Inr (fc\<lparr>packet_heap := h, buf_index := 0, sink := sink fc @ flush_out (fc_rx fc) pend, rx_stats := st\<rparr>)"
    by blast
  then show ?thesis
    using assms(6) cap check len by (simp add: process_frame_def store_frame_def)
qed

theorem oversize_frame_overflows_witness:
  "process_frame sample_build file_write sample_fc (fst (sample 1 (replicate 2000 3)))
     (snd (sample 1 (replicate 2000 3))) = Inl Out_Of_Bounds"
  using sample_fc_abs[of 0] sample_ok[of "replicate 2000 3" 1] sample_data[of "replicate 2000 3" 1]
  by (intro oversize_frame_overflows[where pend = "[]" and d = 0]) (simp_all add: fc_abs_def sample_fields)

lemma ctrl_payload_size_short:
  fixes cap :: u32 and r :: u16
  assumes "unat cap < unat r + 28" and "unat r \<le> unat cap"
  shows "unat (ctrl_payload_size cap r) \<noteq> 256"
proof -
  have "unat r < 2 ^ 16" using unsigned_less[of r] by simp
  then have "unat (ucast r :: u32) = unat r" by (simp add: unat_ucast_up)
  then have d: "unat (cap - ucast r) = unat cap - unat r"
    using assms by (simp add: unat_sub word_le_nat_alt)
  define k where "k = unat cap - unat r"
  have k: "k < 28" using assms by (simp add: k_def)
  have "unat (ucast (cap - ucast r) :: size_t) = k" using d by (simp add: unat_ucast_up k_def)
  then have "of_nat (unat (ucast (cap - ucast r) :: size_t)) = (of_nat k :: size_t)" by simp
  then have "ucast (cap - ucast r) = (of_nat k :: size_t)" by simp
  moreover have "unat (of_nat k - 28 :: size_t) \<noteq> 256"
  proof
    assume "unat (of_nat k - 28 :: size_t) = 256"
    then have "of_nat (unat (of_nat k - 28 :: size_t)) = (of_nat 256 :: size_t)" by (simp only:)
    then have "of_nat k = (256 + 28 :: size_t)" by (simp add: algebra_simps)
    then have "unat (of_nat k :: size_t) = 284" by simp
    then show False using k by (simp add: unat_of_nat)
  qed
  ultimately show ?thesis by (simp add: ctrl_payload_size_def wire_defs)
qed

text \<open>
  A capture too short for its own headers (fewer than 28 bytes after the radiotap header)
  is accepted and queued with a negative size, and the flush that follows reads out of bounds.
\<close>

theorem short_frame_breaks_flush:
  assumes "fc_ready d fc" and "fc_pending fc = {#}" and "\<not> ordered (fc_rx fc)"
    and "length frame = unat (caplen pkt)" and "4 \<le> length frame" and "length frame < pb_size fc - buf_index fc"
    and "rtap_len_of frame \<le> length frame" and "length frame < rtap_len_of frame + 28"
  shows "\<exists>fc'. process_frame bld wr fc pkt frame = Inr fc' \<and>
     dump_packet_buffer wr fc' = Inl Out_Of_Bounds"
proof -
  let ?i = "buf_index fc" and ?r = "rtap_len_of frame"
  have inv: "fc_inv fc" using assms(1) by (simp add: fc_ready_def)
  then have lenb: "length (packet_buffer fc) = pb_size fc" by (simp add: fc_inv_def)
  have c0: "count (packet_heap fc) = 0"
    using assms(2) inv by (auto simp: fc_pending_def fc_inv_def heap_elems_empty_iff)
  have "unat (ctrl_payload_size (caplen pkt) (le16_of (slice frame 2 2))) \<noteq> 256"
    using assms(4,7,8) by (intro ctrl_payload_size_short) (simp_all add: rtap_len_of_def)
  then have check: "check_frame_control frame pkt t = Inr DXWIFI_CONTROL_FRAME_NONE" for t
    using assms(5) by (simp add: check_frame_control_def Let_def DXWIFI_FRAME_CONTROL_DATA_SIZE_def)
  define buf where "buf = overwrite (packet_buffer fc) ?i frame"
  have bl: "length buf = pb_size fc" using assms(6) lenb by (simp add: buf_def)
  have "slice buf (?i + 2) 2 = slice frame 2 2"
    unfolding buf_def using assms(5,6) lenb by (intro slice_of_overwrite) simp_all
  then have rtap: "slice buf (Suc (Suc ?i)) 2 = slice frame 2 2" by simp
  define node where "node = \<lparr>frame_number = num_packets_processed (rx_stats fc),
      node_data = ?i + ?r + 24, node_size = int ?i + int (length frame) - 4 - int (?i + ?r + 24),
      crc_valid = False\<rparr>"
  obtain hp where push: "heap_push (packet_heap fc) node = Inr hp"
    and hp: "heap_wf order_by_frame_number_desc hp" "heap_elems hp = {#node#}" "count hp = 1"
    using frame_order.heap_push_ok[of "packet_heap fc" node] inv c0
    by (auto simp: fc_inv_def heap_elems_def)
  have neg: "node_size node < 0" using assms(8) by (simp add: node_def)
  obtain h' where pop: "heap_pop hp = Inr (Some node, h')"
    using frame_order.heap_pop_ok[OF hp(1)] hp by auto
  have root: "0 < length (tree hp)" using heap_pop_root[OF pop] by simp
  have "\<exists>fc'. store_frame fc pkt frame = Inr fc' \<and> packet_heap fc' = hp \<and> fc_rx fc' = fc_rx fc"
    using assms(3-6) lenb bl rtap push
    by (simp add: store_frame_def Let_def buf_def[symmetric] parse_rx_frame_fields_def
        rtap_len_of_def[symmetric] node_def wire_defs)
  then obtain fc' where store: "store_frame fc pkt frame = Inr fc'" "packet_heap fc' = hp"
    "fc_rx fc' = fc_rx fc" by blast
  have "\<not> pb_size fc \<le> buf_index fc + unat (caplen pkt)" using assms(4,6) by simp
  then have "process_frame bld wr fc pkt frame = Inr fc'"
    using check store by (simp add: process_frame_def)
  moreover have "dump_packet_buffer wr fc' = Inl Out_Of_Bounds"
    using store root pop neg assms(3)
    by (simp add: dump_packet_buffer_def dump_loop.simps dump_node_def fill_missing_def node_bytes_def)
  ultimately show ?thesis by blast
qed

theorem short_frame_breaks_flush_witness:
  "\<exists>fc'. process_frame sample_build file_write (init_frame_controller (sample_rx False False) ([] :: byte list))
       (fst (capture_of (replicate 20 0))) (replicate 20 0) = Inr fc' \<and>
     dump_packet_buffer file_write fc' = Inl Out_Of_Bounds"
proof (rule short_frame_breaks_flush)
  have *: "fc_abs 0 0 [] (init_frame_controller (sample_rx False False) ([] :: byte list))"
    by (rule init_controller_abs) (simp add: rx_size_defs wire_defs)
  then show "fc_ready 0 (init_frame_controller (sample_rx False False) ([] :: byte list))"
    "fc_pending (init_frame_controller (sample_rx False False) ([] :: byte list)) = {#}"
    by (simp_all add: fc_abs_def)
qed (simp_all add: init_frame_controller_def capture_of_def rtap_len_of_def slice_def le16_of_def)

text \<open>
  C39: A failing \<open>poll\<close> does not end the capture of an activated receiver: the error state is
  recorded and the loop goes on with the next turn, so a persistent failure loops for ever.
\<close>

theorem poll_error_continues:
  assumes "rx_activated (fc_rx fc)" and "\<not> end_capture fc" and "rx_poll e < 0"
    and "\<not> rx_stop_poll e" and "\<not> rx_stop_after e"
  shows "rx_loop bld wr fc (replicate n e) = None"
  using assms(1,2)
proof (induction n arbitrary: fc)
  case (Suc n)
  have "rx_turn bld wr fc e = Inr (set_capture_state DXWIFI_RX_ERROR fc)"
    using assms(3-5) Suc.prems by (simp add: rx_turn_def rx_signal_stop_def)
  then show ?case using Suc by (simp add: rx_loop.simps[of _ _ fc])
qed (simp add: rx_loop.simps)

theorem poll_error_continues_witness:
  "rx_loop sample_build file_write (sample_fc\<lparr>fc_rx := (sample_rx True True)\<lparr>rx_activated := True\<rparr>\<rparr>)
     (replicate 5 (sample_turn (-1) [])) = None"
  by (rule poll_error_continues) (simp_all add: sample_turn_def)

end
