(* ===== verification/ReceiverMaps.thy ===== *)
theory ReceiverMaps imports Receiver begin

text \<open>
  What the receiver's processing does not depend on. A map of frame controllers that keeps what
  \<open>process_frame\<close> reads and commutes with what it writes commutes with the whole of it; this is
  shown once, in a locale, and used for two maps: exchanging the sink for another that is written
  in the same way, and clearing the flag that the signal handler clears. A second locale does the
  same for what processing preserves: a relation between the controllers before and after that holds
  for the single updates holds for the whole.
\<close>

locale controller_map =
  fixes F :: "'s frame_controller \<Rightarrow> 't frame_controller" and g :: "'s \<Rightarrow> 't"
    and wr :: "'s write_call" and wr' :: "'t write_call"
  assumes write_map: "wr' (g s) bs = (fst (wr s bs), g (snd (wr s bs)))"
    and sel: "packet_heap (F fc) = packet_heap fc" "packet_buffer (F fc) = packet_buffer fc"
      "pb_size (F fc) = pb_size fc" "buf_index (F fc) = buf_index fc" "rx_stats (F fc) = rx_stats fc"
      "sink (F fc) = g (sink fc)"
    and settings: "ordered (fc_rx (F fc)) = ordered (fc_rx fc)" "add_noise (fc_rx (F fc)) = add_noise (fc_rx fc)"
      "noise_value (fc_rx (F fc)) = noise_value (fc_rx fc)"
    and upd: "(F fc)\<lparr>packet_heap := h\<rparr> = F (fc\<lparr>packet_heap := h\<rparr>)"
      "(F fc)\<lparr>packet_buffer := b\<rparr> = F (fc\<lparr>packet_buffer := b\<rparr>)"
      "(F fc)\<lparr>buf_index := n\<rparr> = F (fc\<lparr>buf_index := n\<rparr>)"
      "(F fc)\<lparr>eot_reached := e\<rparr> = F (fc\<lparr>eot_reached := e\<rparr>)"
      "(F fc)\<lparr>preamble_recv := e\<rparr> = F (fc\<lparr>preamble_recv := e\<rparr>)"
      "(F fc)\<lparr>end_capture := e\<rparr> = F (fc\<lparr>end_capture := e\<rparr>)"
      "(F fc)\<lparr>rx_stats := st\<rparr> = F (fc\<lparr>rx_stats := st\<rparr>)"
      "(F fc)\<lparr>sink := g s\<rparr> = F (fc\<lparr>sink := s\<rparr>)"
begin

lemmas F_simps = sel settings upd

lemma noise_loop_map: "noise_loop wr' ns n t (g s) = (fst (noise_loop wr ns n t s), g (snd (noise_loop wr ns n t s)))"
  by (induction n arbitrary: t s) (simp_all add: write_map split_beta)

lemma fill_missing_map: "fill_missing wr' (F fc) ex node = map_res F (fill_missing wr fc ex node)"
  by (auto simp: fill_missing_def Let_def map_res_bind bind_map_res bind_res_assoc noise_loop_map split_beta F_simps)

lemma dump_node_map:
  "dump_node wr' (F fc) ex node = map_res (\<lambda>(fc, e). (F fc, e)) (dump_node wr fc ex node)"
  by (simp add: dump_node_def fill_missing_map Let_def map_res_bind bind_map_res bind_res_assoc write_map split_beta F_simps)

lemma dump_loop_map: "dump_loop wr' (F fc) ex = map_res F (dump_loop wr fc ex)"
proof (induction "count (packet_heap fc)" arbitrary: fc ex rule: less_induct)
  case less
  show ?case
  proof (cases "heap_pop (packet_heap fc)")
    case (Inr r)
    obtain p h where r: "r = (p, h)" by fastforce
    show ?thesis
    proof (cases p)
      case None
      then show ?thesis using Inr r by (simp add: dump_loop.simps[of _ fc] dump_loop.simps[of _ "F fc"] F_simps)
    next
      case (Some node)
      then have dec: "count h < count (packet_heap fc)" using heap_pop_count[of "packet_heap fc" node h] Inr r by simp
      have IH: "dump_loop wr' (F (f\<lparr>packet_heap := h\<rparr>)) e =
          map_res F (dump_loop wr (f\<lparr>packet_heap := h\<rparr>) e)" for f e
        using less[of "f\<lparr>packet_heap := h\<rparr>"] dec by simp
      show ?thesis
        using Inr r Some
        by (cases "dump_node wr (fc\<lparr>packet_heap := h\<rparr>) ex node")
          (auto simp: dump_loop.simps[of _ fc] dump_loop.simps[of _ "F fc"] dump_node_map IH F_simps)
    qed
  qed (simp add: dump_loop.simps[of _ fc] dump_loop.simps[of _ "F fc"] F_simps)
qed

lemma dump_packet_buffer_map:
  "dump_packet_buffer wr' (F fc) = map_res F (dump_packet_buffer wr fc)"
  by (simp add: dump_packet_buffer_def dump_loop_map map_res_bind bind_map_res F_simps)

lemma store_frame_map: "store_frame (F fc) pkt frame = map_res F (store_frame fc pkt frame)"
  by (simp add: store_frame_def Let_def map_res_bind F_simps cong: if_cong)

lemma handle_frame_control_map:
  "handle_frame_control bld (F fc) t = map_res F (handle_frame_control bld fc t)"
  by (cases t) (simp_all add: Let_def F_simps)

lemma process_frame_map:
  "process_frame bld wr' (F fc) pkt frame = map_res F (process_frame bld wr fc pkt frame)"
  by (simp add: process_frame_def dump_packet_buffer_map store_frame_map handle_frame_control_map
      map_res_bind bind_map_res map_res_if F_simps cong: if_cong)

lemma dispatch_map: "dispatch bld wr' (F fc) cs = map_res F (dispatch bld wr fc cs)"
  by (induction cs arbitrary: fc) (auto simp: process_frame_map map_res_bind bind_map_res cong: bind_res_cong)

end

subsection \<open>Another sink\<close>

text \<open>
  The receiver uses its sink only through \<open>write\<close>: a function that commutes with \<open>write\<close>
  commutes with the whole receiver.
\<close>

definition map_sink :: "('s \<Rightarrow> 't) \<Rightarrow> 's frame_controller \<Rightarrow> 't frame_controller" where
  "map_sink g fc = \<lparr>packet_heap = packet_heap fc, packet_buffer = packet_buffer fc, pb_size = pb_size fc,
     buf_index = buf_index fc, eot_reached = eot_reached fc, preamble_recv = preamble_recv fc,
     end_capture = end_capture fc, fc_rx = fc_rx fc, rx_stats = rx_stats fc, sink = g (sink fc)\<rparr>"

lemma map_sink_sel [simp]:
  "packet_heap (map_sink g fc) = packet_heap fc" "packet_buffer (map_sink g fc) = packet_buffer fc"
  "pb_size (map_sink g fc) = pb_size fc" "buf_index (map_sink g fc) = buf_index fc"
  "eot_reached (map_sink g fc) = eot_reached fc" "preamble_recv (map_sink g fc) = preamble_recv fc"
  "end_capture (map_sink g fc) = end_capture fc" "fc_rx (map_sink g fc) = fc_rx fc"
  "rx_stats (map_sink g fc) = rx_stats fc" "sink (map_sink g fc) = g (sink fc)"
  by (simp_all add: map_sink_def)

lemma map_sink_upd [simp]:
  "(map_sink g fc)\<lparr>packet_heap := h\<rparr> = map_sink g (fc\<lparr>packet_heap := h\<rparr>)"
  "(map_sink g fc)\<lparr>packet_buffer := b\<rparr> = map_sink g (fc\<lparr>packet_buffer := b\<rparr>)"
  "(map_sink g fc)\<lparr>buf_index := n\<rparr> = map_sink g (fc\<lparr>buf_index := n\<rparr>)"
  "(map_sink g fc)\<lparr>eot_reached := e\<rparr> = map_sink g (fc\<lparr>eot_reached := e\<rparr>)"
  "(map_sink g fc)\<lparr>preamble_recv := e\<rparr> = map_sink g (fc\<lparr>preamble_recv := e\<rparr>)"
  "(map_sink g fc)\<lparr>end_capture := e\<rparr> = map_sink g (fc\<lparr>end_capture := e\<rparr>)"
  "(map_sink g fc)\<lparr>fc_rx := r\<rparr> = map_sink g (fc\<lparr>fc_rx := r\<rparr>)"
  "(map_sink g fc)\<lparr>rx_stats := st\<rparr> = map_sink g (fc\<lparr>rx_stats := st\<rparr>)"
  "(map_sink g fc)\<lparr>sink := g s\<rparr> = map_sink g (fc\<lparr>sink := s\<rparr>)"
  by (simp_all add: map_sink_def)

lemma map_sink_if: "map_sink g (if b then x else y) = (if b then map_sink g x else map_sink g y)"
  by simp

locale sink_map =
  fixes g :: "'s \<Rightarrow> 't" and wr :: "'s write_call" and wr' :: "'t write_call"
  assumes writes: "wr' (g s) bs = (fst (wr s bs), g (snd (wr s bs)))"

sublocale sink_map \<subseteq> controller_map "map_sink g" g wr wr'
  by unfold_locales (simp_all add: writes)

context sink_map
begin

lemma rx_turn_map: "rx_turn bld wr' (map_sink g fc) e = map_res (map_sink g) (rx_turn bld wr fc e)"
proof -
  have sig: "rx_signal_stop b (map_sink g fc) = map_sink g (rx_signal_stop b fc)" for b fc
    by (simp add: rx_signal_stop_def)
  have st: "set_capture_state s (map_sink g fc) = map_sink g (set_capture_state s fc)" for s fc
    by (simp add: set_capture_state_def)
  show ?thesis
    by (simp add: rx_turn_def Let_def sig st dispatch_map map_res_bind bind_map_res bind_res_assoc
        map_sink_if[symmetric] map_res_if cong: if_cong)
qed

lemma rx_loop_map: "rx_loop bld wr' (map_sink g fc) es = map_option (map_res (map_sink g)) (rx_loop bld wr fc es)"
proof (induction es arbitrary: fc)
  case Nil
  show ?case by (simp add: rx_loop.simps[of _ _ fc] rx_loop.simps[of _ _ "map_sink g fc"])
next
  case (Cons e es)
  show ?case
    by (cases "rx_turn bld wr fc e")
      (simp_all add: rx_loop.simps[of _ _ fc] rx_loop.simps[of _ _ "map_sink g fc"] rx_turn_map Cons.IH)
qed

lemma receiver_activate_capture_map:
  "receiver_activate_capture bld wr' sfd ps rx (g fd) es =
     map_option (map_res (\<lambda>(rx, fd, st). (rx, g fd, st))) (receiver_activate_capture bld wr sfd ps rx fd es)"
proof -
  have fin: "rx_finish wr' ps (map_sink g fc) = map_res (\<lambda>(rx, fd, st). (rx, g fd, st)) (rx_finish wr ps fc)" for fc
    by (cases ps) (simp_all add: rx_finish_def dump_packet_buffer_map map_res_bind bind_map_res Let_def
        teardown_frame_controller_def)
  define fc where "fc = (init_frame_controller rx fd)\<lparr>fc_rx := (fc_rx (init_frame_controller rx fd))\<lparr>rx_activated := True\<rparr>\<rparr>"
  have i: "(init_frame_controller rx (g fd))\<lparr>fc_rx := (fc_rx (init_frame_controller rx (g fd)))\<lparr>rx_activated := True\<rparr>\<rparr>
      = map_sink g fc"
    by (simp add: fc_def init_frame_controller_def map_sink_def)
  show ?thesis
    unfolding receiver_activate_capture_def Let_def i fc_def[symmetric] rx_loop_map
    by (simp add: option.map_comp comp_def map_res_bind bind_map_res fin)
qed

end

subsection \<open>What processing preserves\<close>

locale controller_relation =
  fixes R :: "'s frame_controller \<Rightarrow> 's frame_controller \<Rightarrow> bool" and wr :: "'s write_call"
  assumes R_refl: "R fc fc" and R_trans: "R fa fb \<Longrightarrow> R fb fd \<Longrightarrow> R fa fd"
    and R_upd: "R fc (fc\<lparr>packet_heap := h\<rparr>)" "R fc (fc\<lparr>buf_index := n\<rparr>)"
      "R fc (fc\<lparr>preamble_recv := x\<rparr>)" "R fc (fc\<lparr>end_capture := x\<rparr>)" "R fc (fc\<lparr>eot_reached := x\<rparr>)"
    and R_lost: "R fc (fc\<lparr>rx_stats := (rx_stats fc)\<lparr>total_blocks_lost := l\<rparr>\<rparr>)"
    and R_store: "R fc (fc\<lparr>packet_heap := h, packet_buffer := b, buf_index := n,
      rx_stats := (rx_stats fc)\<lparr>total_caplen := cl, total_payload_size := sz, num_packets_processed := k, pkt_stats := pk\<rparr>\<rparr>)"
    and R_noise: "noise_loop wr ns n (total_noise_added (rx_stats fc)) (sink fc) = (t, s') \<Longrightarrow>
      R fc (fc\<lparr>rx_stats := (rx_stats fc)\<lparr>total_noise_added := t\<rparr>, sink := s'\<rparr>)"
    and R_write: "wr (sink fc) bs = (m, s') \<Longrightarrow>
      R fc (fc\<lparr>sink := s', rx_stats := (rx_stats fc)\<lparr>total_writelen := total_writelen (rx_stats fc) + word_of_int m\<rparr>\<rparr>)"
begin

lemma fill_missing_R:
  assumes "fill_missing wr fc ex node = Inr fc'"
  shows "R fc fc'"
proof (cases "ordered (fc_rx fc) \<and> ex \<noteq> frame_number node")
  case True
  then obtain f where f: "R fc f" "fc' = f\<lparr>rx_stats := (rx_stats f)\<lparr>total_blocks_lost := total_blocks_lost (rx_stats f) +
      word_of_int (sint (frame_number node) - sint ex)\<rparr>\<rparr>"
    using assms R_refl R_noise
    by (fastforce simp: fill_missing_def Let_def bind_res_eq_Inr split: if_splits prod.splits)
  then show ?thesis using R_trans R_lost by blast
next
  case False
  then show ?thesis using assms R_refl by (simp only: fill_missing_def if_False sum.inject)
qed

lemma dump_node_R:
  assumes "dump_node wr fc ex node = Inr (fc', e)"
  shows "R fc fc'"
proof -
  obtain f bs where f: "fill_missing wr fc ex node = Inr f"
    "fc' = f\<lparr>sink := snd (wr (sink f) bs), rx_stats := (rx_stats f)\<lparr>total_writelen :=
       total_writelen (rx_stats f) + word_of_int (fst (wr (sink f) bs))\<rparr>\<rparr>"
    using assms by (auto simp: dump_node_def Let_def bind_res_eq_Inr split_beta)
  then show ?thesis using R_trans[OF fill_missing_R[OF f(1)] R_write[of f bs]] by (metis prod.collapse)
qed

lemma dump_loop_R: "dump_loop wr fc ex = Inr fc' \<Longrightarrow> R fc fc'"
proof (induction "count (packet_heap fc)" arbitrary: fc ex rule: less_induct)
  case less
  obtain p h where pop: "heap_pop (packet_heap fc) = Inr (p, h)"
    using less.prems by (cases "heap_pop (packet_heap fc)") (auto simp: dump_loop.simps[of _ fc])
  show ?case
  proof (cases p)
    case None
    then show ?thesis using less.prems pop R_upd(1) by (auto simp: dump_loop.simps[of _ fc])
  next
    case (Some node)
    then obtain fc1 e where d: "dump_node wr (fc\<lparr>packet_heap := h\<rparr>) ex node = Inr (fc1, e)"
      and l: "dump_loop wr (fc1\<lparr>packet_heap := h\<rparr>) e = Inr fc'"
      using less.prems pop by (auto simp: dump_loop.simps[of _ fc] split: sum.splits)
    have "count h < count (packet_heap fc)" using heap_pop_count[of "packet_heap fc" node h] pop Some by simp
    then have "R (fc1\<lparr>packet_heap := h\<rparr>) fc'" using less.hyps[OF _ l] by simp
    then show ?thesis using R_trans R_upd(1) dump_node_R[OF d] by blast
  qed
qed

lemma dump_packet_buffer_R: "dump_packet_buffer wr fc = Inr fc' \<Longrightarrow> R fc fc'"
  using R_trans R_upd(2) by (auto simp: dump_packet_buffer_def bind_res_eq_Inr dest!: dump_loop_R)

lemma store_frame_R: "store_frame fc pkt fr = Inr fc' \<Longrightarrow> R fc fc'"
  by (auto simp: store_frame_def Let_def bind_res_eq_Inr R_store)

lemma handle_frame_control_R: "handle_frame_control bld fc t = Inr fc' \<Longrightarrow> R fc fc'"
  using R_trans[OF R_upd(4)[of fc True] R_upd(3)[of "fc\<lparr>end_capture := True\<rparr>" True]] R_upd(3,5) R_refl
  by (cases t) (auto simp: Let_def split: if_splits)

lemma process_frame_R:
  assumes "process_frame bld wr fc pkt fr = Inr fc'"
  shows "R fc fc'"
proof -
  obtain t where t: "t \<noteq> DXWIFI_CONTROL_FRAME_NONE \<and> handle_frame_control bld fc t = Inr fc' \<or>
      (\<exists>f. (dump_packet_buffer wr fc = Inr f \<or> f = fc) \<and> store_frame f pkt fr = Inr fc')"
    using assms by (simp add: process_frame_def bind_res_eq_Inr split: if_splits) blast+
  then show ?thesis
    using handle_frame_control_R R_trans[OF dump_packet_buffer_R store_frame_R] store_frame_R by blast
qed

lemma dispatch_R: "dispatch bld wr fc cs = Inr fc' \<Longrightarrow> R fc fc'"
proof (induction cs arbitrary: fc)
  case (Cons c cs)
  obtain pkt fr where "c = (pkt, fr)" by (cases c)
  then obtain f where "process_frame bld wr fc pkt fr = Inr f" "dispatch bld wr f cs = Inr fc'"
    using Cons.prems by (auto simp: bind_res_eq_Inr)
  then show ?case using R_trans process_frame_R Cons.IH by blast
qed (simp add: R_refl)

end

end
