(* ===== verification/RxApp.thy ===== *)
theory RxApp imports RxCli ReceiverProperties ReceiverMaps begin

text \<open>
  \<open>dxwifi/rx/rx.c\<close>: capturing to standard output, to a file, and to a sequence of files in a
  directory. A file that is open is its bytes, the position of the next write and the append
  flag, as POSIX describes \<open>write\<close> on a regular file; the file system is a map from paths to
  bytes. What happens during each capture is given by one \<open>rx_run\<close> after the other: whether
  \<open>open\<close> succeeds, the descriptor to poll, the events, and the statistics of pcap.
\<close>

subsection \<open>Files\<close>

record open_file =
  of_data :: "byte list"
  of_pos :: nat
  of_append :: bool

definition os_write :: "open_file write_call" where
  "os_write f bs =
     (let p = (if of_append f then length (of_data f) else of_pos f) in
      if bs = [] then (0, f)
      else (int (length bs), f\<lparr>of_data := take p (of_data f) @ bs @ drop (p + length bs) (of_data f),
         of_pos := p + length bs\<rparr>))"

type_synonym file_system = "string \<Rightarrow> byte list option"

text \<open>\<open>open\<close> with \<open>O_WRONLY | O_CREAT\<close> and perhaps \<open>O_APPEND\<close>.\<close>

definition open_output :: "file_system \<Rightarrow> string \<Rightarrow> bool \<Rightarrow> open_file" where
  "open_output fs path app =
     \<lparr>of_data = (case fs path of None \<Rightarrow> [] | Some d \<Rightarrow> d), of_pos = 0, of_append = app\<rparr>"

record rx_run =
  rr_opens :: bool
  rr_fd :: int
  rr_events :: "rx_event list"
  rr_stats :: "pcap_stat option"

record rx_world =
  rw_rx :: dxwifi_receiver
  rw_fs :: file_system
  rw_stdout :: open_file

subsection \<open>Capturing\<close>

definition setup_handlers_and_capture :: "build \<Rightarrow> rx_run \<Rightarrow> dxwifi_receiver \<Rightarrow> open_file \<Rightarrow>
    (dxwifi_rx_state \<times> dxwifi_receiver \<times> open_file) res option" where
  "setup_handlers_and_capture bld r rx fd =
     map_option (\<lambda>x. bind_res x (\<lambda>(rx, fd, stats). Inr (capture_state stats, rx, fd)))
       (receiver_activate_capture bld os_write (rr_fd r) (rr_stats r) rx fd (rr_events r))"

definition open_file_and_capture :: "build \<Rightarrow> string \<Rightarrow> bool \<Rightarrow> rx_run \<Rightarrow> rx_world \<Rightarrow>
    (dxwifi_rx_state \<times> rx_world) res option" where
  "open_file_and_capture bld path app r w =
     (if \<not> rr_opens r then Some (Inr (DXWIFI_RX_ERROR, w))
      else map_option (\<lambda>x. bind_res x (\<lambda>(state, rx, fd).
             Inr (state, w\<lparr>rw_rx := rx, rw_fs := (rw_fs w)(path \<mapsto> of_data fd)\<rparr>)))
           (setup_handlers_and_capture bld r (rw_rx w) (open_output (rw_fs w) path app)))"

text \<open>The conversion \<open>%d\<close> of a count that is not negative.\<close>

fun show_nat :: "nat \<Rightarrow> string" where
  "show_nat n = (if n < 10 then [char_of (48 + n)] else show_nat (n div 10) @ [char_of (48 + n mod 10)])"

declare show_nat.simps [simp del]

definition RX_PATH_MAX :: nat where "RX_PATH_MAX = 4096"

definition capture_path :: "rx_cli_args \<Rightarrow> int \<Rightarrow> string" where
  "capture_path args cnt = take (RX_PATH_MAX - 1)
     (output_path args @ ''/'' @ rx_file_prefix args @ ''_'' @ show_nat (nat cnt) @ ''.'' @ rx_file_extension args)"

text \<open>The loop of \<open>capture_in_directory\<close>; \<open>None\<close> when a capture does not end.\<close>

fun capture_loop :: "build \<Rightarrow> rx_cli_args \<Rightarrow> int \<Rightarrow> dxwifi_rx_state \<Rightarrow> rx_run list \<Rightarrow> rx_world \<Rightarrow>
    rx_world res option" where
  "capture_loop bld args cnt state rs w =
     (if state = DXWIFI_RX_NORMAL
      then case rs of
             [] \<Rightarrow> None
           | r # rs \<Rightarrow>
               if \<not> fits_int (cnt + 1) then Some (Inl Signed_Overflow)
               else (case open_file_and_capture bld (capture_path args cnt) (rx_append args) r w of
                       None \<Rightarrow> None
                     | Some (Inl e) \<Rightarrow> Some (Inl e)
                     | Some (Inr (state, w)) \<Rightarrow> capture_loop bld args (cnt + 1) state rs w)
      else Some (Inr w))"

declare capture_loop.simps [simp del]

definition capture_in_directory :: "build \<Rightarrow> rx_cli_args \<Rightarrow> rx_run list \<Rightarrow> rx_world \<Rightarrow>
    rx_world res option" where
  "capture_in_directory bld args rs w = capture_loop bld args 0 DXWIFI_RX_NORMAL rs w"

text \<open>\<open>receive\<close>; the stream and file modes use the first run.\<close>

definition receive :: "build \<Rightarrow> rx_cli_args \<Rightarrow> rx_run list \<Rightarrow> rx_world \<Rightarrow> rx_world res option" where
  "receive bld args rs w =
     (case rx_mode args of
        RX_STREAM_MODE \<Rightarrow>
          (case rs of [] \<Rightarrow> None
           | r # _ \<Rightarrow> map_option (\<lambda>x. bind_res x (\<lambda>(state, rx, fd). Inr (w\<lparr>rw_rx := rx, rw_stdout := fd\<rparr>)))
               (setup_handlers_and_capture bld r (rw_rx w) (rw_stdout w)))
      | RX_FILE_MODE \<Rightarrow>
          (case rs of [] \<Rightarrow> None
           | r # _ \<Rightarrow> map_option (\<lambda>x. bind_res x (\<lambda>(state, w). Inr w))
               (open_file_and_capture bld (output_path args) (rx_append args) r w))
      | RX_DIRECTORY_MODE \<Rightarrow> capture_in_directory bld args rs w)"

subsection \<open>The output file\<close>

text \<open>A file that is written from its start, or to which is appended, after \<open>out\<close> was written.\<close>

definition file_after :: "byte list \<Rightarrow> bool \<Rightarrow> byte list \<Rightarrow> open_file" where
  "file_after old app out =
     (if app then \<lparr>of_data = old @ out, of_pos = (if out = [] then 0 else length old + length out), of_append = True\<rparr>
      else \<lparr>of_data = out @ drop (length out) old, of_pos = length out, of_append = False\<rparr>)"


interpretation capture_file: sink_map "file_after old app" file_write os_write for old app
  by unfold_locales (auto simp: file_after_def file_write_def os_write_def Let_def add.commute)

lemma open_output_after:
  "open_output fs path app = file_after (case fs path of None \<Rightarrow> [] | Some d \<Rightarrow> d) app []"
  by (simp add: open_output_def file_after_def)

lemma file_after_data: "of_data (file_after old app out) = (if app then old @ out else out @ drop (length out) old)"
  by (simp add: file_after_def)

subsection \<open>What a capture leaves\<close>

text \<open>The receiver's settings stay, except whether it is active.\<close>

definition same_rx :: "dxwifi_receiver \<Rightarrow> dxwifi_receiver \<Rightarrow> bool" where
  "same_rx a b \<longleftrightarrow> a\<lparr>rx_activated := True\<rparr> = b\<lparr>rx_activated := True\<rparr>"

lemma same_rx_simps [simp]: "same_rx (a\<lparr>rx_activated := b\<rparr>) c = same_rx a c" "same_rx a a"
  "same_rx c (a\<lparr>rx_activated := b\<rparr>) = same_rx c a"
  by (simp_all add: same_rx_def)

lemma same_rx_trans: "same_rx a b \<Longrightarrow> same_rx b c \<Longrightarrow> same_rx a c"
  by (simp add: same_rx_def)

text \<open>\<open>keeps fc fc'\<close>: the settings and the capture state are those of \<open>fc\<close>.\<close>

definition keeps :: "'s frame_controller \<Rightarrow> 's frame_controller \<Rightarrow> bool" where
  "keeps fc fc' \<longleftrightarrow> fc_rx fc' = fc_rx fc \<and> capture_state (rx_stats fc') = capture_state (rx_stats fc)"

interpretation keeps: controller_relation keeps wr for wr
  by unfold_locales (simp_all add: keeps_def)

text \<open>Turns in which \<open>poll\<close> always has frames, whether or not a signal arrives.\<close>

definition busy :: "build \<Rightarrow> rx_event list \<Rightarrow> bool" where
  "busy bld es \<longleftrightarrow> (\<forall>e \<in> set es. 0 < rx_poll e \<and> (dxwifi_tests bld \<longrightarrow> rx_dispatch e \<noteq> 0))"

lemma rx_turn_keeps:
  assumes "rx_turn bld wr fc e = Inr fc'"
  shows "same_rx (fc_rx fc') (fc_rx fc)"
    and "busy bld [e] \<Longrightarrow> capture_state (rx_stats fc') = capture_state (rx_stats fc)"
proof -
  define t where "t = rx_signal_stop (rx_stop_poll e) fc"
  define r where "r = (if rx_poll e = 0
         then Inr (set_capture_state DXWIFI_RX_TIMED_OUT
                (t\<lparr>fc_rx := (fc_rx t)\<lparr>rx_activated := False\<rparr>\<rparr>))
         else if rx_poll e < 0
         then Inr (set_capture_state
                (if rx_activated (fc_rx t) then DXWIFI_RX_ERROR else DXWIFI_RX_DEACTIVATED) t)
         else bind_res (dispatch bld wr t (rx_packets e)) (\<lambda>fc.
              Inr (if dxwifi_tests bld \<and> rx_dispatch e = 0
                   then set_capture_state DXWIFI_RX_DEACTIVATED
                          (fc\<lparr>fc_rx := (fc_rx fc)\<lparr>rx_activated := False\<rparr>\<rparr>)
                   else fc)))"
  obtain u where u: "r = Inr u" and fc': "fc' = rx_signal_stop (rx_stop_after e) u"
    using assms by (auto simp: rx_turn_def Let_def t_def[symmetric] r_def[symmetric] bind_res_eq_Inr)
  have sig: "same_rx (fc_rx (rx_signal_stop b f)) (fc_rx f)" "rx_stats (rx_signal_stop b f) = rx_stats f" for b f
    by (simp_all add: rx_signal_stop_def receiver_stop_capture_def)
  have sc: "fc_rx (set_capture_state c f) = fc_rx f" "capture_state (rx_stats (set_capture_state c f)) = c" for c f
    by (simp_all add: set_capture_state_def)
  consider "rx_poll e = 0" | "rx_poll e < 0"
    | f where "0 < rx_poll e" "dispatch bld wr t (rx_packets e) = Inr f" "r = Inr (if dxwifi_tests bld \<and> rx_dispatch e = 0
        then set_capture_state DXWIFI_RX_DEACTIVATED (f\<lparr>fc_rx := (fc_rx f)\<lparr>rx_activated := False\<rparr>\<rparr>) else f)"
  proof (cases "dispatch bld wr t (rx_packets e)")
    case (Inl err)
    then show thesis using u that(1,2) by (cases "rx_poll e = 0"; cases "rx_poll e < 0") (simp_all add: r_def)
  next
    case (Inr f)
    then show thesis using that by (cases "rx_poll e = 0"; cases "rx_poll e < 0") (simp_all add: r_def)
  qed
  then have "same_rx (fc_rx u) (fc_rx t) \<and> (busy bld [e] \<longrightarrow> capture_state (rx_stats u) = capture_state (rx_stats t))"
  proof cases
    case 1
    then have "u = set_capture_state DXWIFI_RX_TIMED_OUT (t\<lparr>fc_rx := (fc_rx t)\<lparr>rx_activated := False\<rparr>\<rparr>)"
      using u by (simp add: r_def)
    then show ?thesis using 1 by (simp add: sc busy_def)
  next
    case 2
    then have "u = set_capture_state (if rx_activated (fc_rx t) then DXWIFI_RX_ERROR else DXWIFI_RX_DEACTIVATED) t"
      using u by (simp add: r_def)
    then show ?thesis using 2 by (simp only: sc busy_def same_rx_simps) simp
  next
    case 3
    have k: "fc_rx f = fc_rx t" "capture_state (rx_stats f) = capture_state (rx_stats t)"
      using keeps.dispatch_R[OF 3(2)] by (simp_all add: keeps_def)
    show ?thesis
    proof (cases "dxwifi_tests bld \<and> rx_dispatch e = 0")
      case True
      then have "u = set_capture_state DXWIFI_RX_DEACTIVATED (f\<lparr>fc_rx := (fc_rx f)\<lparr>rx_activated := False\<rparr>\<rparr>)"
        using u 3(3) by simp
      then show ?thesis using True by (simp add: sc k busy_def)
    next
      case False
      then have "u = f" using u unfolding 3(3) if_not_P[OF False] by simp
      then show ?thesis by (simp add: k)
    qed
  qed
  then have same: "same_rx (fc_rx u) (fc_rx t)" and st: "busy bld [e] \<Longrightarrow> capture_state (rx_stats u) = capture_state (rx_stats t)"
    by simp_all
  show "same_rx (fc_rx fc') (fc_rx fc)" unfolding fc' t_def using same[unfolded t_def] sig(1) same_rx_trans by blast
  show "busy bld [e] \<Longrightarrow> capture_state (rx_stats fc') = capture_state (rx_stats fc)"
    using st unfolding fc' t_def sig(2) .
qed

lemma rx_loop_keeps:
  "rx_loop bld wr fc es = Some (Inr fc') \<Longrightarrow> same_rx (fc_rx fc') (fc_rx fc) \<and>
   (busy bld es \<longrightarrow> capture_state (rx_stats fc') = capture_state (rx_stats fc))"
proof (induction es arbitrary: fc)
  case Nil
  then show ?case by (auto simp: rx_loop.simps[of _ _ fc] split: if_splits)
next
  case (Cons e es)
  show ?case
  proof (cases "rx_activated (fc_rx fc) \<and> \<not> end_capture fc")
    case True
    then obtain f1 where f1: "rx_turn bld wr fc e = Inr f1" "rx_loop bld wr f1 es = Some (Inr fc')"
      using Cons.prems by (auto simp: rx_loop.simps[of _ _ fc] split: sum.splits)
    then show ?thesis
      using Cons.IH[OF f1(2)] rx_turn_keeps[OF f1(1)] by (auto simp: busy_def intro: same_rx_trans)
  next
    case False
    then show ?thesis using Cons.prems by (simp add: rx_loop.simps[of _ _ fc] del: de_Morgan_conj)
  qed
qed

lemma receiver_activate_capture_keeps:
  assumes "receiver_activate_capture bld wr sfd ps rx fd es = Some (Inr (rx', fd', st))"
  shows "same_rx rx' rx" and "busy bld es \<Longrightarrow> capture_state st = DXWIFI_RX_NORMAL"
proof -
  define f0 where "f0 = (init_frame_controller rx fd)\<lparr>fc_rx := (fc_rx (init_frame_controller rx fd))\<lparr>rx_activated := True\<rparr>\<rparr>"
  obtain f1 f2 where l: "rx_loop bld wr f0 es = Some (Inr f1)" and d: "dump_packet_buffer wr f1 = Inr f2"
    and r: "rx' = fc_rx f2" "capture_state st = capture_state (rx_stats f2)"
    using assms
    by (auto simp: receiver_activate_capture_def f0_def Let_def rx_finish_def bind_res_eq_Inr
        teardown_frame_controller_def split: if_splits option.splits)
  have i: "same_rx (fc_rx f0) rx" "capture_state (rx_stats f0) = DXWIFI_RX_NORMAL"
    by (simp_all add: f0_def init_frame_controller_def zero_rx_stats_def)
  show "same_rx rx' rx"
    using rx_loop_keeps[OF l] keeps.dump_packet_buffer_R[OF d] i r by (auto simp: keeps_def intro: same_rx_trans)
  show "busy bld es \<Longrightarrow> capture_state st = DXWIFI_RX_NORMAL"
    using rx_loop_keeps[OF l] keeps.dump_packet_buffer_R[OF d] i r by (simp add: keeps_def)
qed


text \<open>A session as \<open>session_output\<close> wants it, and what it writes.\<close>

definition good_run :: "build \<Rightarrow> dxwifi_receiver \<Rightarrow> rx_run \<Rightarrow> byte list \<Rightarrow> bool" where
  "good_run bld rx r out \<longleftrightarrow> rr_opens r \<and> 0 \<le> rr_fd r \<and>
     (\<exists>cs. session bld 0 (rr_events r) = Some cs \<and> session_fits rx cs \<and>
       numbers_ok [] (inputs rx 0 cs) \<and> data_count cs < 2 ^ 32 \<and>
       out = buffered rx (packet_buffer_size rx) [] 0 (inputs rx 0 cs))"

lemma capture_to_file:
  assumes "good_run bld rx r out"
  shows "\<exists>state rx'. setup_handlers_and_capture bld r rx (open_output fs path app) =
       Some (Inr (state, rx', file_after (case fs path of None \<Rightarrow> [] | Some d \<Rightarrow> d) app out)) \<and>
     same_rx rx' rx \<and> (busy bld (rr_events r) \<longrightarrow> state = DXWIFI_RX_NORMAL)"
proof -
  obtain cs where cs: "session bld 0 (rr_events r) = Some cs" "session_fits rx cs"
    "numbers_ok [] (inputs rx 0 cs)" "data_count cs < 2 ^ 32" "0 \<le> rr_fd r"
    "out = buffered rx (packet_buffer_size rx) [] 0 (inputs rx 0 cs)"
    using assms by (auto simp: good_run_def)
  obtain rx' st where run: "receiver_activate_capture bld file_write (rr_fd r) (rr_stats r) rx [] (rr_events r) =
      Some (Inr (rx', out, st))"
    using receiver_session[OF cs(5,1-4), of "rr_stats r" "[]"] cs(6) by auto
  have os: "receiver_activate_capture bld os_write (rr_fd r) (rr_stats r) rx (open_output fs path app) (rr_events r) =
      Some (Inr (rx', file_after (case fs path of None \<Rightarrow> [] | Some d \<Rightarrow> d) app out, st))"
    unfolding open_output_after capture_file.receiver_activate_capture_map run by simp
  show ?thesis
    using receiver_activate_capture_keeps[OF os] by (simp add: setup_handlers_and_capture_def os)
qed

lemma good_run_same: 
  assumes "same_rx a b"
  shows "good_run bld a r out = good_run bld b r out" and "config_ok a = config_ok b"
proof -
  have a: "a\<lparr>rx_activated := True\<rparr> = b\<lparr>rx_activated := True\<rparr>" using assms by (simp add: same_rx_def)
  have p: "packet_buffer_size a = packet_buffer_size b" using arg_cong[OF a, of packet_buffer_size] by simp
  have i: "inputs a = inputs b"
    using arg_cong[OF a, of inputs] by (simp add: fun_eq_iff)
  have b: "buffered a = buffered b"
    using arg_cong[OF a, of buffered] by (simp add: fun_eq_iff)
  show "good_run bld a r out = good_run bld b r out" by (simp add: good_run_def session_fits_def p i b)
  show "config_ok a = config_ok b" by (simp add: config_ok_def p)
qed

lemma open_file_and_capture_ok:
  fixes path :: string
  assumes "good_run bld (rw_rx w) r out"
  defines "old \<equiv> (case rw_fs w path of None \<Rightarrow> [] | Some d \<Rightarrow> d)"
  shows "\<exists>state w'. open_file_and_capture bld path app r w = Some (Inr (state, w')) \<and>
     same_rx (rw_rx w') (rw_rx w) \<and>
     rw_fs w' = (rw_fs w)(path \<mapsto> if app then old @ out else out @ drop (length out) old) \<and>
     (busy bld (rr_events r) \<longrightarrow> state = DXWIFI_RX_NORMAL)"
proof -
  obtain state rx' where c: "setup_handlers_and_capture bld r (rw_rx w) (open_output (rw_fs w) path app) =
       Some (Inr (state, rx', file_after old app out))" "same_rx rx' (rw_rx w)"
     "busy bld (rr_events r) \<longrightarrow> state = DXWIFI_RX_NORMAL"
    using capture_to_file[OF assms(1), of "rw_fs w" path app] unfolding old_def by blast
  have "rr_opens r" using assms(1) by (simp add: good_run_def)
  then show ?thesis using c by (simp add: open_file_and_capture_def file_after_data)
qed

subsection \<open>Directory mode\<close>

lemma digits_show: "digits_value (show_nat n) = int n"
proof (induction n rule: show_nat.induct)
  case (1 n)
  have d: "digit_value (char_of (48 + k)) = int k" if "k < 10" for k :: nat
    using that by (simp add: digit_value_def)
  show ?case
  proof (cases "n < 10")
    case True
    then show ?thesis using d[of n] by (simp add: show_nat.simps[of n] digits_value_def)
  next
    case False
    have "int (n div 10) * 10 + int (n mod 10) = int n" by (metis div_mult_mod_eq of_nat_add of_nat_mult of_nat_numeral)
    then show ?thesis
      using False 1 d[of "n mod 10"] by (simp add: show_nat.simps[of n] digits_value_def)
  qed
qed

lemma show_nat_inject: "show_nat n = show_nat m \<Longrightarrow> n = m"
  by (metis digits_show of_nat_eq_iff)

definition path_fits :: "rx_cli_args \<Rightarrow> nat \<Rightarrow> bool" where
  "path_fits args n \<longleftrightarrow> length (output_path args) + length (rx_file_prefix args) + length (rx_file_extension args) +
     length (show_nat n) + 3 < RX_PATH_MAX"

lemma capture_path_distinct:
  assumes "path_fits args n" and "path_fits args m" and "capture_path args (int n) = capture_path args (int m)"
  shows "n = m"
proof -
  let ?full = "\<lambda>n. output_path args @ ''/'' @ rx_file_prefix args @ ''_'' @ show_nat n @ ''.'' @ rx_file_extension args"
  have "capture_path args (int n) = ?full n" "capture_path args (int m) = ?full m"
    using assms(1,2) by (simp_all add: capture_path_def path_fits_def)
  then have "?full n = ?full m" using assms(3) by simp
  then show ?thesis by (simp add: show_nat_inject)
qed

text \<open>Each capture that ends normally has its own file, and the loop goes on with the next number.\<close>

lemma capture_loop_files:
  assumes "list_all2 (good_run bld (rw_rx w)) rs outs"
    and "\<forall>r \<in> set rs. busy bld (rr_events r)"
    and "\<forall>i < length rs. path_fits args (k + i)" and "int (k + length rs) \<le> INT_MAX"
    and "\<forall>i < length rs. rw_fs w (capture_path args (int (k + i))) = None"
  shows "\<exists>w'. capture_loop bld args (int k) DXWIFI_RX_NORMAL (rs @ rest) w =
       capture_loop bld args (int (k + length rs)) DXWIFI_RX_NORMAL rest w' \<and>
     same_rx (rw_rx w') (rw_rx w) \<and>
     (\<forall>i < length rs. rw_fs w' (capture_path args (int (k + i))) = Some (outs ! i)) \<and>
     (\<forall>p. (\<forall>i < length rs. p \<noteq> capture_path args (int (k + i))) \<longrightarrow> rw_fs w' p = rw_fs w p)"
  using assms
proof (induction rs arbitrary: k w outs)
  case (Cons r rs)
  let ?p = "\<lambda>n. capture_path args (int n)"
  obtain out os where outs: "outs = out # os" and good: "good_run bld (rw_rx w) r out"
    and goods: "list_all2 (good_run bld (rw_rx w)) rs os"
    using Cons.prems(1) by (cases outs) auto
  have fresh: "rw_fs w (?p k) = None" using Cons.prems(5)[rule_format, of 0] by simp
  obtain w1 where w1: "open_file_and_capture bld (?p k) (rx_append args) r w = Some (Inr (DXWIFI_RX_NORMAL, w1))"
    "same_rx (rw_rx w1) (rw_rx w)" "rw_fs w1 = (rw_fs w)(?p k \<mapsto> out)"
    using open_file_and_capture_ok[OF good, of "?p k" "rx_append args"] Cons.prems(2) fresh by auto
  have fits: "\<forall>i < length rs. path_fits args (Suc k + i)" using Cons.prems(3) by auto
  have dist: "?p (Suc k + i) \<noteq> ?p k" if "i < length rs" for i
    using capture_path_distinct[of args "Suc k + i" k] fits that Cons.prems(3)[rule_format, of 0] by auto
  have "\<forall>i < length rs. rw_fs w1 (?p (Suc k + i)) = None"
    using Cons.prems(5) dist unfolding w1(3) by (auto simp del: of_nat_Suc of_nat_add)
  moreover have "list_all2 (good_run bld (rw_rx w1)) rs os"
    using goods good_run_same(1)[OF w1(2)] by (simp add: list_all2_conv_all_nth)
  ultimately obtain w' where IH: "capture_loop bld args (int (Suc k)) DXWIFI_RX_NORMAL (rs @ rest) w1 =
       capture_loop bld args (int (Suc k + length rs)) DXWIFI_RX_NORMAL rest w'"
     "same_rx (rw_rx w') (rw_rx w1)"
     "\<forall>i < length rs. rw_fs w' (?p (Suc k + i)) = Some (os ! i)"
     "\<forall>p. (\<forall>i < length rs. p \<noteq> ?p (Suc k + i)) \<longrightarrow> rw_fs w' p = rw_fs w1 p"
    using Cons.IH[of w1 os "Suc k"] Cons.prems(2,4) fits by auto
  have "fits_int (int k + 1)" using Cons.prems(4) by (simp add: fits_int_def INT_MIN_def)
  then have step: "capture_loop bld args (int k) DXWIFI_RX_NORMAL ((r # rs) @ rest) w =
      capture_loop bld args (int (Suc k)) DXWIFI_RX_NORMAL (rs @ rest) w1"
    using w1(1) by (simp add: capture_loop.simps[of _ _ "int k"] add.commute)
  have own: "rw_fs w' (?p k) = Some out"
  proof -
    have "\<forall>i < length rs. ?p k \<noteq> ?p (Suc k + i)" using dist by metis
    then have "rw_fs w' (?p k) = rw_fs w1 (?p k)" using IH(4) by blast
    then show ?thesis using w1(3) by simp
  qed
  show ?case
  proof (intro exI[of _ w'] conjI allI impI)
    show "capture_loop bld args (int k) DXWIFI_RX_NORMAL ((r # rs) @ rest) w =
      capture_loop bld args (int (k + length (r # rs))) DXWIFI_RX_NORMAL rest w'"
      unfolding step IH(1) by simp
    show "same_rx (rw_rx w') (rw_rx w)" using IH(2) w1(2) by (rule same_rx_trans)
    show "rw_fs w' (?p (k + i)) = Some (outs ! i)" if "i < length (r # rs)" for i
      using own IH(3) that outs by (cases i) (auto simp del: of_nat_Suc of_nat_add)
    show "rw_fs w' p = rw_fs w p" if "\<forall>i < length (r # rs). p \<noteq> ?p (k + i)" for p
    proof -
      have "p \<noteq> ?p k" using that[rule_format, of 0] by simp
      moreover have "p \<noteq> ?p (Suc k + i)" if "i < length rs" for i
        using \<open>\<forall>i < length (r # rs). p \<noteq> ?p (k + i)\<close>[rule_format, of "Suc i"] that by simp
      ultimately show ?thesis using IH(4) w1(3) by auto
    qed
  qed
qed (use assms in auto)


text \<open>A capture in which nothing arrives before the timeout.\<close>

definition timeout_event :: rx_event where
  "timeout_event = \<lparr>rx_stop_poll = False, rx_poll = 0, rx_packets = [], rx_dispatch = 0, rx_stop_after = False\<rparr>"

lemma timeout_capture:
  assumes "config_ok rx" and "rr_opens r" and "0 \<le> rr_fd r" and "rr_events r = [timeout_event]"
  shows "good_run bld rx r []"
    and "setup_handlers_and_capture bld r rx fd = Some (Inr (state, rx', fd')) \<Longrightarrow> state = DXWIFI_RX_TIMED_OUT"
proof -
  have "session bld 0 [timeout_event] = Some []"
    by (simp add: turn_captures_def turn_stops_def timeout_event_def)
  then show "good_run bld rx r []"
    using assms session_fits_config[of rx "[]"] by (simp add: good_run_def numbers_ok_def flush_out_def Let_def)
  assume run: "setup_handlers_and_capture bld r rx fd = Some (Inr (state, rx', fd'))"
  define f0 where "f0 = (init_frame_controller rx fd)\<lparr>fc_rx := (fc_rx (init_frame_controller rx fd))\<lparr>rx_activated := True\<rparr>\<rparr>"
  define f1 where "f1 = set_capture_state DXWIFI_RX_TIMED_OUT (f0\<lparr>fc_rx := (fc_rx f0)\<lparr>rx_activated := False\<rparr>\<rparr>)"
  have f0: "rx_activated (fc_rx f0)" "\<not> end_capture f0" by (simp_all add: f0_def init_frame_controller_def)
  have turn: "rx_turn bld os_write f0 timeout_event = Inr f1"
    by (simp add: rx_turn_def timeout_event_def rx_signal_stop_def f1_def)
  have "\<not> rx_activated (fc_rx f1)" by (simp add: f1_def set_capture_state_def)
  then have "rx_loop bld os_write f1 [] = Some (Inr f1)" by (simp add: rx_loop.simps[of _ _ f1])
  then have loop: "rx_loop bld os_write f0 [timeout_event] = Some (Inr f1)"
    using f0 turn by (simp add: rx_loop.simps[of _ _ f0])
  have "receiver_activate_capture bld os_write (rr_fd r) (rr_stats r) rx fd (rr_events r) =
      Some (rx_finish os_write (rr_stats r) f1)"
    using assms(3) by (simp add: receiver_activate_capture_def f0_def[symmetric] assms(4) loop Let_def)
  then obtain f2 where "dump_packet_buffer os_write f1 = Inr f2" "state = capture_state (rx_stats f2)"
    using run by (auto simp: setup_handlers_and_capture_def rx_finish_def bind_res_eq_Inr Let_def
        teardown_frame_controller_def split: option.splits)
  moreover have "capture_state (rx_stats f1) = DXWIFI_RX_TIMED_OUT" by (simp add: f1_def set_capture_state_def)
  ultimately show "state = DXWIFI_RX_TIMED_OUT" using keeps.dump_packet_buffer_R[of os_write f1 f2] by (simp add: keeps_def)
qed

lemma timeout_ends_loop:
  assumes "config_ok (rw_rx w)" and "rr_opens r" and "0 \<le> rr_fd r" and "rr_events r = [timeout_event]"
    and "fits_int (cnt + 1)" and "rw_fs w (capture_path args cnt) = None"
  shows "\<exists>w'. capture_loop bld args cnt DXWIFI_RX_NORMAL (r # rest) w = Some (Inr w') \<and>
     rw_fs w' = (rw_fs w)(capture_path args cnt \<mapsto> [])"
proof -
  obtain state w' where o: "open_file_and_capture bld (capture_path args cnt) (rx_append args) r w = Some (Inr (state, w'))"
    "rw_fs w' = (rw_fs w)(capture_path args cnt \<mapsto> [])"
    using open_file_and_capture_ok[OF timeout_capture(1)[OF assms(1-4)],
        where path = "capture_path args cnt" and app = "rx_append args" and bld = bld] assms(6) by auto
  have "state = DXWIFI_RX_TIMED_OUT"
    using o(1) assms(2) timeout_capture(2)[OF assms(1-4)]
    by (auto simp: open_file_and_capture_def bind_res_eq_Inr)
  then have "capture_loop bld args cnt DXWIFI_RX_NORMAL (r # rest) w = Some (Inr w')"
    using o(1) assms(5) by (simp add: capture_loop.simps[of _ _ cnt] capture_loop.simps[of _ _ "cnt + 1"])
  then show ?thesis using o(2) by blast
qed


section \<open>Properties\<close>

text \<open>
  In file mode, with any settings the command line gives, the output file contains what the
  session puts out. With the append option that follows what the file had; without it the file
  is overwritten from its start but not truncated, so that the end of a longer old file stays
  behind the new capture.
\<close>

theorem file_mode_capture:
  assumes "rx_parse_args tests lstat 0 opts rx_default_args = Some args" and "rx_mode args = RX_FILE_MODE"
    and "rw_rx w = cli_rx args" and "good_run bld (cli_rx args) r out"
  defines "old \<equiv> (case rw_fs w (output_path args) of None \<Rightarrow> [] | Some d \<Rightarrow> d)"
  shows "\<exists>w'. receive bld args (r # rest) w = Some (Inr w') \<and>
     rw_fs w' = (rw_fs w)(output_path args \<mapsto>
       if rx_append args then old @ out else out @ drop (length out) old)"
proof -
  show ?thesis
    using open_file_and_capture_ok[of bld w r out "output_path args" "rx_append args"] assms(2-4)
    unfolding old_def by (auto simp: receive_def)
qed

definition sample_rx_args :: rx_cli_args where
  "sample_rx_args = rx_default_args\<lparr>rx_mode := RX_FILE_MODE, output_path := ''out''\<rparr>"

lemma sample_rx_args_parsed:
  "rx_parse_args False (\<lambda>p. None) 0 [(ARGP_KEY_ARG, ''out''), (ARGP_KEY_END, [])] rx_default_args = Some sample_rx_args"
  by (simp add: rx_parse_opt_def rx_key_defs rx_key_end_def Let_def sample_rx_args_def is_directory_def rx_default_args_def)

lemma sample_rx_args_sel [simp]:
  "rx_append sample_rx_args = False" "cli_rx sample_rx_args = cli_rx rx_default_args"
  "rx_mode sample_rx_args = RX_FILE_MODE" "output_path sample_rx_args = ''out''"
  "packet_buffer_size (cli_rx rx_default_args) = 5242880" "\<not> ordered (cli_rx rx_default_args)"
  "noise_value (cli_rx rx_default_args) = 0xff"
  by (simp_all add: sample_rx_args_def rx_default_args_def rx_size_defs)

text \<open>Two frames, in reverse order of their numbers, which this receiver does not look at.\<close>

definition sample_run :: "rx_event list \<Rightarrow> rx_run" where
  "sample_run es = \<lparr>rr_opens = True, rr_fd = 3, rr_events = es, rr_stats = None\<rparr>"

lemma sample_fits_default:
  "length pl \<noteq> 256 \<Longrightarrow> 0 < length pl \<Longrightarrow> length pl < 1000 \<Longrightarrow> capture_fits 5242880 (sample n pl)"
  by (auto simp: capture_fits_def sample_ok sample_fields wire_defs)

lemma default_session_fits:
  "\<forall>c \<in> set cs. capture_fits 5242880 c \<Longrightarrow> shortfalls cs \<le> 256 \<Longrightarrow>
   session_fits (cli_rx rx_default_args) cs"
  by (rule session_fits_config) (simp_all add: config_ok_def rx_size_defs)

lemma sample_run_good: "good_run sample_build (cli_rx rx_default_args) (sample_run sample_events) (replicate 300 8 @ replicate 300 7)"
proof -
  have i: "inputs (cli_rx rx_default_args) 0 sample_captures = [((0, replicate 300 8), 336), ((1, replicate 300 7), 336)]"
    by (simp add: sample_captures_def sample_data sample_fields)
  have "numbers_ok [] (inputs (cli_rx rx_default_args) 0 sample_captures)"
    unfolding i by (simp add: numbers_ok_def good_number_def INT_MAX_def)
  moreover have "session_fits (cli_rx rx_default_args) sample_captures"
    by (rule default_session_fits) (simp_all add: sample_captures_def sample_fits_default)
  moreover have "buffered (cli_rx rx_default_args) 5242880 [] 0 (inputs (cli_rx rx_default_args) 0 sample_captures) =
      replicate 300 8 @ replicate 300 7"
    unfolding i by (simp add: flush_out_def Let_def noise_before_def missing_before_def)
  ultimately show ?thesis
    by (simp add: good_run_def sample_run_def sample_session sample_captures_facts)
qed

text \<open>An old file of 601 bytes keeps its last byte.\<close>

theorem file_mode_capture_witness:
  "\<exists>w'. receive sample_build sample_rx_args [sample_run sample_events]
       \<lparr>rw_rx = cli_rx rx_default_args, rw_fs = [''out'' \<mapsto> replicate 601 1],
        rw_stdout = \<lparr>of_data = [], of_pos = 0, of_append = False\<rparr>\<rparr> = Some (Inr w') \<and>
     rw_fs w' ''out'' = Some (replicate 300 8 @ replicate 300 7 @ [1])"
proof -
  let ?w = "\<lparr>rw_rx = cli_rx rx_default_args, rw_fs = [''out'' \<mapsto> replicate 601 1],
        rw_stdout = \<lparr>of_data = [], of_pos = 0, of_append = False\<rparr>\<rparr>"
  have d: "drop 600 (replicate 601 (1 :: byte)) = [1]" by (simp add: drop_replicate)
  have "good_run sample_build (cli_rx sample_rx_args) (sample_run sample_events) (replicate 300 8 @ replicate 300 7)"
    using sample_run_good by simp
  from file_mode_capture[OF sample_rx_args_parsed sample_rx_args_sel(3) _ this, of ?w "[]"]
  show ?thesis using d by (auto simp del: replicate.simps drop_replicate)
qed

text \<open>
  C12: In directory mode every transmission gets a file of its own: after any number of captures
  that end normally, the \<open>i\<close>-th file has exactly what the \<open>i\<close>-th session put out; a capture that
  times out without a frame leaves an empty file and ends the program; no other file changes.
  The names must be new and shorter than \<open>PATH_MAX\<close>.
\<close>

theorem directory_mode_files:
  assumes "rx_parse_args tests lstat 0 opts rx_default_args = Some args" and "rx_mode args = RX_DIRECTORY_MODE"
    and rx: "rw_rx w = cli_rx args"
    and runs: "list_all2 (good_run bld (cli_rx args)) rs outs" "\<forall>r \<in> set rs. busy bld (rr_events r)"
    and last: "rr_opens r" "0 \<le> rr_fd r" "rr_events r = [timeout_event]"
    and names: "\<forall>i \<le> length rs. path_fits args i \<and> rw_fs w (capture_path args (int i)) = None"
    and many: "int (length rs) < INT_MAX"
  shows "\<exists>w'. receive bld args (rs @ r # rest) w = Some (Inr w') \<and>
     (\<forall>i < length rs. rw_fs w' (capture_path args (int i)) = Some (outs ! i)) \<and>
     rw_fs w' (capture_path args (int (length rs))) = Some [] \<and>
     (\<forall>p. (\<forall>i \<le> length rs. p \<noteq> capture_path args (int i)) \<longrightarrow> rw_fs w' p = rw_fs w p)"
proof -
  let ?n = "length rs"
  have conf: "config_ok (rw_rx w)"
    using rx_parse_args_ok[OF rx_default_args_ok assms(1)] rx by (simp add: rx_args_ok_def config_ok_def)
  obtain w1 where w1: "capture_loop bld args 0 DXWIFI_RX_NORMAL (rs @ r # rest) w =
       capture_loop bld args (int ?n) DXWIFI_RX_NORMAL (r # rest) w1" "same_rx (rw_rx w1) (rw_rx w)"
     "\<forall>i < ?n. rw_fs w1 (capture_path args (int i)) = Some (outs ! i)"
     "\<forall>p. (\<forall>i < ?n. p \<noteq> capture_path args (int i)) \<longrightarrow> rw_fs w1 p = rw_fs w p"
    using capture_loop_files[of bld w rs outs args 0 "r # rest"] runs names many rx by auto
  have dist: "capture_path args (int ?n) \<noteq> capture_path args (int i)" if "i < ?n" for i
    using capture_path_distinct[of args ?n i] names that by auto
  then have "rw_fs w1 (capture_path args (int ?n)) = None" using w1(4) names by auto
  moreover have "config_ok (rw_rx w1)" using conf good_run_same(2)[OF w1(2)] by simp
  moreover have "fits_int (int ?n + 1)" using many by (simp add: fits_int_def INT_MIN_def)
  ultimately obtain w' where w': "capture_loop bld args (int ?n) DXWIFI_RX_NORMAL (r # rest) w1 = Some (Inr w')"
     "rw_fs w' = (rw_fs w1)(capture_path args (int ?n) \<mapsto> [])"
    using timeout_ends_loop[OF _ last] by blast
  have "receive bld args (rs @ r # rest) w = Some (Inr w')"
    using w1(1) w'(1) assms(2) by (simp add: receive_def capture_in_directory_def)
  then show ?thesis using w1(3,4) w'(2) dist by (intro exI[of _ w']) (auto dest: dist)
qed


definition sample_dir_args :: rx_cli_args where
  "sample_dir_args = rx_default_args\<lparr>rx_mode := RX_DIRECTORY_MODE, output_path := ''d''\<rparr>"

lemma sample_dir_args_parsed:
  "rx_parse_args False (\<lambda>p. Some \<lparr>st_mode = 0x4000, st_size = 0\<rparr>) 0 [(ARGP_KEY_ARG, ''d''), (ARGP_KEY_END, [])]
     rx_default_args = Some sample_dir_args"
  by (simp add: rx_parse_opt_def rx_key_defs rx_key_end_def Let_def sample_dir_args_def is_directory_def S_ISDIR_def
      S_IFMT_def rx_default_args_def)

lemma sample_dir_args_sel [simp]:
  "rx_append sample_dir_args = False" "cli_rx sample_dir_args = cli_rx rx_default_args"
  "rx_mode sample_dir_args = RX_DIRECTORY_MODE"
  by (simp_all add: sample_dir_args_def rx_default_args_def)

lemma sample_dir_path:
  "n < 10 \<Longrightarrow> capture_path sample_dir_args (int n) = ''d/rx_'' @ [char_of (48 + n)] @ ''.cap''"
  by (simp add: capture_path_def sample_dir_args_def rx_default_args_def RX_PATH_MAX_def show_nat.simps[of n])

text \<open>A frame and the preamble of the next transmission in one turn.\<close>

definition preamble_capture :: capture where
  "preamble_capture = sample 0 (replicate 256 0xff)"

lemma preamble_capture_facts:
  "classify (payload_of (snd preamble_capture)) = DXWIFI_CONTROL_FRAME_PREAMBLE" "\<not> is_data preamble_capture"
  "capture_fits 5242880 preamble_capture"
proof -
  have p: "payload_of (snd preamble_capture) = replicate 256 0xff" by (simp add: preamble_capture_def sample_fields)
  have "(replicate 256 (0xff :: byte)) ! 0 \<noteq> (replicate 256 0xaa) ! 0" by simp
  then have "replicate 256 (0xff :: byte) \<noteq> replicate 256 0xaa" by metis
  then show c: "classify (payload_of (snd preamble_capture)) = DXWIFI_CONTROL_FRAME_PREAMBLE"
    unfolding p classify_def DXWIFI_FRAME_CONTROL_DATA_SIZE_def by (simp del: replicate.simps)
  then show "\<not> is_data preamble_capture" by (simp add: is_data_def)
  then show "capture_fits 5242880 preamble_capture"
    by (simp add: capture_fits_def preamble_capture_def sample_ok)
qed

definition ended_run :: "byte list \<Rightarrow> rx_run" where
  "ended_run pl = sample_run [sample_turn 1 [sample 0 pl, preamble_capture]]"

lemma ended_run_good:
  assumes "length pl = 300"
  shows "good_run sample_build (cli_rx rx_default_args) (ended_run pl) pl" and "busy sample_build (rr_events (ended_run pl))"
proof -
  let ?cs = "[sample 0 pl, preamble_capture]"
  have d: "is_data (sample 0 pl)" using assms by (simp add: sample_data)
  have s: "session sample_build 0 [sample_turn 1 ?cs] = Some ?cs"
    using d by (simp add: sample_turn_def turn_captures_def turn_stops_def sample_build_def preamble_capture_facts)
  have i: "inputs (cli_rx rx_default_args) 0 ?cs = [((0, pl), 336)]"
    using d by (simp add: preamble_capture_facts sample_fields assms)
  have fits: "session_fits (cli_rx rx_default_args) ?cs"
    by (rule default_session_fits)
      (simp_all add: assms preamble_capture_facts sample_fits_default shortfall_def[of preamble_capture])
  have dc: "data_count ?cs = 1" using d by (simp add: preamble_capture_facts)
  have n: "numbers_ok [] (inputs (cli_rx rx_default_args) 0 ?cs)"
    unfolding i by (simp add: numbers_ok_def good_number_def INT_MAX_def)
  have b: "buffered (cli_rx rx_default_args) 5242880 [] 0 (inputs (cli_rx rx_default_args) 0 ?cs) = pl"
    unfolding i by (simp add: flush_out_def Let_def noise_before_def missing_before_def)
  have r: "rr_opens (ended_run pl)" "rr_fd (ended_run pl) = 3" "rr_events (ended_run pl) = [sample_turn 1 ?cs]"
    by (simp_all add: ended_run_def sample_run_def)
  show "good_run sample_build (cli_rx rx_default_args) (ended_run pl) pl"
    unfolding good_run_def r sample_rx_args_sel(5)
    using s fits n dc b r(1) by (intro conjI exI[of _ ?cs]) (simp_all del: inputs.simps session.simps)
  show "busy sample_build (rr_events (ended_run pl))"
    unfolding r by (simp add: busy_def sample_turn_def sample_build_def)
qed

theorem directory_mode_files_witness:
  "\<exists>w'. receive sample_build sample_dir_args
       [ended_run (replicate 300 1), ended_run (replicate 300 2), sample_run [timeout_event]]
       \<lparr>rw_rx = cli_rx rx_default_args, rw_fs = Map.empty,
        rw_stdout = \<lparr>of_data = [], of_pos = 0, of_append = False\<rparr>\<rparr> = Some (Inr w') \<and>
     rw_fs w' ''d/rx_0.cap'' = Some (replicate 300 1) \<and> rw_fs w' ''d/rx_1.cap'' = Some (replicate 300 2) \<and>
     rw_fs w' ''d/rx_2.cap'' = Some [] \<and> rw_fs w' ''other'' = None"
proof -
  let ?w = "\<lparr>rw_rx = cli_rx rx_default_args, rw_fs = Map.empty,
        rw_stdout = \<lparr>of_data = [], of_pos = 0, of_append = False\<rparr>\<rparr>"
  let ?rs = "[ended_run (replicate 300 1), ended_run (replicate 300 2)]"
  have fit: "path_fits sample_dir_args i" if "i \<le> 2" for i
    using that by (simp add: path_fits_def sample_dir_args_def rx_default_args_def RX_PATH_MAX_def show_nat.simps[of i])
  have r: "rr_opens (sample_run es)" "rr_fd (sample_run es) = 3" "rr_events (sample_run es) = es" for es
    by (simp_all add: sample_run_def)
  have "\<exists>w'. receive sample_build sample_dir_args (?rs @ sample_run [timeout_event] # []) ?w = Some (Inr w') \<and>
     (\<forall>i < length ?rs. rw_fs w' (capture_path sample_dir_args (int i)) = Some ([replicate 300 1, replicate 300 2] ! i)) \<and>
     rw_fs w' (capture_path sample_dir_args (int (length ?rs))) = Some [] \<and>
     (\<forall>p. (\<forall>i \<le> length ?rs. p \<noteq> capture_path sample_dir_args (int i)) \<longrightarrow> rw_fs w' p = rw_fs ?w p)"
  proof (rule directory_mode_files[OF sample_dir_args_parsed])
    show "list_all2 (good_run sample_build (cli_rx sample_dir_args)) ?rs [replicate 300 1, replicate 300 2]"
      by (simp add: ended_run_good)
    show "\<forall>r \<in> set ?rs. busy sample_build (rr_events r)" by (simp add: ended_run_good)
    show "\<forall>i \<le> length ?rs. path_fits sample_dir_args i \<and> rw_fs ?w (capture_path sample_dir_args (int i)) = None"
      using fit by simp
  qed (simp_all add: r INT_MAX_def)
  then obtain w' where w': "receive sample_build sample_dir_args (?rs @ sample_run [timeout_event] # []) ?w = Some (Inr w')"
     "\<forall>i < 2. rw_fs w' (capture_path sample_dir_args (int i)) = Some ([replicate 300 1, replicate 300 2] ! i)"
     "rw_fs w' (capture_path sample_dir_args (int 2)) = Some []"
     "\<forall>p. (\<forall>i \<le> 2. p \<noteq> capture_path sample_dir_args (int i)) \<longrightarrow> rw_fs w' p = None"
    by auto
  have c: "char_of (48 + 0 :: nat) = CHR ''0''" "char_of (48 + 1 :: nat) = CHR ''1''" "char_of (48 + 2 :: nat) = CHR ''2''"
    by code_simp+
  have "rw_fs w' ''d/rx_0.cap'' = Some (replicate 300 1)"
    using w'(2)[rule_format, of 0] sample_dir_path[of 0] c by simp
  moreover have "rw_fs w' ''d/rx_1.cap'' = Some (replicate 300 2)"
    using w'(2)[rule_format, of 1] sample_dir_path[of 1] c by simp
  moreover have "rw_fs w' ''d/rx_2.cap'' = Some []"
    using w'(3) sample_dir_path[of 2] c by simp
  moreover have "\<forall>i \<le> 2. ''other'' \<noteq> capture_path sample_dir_args (int i)"
    using sample_dir_path by simp
  then have "rw_fs w' ''other'' = None" using w'(4) by blast
  ultimately show ?thesis using w'(1) by simp
qed

lemma stopped_capture:
  assumes "receiver_activate_capture bld wr sfd ps rx fd [e] = Some (Inr (rx', fd', st))" and "rx_stop_after e"
  shows "\<not> rx_activated rx'"
proof -
  define f0 where "f0 = (init_frame_controller rx fd)\<lparr>fc_rx := (fc_rx (init_frame_controller rx fd))\<lparr>rx_activated := True\<rparr>\<rparr>"
  obtain f1 f2 where l: "rx_loop bld wr f0 [e] = Some (Inr f1)" and d: "dump_packet_buffer wr f1 = Inr f2"
    and r: "rx' = fc_rx f2"
    using assms(1)
    by (auto simp: receiver_activate_capture_def f0_def Let_def rx_finish_def bind_res_eq_Inr
        teardown_frame_controller_def split: if_splits option.splits)
  have f0: "rx_activated (fc_rx f0)" "\<not> end_capture f0" by (simp_all add: f0_def init_frame_controller_def)
  obtain u where u: "rx_turn bld wr f0 e = Inr u"
    using l f0 by (cases "rx_turn bld wr f0 e") (simp_all add: rx_loop.simps[of _ _ f0])
  have off: "\<not> rx_activated (fc_rx u)"
    using u assms(2) by (auto simp: rx_turn_def Let_def bind_res_eq_Inr rx_signal_stop_def receiver_stop_capture_def)
  then have "f1 = u" using l f0 u by (simp add: rx_loop.simps[of _ _ f0] rx_loop.simps[of _ _ u])
  then show ?thesis using off r keeps.dump_packet_buffer_R[OF d] by (simp add: keeps_def)
qed

text \<open>
  In directory mode a stop request that arrives while frames are processed is lost. Here the
  capture consists of one turn without a preamble, so that it is the request that ends it, with
  the receiver deactivated; but its state is "normal", and the program goes on to capture into the
  next file instead of ending.
\<close>

theorem stop_while_processing_is_lost:
  assumes "good_run bld (rw_rx w) r out" and "rr_events r = [e]"
    and "0 < rx_poll e" and "\<not> dxwifi_tests bld" and "rx_stop_after e"
    and "\<not> second_preamble 0 (rx_packets e)" and "fits_int (cnt + 1)"
  shows "\<exists>w'. capture_loop bld args cnt DXWIFI_RX_NORMAL (r # rest) w =
       capture_loop bld args (cnt + 1) DXWIFI_RX_NORMAL rest w' \<and> \<not> rx_activated (rw_rx w') \<and>
     rw_fs w' (capture_path args cnt) \<noteq> None"
proof -
  have "busy bld (rr_events r)" using assms(2-4) by (simp add: busy_def)
  then obtain w' where w': "open_file_and_capture bld (capture_path args cnt) (rx_append args) r w =
       Some (Inr (DXWIFI_RX_NORMAL, w'))" "rw_fs w' (capture_path args cnt) \<noteq> None"
    using open_file_and_capture_ok[OF assms(1), where path = "capture_path args cnt" and app = "rx_append args"]
    by fastforce
  then have "\<not> rx_activated (rw_rx w')"
    using assms(1,2,5) stopped_capture[of bld os_write "rr_fd r" "rr_stats r" "rw_rx w" _ e]
    by (fastforce simp: open_file_and_capture_def setup_handlers_and_capture_def bind_res_eq_Inr good_run_def)
  then show ?thesis using w' assms(7) by (auto simp: capture_loop.simps[of _ _ cnt])
qed

theorem stop_while_processing_is_lost_witness:
  "\<exists>w'. capture_loop sample_build sample_dir_args 0 DXWIFI_RX_NORMAL
       (sample_run [(sample_turn 1 [sample 0 (replicate 300 1)])\<lparr>rx_stop_after := True\<rparr>] # [])
       \<lparr>rw_rx = cli_rx rx_default_args, rw_fs = Map.empty,
        rw_stdout = \<lparr>of_data = [], of_pos = 0, of_append = False\<rparr>\<rparr> =
     capture_loop sample_build sample_dir_args 1 DXWIFI_RX_NORMAL [] w' \<and> \<not> rx_activated (rw_rx w')"
proof -
  let ?e = "(sample_turn 1 [sample 0 (replicate 300 1)])\<lparr>rx_stop_after := True\<rparr>"
  let ?cs = "[sample 0 (replicate 300 1)]"
  let ?w = "\<lparr>rw_rx = cli_rx rx_default_args, rw_fs = Map.empty,
        rw_stdout = \<lparr>of_data = [], of_pos = 0, of_append = False\<rparr>\<rparr>"
  have d: "is_data (sample 0 (replicate 300 1))" by (simp add: sample_data)
  have s: "session sample_build 0 [?e] = Some ?cs"
    by (simp add: sample_turn_def turn_captures_def turn_stops_def)
  have i: "inputs (cli_rx rx_default_args) 0 ?cs = [((0, replicate 300 1), 336)]"
    using d by (simp add: sample_fields)
  have n: "numbers_ok [] (inputs (cli_rx rx_default_args) 0 ?cs)"
    unfolding i by (simp add: numbers_ok_def good_number_def INT_MAX_def)
  have r: "rr_opens (sample_run es)" "rr_fd (sample_run es) = 3" "rr_events (sample_run es) = es" for es
    by (simp_all add: sample_run_def)
  have "session_fits (cli_rx rx_default_args) ?cs"
    by (rule default_session_fits) (simp_all add: sample_fits_default)
  moreover have "data_count ?cs = 1" using d by simp
  ultimately have "good_run sample_build (cli_rx rx_default_args) (sample_run [?e])
      (buffered (cli_rx rx_default_args) 5242880 [] 0 (inputs (cli_rx rx_default_args) 0 ?cs))"
    unfolding good_run_def r sample_rx_args_sel(5)
    using s n r(1) by (intro conjI exI[of _ ?cs]) (simp_all del: inputs.simps session.simps)
  then obtain out where g: "good_run sample_build (rw_rx ?w) (sample_run [?e]) out" by auto
  show ?thesis
    using stop_while_processing_is_lost[OF g r(3), of 0 sample_dir_args "[]"] d
    by (auto simp: sample_turn_def sample_build_def fits_int_def INT_MIN_def INT_MAX_def)
qed

end
