(* ===== verification/Link.thy ===== *)
theory Link imports TxApp RxApp begin

text \<open>
  The two programs together. A frame that was put on the air is heard with the radiotap header
  of the capturing device in place of the transmitter's and with the check sequence that the
  hardware appends; the MAC header and the payload are those that were sent. Radio transmission
  itself is not modelled: the frames a session captures are an argument.
\<close>

unbundle bit_operations_syntax

definition heard :: "byte list \<Rightarrow> byte list \<Rightarrow> byte list \<Rightarrow> capture" where
  "heard rtap fcs pkt = capture_of (radio_frame rtap (air_mac pkt) (air_payload pkt) fcs)"

text \<open>A radiotap header whose length field is right, and a check sequence of four bytes.\<close>

definition device_ok :: "byte list \<Rightarrow> byte list \<Rightarrow> bool" where
  "device_ok rtap fcs \<longleftrightarrow> 8 \<le> length rtap \<and> length rtap < 2 ^ 16 \<and>
     unat (le16_of (slice rtap 2 2)) = length rtap \<and> length fcs = IEEE80211_FCS_SIZE"

lemma air_mac_length: "air_payload pkt \<noteq> [] \<Longrightarrow> length (air_mac pkt) = 24"
  by (cases "36 < length pkt") (simp_all add: air_payload_def air_mac_def slice_def wire_defs)

lemma heard_fields:
  assumes "device_ok rtap fcs" and "air_payload pkt \<noteq> []"
  shows "payload_of (snd (heard rtap fcs pkt)) = air_payload pkt"
    and "frame_number_of (snd (heard rtap fcs pkt)) = air_number pkt"
    and "length (snd (heard rtap fcs pkt)) = length rtap + length (air_payload pkt) + 28"
    and "length (air_payload pkt) < 2 ^ 16 \<Longrightarrow> capture_ok (heard rtap fcs pkt)"
proof -
  have p: "parts_ok rtap (air_mac pkt) fcs"
    using assms air_mac_length[OF assms(2)] by (simp add: device_ok_def parts_ok_def wire_defs)
  show "payload_of (snd (heard rtap fcs pkt)) = air_payload pkt"
    "frame_number_of (snd (heard rtap fcs pkt)) = air_number pkt"
    "length (snd (heard rtap fcs pkt)) = length rtap + length (air_payload pkt) + 28"
    by (simp_all add: heard_def radio_frame_fields[OF p] air_number_def)
  show "length (air_payload pkt) < 2 ^ 16 \<Longrightarrow> capture_ok (heard rtap fcs pkt)"
    unfolding heard_def using assms(1) by (intro capture_of_ok[OF p]) (simp add: device_ok_def)
qed

text \<open>Blocks that a receiver cannot take for control frames.\<close>

definition link_block :: "'u dxwifi_transmitter \<Rightarrow> byte list \<Rightarrow> bool" where
  "link_block tx b \<longleftrightarrow> good_block tx b \<and> classify b = DXWIFI_CONTROL_FRAME_NONE"

text \<open>
  How many bytes the blocks are short of frames of the minimal size, 257 bytes with the 36 bytes
  of header and check sequence that a frame has at least. Only the last block read from a file is
  short; then this is at most 221.
\<close>

definition short_bytes :: "byte list list \<Rightarrow> nat" where
  "short_bytes bs = (\<Sum>b \<leftarrow> bs. 221 - length b)"

lemma classify_control:
  "classify (replicate DXWIFI_FRAME_CONTROL_DATA_SIZE 0xff) \<noteq> DXWIFI_CONTROL_FRAME_NONE"
  "classify (replicate DXWIFI_FRAME_CONTROL_DATA_SIZE 0xaa) \<noteq> DXWIFI_CONTROL_FRAME_NONE"
  by (simp_all add: classify_def)

text \<open>The frames of a transmission: control frames around the data frames.\<close>

definition plain :: "byte list \<Rightarrow> bool" where
  "plain a \<longleftrightarrow> classify (air_payload a) = DXWIFI_CONTROL_FRAME_NONE"

lemma transmission_frames:
  assumes ok: "transmitter_ok tx" and good: "\<forall>b \<in> set blocks. link_block tx b"
    and run: "start_transmission port tx (map block_event blocks @ [e]) = Some (Inr s)" and final: "final_event e"
  obtains pre data post where "ts_air s = pre @ data @ post" "length pre = ctrl_copies tx"
    and "\<forall>a \<in> set pre \<union> set post. \<not> plain a" and "\<forall>a \<in> set data. plain a"
    and "map air_payload data = blocks"
    and "\<forall>a \<in> set (ts_air s). air_payload a \<noteq> [] \<and> length (air_payload a) \<le> 2048"
    and "numbering (preinjection tx) \<longrightarrow> map air_number data = map of_nat [0 ..< length blocks]"
proof -
  have g: "\<forall>b \<in> set blocks. good_block tx b" using good by (simp add: link_block_def)
  obtain pre data post where air: "ts_air s = pre @ data @ post"
    and pre: "map air_payload pre = replicate (ctrl_copies tx) (replicate DXWIFI_FRAME_CONTROL_DATA_SIZE 0xff)"
    and data: "map air_payload data = blocks"
    and post: "map air_payload post = replicate (ctrl_copies tx) (replicate DXWIFI_FRAME_CONTROL_DATA_SIZE 0xaa)"
    and num: "numbering (preinjection tx) \<longrightarrow> map air_number data = map of_nat [0 ..< length blocks]"
    using start_transmission_ok[OF ok g final, of port "[]"] run by auto
  have ctl: "air_payload a = replicate DXWIFI_FRAME_CONTROL_DATA_SIZE 0xff \<or>
      air_payload a = replicate DXWIFI_FRAME_CONTROL_DATA_SIZE 0xaa" if "a \<in> set pre \<union> set post" for a
  proof -
    have "air_payload a \<in> set (map air_payload pre) \<union> set (map air_payload post)" using that by auto
    then show ?thesis unfolding pre post by auto
  qed
  have ctl': "length (air_payload a) = 256 \<and> \<not> plain a" if "a \<in> set pre \<union> set post" for a
    using ctl[OF that] classify_control
    by (auto simp: plain_def DXWIFI_FRAME_CONTROL_DATA_SIZE_def simp del: replicate.simps)
  have lim: "blocksize tx \<le> 2048" using ok by (simp add: transmitter_ok_def wire_defs)
  have d: "plain a \<and> air_payload a \<noteq> [] \<and> length (air_payload a) \<le> 2048" if "a \<in> set data" for a
  proof -
    have "air_payload a \<in> set blocks" using that data by auto
    then show ?thesis using good lim by (auto simp: plain_def link_block_def good_block_def intro: le_trans)
  qed
  have "length pre = ctrl_copies tx" using pre by (metis length_map length_replicate)
  moreover have "air_payload a \<noteq> [] \<and> length (air_payload a) \<le> 2048" if "a \<in> set (ts_air s)" for a
    using that d ctl' unfolding air by force
  ultimately show thesis using that[OF air _ _ _ data _ num] ctl' d by blast
qed

lemma heard_fits:
  assumes "device_ok rtap fcs" and "air_payload a \<noteq> []" and "length (air_payload a) \<le> 2048"
    and "length rtap + 2076 \<le> psz"
  shows "capture_fits psz (heard rtap fcs a)"
proof -
  note h = heard_fields[OF assms(1,2)]
  have "capture_ok (heard rtap fcs a)" using assms(3) by (intro h(4)) simp
  then show ?thesis using assms by (simp add: capture_fits_def h(1,3) device_ok_def wire_defs)
qed

lemma heard_is_data:
  assumes "device_ok rtap fcs" and "air_payload a \<noteq> []"
  shows "is_data (heard rtap fcs a) \<longleftrightarrow> plain a"
  using heard_fields(1)[OF assms] by (cases "heard rtap fcs a") (simp add: is_data_def plain_def)


text \<open>The data frames among the frames heard.\<close>

lemma filter_heard:
  assumes "device_ok rtap fcs" and "\<forall>a \<in> set air. air_payload a \<noteq> []"
  shows "filter is_data (map (heard rtap fcs) air) =
     map (heard rtap fcs) (filter plain air)"
  using assms(2) by (induction air) (simp_all add: heard_is_data[OF assms(1)])

lemma data_count_filter: "data_count cs = length (filter is_data cs)"
  by (induction cs) simp_all

lemma shortfalls_filter: "shortfalls cs = sum_list (map shortfall (filter is_data cs))"
  by (induction cs) (simp_all add: shortfall_def)

lemma shortfalls_heard:
  assumes "device_ok rtap fcs" and "\<forall>a \<in> set data. air_payload a \<noteq> []"
    and "mset (filter is_data cs) = mset (map (heard rtap fcs) data)"
  shows "shortfalls cs \<le> short_bytes (map air_payload data)"
proof -
  have "mset (map shortfall (filter is_data cs)) = mset (map (shortfall \<circ> heard rtap fcs) data)"
    using assms(3) by (metis mset_map map_map)
  then have "shortfalls cs = sum_list (map (shortfall \<circ> heard rtap fcs) data)"
    unfolding shortfalls_filter by (metis sum_mset_sum_list)
  moreover have "shortfall (heard rtap fcs a) \<le> 221 - length (air_payload a)" if "a \<in> set data" for a
    using assms(1,2) that
    by (auto simp: shortfall_def heard_fields(3)[OF assms(1)] device_ok_def wire_defs)
  then have "sum_list (map (shortfall \<circ> heard rtap fcs) data) \<le> short_bytes (map air_payload data)"
    by (auto simp: short_bytes_def comp_def intro: sum_list_mono)
  ultimately show ?thesis by simp
qed

lemma sum_list_nths_le: "sum_list (nths xs B) \<le> (sum_list xs :: nat)"
  by (induction xs arbitrary: B) (auto simp: nths_Cons intro: le_trans add_mono trans_le_add2)

lemma length_nths_le: "length (nths xs B) \<le> length xs"
  by (induction xs arbitrary: B) (auto simp: nths_Cons intro: le_SucI)

text \<open>An ordered receiver's inputs are a function of the data frames.\<close>

definition ordered_input :: "capture \<Rightarrow> (u32 \<times> byte list) \<times> nat" where
  "ordered_input c = ((frame_number_of (snd c), payload_of (snd c)), length (snd c))"

lemma inputs_ordered: "ordered rx \<Longrightarrow> inputs rx n cs = map ordered_input (filter is_data cs)"
  by (induction cs arbitrary: n) (simp_all add: ordered_input_def)

text \<open>
  Which blocks are received when the frames at the positions \<open>A\<close> of the transmission are heard,
  and the frames that carry them.
\<close>

definition received :: "'u dxwifi_transmitter \<Rightarrow> nat set \<Rightarrow> byte list list \<Rightarrow> byte list option list" where
  "received tx A blocks = map (\<lambda>i. if i + ctrl_copies tx \<in> A then Some (blocks ! i) else None) [0 ..< length blocks]"

lemma numbered_received:
  assumes "map air_number data = map of_nat [k ..< k + length data]"
  shows "numbered_blocks k (map (\<lambda>i. if i \<in> B then Some (map air_payload data ! i) else None) [0 ..< length data]) =
     map (\<lambda>a. (air_number a, air_payload a)) (nths data B)"
  using assms
proof (induction data arbitrary: k B)
  case (Cons a data)
  have u: "[0 ..< length (a # data)] = 0 # map Suc [0 ..< length data]"
    by (simp add: upt_conv_Cons map_Suc_upt del: upt_Suc)
  have n: "air_number a = of_nat k" "map air_number data = map of_nat [Suc k ..< Suc k + length data]"
    using Cons.prems by (simp_all add: upt_conv_Cons del: upt_Suc)
  show ?case
    unfolding u using n(1) Cons.IH[OF n(2), of "{j. Suc j \<in> B}"] by (simp add: nths_Cons comp_def cong: if_cong)
qed simp

lemma sum_list_heard:
  assumes "device_ok rtap fcs" and "\<forall>a \<in> set air. air_payload a \<noteq> [] \<and> length (air_payload a) \<le> 2048"
  shows "sum_list (map (snd \<circ> ordered_input \<circ> heard rtap fcs) air) \<le> length air * (length rtap + 2076)"
  using assms(2)
  by (induction air) (auto simp: ordered_input_def heard_fields(3)[OF assms(1)])

text \<open>What an ordered receiver is given when it hears the frames at the positions \<open>A\<close>, in any order.\<close>

lemma link_ordered:
  assumes tx: "transmitter_ok tx" "numbering (preinjection tx)" and good: "\<forall>b \<in> set blocks. link_block tx b"
    and run: "start_transmission port tx (map block_event blocks @ [e]) = Some (Inr s)" and final: "final_event e"
    and dev: "device_ok rtap fcs" and rx: "config_ok rx" "ordered rx"
    and perm: "mset cs = mset (map (heard rtap fcs) (nths (ts_air s) A))"
    and room: "length blocks * (length rtap + 2076) < packet_buffer_size rx"
      "length rtap + 2076 \<le> packet_buffer_size rx" and short: "short_bytes blocks \<le> 256"
  shows "session_fits rx cs" and "data_count cs < 2 ^ 31"
    and "mset (map fst (inputs rx 0 cs)) = mset (numbered_blocks 0 (received tx A blocks))"
    and "0 + length (received tx A blocks) < 2 ^ 31"
    and "sum_list (map snd (inputs rx 0 cs)) < packet_buffer_size rx"
proof -
  obtain pre data post where air: "ts_air s = pre @ data @ post" "length pre = ctrl_copies tx"
    and ctl: "\<forall>a \<in> set pre \<union> set post. \<not> plain a" and pl: "\<forall>a \<in> set data. plain a"
    and data: "map air_payload data = blocks"
    and size: "\<forall>a \<in> set (ts_air s). air_payload a \<noteq> [] \<and> length (air_payload a) \<le> 2048"
    and num': "numbering (preinjection tx) \<longrightarrow> map air_number data = map of_nat [0 ..< length blocks]"
    by (rule transmission_frames[OF tx(1) good run final])
  have num: "map air_number data = map of_nat [0 ..< length blocks]" using num' tx(2) by blast
  define B where "B = {j. j + ctrl_copies tx \<in> A}"
  have len: "length data = length blocks" using data by (metis length_map)
  have sub: "set (nths (ts_air s) A) \<subseteq> set (ts_air s)" "set (nths data B) \<subseteq> set data" by (rule set_nths_subset)+
  have ds: "\<forall>a \<in> set data. air_payload a \<noteq> [] \<and> length (air_payload a) \<le> 2048" using size by (simp add: air(1))
  then have dB: "\<forall>a \<in> set (nths data B). air_payload a \<noteq> [] \<and> length (air_payload a) \<le> 2048" using sub(2) by blast
  have none: "filter plain (nths xs C) = []" if "\<forall>a \<in> set xs. \<not> plain a" for xs C
    using that set_nths_subset[of xs C] by (auto simp: filter_empty_conv)
  have all: "filter plain (nths data B) = nths data B"
    using pl sub(2) by (auto simp: filter_id_conv)
  have "filter plain (nths (ts_air s) A) = nths data B"
    using none[of pre] none[of post] ctl all by (simp add: air nths_append B_def)
  then have md: "mset (filter is_data cs) = mset (map (heard rtap fcs) (nths data B))"
    using filter_heard[OF dev, of "nths (ts_air s) A"] size sub(1) perm by (metis (no_types, lifting) mset_filter subsetD)
  have fits: "capture_fits (packet_buffer_size rx) c" if "c \<in> set cs" for c
  proof -
    have "c \<in> heard rtap fcs ` set (nths (ts_air s) A)" using that perm by (metis set_map set_mset_mset)
    then show ?thesis using heard_fits[OF dev _ _ room(2)] size sub(1) by auto
  qed
  have "shortfalls cs \<le> short_bytes (map air_payload (nths data B))"
    using shortfalls_heard[OF dev _ md] dB by simp
  also have "\<dots> \<le> short_bytes (map air_payload data)"
    unfolding short_bytes_def map_map comp_def nths_map[symmetric] by (rule sum_list_nths_le)
  finally show "session_fits rx cs" using session_fits_config[OF rx(1)] fits data short by simp
  have nl: "length (nths data B) \<le> length blocks" using len length_nths_le[of data B] by simp
  have inp: "mset (inputs rx 0 cs) = mset (map (ordered_input \<circ> heard rtap fcs) (nths data B))"
    unfolding inputs_ordered[OF rx(2)] using md by (metis mset_map map_map)
  have "map (fst \<circ> ordered_input \<circ> heard rtap fcs) (nths data B) =
      map (\<lambda>a. (air_number a, air_payload a)) (nths data B)"
    using dB by (simp add: ordered_input_def heard_fields[OF dev])
  also have "\<dots> = numbered_blocks 0 (received tx A blocks)"
    using numbered_received[of data 0 B] num unfolding data len by (simp add: received_def B_def)
  finally have nb: "map (fst \<circ> ordered_input \<circ> heard rtap fcs) (nths data B) = numbered_blocks 0 (received tx A blocks)" .
  show "mset (map fst (inputs rx 0 cs)) = mset (numbered_blocks 0 (received tx A blocks))"
    using arg_cong[OF inp, of "image_mset fst"] nb by (simp add: comp_assoc flip: mset_map)
  have "sum_list (map snd (inputs rx 0 cs)) = sum_list (map (snd \<circ> ordered_input \<circ> heard rtap fcs) (nths data B))"
    using arg_cong[OF inp, of "\<lambda>m. sum_mset (image_mset snd m)"]
    by (simp add: comp_assoc flip: mset_map sum_mset_sum_list)
  also have "\<dots> \<le> length (nths data B) * (length rtap + 2076)" by (rule sum_list_heard[OF dev dB])
  also have "\<dots> \<le> length blocks * (length rtap + 2076)" using nl by (rule mult_le_mono1)
  finally show "sum_list (map snd (inputs rx 0 cs)) < packet_buffer_size rx" using room(1) by simp
  have "length blocks \<le> length blocks * (length rtap + 2076)" by simp
  also have "\<dots> < packet_buffer_size rx" by (rule room(1))
  also have "\<dots> < 2 ^ 31" using rx(1) by (simp add: config_ok_def rx_size_defs)
  finally have small: "length blocks < 2 ^ 31" .
  then show "0 + length (received tx A blocks) < 2 ^ 31" by (simp add: received_def)
  have "data_count cs = length (nths data B)"
    unfolding data_count_filter using md by (metis size_mset length_map)
  then show "data_count cs < 2 ^ 31" using small nl by simp
qed

lemma link_unordered:
  assumes tx: "transmitter_ok tx" and good: "\<forall>b \<in> set blocks. link_block tx b"
    and run: "start_transmission port tx (map block_event blocks @ [e]) = Some (Inr s)" and final: "final_event e"
    and dev: "device_ok rtap fcs" and rx: "config_ok rx" "\<not> ordered rx" "0 \<le> fd"
    and ses: "session bld 0 es = Some (map (heard rtap fcs) (ts_air s))"
    and room: "length rtap + 2076 \<le> packet_buffer_size rx" and small: "length blocks < 2 ^ 31"
    and short: "short_bytes blocks \<le> 256"
  shows "\<exists>rx' st. receiver_activate_capture bld file_write fd ps rx out es = Some (Inr (rx', out @ concat blocks, st))"
proof -
  let ?cs = "map (heard rtap fcs) (ts_air s)"
  obtain pre data post where air: "ts_air s = pre @ data @ post" and "length pre = ctrl_copies tx"
    and ctl: "\<forall>a \<in> set pre \<union> set post. \<not> plain a" and pl: "\<forall>a \<in> set data. plain a"
    and data: "map air_payload data = blocks"
    and size: "\<forall>a \<in> set (ts_air s). air_payload a \<noteq> [] \<and> length (air_payload a) \<le> 2048"
    and "numbering (preinjection tx) \<longrightarrow> map air_number data = map of_nat [0 ..< length blocks]"
    by (rule transmission_frames[OF tx good run final])
  have ne: "\<forall>a \<in> set (ts_air s). air_payload a \<noteq> []" using size by simp
  have fits: "\<forall>c \<in> set ?cs. capture_fits (packet_buffer_size rx) c"
    using heard_fits[OF dev _ _ room] size by auto
  have "filter plain pre = []" "filter plain data = data" "filter plain post = []"
    using ctl pl by (auto simp: filter_empty_conv filter_id_conv)
  then have "filter plain (ts_air s) = data" by (simp add: air)
  then have f: "filter is_data ?cs = map (heard rtap fcs) data" using filter_heard[OF dev ne] by simp
  have nd: "\<forall>a \<in> set data. air_payload a \<noteq> []" using ne by (simp add: air)
  have "shortfalls ?cs \<le> 256" using shortfalls_heard[OF dev nd, of ?cs] f data short by simp
  then have fits: "session_fits rx ?cs" using session_fits_config[OF rx(1) fits] by blast
  from nd have "map (payload_of \<circ> snd) (map (heard rtap fcs) data) = map air_payload data"
    by (simp add: heard_fields(1)[OF dev])
  then have dp: "data_payloads ?cs = blocks" unfolding data_payloads_def f data .
  have dc: "data_count ?cs < 2 ^ 31" using small data unfolding data_count_filter f by auto
  show ?thesis
    using receiver_session[OF rx(3) ses fits numbers_ok_unordered[OF rx(2) dc], of ps out]
      buffered_unordered[OF rx(2), of "[]" 0 ?cs "packet_buffer_size rx" 0] dc dp
    by (auto simp: by_number_def)
qed


section \<open>Properties\<close>

text \<open>
  End to end, unordered. Whatever file the transmission program reads in blocks, a receiver
  that hears every frame in the order in which it was sent writes exactly the bytes of the file:
  the control frames are recognised and left out, and however often the receiver's buffer is
  flushed in between nothing is lost, repeated or reordered. Both sides have any settings that
  their command lines accept; no block is control data, and the blocks are together at most 256
  bytes short of frames of the minimal size, as those of a file are: only its last one is short.
\<close>

theorem file_transfer:
  assumes targs: "tx_parse_args tests lstat topts tx_default_args = Some targs"
    and fits: "fits_int (redundant_ctrl_frames (cli_tx targs) + 1)" "fits_int (transmit_timeout (cli_tx targs) * 1000)"
    and rargs: "rx_parse_args tests lstat 0 ropts rx_default_args = Some rargs" "\<not> ordered (cli_rx rargs)"
    and good: "\<forall>b \<in> set blocks. link_block (cli_tx targs) b" and "length blocks < 2 ^ 31"
    and "short_bytes blocks \<le> 256"
    and run: "start_transmission port (attach_all delay targs (init_transmitter (cli_tx targs)))
      (map block_event blocks @ [e]) = Some (Inr s)" and "final_event e"
    and "device_ok rtap fcs" and "length rtap \<le> 228" and "0 \<le> fd"
    and "session bld 0 es = Some (map (heard rtap fcs) (ts_air s))"
  shows "\<exists>rx' st. receiver_activate_capture bld file_write fd ps (cli_rx rargs) out es =
     Some (Inr (rx', out @ concat blocks, st))"
proof -
  have p: "preinjection (init_transmitter (cli_tx targs)) = replicate DXWIFI_TX_FRAME_HANDLER_MAX no_handler"
    "postinjection (init_transmitter (cli_tx targs)) = replicate DXWIFI_TX_FRAME_HANDLER_MAX no_handler"
    by (simp_all add: init_transmitter_def)
  have "link_block (attach_all delay targs (init_transmitter (cli_tx targs))) = link_block (cli_tx targs)"
    unfolding attach_all_pipelines[OF p] by (simp add: fun_eq_iff link_block_def good_block_def init_transmitter_def)
  moreover have "transmitter_ok (attach_all delay targs (init_transmitter (cli_tx targs)))"
    by (rule attach_all_ok[OF tx_parse_args_ok[OF tx_default_args_ok targs] fits])
  moreover have "config_ok (cli_rx rargs)" "length rtap + 2076 \<le> packet_buffer_size (cli_rx rargs)"
    using rx_parse_args_ok[OF rx_default_args_ok rargs(1)] assms(12)
    by (simp_all add: rx_args_ok_def config_ok_def rx_size_defs wire_defs)
  ultimately show ?thesis
    using link_unordered[OF _ _ run assms(10,11) _ rargs(2) assms(13,14)] good assms(7,8) by simp
qed

lemma link_sample_block: "length b \<in> {0 <.. 300} - {256} \<Longrightarrow> blocksize tx = 1024 \<Longrightarrow> link_block tx b"
  by (auto simp: link_block_def good_block_def classify_def wire_defs)

lemma link_sample_device: "device_ok rtap8 [0, 0, 0, 0]"
  by (simp add: device_ok_def rtap8_def slice_def le16_of_def wire_defs)

lemma link_sample_session: "session sample_build 0 [sample_turn 1 cs, sample_turn 0 []] = Some cs"
  by (simp add: sample_turn_def turn_captures_def turn_stops_def sample_build_def)

theorem file_transfer_witness:
  "\<exists>s rx' st. start_transmission Savefile (attach_all () tx_default_args (init_transmitter (cli_tx tx_default_args)))
       (map block_event [replicate 300 5, replicate 20 6] @ [eof_event]) = Some (Inr s) \<and>
     receiver_activate_capture sample_build file_write 3 None (cli_rx rx_default_args) []
       [sample_turn 1 (map (heard rtap8 [0, 0, 0, 0]) (ts_air s)), sample_turn 0 []] =
     Some (Inr (rx', replicate 300 5 @ replicate 20 6, st))"
proof -
  let ?tx = "attach_all () tx_default_args (init_transmitter (cli_tx tx_default_args))"
  let ?blocks = "[replicate 300 5, replicate 20 6] :: byte list list"
  have t: "tx_parse_args False (\<lambda>p. None) [] tx_default_args = Some (tx_default_args :: unit tx_cli_args)"
    and r: "rx_parse_args False (\<lambda>p. None) 0 [] rx_default_args = Some rx_default_args" by simp_all
  have f: "fits_int (redundant_ctrl_frames (cli_tx (tx_default_args :: unit tx_cli_args)) + 1)"
    "fits_int (transmit_timeout (cli_tx (tx_default_args :: unit tx_cli_args)) * 1000)"
    and bs: "blocksize (cli_tx (tx_default_args :: unit tx_cli_args)) = 1024"
    by (simp_all add: tx_default_args_def fits_int_def INT_MIN_def INT_MAX_def)
  have eof: "final_event eof_event" by (simp add: final_event_def eof_event_def)
  have bl: "blocksize ?tx = 1024"
    using attach_all_pipelines[of "init_transmitter (cli_tx tx_default_args)" "()" tx_default_args] bs
    by (simp add: init_transmitter_def)
  obtain s where s: "start_transmission Savefile ?tx (map block_event ?blocks @ [eof_event]) = Some (Inr s)"
    using start_transmission_ok[OF attach_all_ok[OF tx_default_args_ok f] _ eof, of "?blocks" "()" Savefile "[]"] bl
    by (auto simp: good_block_def)
  have "\<exists>rx' st. receiver_activate_capture sample_build file_write 3 None (cli_rx rx_default_args) []
       [sample_turn 1 (map (heard rtap8 [0, 0, 0, 0]) (ts_air s)), sample_turn 0 []] =
     Some (Inr (rx', [] @ concat ?blocks, st))"
    by (rule file_transfer[OF t f r _ _ _ _ s eof link_sample_device _ _ link_sample_session])
      (simp_all add: link_sample_block short_bytes_def bs rtap8_def)
  then show ?thesis using s by auto
qed

text \<open>The same for the two programs, with the settings of any two command lines.\<close>

lemma program_link_ordered:
  assumes targs: "tx_parse_args tests lstat topts tx_default_args = Some targs"
    and ord: "rtap_tx_flags (cli_tx targs) AND radiotap_tx_flag IEEE80211_RADIOTAP_F_TX_ORDER \<noteq> 0"
    and fits: "fits_int (redundant_ctrl_frames (cli_tx targs) + 1)" "fits_int (transmit_timeout (cli_tx targs) * 1000)"
    and rargs: "rx_parse_args tests lstat 0 ropts rx_default_args = Some rargs" "ordered (cli_rx rargs)"
    and good: "\<forall>b \<in> set blocks. link_block (cli_tx targs) b"
    and room: "length blocks * (length rtap + 2076) < packet_buffer_size (cli_rx rargs)"
    and short: "short_bytes blocks \<le> 256"
    and run: "start_transmission port (attach_all delay targs (init_transmitter (cli_tx targs)))
      (map block_event blocks @ [e]) = Some (Inr s)" and final: "final_event e"
    and dev: "device_ok rtap fcs" and small: "length rtap \<le> 228"
    and perm: "mset cs = mset (map (heard rtap fcs) (nths (ts_air s) A))"
  shows "session_fits (cli_rx rargs) cs" and "data_count cs < 2 ^ 31"
    and "mset (map fst (inputs (cli_rx rargs) 0 cs)) = mset (numbered_blocks 0 (received (cli_tx targs) A blocks))"
    and "0 + length (received (cli_tx targs) A blocks) < 2 ^ 31"
    and "sum_list (map snd (inputs (cli_rx rargs) 0 cs)) < packet_buffer_size (cli_rx rargs)"
proof -
  let ?tx = "attach_all delay targs (init_transmitter (cli_tx targs))"
  have p: "preinjection (init_transmitter (cli_tx targs)) = replicate DXWIFI_TX_FRAME_HANDLER_MAX no_handler"
    "postinjection (init_transmitter (cli_tx targs)) = replicate DXWIFI_TX_FRAME_HANDLER_MAX no_handler"
    by (simp_all add: init_transmitter_def)
  have same: "link_block ?tx = link_block (cli_tx targs)" "received ?tx A blocks = received (cli_tx targs) A blocks"
    and num: "numbering (preinjection ?tx)"
    unfolding attach_all_pipelines[OF p] using program_numbering[OF ord]
    by (simp_all add: fun_eq_iff link_block_def good_block_def init_transmitter_def received_def ctrl_copies_def)
  have ok: "transmitter_ok ?tx"
    by (rule attach_all_ok[OF tx_parse_args_ok[OF tx_default_args_ok targs] fits])
  have rx: "config_ok (cli_rx rargs)" "length rtap + 2076 \<le> packet_buffer_size (cli_rx rargs)"
    using rx_parse_args_ok[OF rx_default_args_ok rargs(1)] small
    by (simp_all add: rx_args_ok_def config_ok_def rx_size_defs wire_defs)
  have good': "\<forall>b \<in> set blocks. link_block ?tx b" using good same(1) by simp
  note l = link_ordered[OF ok num good' run final dev rx(1) rargs(2) perm room rx(2) short]
  show "session_fits (cli_rx rargs) cs" "data_count cs < 2 ^ 31"
    "sum_list (map snd (inputs (cli_rx rargs) 0 cs)) < packet_buffer_size (cli_rx rargs)"
    by (fact l(1,2,5))+
  show "mset (map fst (inputs (cli_rx rargs) 0 cs)) = mset (numbered_blocks 0 (received (cli_tx targs) A blocks))"
    "0 + length (received (cli_tx targs) A blocks) < 2 ^ 31"
    using l(3,4) by (simp_all only: same(2))
qed

text \<open>
  C3: End to end, ordered. With the option for numbered frames on both command lines, the frames
  may arrive in any order and any of them may be lost: as long as they fit in the receiver's buffer
  and none is heard twice, the output is the received blocks in the order of the file. If every
  frame is heard it is the file.
\<close>

theorem ordered_file_transfer:
  assumes targs: "tx_parse_args tests lstat topts tx_default_args = Some targs"
    and ord: "rtap_tx_flags (cli_tx targs) AND radiotap_tx_flag IEEE80211_RADIOTAP_F_TX_ORDER \<noteq> 0"
    and fits: "fits_int (redundant_ctrl_frames (cli_tx targs) + 1)" "fits_int (transmit_timeout (cli_tx targs) * 1000)"
    and rargs: "rx_parse_args tests lstat 0 ropts rx_default_args = Some rargs" "ordered (cli_rx rargs)"
      "\<not> add_noise (cli_rx rargs)"
    and good: "\<forall>b \<in> set blocks. link_block (cli_tx targs) b"
    and room: "length blocks * (length rtap + 2076) < packet_buffer_size (cli_rx rargs)" "short_bytes blocks \<le> 256"
    and run: "start_transmission port (attach_all delay targs (init_transmitter (cli_tx targs)))
      (map block_event blocks @ [e]) = Some (Inr s)" "final_event e"
    and dev: "device_ok rtap fcs" "length rtap \<le> 228"
    and rx: "0 \<le> fd" "session bld 0 es = Some cs" "mset cs = mset (map (heard rtap fcs) (nths (ts_air s) A))"
  shows "(\<exists>rx' st. receiver_activate_capture bld file_write fd ps (cli_rx rargs) out es =
       Some (Inr (rx', out @ concat (map the (filter (\<lambda>b. b \<noteq> None) (received (cli_tx targs) A blocks))), st))) \<and>
     (A = UNIV \<longrightarrow> concat (map the (filter (\<lambda>b. b \<noteq> None) (received (cli_tx targs) A blocks))) = concat blocks)"
proof
  note l = program_link_ordered[OF targs ord fits rargs(1,2) good room run dev rx(3)]
  show "\<exists>rx' st. receiver_activate_capture bld file_write fd ps (cli_rx rargs) out es =
       Some (Inr (rx', out @ concat (map the (filter (\<lambda>b. b \<noteq> None) (received (cli_tx targs) A blocks))), st))"
    using receiver_session[OF rx(1,2) l(1) one_load_sorted(2)[OF l(3-5)], of ps out] one_load_sorted(1)[OF l(3-5)] l(2)
    by (auto simp: render_no_noise[OF rargs(3)] numbered_payloads)
  have "received (cli_tx targs) UNIV blocks = map Some blocks"
    by (intro nth_equalityI) (simp_all add: received_def)
  then show "A = UNIV \<longrightarrow> concat (map the (filter (\<lambda>b. b \<noteq> None) (received (cli_tx targs) A blocks))) = concat blocks"
    by (simp add: filter_id_conv comp_def)
qed

lemma link_sample_rx_parsed:
  "rx_parse_args False (\<lambda>p. None) 0 [(111, [])] rx_default_args =
     Some (rx_default_args\<lparr>cli_rx := (cli_rx rx_default_args)\<lparr>ordered := True\<rparr>\<rparr>)"
  by (simp add: rx_parse_opt_def rx_key_defs set_rx_def rx_default_args_def)

text \<open>The frames arrive in reverse.\<close>

theorem ordered_file_transfer_witness:
  "\<exists>s rx' st. start_transmission Savefile (attach_all () sample_ordered_args (init_transmitter (cli_tx sample_ordered_args)))
       (map block_event [replicate 300 5, replicate 20 6] @ [eof_event]) = Some (Inr s) \<and>
     receiver_activate_capture sample_build file_write 3 None ((cli_rx rx_default_args)\<lparr>ordered := True\<rparr>) []
       [sample_turn 1 (map (heard rtap8 [0, 0, 0, 0]) (rev (ts_air s))), sample_turn 0 []] =
     Some (Inr (rx', replicate 300 5 @ replicate 20 6, st))"
proof -
  let ?tx = "attach_all () sample_ordered_args (init_transmitter (cli_tx sample_ordered_args))"
  let ?rx = "rx_default_args\<lparr>cli_rx := (cli_rx rx_default_args)\<lparr>ordered := True\<rparr>\<rparr>"
  let ?blocks = "[replicate 300 5, replicate 20 6] :: byte list list"
  have f: "fits_int (redundant_ctrl_frames (cli_tx sample_ordered_args) + 1)"
    "fits_int (transmit_timeout (cli_tx sample_ordered_args) * 1000)"
    and bs: "blocksize (cli_tx sample_ordered_args) = 1024"
    and o: "rtap_tx_flags (cli_tx sample_ordered_args) AND radiotap_tx_flag IEEE80211_RADIOTAP_F_TX_ORDER \<noteq> 0"
    by (simp_all add: sample_ordered_args_def tx_default_args_def fits_int_def INT_MIN_def INT_MAX_def)
  have eof: "final_event eof_event" by (simp add: final_event_def eof_event_def)
  obtain s where s: "start_transmission Savefile ?tx (map block_event ?blocks @ [eof_event]) = Some (Inr s)"
  proof -
    have ok: "tx_args_ok sample_ordered_args" by (rule tx_parse_args_ok[OF tx_default_args_ok sample_ordered_parsed])
    have "blocksize ?tx = 1024"
      using attach_all_pipelines[of "init_transmitter (cli_tx sample_ordered_args)" "()" sample_ordered_args] bs
      by (simp add: init_transmitter_def)
    then show thesis
      using start_transmission_ok[OF attach_all_ok[OF ok f] _ eof, of "?blocks" "()" Savefile "[]"] that
      by (auto simp: good_block_def)
  qed
  have x: "ordered (cli_rx ?rx)" "\<not> add_noise (cli_rx ?rx)" "packet_buffer_size (cli_rx ?rx) = 5242880"
    by (simp_all add: rx_default_args_def rx_size_defs)
  let ?cs = "map (heard rtap8 [0, 0, 0, 0]) (rev (ts_air s))"
  have run: "session sample_build 0 [sample_turn 1 ?cs, sample_turn 0 []] = Some ?cs" by (rule link_sample_session)
  have "nths (ts_air s) UNIV = ts_air s" by (simp add: nths_all)
  then have "\<exists>rx' st. receiver_activate_capture sample_build file_write 3 None (cli_rx ?rx) []
       [sample_turn 1 (map (heard rtap8 [0, 0, 0, 0]) (rev (ts_air s))), sample_turn 0 []] =
     Some (Inr (rx', [] @ concat ?blocks, st))"
    using ordered_file_transfer[OF sample_ordered_parsed o f link_sample_rx_parsed x(1,2) _ _ _ s eof
          link_sample_device _ _ run, where A = UNIV and fd = 3 and ps = None and out = "[]"]
    unfolding x(3) by (auto simp: link_sample_block short_bytes_def bs rtap8_def)
  then show ?thesis using s by auto
qed

text \<open>
  C4: End to end over a lossy link. With numbered frames on both sides and noise on, blocks of one
  size but for the last, and the first and the last block heard, the output has the length of the
  file: each received block is at its place, and each lost one is replaced by as many noise bytes.
  The frames may arrive in any order. If the last block is shorter, the one before it must be heard.
\<close>

theorem lossy_file_transfer:
  assumes targs: "tx_parse_args tests lstat topts tx_default_args = Some targs"
    and ord: "rtap_tx_flags (cli_tx targs) AND radiotap_tx_flag IEEE80211_RADIOTAP_F_TX_ORDER \<noteq> 0"
    and fits: "fits_int (redundant_ctrl_frames (cli_tx targs) + 1)" "fits_int (transmit_timeout (cli_tx targs) * 1000)"
    and rargs: "rx_parse_args tests lstat 0 ropts rx_default_args = Some rargs" "ordered (cli_rx rargs)"
      "add_noise (cli_rx rargs)"
    and good: "\<forall>b \<in> set blocks. link_block (cli_tx targs) b"
    and room: "length blocks * (length rtap + 2076) < packet_buffer_size (cli_rx rargs)" "short_bytes blocks \<le> 256"
    and run: "start_transmission port (attach_all delay targs (init_transmitter (cli_tx targs)))
      (map block_event blocks @ [e]) = Some (Inr s)" "final_event e"
    and dev: "device_ok rtap fcs" "length rtap \<le> 228"
    and rx: "0 \<le> fd" "session bld 0 es = Some cs" "mset cs = mset (map (heard rtap fcs) (nths (ts_air s) A))"
    and first: "blocks \<noteq> []" "hd (received (cli_tx targs) A blocks) \<noteq> None"
    and gaps: "gaps_sized n False (received (cli_tx targs) A blocks)"
    and sizes: "\<forall>i < length blocks. received (cli_tx targs) A blocks ! i = None \<longrightarrow> length (blocks ! i) = n"
  shows "\<exists>rx' st filled. receiver_activate_capture bld file_write fd ps (cli_rx rargs) out es =
       Some (Inr (rx', out @ concat filled, st)) \<and> length filled = length blocks \<and>
     map length filled = map length blocks \<and>
     (\<forall>i < length blocks. filled ! i = (if i + ctrl_copies (cli_tx targs) \<in> A then blocks ! i
        else replicate (length (blocks ! i)) (noise_value (cli_rx rargs))))"
proof -
  let ?r = "received (cli_tx targs) A blocks"
  let ?f = "map (\<lambda>b. case b of None \<Rightarrow> replicate n (noise_value (cli_rx rargs)) | Some p \<Rightarrow> p) ?r"
  note l = program_link_ordered[OF targs ord fits rargs(1,2) good room run dev rx(3)]
  have len: "length ?r = length blocks" by (simp add: received_def)
  have nth: "?f ! i = (if i + ctrl_copies (cli_tx targs) \<in> A then blocks ! i
        else replicate (length (blocks ! i)) (noise_value (cli_rx rargs)))" if "i < length blocks" for i
    using that sizes by (auto simp: received_def)
  have "map length ?f = map length blocks"
    using nth len by (intro nth_equalityI) (simp_all del: map_map)
  moreover have "?r \<noteq> []" using first(1) by (simp add: received_def)
  then have "\<exists>rx' st. receiver_activate_capture bld file_write fd ps (cli_rx rargs) out es =
     Some (Inr (rx', out @ concat ?f, st))"
    using noise_session[OF rargs(2,3) rx(1,2) l _ first(2) gaps, of ps out] by blast
  ultimately show ?thesis using nth len by (metis (no_types, lifting) length_map)
qed

text \<open>Four blocks, the second of which is lost, in reverse.\<close>

definition sample_noise_rx_args :: rx_cli_args where
  "sample_noise_rx_args = rx_default_args\<lparr>cli_rx := (cli_rx rx_default_args)\<lparr>ordered := True, add_noise := True\<rparr>\<rparr>"

lemma sample_noise_rx_parsed:
  "rx_parse_args False (\<lambda>p. None) 0 [(111, []), (110, [])] rx_default_args = Some sample_noise_rx_args"
  by (simp add: rx_parse_opt_def rx_key_defs set_rx_def rx_default_args_def sample_noise_rx_args_def)

theorem lossy_file_transfer_witness:
  "\<exists>s rx' st. start_transmission Savefile (attach_all () sample_ordered_args (init_transmitter (cli_tx sample_ordered_args)))
       (map block_event [replicate 300 5, replicate 300 6, replicate 300 7, replicate 20 8] @ [eof_event]) = Some (Inr s) \<and>
     receiver_activate_capture sample_build file_write 3 None (cli_rx sample_noise_rx_args) []
       [sample_turn 1 (map (heard rtap8 [0, 0, 0, 0]) (rev (nths (ts_air s) (- {2})))), sample_turn 0 []] =
     Some (Inr (rx', replicate 300 5 @ replicate 300 0xff @ replicate 300 7 @ replicate 20 8, st))"
proof -
  let ?tx = "attach_all () sample_ordered_args (init_transmitter (cli_tx sample_ordered_args))"
  let ?blocks = "[replicate 300 5, replicate 300 6, replicate 300 7, replicate 20 8] :: byte list list"
  have f: "fits_int (redundant_ctrl_frames (cli_tx sample_ordered_args) + 1)"
    "fits_int (transmit_timeout (cli_tx sample_ordered_args) * 1000)"
    and bs: "blocksize (cli_tx sample_ordered_args) = 1024" "ctrl_copies (cli_tx sample_ordered_args) = 1"
    and o: "rtap_tx_flags (cli_tx sample_ordered_args) AND radiotap_tx_flag IEEE80211_RADIOTAP_F_TX_ORDER \<noteq> 0"
    by (simp_all add: sample_ordered_args_def tx_default_args_def fits_int_def INT_MIN_def INT_MAX_def ctrl_copies_def)
  have eof: "final_event eof_event" by (simp add: final_event_def eof_event_def)
  obtain s where s: "start_transmission Savefile ?tx (map block_event ?blocks @ [eof_event]) = Some (Inr s)"
  proof -
    have ok: "tx_args_ok sample_ordered_args" by (rule tx_parse_args_ok[OF tx_default_args_ok sample_ordered_parsed])
    have "blocksize ?tx = 1024"
      using attach_all_pipelines[of "init_transmitter (cli_tx sample_ordered_args)" "()" sample_ordered_args] bs
      by (simp add: init_transmitter_def)
    then show thesis
      using start_transmission_ok[OF attach_all_ok[OF ok f] _ eof, of "?blocks" "()" Savefile "[]"] that
      by (auto simp: good_block_def)
  qed
  have x: "ordered (cli_rx sample_noise_rx_args)" "add_noise (cli_rx sample_noise_rx_args)"
    "packet_buffer_size (cli_rx sample_noise_rx_args) = 5242880" "noise_value (cli_rx sample_noise_rx_args) = 0xff"
    by (simp_all add: sample_noise_rx_args_def rx_default_args_def rx_size_defs)
  have r: "received (cli_tx sample_ordered_args) (- {2}) ?blocks =
      [Some (replicate 300 5), None, Some (replicate 300 7), Some (replicate 20 8)]"
    by (simp add: received_def bs upt_rec)
  let ?cs = "map (heard rtap8 [0, 0, 0, 0]) (rev (nths (ts_air s) (- {2})))"
  have run: "session sample_build 0 [sample_turn 1 ?cs, sample_turn 0 []] = Some ?cs" by (rule link_sample_session)
  have "\<exists>rx' st filled. receiver_activate_capture sample_build file_write 3 None (cli_rx sample_noise_rx_args) []
       [sample_turn 1 ?cs, sample_turn 0 []] = Some (Inr (rx', [] @ concat filled, st)) \<and> length filled = length ?blocks \<and>
     map length filled = map length ?blocks \<and>
     (\<forall>i < length ?blocks. filled ! i = (if i + ctrl_copies (cli_tx sample_ordered_args) \<in> - {2} then ?blocks ! i
        else replicate (length (?blocks ! i)) (noise_value (cli_rx sample_noise_rx_args))))"
  proof (rule lossy_file_transfer[OF sample_ordered_parsed o f sample_noise_rx_parsed x(1,2) _ _ _ s eof
        link_sample_device _ _ run, where n = 300])
    show "\<forall>i < length ?blocks. received (cli_tx sample_ordered_args) (- {2}) ?blocks ! i = None \<longrightarrow>
        length (?blocks ! i) = 300"
      unfolding r by (auto simp: less_Suc_eq)
  qed (simp_all only: x(3) r, simp_all add: link_sample_block short_bytes_def bs rtap8_def)
  then obtain rx' st filled where out: "receiver_activate_capture sample_build file_write 3 None (cli_rx sample_noise_rx_args) []
       [sample_turn 1 ?cs, sample_turn 0 []] = Some (Inr (rx', [] @ concat filled, st))"
    and len: "length filled = length ?blocks"
    and filled: "\<forall>i < length ?blocks. filled ! i = (if i + ctrl_copies (cli_tx sample_ordered_args) \<in> - {2} then ?blocks ! i
        else replicate (length (?blocks ! i)) (noise_value (cli_rx sample_noise_rx_args)))" by blast
  have four: "length filled = 4" using len by simp
  have nth: "filled ! 0 = replicate 300 5" "filled ! 1 = replicate 300 0xff" "filled ! 2 = replicate 300 7"
    "filled ! 3 = replicate 20 8"
    using filled[rule_format, of 0] filled[rule_format, of 1] filled[rule_format, of 2] filled[rule_format, of 3]
    by (simp_all add: bs x(4))
  have "filled = [filled ! 0, filled ! 1, filled ! 2, filled ! 3]"
    using four by (auto simp: list_eq_iff_nth_eq less_Suc_eq numeral_eq_Suc)
  then have "concat filled = replicate 300 5 @ replicate 300 0xff @ replicate 300 7 @ replicate 20 8"
    unfolding nth by (metis append_Nil2 concat.simps)
  then show ?thesis using s out by auto
qed

end
