(* ===== verification/TxDirectory.thy ===== *)
theory TxDirectory imports TxApp DirwatchSafety begin

text \<open>
  Directory mode of the transmission program, \<open>transmit_directory\<close> in \<open>dxwifi/tx/tx.c\<close>: the
  composition of the transmitter with the watcher, whose callback transmits each new file.
\<close>

subsection \<open>Files still to be sent\<close>

text \<open>
  \<open>fs\<close> are still to be sent \<open>k\<close> times each: the surroundings have the runs for it, and with what is
  on the air already they make up \<open>total_air\<close>.
\<close>

definition to_send :: "'u dxwifi_transmitter \<Rightarrow> nat \<Rightarrow> (string \<Rightarrow> byte list list) \<Rightarrow> byte list list list \<Rightarrow>
    string list \<Rightarrow> 'u tx_world \<Rightarrow> bool" where
  "to_send tx k content total_air fs w \<longleftrightarrow> same_tx (w_tx w) tx \<and>
     w_runs w = concat (map (\<lambda>f. replicate k (file_run (content f))) fs) \<and>
     map (map air_payload) (w_air w) @ concat (map (\<lambda>f. replicate k (payloads_on_air tx (content f))) fs) = total_air"

definition sendable :: "'u dxwifi_transmitter \<Rightarrow> nat \<Rightarrow> (string \<Rightarrow> bool) \<Rightarrow> (string \<Rightarrow> byte list list) \<Rightarrow> string \<Rightarrow> bool" where
  "sendable tx k opens content f \<longleftrightarrow> transmitter_ok tx \<and> 0 < k \<and> k \<le> 2 ^ 31 \<and> opens f \<and>
     (\<forall>b \<in> set (content f). good_block tx b)"

lemma send_file:
  assumes "sendable tx k opens content f" and "to_send tx k content ta (f # fs) w"
  shows "\<exists>w'. transmit_files port opens [f] (int k - 1) w = Some (Inr (DXWIFI_TX_NORMAL, w')) \<and>
     to_send tx k content ta fs w'"
proof -
  have same: "same_tx (w_tx w) tx" using assms(2) by (simp add: to_send_def)
  note e = same_tx_fields[OF same]
  obtain w' where w': "retransmit port (int k - 1) False DXWIFI_TX_NORMAL w = Some (Inr (DXWIFI_TX_NORMAL, w'))"
     "same_tx (w_tx w') (w_tx w)" "w_runs w' = concat (map (\<lambda>f. replicate k (file_run (content f))) fs)"
     "map (map air_payload) (w_air w') = map (map air_payload) (w_air w) @
       replicate k (payloads_on_air (w_tx w) (content f))"
    using retransmit_run[of w "content f" k "concat (map (\<lambda>f. replicate k (file_run (content f))) fs)" port]
      assms e by (auto simp: to_send_def sendable_def)
  have "payloads_on_air (w_tx w) (content f) = payloads_on_air tx (content f)"
    by (simp add: payloads_on_air_def e)
  then have "to_send tx k content ta fs w'"
    using assms(2) w' same by (auto simp: to_send_def intro: same_tx_trans)
  moreover have "(int k - 1 = -1) = False" using assms(1) by (simp add: sendable_def)
  ultimately show ?thesis using w'(1) assms(1) by (auto simp: transmit_files_def sendable_def)
qed

lemma send_entries:
  assumes "\<forall>n \<in> set names. fnmatch filt n \<and> is_regular_file lstat (combine_path PATH_MAX d n) \<longrightarrow>
      sendable tx k opens content (combine_path PATH_MAX d n)"
    and "to_send tx k content ta (map (combine_path PATH_MAX d)
      (filter (\<lambda>n. fnmatch filt n \<and> is_regular_file lstat (combine_path PATH_MAX d n)) names) @ fs) w"
  shows "\<exists>w'. transmit_entries port opens lstat fnmatch filt d (int k - 1) names DXWIFI_TX_NORMAL w =
       Some (Inr (DXWIFI_TX_NORMAL, w')) \<and> to_send tx k content ta fs w'"
  using assms
proof (induction names arbitrary: w)
  case (Cons n names)
  show ?case
  proof (cases "fnmatch filt n \<and> is_regular_file lstat (combine_path PATH_MAX d n)")
    case True
    then obtain w1 where w1: "transmit_files port opens [combine_path PATH_MAX d n] (int k - 1) w =
         Some (Inr (DXWIFI_TX_NORMAL, w1))"
       "to_send tx k content ta (map (combine_path PATH_MAX d)
          (filter (\<lambda>n. fnmatch filt n \<and> is_regular_file lstat (combine_path PATH_MAX d n)) names) @ fs) w1"
      using send_file[of tx k opens content "combine_path PATH_MAX d n"] Cons.prems by fastforce
    then show ?thesis using Cons.IH[OF _ w1(2)] Cons.prems(1) True by simp
  next
    case False
    then show ?thesis using Cons.IH[of w] Cons.prems by auto
  qed
qed simp

lemma send_new_file:
  assumes "sendable tx k opens content (combine_path PATH_MAX d n)"
    and "to_send tx k content ta (combine_path PATH_MAX d n # fs) w"
  shows "\<exists>w'. transmit_new_file port opens (int k - 1) (Some w) d n = Inr (Some w') \<and>
     to_send tx k content ta fs w'"
  using send_file[OF assms, of port] by (auto simp: transmit_new_file_def)

subsection \<open>Watching\<close>

definition timeout_turn :: dw_event where
  "timeout_turn = \<lparr>de_stop_poll = False, de_poll = 0, de_events = [], de_stop_after = False\<rparr>"

lemma timeout_ends_listening:
  "dw_listen dw \<Longrightarrow> dw_loop fnm h dw w (timeout_turn # es) = Some (Inr (dw\<lparr>dw_listen := False\<rparr>, w))"
  by (simp add: dw_loop.simps[of _ _ dw] dw_loop.simps[of _ _ "dw\<lparr>dw_listen := False\<rparr>"] dw_turn_def
      dw_signal_def timeout_turn_def)

text \<open>The watcher as \<open>transmit_directory\<close> sets it up.\<close>

lemma single_watch:
  assumes "0 < fd" and "0 < add_watch d (watch_mask DW_CREATE_AND_CLOSE True)"
  shows "\<exists>dw dw' i. dirwatch_init fd = Inr dw \<and>
     dirwatch_add add_watch dw d filt DW_CREATE_AND_CLOSE True = Inr (i, dw') \<and>
     watched dw' (add_watch d (watch_mask DW_CREATE_AND_CLOSE True)) 0 d filt \<and>
     files_of dw' 0 = replicate DIRWATCH_MAX Null \<and> dw_wf dw'"
proof -
  let ?k = "add_watch d (watch_mask DW_CREATE_AND_CLOSE True)"
  let ?f = "\<lambda>w. w\<lparr>wd := ?k, wd_dirname := Live d, file_filter := Live filt\<rparr>"
  obtain dw where dw: "dirwatch_init fd = Inr dw" "dw_wf dw" using init_wf[OF assms(1)] by blast
  have h: "holds dw []" by (rule holds_init[OF dw(1)])
  have slot: "watchdirs dw ! 0 = empty_watchdir" "length (watchdirs dw) = DIRWATCH_MAX"
    using h by (simp_all add: holds_def DIRWATCH_MAX_def)
  have z: "0 < DIRWATCH_MAX" by (simp add: DIRWATCH_MAX_def)
  have add: "dirwatch_add add_watch dw d filt DW_CREATE_AND_CLOSE True = Inr (0, upd_watchdir dw 0 ?f)"
    using idx_of_unknown[OF h, of d] idx_of_free[OF h] z
    by (simp add: dirwatch_add_def watch_mask_def Let_def)
  obtain ws where ws: "watchdirs dw = empty_watchdir # ws" using slot z by (cases "watchdirs dw") auto
  have "watched (upd_watchdir dw 0 ?f) ?k 0 d filt" "files_of (upd_watchdir dw 0 ?f) 0 = replicate DIRWATCH_MAX Null"
    using ws by (simp_all add: watched_def files_of_def find_watchdir_def find_by_wd_def upd_watchdir_def empty_watchdir_def)
  moreover have "dw_wf (upd_watchdir dw 0 ?f)"
    using slot assms(2) z by (intro wf_upd[OF dw(2) z]) (simp add: slot_ok_def empty_watchdir_def)
  ultimately show ?thesis using dw(1) add by blast
qed

lemma watch_sends:
  assumes fd: "0 < env_inotify_fd env" and k: "0 < env_add_watch env d (watch_mask DW_CREATE_AND_CLOSE True)"
    and fits: "fits_int (dirwatch_timeout args * 1000)"
    and events: "env_dir_events env = es @ [timeout_turn]" "\<forall>e \<in> set es. busy_turn e"
      "concat (map de_events es) = concat (map (\<lambda>n.
         [create_event (env_add_watch env d (watch_mask DW_CREATE_AND_CLOSE True)) n,
          close_event (env_add_watch env d (watch_mask DW_CREATE_AND_CLOSE True)) n]) names)"
    and names: "\<forall>n \<in> set names. env_fnmatch env (tx_file_filter args) n \<and>
      sendable tx c (env_opens env) content (combine_path PATH_MAX d n)"
    and count: "retransmit_count args = int c - 1"
    and todo: "to_send tx c content ta (map (combine_path PATH_MAX d) names) w"
  shows "\<exists>w'. watch_new_files port env args d w = Some (Inr w') \<and> to_send tx c content ta [] w'"
proof -
  let ?k = "env_add_watch env d (watch_mask DW_CREATE_AND_CLOSE True)"
  let ?h = "transmit_new_file port (env_opens env) (int c - 1)"
  let ?P = "\<lambda>ns w. \<exists>v. w = Some v \<and> to_send tx c content ta (map (combine_path PATH_MAX d) ns) v \<and> set ns \<subseteq> set names"
  obtain dw dw1 i where dw: "dirwatch_init (env_inotify_fd env) = Inr dw"
    "dirwatch_add (env_add_watch env) dw d (tx_file_filter args) DW_CREATE_AND_CLOSE True = Inr (i, dw1)"
    "watched dw1 ?k 0 d (tx_file_filter args)" "files_of dw1 0 = replicate DIRWATCH_MAX Null" "dw_wf dw1"
    using single_watch[of "env_inotify_fd env" "env_add_watch env" d "tx_file_filter args"] fd k by blast
  let ?dw = "dw1\<lparr>dw_listen := True\<rparr>"
  have start: "watched ?dw ?k 0 d (tx_file_filter args)"
    "files_of ?dw 0 = Null # replicate (DIRWATCH_MAX - 1) Null"
    using dw(3,4) by (simp_all add: watched_def find_watchdir_def files_of_def DIRWATCH_MAX_def numeral_eq_Suc)
  have step: "\<exists>w'. ?h w d n = Inr w' \<and> ?P ns w'" if "?P (n # ns) w" for n ns w
    using that names send_new_file[of tx c "env_opens env" content d n ta _ _ port] by fastforce
  have P0: "?P names (Some w)" using todo by simp
  obtain w1 gs where run: "process_events (env_fnmatch env) ?h ?dw (concat (map de_events es)) (Some w) =
       Inr (set_files ?dw 0 (Null # gs), w1)" and P1: "?P [] w1"
    using create_close_run[where h = ?h and P = ?P and names = names and fnm = "env_fnmatch env" and w = "Some w",
        OF start _ P0 step] names
    unfolding events(3) by blast
  obtain v where v: "w1 = Some v" "to_send tx c content ta [] v" using P1 by auto
  let ?dw2 = "set_files ?dw 0 (Null # gs)"
  have wf2: "dw_wf ?dw2" using process_events_safe[of ?dw ?h "env_fnmatch env" _ "Some w"] dw(5) run
    by (metis dw_wf_listen(1) safe_outcome_simps(1))
  have "dirwatch_listen (env_fnmatch env) ?h dw1 (Some w) (env_dir_events env) =
      Some (Inr (?dw2\<lparr>dw_listen := False\<rparr>, Some v))"
    unfolding dirwatch_listen_def events(1)
    by (subst dw_loop_busy[OF events(2)])
      (simp_all add: run v(1) timeout_ends_listening set_files_def upd_watchdir_def)
  moreover obtain dw3 where "dirwatch_close (?dw2\<lparr>dw_listen := False\<rparr>) = Inr dw3"
    using close_wf[of "?dw2\<lparr>dw_listen := False\<rparr>"] wf2 by auto
  ultimately show ?thesis
    using dw(1,2) fits v(2) by (simp add: watch_new_files_def count)
qed

text \<open>What directory mode puts on the air.\<close>

lemma directory_mode_air:
  assumes parsed: "tx_parse_args tests lstat opts tx_default_args = Some args"
    and mode: "tx_mode args = TX_DIRECTORY_MODE" "files args ! 0 = Some d" "listen_for_new_files args"
    and n: "0 \<le> retransmit_count args" "fits_int (retransmit_count args)"
    and fits: "fits_int (redundant_ctrl_frames (cli_tx args) + 1)"
      "fits_int (transmit_timeout (cli_tx args) * 1000)" "fits_int (dirwatch_timeout args * 1000)"
    and tx: "w_tx w = init_transmitter (cli_tx args)"
    and watch: "0 < env_inotify_fd env" "env_add_watch env d (watch_mask DW_CREATE_AND_CLOSE True) = k" "0 < k"
    and current: "env_opendir env d = Some names"
      "cur = (if transmit_current_files args then filter (\<lambda>f. env_fnmatch env (tx_file_filter args) f \<and>
         is_regular_file (env_lstat env) (combine_path PATH_MAX d f)) names else [])"
    and events: "env_dir_events env = es @ [timeout_turn]" "\<forall>e \<in> set es. busy_turn e"
      "concat (map de_events es) = concat (map (\<lambda>f. [create_event k f, close_event k f]) new)"
      "\<forall>f \<in> set new. env_fnmatch env (tx_file_filter args) f"
    and fs: "fs = map (combine_path PATH_MAX d) (cur @ new)"
    and good: "\<forall>f \<in> set fs. env_opens env f \<and> (\<forall>b \<in> set (content f). good_block (cli_tx args) b)"
    and runs: "w_runs w = concat (map (\<lambda>f. replicate (nat (retransmit_count args + 1)) (file_run (content f))) fs)"
  shows "\<exists>w'. transmit port env delay args w = Some (Inr w') \<and>
     map (map air_payload) (w_air w') = map (map air_payload) (w_air w) @
       concat (map (\<lambda>f. replicate (nat (retransmit_count args + 1)) (payloads_on_air (cli_tx args) (content f))) fs)"
proof -
  let ?tx = "attach_all delay args (w_tx w)" and ?c = "nat (retransmit_count args + 1)"
  let ?w = "w\<lparr>w_tx := ?tx\<rparr>"
  let ?ta = "map (map air_payload) (w_air w) @
       concat (map (\<lambda>f. replicate ?c (payloads_on_air (cli_tx args) (content f))) fs)"
  have p: "preinjection (w_tx w) = replicate DXWIFI_TX_FRAME_HANDLER_MAX no_handler"
    "postinjection (w_tx w) = replicate DXWIFI_TX_FRAME_HANDLER_MAX no_handler"
    by (simp_all add: tx init_transmitter_def)
  have ok: "transmitter_ok ?tx"
    using attach_all_ok[OF tx_parse_args_ok[OF tx_default_args_ok parsed] fits(1,2)] by (simp add: tx)
  have tx': "good_block ?tx = good_block (cli_tx args)" "payloads_on_air ?tx = payloads_on_air (cli_tx args)"
    unfolding attach_all_pipelines[OF p]
    by (simp_all add: tx init_transmitter_def good_block_def payloads_on_air_def ctrl_copies_def fun_eq_iff)
  have c: "0 < ?c" "?c \<le> 2 ^ 31" "int ?c - 1 = retransmit_count args"
    using n by (auto simp: fits_int_def INT_MAX_def)
  have sendable: "sendable ?tx ?c (env_opens env) content f" if "f \<in> set fs" for f
    using that good ok c(1,2) tx' by (simp add: sendable_def)
  have todo: "to_send ?tx ?c content ?ta fs ?w" using runs by (simp add: to_send_def tx')
  have "\<exists>w1. (if transmit_current_files args
       then transmit_directory_contents port (env_opens env) (env_lstat env) (env_fnmatch env)
              (env_opendir env) (tx_file_filter args) d (int ?c - 1) ?w
       else Some (Inr ?w)) = Some (Inr w1) \<and> to_send ?tx ?c content ?ta (map (combine_path PATH_MAX d) new) w1"
  proof (cases "transmit_current_files args")
    case True
    have "to_send ?tx ?c content ?ta (map (combine_path PATH_MAX d)
      (filter (\<lambda>n. env_fnmatch env (tx_file_filter args) n \<and>
         is_regular_file (env_lstat env) (combine_path PATH_MAX d n)) names) @ map (combine_path PATH_MAX d) new) ?w"
      using todo by (simp add: fs current(2) True)
    moreover have "\<forall>n \<in> set names. env_fnmatch env (tx_file_filter args) n \<and>
        is_regular_file (env_lstat env) (combine_path PATH_MAX d n) \<longrightarrow>
        sendable ?tx ?c (env_opens env) content (combine_path PATH_MAX d n)"
      using sendable by (simp add: fs current True)
    ultimately obtain w1 where "transmit_entries port (env_opens env) (env_lstat env) (env_fnmatch env)
        (tx_file_filter args) d (int ?c - 1) names DXWIFI_TX_NORMAL ?w = Some (Inr (DXWIFI_TX_NORMAL, w1))"
      "to_send ?tx ?c content ?ta (map (combine_path PATH_MAX d) new) w1"
      using send_entries[where names = names and fnmatch = "env_fnmatch env" and filt = "tx_file_filter args"
          and lstat = "env_lstat env" and d = d and fs = "map (combine_path PATH_MAX d) new" and w = ?w
          and tx = ?tx and k = ?c and content = content and opens = "env_opens env" and ta = ?ta and port = port]
      by blast
    then show ?thesis using True by (simp add: current(1) transmit_directory_contents_def)
  next
    case False
    then show ?thesis using todo by (simp add: fs current(2))
  qed
  then obtain w1 where w1: "(if transmit_current_files args
       then transmit_directory_contents port (env_opens env) (env_lstat env) (env_fnmatch env)
              (env_opendir env) (tx_file_filter args) d (retransmit_count args) ?w
       else Some (Inr ?w)) = Some (Inr w1)" "to_send ?tx ?c content ?ta (map (combine_path PATH_MAX d) new) w1"
    unfolding c(3) by blast
  obtain w2 where w2: "watch_new_files port env args d w1 = Some (Inr w2)" "to_send ?tx ?c content ?ta [] w2"
    using watch_sends[OF watch(1) _ fits(3) events(1,2) _ _ _ w1(2), where port = port] watch(2,3) events(3,4)
      sendable c(3) by (auto simp: fs)
  have "transmit port env delay args w = Some (Inr w2)"
    using w1(1) w2(1) mode by (simp add: transmit_def transmit_directory_def Let_def)
  then show ?thesis using w2(2) by (simp add: to_send_def)
qed

section \<open>Properties\<close>


definition sample_txdir_args :: "unit tx_cli_args" where
  "sample_txdir_args = tx_default_args\<lparr>tx_mode := TX_DIRECTORY_MODE,
     files := Some ''in'' # replicate 1023 None, file_count := 1, transmit_current_files := True\<rparr>"

lemma sample_txdir_parsed:
  "tx_parse_args False (\<lambda>p. Some \<lparr>st_mode = 0x4000, st_size = 0\<rparr>)
     [(ARGP_KEY_INIT, []), (directory_key INCLUDE_ALL_FLAG, []), (ARGP_KEY_ARG, ''in''), (ARGP_KEY_END, [])]
     tx_default_args = Some sample_txdir_args"
proof -
  have r: "replicate 1024 None = None # replicate 1023 (None :: string option)" by (simp add: numeral_eq_Suc)
  show ?thesis
    by (simp add: tx_parse_opt_def tx_key_defs r tx_key_end_def tx_key_arg_def TX_CLI_FILE_MAX_def
        sample_txdir_args_def tx_default_args_def is_directory_def S_ISDIR_def S_IFMT_def)
qed

text \<open>A file that is there already and a new one, whose two events come in separate turns.\<close>

definition sample_txdir_env :: tx_dir_env where
  "sample_txdir_env = \<lparr>env_opens = (\<lambda>f. True), env_lstat = (\<lambda>p. Some \<lparr>st_mode = 0x8000, st_size = 3\<rparr>),
     env_fnmatch = (\<lambda>p s. True), env_opendir = (\<lambda>d. Some [''old'']), env_inotify_fd = 3,
     env_add_watch = (\<lambda>d m. 1),
     env_dir_events = [\<lparr>de_stop_poll = False, de_poll = 1, de_events = [create_event 1 ''new''], de_stop_after = False\<rparr>,
       \<lparr>de_stop_poll = False, de_poll = 1, de_events = [close_event 1 ''new''], de_stop_after = False\<rparr>] @ [timeout_turn]\<rparr>"


end
