(* ===== verification/Logging.thy ===== *)
theory Logging imports Utils "HOL-Library.Sublist" begin

text \<open>
  \<open>libdxwifi/details/logging.h\<close>, \<open>logging.c\<close>, the level mapping of \<open>syslogger.h\<close> and the
  message of \<open>assert.h\<close>: log levels and modules, the lookup of a file's module, the handler
  table and its filter, and the hexdump formatter. A module is its number (the C enumeration is
  unsigned and indexes the tables); a logger is any value that the log records, and a delivered
  message is its logger with the module, the level and the text.
\<close>

unbundle bit_operations_syntax

subsection \<open>Levels and modules\<close>

datatype dxwifi_log_level =
    DXWIFI_LOG_OFF | DXWIFI_LOG_FATAL | DXWIFI_LOG_ERROR | DXWIFI_LOG_WARN
  | DXWIFI_LOG_INFO | DXWIFI_LOG_DEBUG | DXWIFI_LOG_TRACE

fun log_level_value :: "dxwifi_log_level \<Rightarrow> nat" where
  "log_level_value DXWIFI_LOG_OFF = 0"
| "log_level_value DXWIFI_LOG_FATAL = 1"
| "log_level_value DXWIFI_LOG_ERROR = 2"
| "log_level_value DXWIFI_LOG_WARN = 3"
| "log_level_value DXWIFI_LOG_INFO = 4"
| "log_level_value DXWIFI_LOG_DEBUG = 5"
| "log_level_value DXWIFI_LOG_TRACE = 6"

text \<open>The code compares levels as the numbers of the enumeration: from the most to the least severe.\<close>

instantiation dxwifi_log_level :: linorder
begin

definition less_eq_dxwifi_log_level :: "dxwifi_log_level \<Rightarrow> dxwifi_log_level \<Rightarrow> bool" where
  "less_eq_dxwifi_log_level l l' \<longleftrightarrow> log_level_value l \<le> log_level_value l'"

definition less_dxwifi_log_level :: "dxwifi_log_level \<Rightarrow> dxwifi_log_level \<Rightarrow> bool" where
  "less_dxwifi_log_level l l' \<longleftrightarrow> log_level_value l < log_level_value l'"

instance
proof
  fix l l' :: dxwifi_log_level
  show "l \<le> l' \<Longrightarrow> l' \<le> l \<Longrightarrow> l = l'"
    by (cases l; cases l') (simp_all add: less_eq_dxwifi_log_level_def)
qed (auto simp: less_eq_dxwifi_log_level_def less_dxwifi_log_level_def)

end

lemmas log_level_order = less_eq_dxwifi_log_level_def less_dxwifi_log_level_def

type_synonym dxwifi_log_module = nat

definition DXWIFI_LOG_GENERIC :: dxwifi_log_module where "DXWIFI_LOG_GENERIC = 0"
definition DXWIFI_LOG_TRANSMITTER :: dxwifi_log_module where "DXWIFI_LOG_TRANSMITTER = 1"
definition DXWIFI_LOG_TX :: dxwifi_log_module where "DXWIFI_LOG_TX = 2"
definition DXWIFI_LOG_RECEIVER :: dxwifi_log_module where "DXWIFI_LOG_RECEIVER = 3"
definition DXWIFI_LOG_RX :: dxwifi_log_module where "DXWIFI_LOG_RX = 4"
definition DXWIFI_DIRWATCH :: dxwifi_log_module where "DXWIFI_DIRWATCH = 5"
definition DXWIFI_LOG_MODULE_COUNT :: dxwifi_log_module where "DXWIFI_LOG_MODULE_COUNT = 6"
definition DXWIFI_LOG_ALL_MODULES :: dxwifi_log_module where "DXWIFI_LOG_ALL_MODULES = 7"

lemmas log_module_defs = DXWIFI_LOG_GENERIC_def DXWIFI_LOG_TRANSMITTER_def DXWIFI_LOG_TX_def
  DXWIFI_LOG_RECEIVER_def DXWIFI_LOG_RX_def DXWIFI_DIRWATCH_def DXWIFI_LOG_MODULE_COUNT_def
  DXWIFI_LOG_ALL_MODULES_def

fun log_level_to_str :: "dxwifi_log_level \<Rightarrow> string" where
  "log_level_to_str DXWIFI_LOG_TRACE = ''TRACE''"
| "log_level_to_str DXWIFI_LOG_DEBUG = ''DEBUG''"
| "log_level_to_str DXWIFI_LOG_INFO = ''INFO''"
| "log_level_to_str DXWIFI_LOG_WARN = ''WARN''"
| "log_level_to_str DXWIFI_LOG_ERROR = ''ERROR''"
| "log_level_to_str DXWIFI_LOG_FATAL = ''FATAL''"
| "log_level_to_str DXWIFI_LOG_OFF = ''UNKNOWN''"

definition file_lookup_tbl :: "string list" where
  "file_lookup_tbl = [''generic'', ''transmitter'', ''tx'', ''receiver'', ''rx'', ''dirwatch'']"

definition log_module_to_str :: "dxwifi_log_module \<Rightarrow> string" where
  "log_module_to_str m =
     (if m < DXWIFI_LOG_MODULE_COUNT then file_lookup_tbl ! m else file_lookup_tbl ! 0)"

subsection \<open>The module of a file\<close>

text \<open>
  POSIX \<open>basename\<close>: trailing slashes are dropped, then what follows the last slash is kept.
\<close>

definition c_basename :: "string \<Rightarrow> string" where
  "c_basename path =
     (let p = rev (dropWhile (\<lambda>c. c = CHR ''/'') (rev path)) in
      if path = [] then ''.''
      else if p = [] then ''/''
      else rev (takeWhile (\<lambda>c. c \<noteq> CHR ''/'') (rev p)))"

text \<open>\<open>index\<close>: the offset of the first occurrence, if any.\<close>

fun str_index :: "string \<Rightarrow> char \<Rightarrow> nat option" where
  "str_index [] c = None"
| "str_index (x # xs) c = (if x = c then Some 0 else map_option Suc (str_index xs c))"

text \<open>\<open>strncmp(a, b, n) == 0\<close> for strings without null characters.\<close>

definition strn_eq :: "string \<Rightarrow> string \<Rightarrow> nat \<Rightarrow> bool" where
  "strn_eq a b n \<longleftrightarrow> take n a = take n b"

text \<open>
  Without a dot the difference \<open>extension - bname\<close> is taken of a null pointer and converted to
  \<open>size_t\<close>; it is larger than any string, so that the comparison is of the whole names.
\<close>

fun match_module :: "string \<Rightarrow> nat \<Rightarrow> string list \<Rightarrow> dxwifi_log_module \<Rightarrow> dxwifi_log_module" where
  "match_module bname n [] m = DXWIFI_LOG_GENERIC"
| "match_module bname n (e # es) m =
     (if strn_eq bname e n then m else match_module bname n es (m + 1))"

definition file_to_log_module :: "string \<Rightarrow> dxwifi_log_module" where
  "file_to_log_module file_name =
     (let bname = c_basename file_name;
          n = (case str_index bname (CHR ''.'') of Some k \<Rightarrow> k
               | None \<Rightarrow> length bname + (\<Sum>e \<leftarrow> file_lookup_tbl. length e))
      in match_module bname n file_lookup_tbl DXWIFI_LOG_GENERIC)"

subsection \<open>Handlers\<close>

record 'l dxwifi_log_handler =
  logger :: "'l option"
  log_level :: dxwifi_log_level

definition initial_handlers :: "'l \<Rightarrow> 'l dxwifi_log_handler list" where
  "initial_handlers default_logger =
     replicate DXWIFI_LOG_MODULE_COUNT \<lparr>logger = Some default_logger, log_level = DXWIFI_LOG_FATAL\<rparr>"

definition set_logger :: "'l dxwifi_log_handler list \<Rightarrow> dxwifi_log_module \<Rightarrow> 'l option \<Rightarrow>
    bool \<times> 'l dxwifi_log_handler list" where
  "set_logger hs m l =
     (if m = DXWIFI_LOG_ALL_MODULES then (True, map (\<lambda>h. h\<lparr>logger := l\<rparr>) hs)
      else if m < DXWIFI_LOG_MODULE_COUNT then (True, hs[m := (hs ! m)\<lparr>logger := l\<rparr>])
      else (False, hs))"

definition set_log_level :: "'l dxwifi_log_handler list \<Rightarrow> dxwifi_log_module \<Rightarrow> dxwifi_log_level \<Rightarrow>
    bool \<times> 'l dxwifi_log_handler list" where
  "set_log_level hs m lvl =
     (if m = DXWIFI_LOG_ALL_MODULES then (True, map (\<lambda>h. h\<lparr>log_level := lvl\<rparr>) hs)
      else if m < DXWIFI_LOG_MODULE_COUNT then (True, hs[m := (hs ! m)\<lparr>log_level := lvl\<rparr>])
      else (False, hs))"

text \<open>\<open>__log\<close>: the message it delivers, if any; \<open>msg\<close> is the text that the format stands for.\<close>

definition log_message :: "'l dxwifi_log_handler list \<Rightarrow> dxwifi_log_level \<Rightarrow> string \<Rightarrow> string \<Rightarrow>
    ('l \<times> dxwifi_log_module \<times> dxwifi_log_level \<times> string) option" where
  "log_message hs lvl fname msg =
     (let m = file_to_log_module fname; h = hs ! m in
      case logger h of
        None \<Rightarrow> None
      | Some l \<Rightarrow> if lvl \<le> log_level h
                  then Some (l, m, lvl, msg) else None)"

text \<open>
  The macros \<open>log_fatal\<close> to \<open>log_trace\<close>, which the level of the build turns into nothing:
  \<open>LIBDXWIFI_DISABLE_LOGGING\<close>, a release build (\<open>NDEBUG\<close>), any other build.
\<close>

definition DXWIFI_LOG_LEVEL :: "bool \<Rightarrow> bool \<Rightarrow> nat" where
  "DXWIFI_LOG_LEVEL disabled release = (if disabled then 0 else if release then 4 else 6)"

definition log_macro :: "bool \<Rightarrow> bool \<Rightarrow> 'l dxwifi_log_handler list \<Rightarrow> dxwifi_log_level \<Rightarrow> string \<Rightarrow> string \<Rightarrow>
    ('l \<times> dxwifi_log_module \<times> dxwifi_log_level \<times> string) option" where
  "log_macro disabled release hs lvl fname msg =
     (if DXWIFI_LOG_LEVEL disabled release < log_level_value lvl then None else log_message hs lvl fname msg)"

text \<open>\<open>default_logger\<close>: the line on standard error and the newline on standard output.\<close>

definition default_logger :: "dxwifi_log_module \<Rightarrow> dxwifi_log_level \<Rightarrow> string \<Rightarrow> string \<times> string" where
  "default_logger m lvl msg =
     (''[ '' @ log_level_to_str lvl @ '' ][ '' @ log_module_to_str m @ '' ] : '' @ msg, [CHR 0x0A])"

text \<open>The priorities of \<open>syslog.h\<close>.\<close>

fun dxwifi_log_level_to_syslog :: "dxwifi_log_level \<Rightarrow> nat" where
  "dxwifi_log_level_to_syslog DXWIFI_LOG_FATAL = 0"
| "dxwifi_log_level_to_syslog DXWIFI_LOG_ERROR = 1"
| "dxwifi_log_level_to_syslog DXWIFI_LOG_WARN = 2"
| "dxwifi_log_level_to_syslog DXWIFI_LOG_INFO = 5"
| "dxwifi_log_level_to_syslog DXWIFI_LOG_DEBUG = 6"
| "dxwifi_log_level_to_syslog DXWIFI_LOG_TRACE = 7"
| "dxwifi_log_level_to_syslog DXWIFI_LOG_OFF = 7"

text \<open>\<open>syslogger\<close>: the priority that \<open>LOG_MAKEPRI\<close> builds with the facility, and the text, for \<open>vsyslog\<close>.\<close>

definition SYSLOG_USER :: nat where "SYSLOG_USER = 8"

definition syslogger :: "dxwifi_log_module \<Rightarrow> dxwifi_log_level \<Rightarrow> string \<Rightarrow> nat \<times> string" where
  "syslogger m lvl msg = (SYSLOG_USER OR dxwifi_log_level_to_syslog lvl, msg)"

subsection \<open>Hexdump\<close>

definition hex_digit :: "nat \<Rightarrow> char" where
  "hex_digit d = (if d < 10 then char_of (48 + d) else char_of (87 + d))"

text \<open>\<open>%0wx\<close>: the hexadecimal digits of \<open>n\<close>, at least \<open>w\<close> of them.\<close>

fun hex_pad :: "nat \<Rightarrow> nat \<Rightarrow> string" where
  "hex_pad 0 n = (if n = 0 then [] else hex_pad 0 (n div 16) @ [hex_digit (n mod 16)])"
| "hex_pad (Suc w) n = hex_pad w (n div 16) @ [hex_digit (n mod 16)]"

definition sprint_x :: "nat \<Rightarrow> nat \<Rightarrow> string" where
  "sprint_x w n = (if w = 0 \<and> n = 0 then ''0'' else hex_pad w n)"

text \<open>
  The formatter. \<open>buf\<close> is the array \<open>formatted_str\<close>; every store into it is checked. A row is
  the offset in eight digits and up to sixteen bytes.
\<close>

definition put :: "string \<Rightarrow> nat \<Rightarrow> string \<Rightarrow> (string \<times> nat) res" where
  "put buf location s = bind_res (mem_write buf location s) (\<lambda>buf. Inr (buf, location + length s))"

fun hex_bytes :: "string \<Rightarrow> nat \<Rightarrow> byte list \<Rightarrow> (string \<times> nat) res" where
  "hex_bytes buf location [] = Inr (buf, location)"
| "hex_bytes buf location (b # bs) =
     bind_res (put buf location (CHR '' '' # sprint_x 2 (unat b))) (\<lambda>(buf, location).
     hex_bytes buf location bs)"

function hex_rows :: "string \<Rightarrow> nat \<Rightarrow> nat \<Rightarrow> byte list \<Rightarrow> (string \<times> nat) res" where
  "hex_rows buf location i bs =
     (if bs = [] then Inr (buf, location)
      else bind_res (put buf location (sprint_x 8 i)) (\<lambda>(buf, location).
           bind_res (hex_bytes buf location (take 16 bs)) (\<lambda>(buf, location).
           bind_res (put buf location [CHR 0x0A]) (\<lambda>(buf, location).
           hex_rows buf location (i + length (take 16 bs)) (drop 16 bs)))))"
  by pat_completeness auto
termination by (relation "measure (\<lambda>(buf, location, i, bs). length bs)") auto

declare hex_rows.simps [simp del]

text \<open>
  \<open>__log_hexdump\<close>: \<open>size / 16\<close> rounds towards zero, the array has 57 characters per row and two
  more; the text passed to \<open>__log\<close> is what precedes the terminator.
\<close>

definition hexdump_text :: "byte list \<Rightarrow> int \<Rightarrow> string res" where
  "hexdump_text bytes sz =
     (let num_rows = (if 0 \<le> sz then sz div 16 else - ((- sz) div 16)) + 1;
          cap = num_rows * 57 + 2 in
      bind_res (guard_res (0 < cap) Bad_VLA) (\<lambda>_.
      bind_res (put (replicate (nat cap) (CHR 0x00)) 0 [CHR 0x0A]) (\<lambda>(buf, location).
      bind_res (mem_read bytes 0 (nat sz)) (\<lambda>bs.
      bind_res (hex_rows buf location 0 bs) (\<lambda>(buf, location).
      bind_res (put buf location [CHR 0x00]) (\<lambda>(buf, _).
      Inr (take location buf)))))))"

definition log_hexdump :: "'l dxwifi_log_handler list \<Rightarrow> string \<Rightarrow> byte list \<Rightarrow> int \<Rightarrow>
    ('l \<times> dxwifi_log_module \<times> dxwifi_log_level \<times> string) option res" where
  "log_hexdump hs file bytes sz =
     bind_res (hexdump_text bytes sz) (\<lambda>s. Inr (log_message hs DXWIFI_LOG_TRACE file s))"


subsection \<open>Correctness of the lookup\<close>

lemma c_basename_join:
  assumes "CHR ''/'' \<notin> set name" and "name \<noteq> []"
  shows "c_basename name = name" and "c_basename (dir @ ''/'' @ name) = name"
proof -
  obtain c r where r: "rev name = c # r" "c \<noteq> CHR ''/''"
    using assms by (cases "rev name") (auto simp: rev_eq_Cons_iff)
  have t: "takeWhile (\<lambda>c. c \<noteq> CHR ''/'') (rev name @ zs) =
      rev name @ takeWhile (\<lambda>c. c \<noteq> CHR ''/'') zs" for zs
    using assms(1) by (intro takeWhile_append2) auto
  from r have d: "dropWhile (\<lambda>c. c = CHR ''/'') (rev name @ zs) = rev name @ zs" for zs by simp
  show "c_basename name = name"
    using assms(2) d[of "[]"] t[of "[]"]
    by (simp add: c_basename_def Let_def takeWhile_eq_all_conv[THEN iffD2])
  show "c_basename (dir @ ''/'' @ name) = name"
    using assms(2) d[of "CHR ''/'' # rev dir"] t[of "CHR ''/'' # rev dir"]
    by (simp add: c_basename_def Let_def)
qed

lemma str_index_first: "c \<notin> set xs \<Longrightarrow> str_index (xs @ c # ys) c = Some (length xs)"
  by (induction xs) auto

text \<open>
  A file whose stem is in the table belongs to the module of that entry, in whatever directory
  it is and whatever its extension: no entry is a prefix of another.
\<close>

lemma match_module_stem:
  "match_module (stem @ ext) (length stem) es m =
     (case find (\<lambda>i. prefix stem (es ! i)) [0 ..< length es] of
        None \<Rightarrow> DXWIFI_LOG_GENERIC | Some i \<Rightarrow> m + i)"
proof (induction es arbitrary: m)
  case (Cons e es)
  have eq: "strn_eq (stem @ ext) e (length stem) \<longleftrightarrow> prefix stem e"
    by (auto simp: strn_eq_def prefix_def) (metis append_take_drop_id)
  have up: "[0 ..< length (e # es)] = 0 # map Suc [0 ..< length es]"
    by (simp add: map_Suc_upt upt_conv_Cons del: upt_Suc)
  have f: "find (\<lambda>i. prefix stem ((e # es) ! i)) (map Suc xs) =
      map_option Suc (find (\<lambda>i. prefix stem (es ! i)) xs)" for xs
    by (induction xs) auto
  show ?case
    unfolding up using Cons[of "m + 1"] eq f by (auto split: option.splits)
qed simp

lemma stem_unique:
  assumes "m < DXWIFI_LOG_MODULE_COUNT"
  shows "find (\<lambda>i. prefix (file_lookup_tbl ! m) (file_lookup_tbl ! i)) [0 ..< length file_lookup_tbl] = Some m"
proof -
  have "m = 0 \<or> m = 1 \<or> m = 2 \<or> m = 3 \<or> m = 4 \<or> m = 5"
    using assms by (auto simp: log_module_defs)
  then show ?thesis by (elim disjE) (simp_all add: file_lookup_tbl_def upt_conv_Cons)
qed

lemma module_stem_no_dot: "m < DXWIFI_LOG_MODULE_COUNT \<Longrightarrow>
  CHR ''.'' \<notin> set (file_lookup_tbl ! m) \<and> CHR ''/'' \<notin> set (file_lookup_tbl ! m)"
  by (auto simp: log_module_defs file_lookup_tbl_def less_Suc_eq numeral_eq_Suc)

lemma file_to_log_module_stem:
  assumes "CHR ''/'' \<notin> set stem" "CHR ''.'' \<notin> set stem" "CHR ''/'' \<notin> set ext"
  shows "file_to_log_module (dir @ ''/'' @ stem @ ''.'' @ ext) =
     (case find (\<lambda>i. prefix stem (file_lookup_tbl ! i)) [0 ..< length file_lookup_tbl] of
        None \<Rightarrow> DXWIFI_LOG_GENERIC | Some i \<Rightarrow> i)"
proof -
  have b: "c_basename (dir @ ''/'' @ stem @ ''.'' @ ext) = stem @ CHR ''.'' # ext"
    using c_basename_join(2)[of "stem @ CHR ''.'' # ext" dir] assms by simp
  have i: "str_index (stem @ CHR ''.'' # ext) (CHR ''.'') = Some (length stem)"
    using assms(2) by (rule str_index_first)
  show ?thesis
    using match_module_stem[of stem "CHR ''.'' # ext" file_lookup_tbl 0]
    by (simp only: file_to_log_module_def Let_def b i option.case)
      (simp add: DXWIFI_LOG_GENERIC_def split: option.split)
qed

subsection \<open>The hexdump stays in its array\<close>

lemma length_hex_pad: "n < 16 ^ w \<Longrightarrow> length (hex_pad w n) = w"
proof (induction w arbitrary: n)
  case (Suc w)
  then have "n div 16 < 16 ^ w" by (simp add: less_mult_imp_div_less mult.commute)
  then show ?case using Suc.IH by simp
qed simp

text \<open>The array holds the text written so far.\<close>

lemma put_prefix:
  assumes "prefix t buf" and "length t + length s \<le> length buf"
  shows "\<exists>buf'. put buf (length t) s = Inr (buf', length (t @ s)) \<and> prefix (t @ s) buf' \<and>
     length buf' = length buf"
proof -
  obtain r where r: "buf = t @ r" using assms(1) by (auto simp: prefix_def)
  then have "overwrite buf (length t) s = (t @ s) @ drop (length s) r"
    by (simp add: overwrite_def)
  then have "prefix (t @ s) (overwrite buf (length t) s)" by (metis prefixI)
  then show ?thesis using assms(2) by (simp add: put_def)
qed

definition byte_text :: "byte \<Rightarrow> string" where
  "byte_text b = CHR '' '' # sprint_x 2 (unat b)"

lemma length_byte_text [simp]: "length (byte_text b) = 3"
proof -
  have "unat b < 16 ^ 2" using unsigned_less[of b] by simp
  then show ?thesis by (simp add: byte_text_def sprint_x_def length_hex_pad)
qed

lemma length_byte_texts [simp]: "length (concat (map byte_text bs)) = 3 * length bs"
  by (induction bs) simp_all

lemma hex_bytes_ok:
  "prefix t buf \<Longrightarrow> length t + 3 * length bs \<le> length buf \<Longrightarrow>
   \<exists>buf'. hex_bytes buf (length t) bs = Inr (buf', length (t @ concat (map byte_text bs))) \<and>
     prefix (t @ concat (map byte_text bs)) buf' \<and> length buf' = length buf"
proof (induction bs arbitrary: t buf)
  case (Cons b bs)
  obtain buf1 where p: "put buf (length t) (byte_text b) = Inr (buf1, length (t @ byte_text b))"
    "prefix (t @ byte_text b) buf1" "length buf1 = length buf"
    using put_prefix[OF Cons.prems(1), of "byte_text b"] Cons.prems(2) by auto
  obtain buf2 where "hex_bytes buf1 (length (t @ byte_text b)) bs =
      Inr (buf2, length ((t @ byte_text b) @ concat (map byte_text bs)))"
    "prefix ((t @ byte_text b) @ concat (map byte_text bs)) buf2" "length buf2 = length buf1"
    using Cons.IH[OF p(2)] Cons.prems(2) p(3) by auto
  then show ?case using p by (simp flip: byte_text_def)
qed simp

fun row_texts :: "nat \<Rightarrow> byte list list \<Rightarrow> string" where
  "row_texts i [] = []"
| "row_texts i (r # rs) =
     sprint_x 8 i @ concat (map byte_text r) @ [CHR 0x0A] @ row_texts (i + length r) rs"

function chunks16 :: "byte list \<Rightarrow> byte list list" where
  "chunks16 bs = (if bs = [] then [] else take 16 bs # chunks16 (drop 16 bs))"
  by pat_completeness auto
termination by (relation "measure length") auto

declare chunks16.simps [simp del]

lemma row_count: "0 < n \<Longrightarrow> (n + 15) div 16 = Suc ((n - 16 + 15) div 16)" for n :: nat
  by (cases "n \<le> 16") (auto simp: div_eq_dividend_iff div_nat_eqI le_div_geq)

lemma array_size: "9 * ((n + 15) div 16) + 3 * n \<le> (n div 16 + 1) * 57" for n :: nat
proof -
  have "c \<le> q + 1 \<Longrightarrow> n = 16 * q + r \<Longrightarrow> r < 16 \<Longrightarrow> 9 * c + 3 * n \<le> (q + 1) * 57" for c q r :: nat
    by simp
  from this[of "(n + 15) div 16" "n div 16" "n mod 16"] show ?thesis by simp
qed

lemma hex_rows_ok:
  "prefix t buf \<Longrightarrow> i + length bs < 2 ^ 31 \<Longrightarrow>
   length t + 9 * ((length bs + 15) div 16) + 3 * length bs \<le> length buf \<Longrightarrow>
   \<exists>buf'. hex_rows buf (length t) i bs = Inr (buf', length (t @ row_texts i (chunks16 bs))) \<and>
     prefix (t @ row_texts i (chunks16 bs)) buf' \<and> length buf' = length buf \<and>
     length (row_texts i (chunks16 bs)) = 9 * ((length bs + 15) div 16) + 3 * length bs"
proof (induction "length bs" arbitrary: t buf i bs rule: less_induct)
  case less
  show ?case
  proof (cases "bs = []")
    case True
    then show ?thesis using less.prems by (simp add: hex_rows.simps chunks16.simps)
  next
    case False
    define r rest where "r = take 16 bs" and "rest = drop 16 bs"
    have rows: "(length bs + 15) div 16 = Suc ((length rest + 15) div 16)"
      using row_count[of "length bs"] False by (simp add: rest_def)
    have len: "length bs = length r + length rest" by (simp add: r_def rest_def)
    have i8: "length (sprint_x 8 i) = 8"
      using less.prems(2) by (simp add: sprint_x_def length_hex_pad)
    let ?t1 = "t @ sprint_x 8 i" and ?k = "9 * ((length rest + 15) div 16) + 3 * length rest"
    have room: "length t + 9 + 3 * length r + ?k \<le> length buf"
      using less.prems(3) rows len by simp
    obtain b1 where p1: "put buf (length t) (sprint_x 8 i) = Inr (b1, length ?t1)"
      "prefix ?t1 b1" "length b1 = length buf"
      using put_prefix[OF less.prems(1), of "sprint_x 8 i"] room i8 by auto
    let ?t2 = "?t1 @ concat (map byte_text r)"
    have "length ?t1 + 3 * length r \<le> length b1" using room i8 p1(3) by simp
    then obtain b2 where p2: "hex_bytes b1 (length ?t1) r = Inr (b2, length ?t2)"
      "prefix ?t2 b2" "length b2 = length buf"
      using hex_bytes_ok[OF p1(2)] p1(3) by metis
    let ?t3 = "?t2 @ [CHR 0x0A]"
    have l3: "length ?t3 = length t + 9 + 3 * length r" using i8 by simp
    then have "length ?t2 + length [CHR 0x0A] \<le> length b2" using room p2(3) by simp
    then obtain b3 where p3: "put b2 (length ?t2) [CHR 0x0A] = Inr (b3, length ?t3)"
      "prefix ?t3 b3" "length b3 = length buf"
      using put_prefix[OF p2(2)] p2(3) by metis
    have "length rest < length bs" using False by (cases bs) (simp_all add: rest_def)
    moreover have "i + length r + length rest < 2 ^ 31" using less.prems(2) len by simp
    moreover have "length ?t3 + 9 * ((length rest + 15) div 16) + 3 * length rest \<le> length b3"
      using room l3 p3(3) by linarith
    ultimately obtain b4 where p4: "hex_rows b3 (length ?t3) (i + length r) rest =
        Inr (b4, length (?t3 @ row_texts (i + length r) (chunks16 rest)))"
      "prefix (?t3 @ row_texts (i + length r) (chunks16 rest)) b4" "length b4 = length b3"
      "length (row_texts (i + length r) (chunks16 rest)) = ?k"
      using less.hyps[of rest ?t3 b3 "i + length r"] p3(2) by blast
    have c: "chunks16 bs = r # chunks16 rest"
      using False by (subst chunks16.simps) (simp add: r_def rest_def)
    have run: "hex_rows buf (length t) i bs = hex_rows b3 (length ?t3) (i + length r) rest"
      using False p1(1) p2(1) p3(1)
      by (subst hex_rows.simps) (simp add: r_def[symmetric] rest_def[symmetric])
    have "length (row_texts i (chunks16 bs)) = 9 * ((length bs + 15) div 16) + 3 * length bs"
      unfolding c rows using p4(4) i8 len by simp
    then show ?thesis
      unfolding run using p4(1-3) p3(3) by (simp add: c)
  qed
qed

lemma hexdump_ok:
  assumes "0 \<le> sz" and "nat sz \<le> length bytes" and "sz < 2 ^ 31"
  shows "hexdump_text bytes sz = Inr (CHR 0x0A # row_texts 0 (chunks16 (take (nat sz) bytes)))"
proof -
  define bs where "bs = take (nat sz) bytes"
  have len: "length bs = nat sz" using assms(2) by (simp add: bs_def)
  let ?cap = "(sz div 16 + 1) * 57 + 2"
  have cap: "nat ?cap = (nat sz div 16 + 1) * 57 + 2"
    using assms(1) by (simp add: nat_add_distrib nat_mult_distrib nat_div_distrib)
  have rows: "9 * ((nat sz + 15) div 16) + 3 * nat sz \<le> (nat sz div 16 + 1) * 57"
    by (rule array_size)
  define buf where "buf = replicate (nat ?cap) (CHR 0x00)"
  obtain b1 where p1: "put buf 0 [CHR 0x0A] = Inr (b1, 1)" "prefix [CHR 0x0A] b1" "length b1 = nat ?cap"
    using put_prefix[of "[]" buf "[CHR 0x0A]"] cap by (auto simp: buf_def)
  let ?t = "[CHR 0x0A] @ row_texts 0 (chunks16 bs)"
  have small: "0 + length bs < 2 ^ 31" using assms(1,3) len by simp
  have fit: "length [CHR 0x0A] + 9 * ((length bs + 15) div 16) + 3 * length bs \<le> length b1"
    using rows cap p1(3) unfolding len by simp
  obtain b2 where p2: "hex_rows b1 (length [CHR 0x0A]) 0 bs = Inr (b2, length ?t)"
    "prefix ?t b2" "length b2 = nat ?cap" "length ?t \<le> (nat sz div 16 + 1) * 57 + 1"
    using hex_rows_ok[OF p1(2) small fit] p1(3) rows unfolding len by auto
  obtain b3 where p3: "put b2 (length ?t) [CHR 0x00] = Inr (b3, length (?t @ [CHR 0x00]))"
    "prefix (?t @ [CHR 0x00]) b3"
    using put_prefix[OF p2(2), of "[CHR 0x00]"] p2(3,4) cap by auto
  have "take (length ?t) b3 = ?t" using p3(2) by (auto simp: prefix_def)
  moreover have "0 < ?cap" using assms(1) by (simp add: add_nonneg_pos)
  then have g: "guard_res (0 < ?cap) Bad_VLA = Inr ()" by (rule guard_res_simps)
  moreover have rd: "mem_read bytes 0 (nat sz) = Inr bs"
    using assms(2) by (simp add: bs_def slice_def)
  moreover have "length [CHR 0x0A] = 1" by simp
  ultimately show ?thesis
    using assms(1) p1(1) p2(1) p3(1)
    by (simp only: hexdump_text_def Let_def if_True buf_def[symmetric] g rd bind_res_simps
        prod.case bs_def[symmetric] append_Cons append_Nil)
qed

subsection \<open>Filtering\<close>

lemma match_module_less:
  "m + length es \<le> DXWIFI_LOG_MODULE_COUNT \<Longrightarrow> match_module b n es m < DXWIFI_LOG_MODULE_COUNT"
proof (induction es arbitrary: m)
  case (Cons e es)
  then show ?case by (simp add: Cons.IH[of "m + 1"])
qed (simp add: log_module_defs)

lemma file_to_log_module_less: "file_to_log_module f < DXWIFI_LOG_MODULE_COUNT"
  unfolding file_to_log_module_def Let_def
  by (rule match_module_less) (simp add: file_lookup_tbl_def log_module_defs)

section \<open>Properties\<close>

text \<open>
  Filtering. Once a level is set for all modules, a message is delivered, to the logger of
  its file's module, exactly when it is at least as severe as that level.
\<close>

theorem log_filter:
  assumes "length hs = DXWIFI_LOG_MODULE_COUNT"
  shows "log_message (snd (set_log_level hs DXWIFI_LOG_ALL_MODULES lvl)) l fname msg =
     (if l \<le> lvl
      then map_option (\<lambda>lg. (lg, file_to_log_module fname, l, msg)) (logger (hs ! file_to_log_module fname))
      else None)"
  using file_to_log_module_less[of fname] assms
  by (simp add: log_message_def set_log_level_def Let_def split: option.splits)

theorem log_filter_witness:
  "log_message (snd (set_log_level (initial_handlers ()) DXWIFI_LOG_ALL_MODULES DXWIFI_LOG_INFO))
     DXWIFI_LOG_ERROR ''src/rx.c'' ''x'' = Some ((), 4, DXWIFI_LOG_ERROR, ''x'')"
proof -
  have "file_to_log_module ''src/rx.c'' = 4"
    by (simp add: file_to_log_module_def c_basename_def strn_eq_def file_lookup_tbl_def
        DXWIFI_LOG_GENERIC_def)
  then show ?thesis
    using log_filter[of "initial_handlers ()" DXWIFI_LOG_INFO DXWIFI_LOG_ERROR "''src/rx.c''" "''x''"]
    by (simp add: initial_handlers_def log_module_defs log_level_order)
qed

text \<open>
  The module of a source file. A file that is named after a module, in any directory and
  with any extension, is logged under that module; in general it is the first module that the
  file's stem is a prefix of, so that a file \<open>t.c\<close> is logged as the transmitter.
\<close>

theorem file_module_lookup:
  assumes "CHR ''/'' \<notin> set ext"
  shows "(m < DXWIFI_LOG_MODULE_COUNT \<longrightarrow>
       file_to_log_module (dir @ ''/'' @ file_lookup_tbl ! m @ ''.'' @ ext) = m) \<and>
     file_to_log_module (dir @ ''/'' @ ''t'' @ ''.'' @ ext) = DXWIFI_LOG_TRANSMITTER"
proof -
  have "file_to_log_module (dir @ ''/'' @ file_lookup_tbl ! m @ ''.'' @ ext) = m"
    if "m < DXWIFI_LOG_MODULE_COUNT"
    using file_to_log_module_stem[of "file_lookup_tbl ! m" ext dir] module_stem_no_dot[OF that]
      stem_unique[OF that] assms by simp
  moreover have "find (\<lambda>i. prefix ''t'' (file_lookup_tbl ! i)) [0 ..< length file_lookup_tbl] = Some 1"
    by (simp add: file_lookup_tbl_def upt_conv_Cons)
  ultimately show ?thesis
    using file_to_log_module_stem[of "''t''" ext dir] assms
    by (simp add: DXWIFI_LOG_TRANSMITTER_def)
qed

theorem file_module_lookup_witness:
  "file_to_log_module ''lib/receiver.c'' = DXWIFI_LOG_RECEIVER"
  using file_module_lookup[of "''c''" 3 "''lib''"]
  by (simp add: log_module_defs file_lookup_tbl_def)



end
