(* ===== verification/Programs.thy ===== *)
theory Programs imports RxApp TxDirectory Logging begin

text \<open>
  The two \<open>main\<close> functions (\<open>dxwifi/rx/rx.c\<close>, \<open>dxwifi/tx/tx.c\<close>) with \<open>init_receiver\<close> and
  \<open>close_receiver\<close> (\<open>receiver.c\<close>), \<open>init_transmitter\<close> and \<open>close_transmitter\<close> (\<open>transmitter.c\<close>),
  and the failure of an assertion (\<open>details/assert.h\<close>).
  The pcap library is its answers; the calls that a program makes of it are recorded in order. A
  failed \<open>assert_M\<close> aborts the program, so that nothing follows the call that failed.
\<close>

subsection \<open>Assertions\<close>

definition DXWIFI_ASSERT_MSG_MAX_LEN :: nat where "DXWIFI_ASSERT_MSG_MAX_LEN = 256"

text \<open>
  \<open>__assert_M\<close> builds its message in two steps: \<open>snprintf\<close> answers with the length its text would
  have, cut or not, and the rest of the buffer is taken to begin there. With more than 256 characters
  the size left, converted to \<open>size_t\<close>, is huge and \<open>vsnprintf\<close> writes behind the buffer.
\<close>

definition assert_text :: "string \<Rightarrow> nat \<Rightarrow> string \<Rightarrow> string \<Rightarrow> string res" where
  "assert_text fname line expr msg =
     (let head_text = c_basename fname @ '':'' @ show_nat line @ '' Assertion `'' @ expr @ ''` failed : '';
          chars = length head_text
      in if DXWIFI_ASSERT_MSG_MAX_LEN < chars then Inl Out_Of_Bounds
         else Inr (take (DXWIFI_ASSERT_MSG_MAX_LEN - 1) head_text @ take (DXWIFI_ASSERT_MSG_MAX_LEN - 1 - chars) msg))"

text \<open>The message that is delivered, and whether the program goes on: \<open>exit\<close> is false in \<open>assert_continue\<close>.\<close>

definition assert_failed :: "bool \<Rightarrow> 'l dxwifi_log_handler list \<Rightarrow> string \<Rightarrow> nat \<Rightarrow> string \<Rightarrow> string \<Rightarrow>
    (('l \<times> dxwifi_log_module \<times> dxwifi_log_level \<times> string) option \<times> unit res) res" where
  "assert_failed exits hs fname line expr msg =
     bind_res (assert_text fname line expr msg) (\<lambda>txt.
     Inr (log_message hs DXWIFI_LOG_FATAL fname txt, if exits then Inl Aborted else Inr ()))"

lemma assert_text_cut:
  "assert_text fname line expr msg = Inr txt \<Longrightarrow> length txt < DXWIFI_ASSERT_MSG_MAX_LEN"
  by (auto simp: assert_text_def Let_def DXWIFI_ASSERT_MSG_MAX_LEN_def split: if_splits)

lemma assert_text_overflow:
  "DXWIFI_ASSERT_MSG_MAX_LEN \<le> length expr \<Longrightarrow> assert_text fname line expr msg = Inl Out_Of_Bounds"
  by (simp add: assert_text_def Let_def)

subsection \<open>The pcap library\<close>

datatype pcap_call =
    Open_Live string int bool int   \<comment> \<open>device, snapshot length, promiscuous, timeout\<close>
  | Open_Offline string
  | Fopen_Offline
  | Open_Dead int
  | Set_Nonblock
  | Set_Datalink
  | Compile string bool
  | Set_Filter
  | Free_Code
  | Dump_Open string
  | Dump_Fopen
  | Use_Handle                      \<comment> \<open>the captures, or the transmissions, of the program\<close>
  | Close_Handle
  | Dump_Close

definition PCAP_ERROR :: int where "PCAP_ERROR = - 1"

record pcap_env =
  env_open :: bool
  env_setnonblock :: int
  env_set_datalink :: int
  env_compile :: int
  env_setfilter :: int
  env_dump_open :: bool

text \<open>
  A call whose answer an \<open>assert_M\<close> checks, and what follows it. \<open>pcap_open_dead\<close> only fails when
  memory runs out, which is excluded here as everywhere.
\<close>

definition checked :: "pcap_call \<Rightarrow> bool \<Rightarrow> pcap_call list \<times> 'a res \<Rightarrow> pcap_call list \<times> 'a res" where
  "checked c ok k = (if ok then (c # fst k, snd k) else ([c], Inl Aborted))"

subsection \<open>The receiver\<close>

definition open_receiver :: "build \<Rightarrow> pcap_env \<Rightarrow> string option \<Rightarrow> string \<Rightarrow> dxwifi_receiver \<Rightarrow>
    pcap_call list \<times> dxwifi_receiver res" where
  "open_receiver bld env savefile device_name rx =
     (let rx = rx\<lparr>rx_activated := False\<rparr>;
          configured = checked Set_Datalink (env_set_datalink env \<noteq> PCAP_ERROR)
            (checked (Compile (rx_filter rx) (rx_optimize rx)) (env_compile env \<noteq> PCAP_ERROR)
            (checked Set_Filter (env_setfilter env \<noteq> PCAP_ERROR)
            ([Free_Code], Inr rx)))
      in if dxwifi_tests bld
         then checked (case savefile of Some f \<Rightarrow> Open_Offline f | None \<Rightarrow> Fopen_Offline) (env_open env) configured
         else checked (Open_Live device_name (rx_snaplen rx) True (rx_pb_timeout rx)) (env_open env)
           (checked Set_Nonblock (env_setnonblock env \<noteq> PCAP_ERROR) configured))"

definition close_receiver :: "pcap_call list" where
  "close_receiver = [Close_Handle]"

datatype program_logger = Default_Logger | Syslogger

text \<open>How a program ends: by \<open>exit(0)\<close>, in argp, in an abort or a crash; or it waits for ever.\<close>

datatype 'a program_end =
    Usage
  | Ended "pcap_call list" 'a
  | Crashed "pcap_call list" c_error
  | Waits "pcap_call list"

text \<open>A verbosity above 6 compares like \<open>TRACE\<close>.\<close>

definition log_level_of :: "int \<Rightarrow> dxwifi_log_level" where
  "log_level_of v =
     (if v \<le> 0 then DXWIFI_LOG_OFF else if v = 1 then DXWIFI_LOG_FATAL else if v = 2 then DXWIFI_LOG_ERROR
      else if v = 3 then DXWIFI_LOG_WARN else if v = 4 then DXWIFI_LOG_INFO else if v = 5 then DXWIFI_LOG_DEBUG
      else DXWIFI_LOG_TRACE)"

definition setup_logging :: "bool \<Rightarrow> int \<Rightarrow> program_logger dxwifi_log_handler list \<Rightarrow>
    program_logger dxwifi_log_handler list" where
  "setup_logging use_syslog verbosity hs =
     (let hs = (if use_syslog then snd (set_logger hs DXWIFI_LOG_ALL_MODULES (Some Syslogger)) else hs)
      in snd (set_log_level hs DXWIFI_LOG_ALL_MODULES (log_level_of verbosity)))"

lemma log_level_of_order: "lvl \<le> log_level_of v \<longleftrightarrow> int (log_level_value lvl) \<le> max 0 v"
  by (cases lvl) (auto simp: log_level_of_def log_level_order)

definition rx_main :: "build \<Rightarrow> pcap_env \<Rightarrow> stat_call \<Rightarrow> (int \<times> string) list \<Rightarrow> rx_run list \<Rightarrow>
    file_system \<Rightarrow> open_file \<Rightarrow> (rx_world \<times> program_logger dxwifi_log_handler list) program_end" where
  "rx_main bld env lstat opts runs fs stdout =
     (case rx_parse_args (dxwifi_tests bld) lstat 0 opts rx_default_args of
        None \<Rightarrow> Usage
      | Some args \<Rightarrow>
          let hs = setup_logging (rx_use_syslog args) (rx_verbosity args) (initial_handlers Default_Logger);
              (calls, r) = open_receiver bld env (rx_savefile args) (rx_device args) (cli_rx args)
          in (case r of
                Inl e \<Rightarrow> Crashed calls e
              | Inr rx \<Rightarrow> (case receive bld args runs \<lparr>rw_rx = rx, rw_fs = fs, rw_stdout = stdout\<rparr> of
                    None \<Rightarrow> Waits (calls @ [Use_Handle])
                  | Some (Inl e) \<Rightarrow> Crashed (calls @ [Use_Handle]) e
                  | Some (Inr w) \<Rightarrow> Ended (calls @ [Use_Handle] @ close_receiver) (w, hs))))"

subsection \<open>The transmitter\<close>

definition DLT_IEEE802_11_RADIO :: int where "DLT_IEEE802_11_RADIO = 127"

definition open_transmitter :: "build \<Rightarrow> pcap_env \<Rightarrow> string option \<Rightarrow> string \<Rightarrow> 'u dxwifi_transmitter \<Rightarrow>
    pcap_call list \<times> 'u dxwifi_transmitter res" where
  "open_transmitter bld env savefile device_name tx =
     (let tx = init_transmitter tx in
      if dxwifi_tests bld
      then ([Open_Dead DLT_IEEE802_11_RADIO, case savefile of Some f \<Rightarrow> Dump_Open f | None \<Rightarrow> Dump_Fopen],
            if env_dump_open env then Inr tx else Inl Aborted)
      else checked (Open_Live device_name (int DXWIFI_SNAPLEN_MAX) True DXWIFI_DFLT_PACKET_BUFFER_TIMEOUT) (env_open env)
             ([], Inr tx))"

definition close_transmitter :: "build \<Rightarrow> pcap_call list" where
  "close_transmitter bld = Close_Handle # (if dxwifi_tests bld then [Dump_Close] else [])"

definition tx_main :: "build \<Rightarrow> pcap_env \<Rightarrow> tx_dir_env \<Rightarrow> tx_port \<Rightarrow> 'u \<Rightarrow> stat_call \<Rightarrow> (int \<times> string) list \<Rightarrow>
    tx_run list \<Rightarrow> ('u tx_world \<times> program_logger dxwifi_log_handler list) program_end" where
  "tx_main bld env denv port delay lstat opts runs =
     (case tx_parse_args (dxwifi_tests bld) lstat opts tx_default_args of
        None \<Rightarrow> Usage
      | Some args \<Rightarrow>
          let hs = setup_logging (tx_use_syslog args) (tx_verbosity args) (initial_handlers Default_Logger);
              (calls, r) = open_transmitter bld env (tx_savefile args) (tx_device args) (cli_tx args)
          in (case r of
                Inl e \<Rightarrow> Crashed calls e
              | Inr tx \<Rightarrow> (case transmit port denv delay args \<lparr>w_tx = tx, w_runs = runs, w_air = []\<rparr> of
                    None \<Rightarrow> Waits (calls @ [Use_Handle])
                  | Some (Inl e) \<Rightarrow> Crashed (calls @ [Use_Handle]) e
                  | Some (Inr w) \<Rightarrow> Ended (calls @ [Use_Handle] @ close_transmitter bld) (w, hs))))"

subsection \<open>Types of the handle\<close>

text \<open>
  The discipline of the library as a type of the handle that each call changes: what it is, whether
  a compiled filter and a dump file are held. A call that the type does not allow has no successor.
\<close>

datatype handle_type = No_Handle | Handle bool bool | Closed_Handle bool

fun call_type :: "handle_type \<Rightarrow> pcap_call \<Rightarrow> handle_type option" where
  "call_type No_Handle (Open_Live d s p t) = Some (Handle False False)"
| "call_type No_Handle (Open_Offline f) = Some (Handle False False)"
| "call_type No_Handle Fopen_Offline = Some (Handle False False)"
| "call_type No_Handle (Open_Dead l) = Some (Handle False False)"
| "call_type (Handle c d) Set_Nonblock = Some (Handle c d)"
| "call_type (Handle c d) Set_Datalink = Some (Handle c d)"
| "call_type (Handle False d) (Compile f b) = Some (Handle True d)"
| "call_type (Handle True d) Set_Filter = Some (Handle True d)"
| "call_type (Handle True d) Free_Code = Some (Handle False d)"
| "call_type (Handle c False) (Dump_Open f) = Some (Handle c True)"
| "call_type (Handle c False) Dump_Fopen = Some (Handle c True)"
| "call_type (Handle c d) Use_Handle = Some (Handle c d)"
| "call_type (Handle False d) Close_Handle = Some (Closed_Handle d)"
| "call_type (Closed_Handle True) Dump_Close = Some (Closed_Handle False)"
| "call_type _ _ = None"

fun calls_type :: "handle_type \<Rightarrow> pcap_call list \<Rightarrow> handle_type option" where
  "calls_type t [] = Some t"
| "calls_type t (c # cs) = (case call_type t c of None \<Rightarrow> None | Some t \<Rightarrow> calls_type t cs)"

lemma calls_type_append:
  "calls_type t (cs @ ds) = (case calls_type t cs of None \<Rightarrow> None | Some t \<Rightarrow> calls_type t ds)"
  by (induction cs arbitrary: t) (auto split: option.splits)

text \<open>What a program's end owes the library: at \<open>exit(0)\<close> everything is released; before, nothing is misused.\<close>

fun well_typed :: "'a program_end \<Rightarrow> bool" where
  "well_typed Usage \<longleftrightarrow> True"
| "well_typed (Ended cs x) \<longleftrightarrow> calls_type No_Handle cs = Some (Closed_Handle False)"
| "well_typed (Crashed cs e) \<longleftrightarrow> calls_type No_Handle cs \<noteq> None"
| "well_typed (Waits cs) \<longleftrightarrow> calls_type No_Handle cs \<noteq> None"

lemma open_receiver_type:
  assumes "open_receiver bld env savefile dev rx = (cs, r)"
  shows "case r of Inl e \<Rightarrow> calls_type No_Handle cs \<noteq> None
     | Inr rx' \<Rightarrow> calls_type No_Handle cs = Some (Handle False False) \<and> rx' = rx\<lparr>rx_activated := False\<rparr>"
  using assms by (auto simp: open_receiver_def checked_def Let_def split: option.splits if_splits)

lemma open_transmitter_type:
  assumes "open_transmitter bld env savefile dev tx = (cs, r)"
  shows "case r of Inl e \<Rightarrow> calls_type No_Handle cs \<noteq> None
     | Inr tx' \<Rightarrow> calls_type No_Handle cs = Some (Handle False (dxwifi_tests bld)) \<and> tx' = init_transmitter tx"
  using assms by (auto simp: open_transmitter_def checked_def Let_def split: option.splits if_splits)

section \<open>Properties\<close>

text \<open>
  C25: Both programs use the pcap library as it requires, whatever the command line, the answers of
  the library and the events: no call is made on a handle that is not open, a filter is installed
  only when it was compiled, and when a program ends by \<open>exit(0)\<close> the handle is closed, and the
  compiled filter and the dump file of a test build are released, each exactly once.
\<close>

theorem programs_well_typed:
  "well_typed (rx_main bld env lstat opts runs fs stdout) \<and>
   well_typed (tx_main bld env denv port delay lstat opts' runs')"
proof
  show "well_typed (rx_main bld env lstat opts runs fs stdout)"
  proof (cases "rx_parse_args (dxwifi_tests bld) lstat 0 opts rx_default_args")
    case (Some args)
    obtain cs r where o: "open_receiver bld env (rx_savefile args) (rx_device args) (cli_rx args) = (cs, r)" by fastforce
    show ?thesis
      using open_receiver_type[OF o]
      by (cases r) (auto simp: rx_main_def Some o Let_def close_receiver_def calls_type_append split: option.splits sum.splits)
  qed (simp add: rx_main_def)
  show "well_typed (tx_main bld env denv port delay lstat opts' runs')"
  proof (cases "tx_parse_args (dxwifi_tests bld) lstat opts' (tx_default_args :: 'a tx_cli_args)")
    case (Some args)
    obtain cs r where o: "open_transmitter bld env (tx_savefile args) (tx_device args) (cli_tx args) = (cs, r)" by fastforce
    show ?thesis
      using open_transmitter_type[OF o]
      by (cases r) (auto simp: tx_main_def Some o Let_def close_transmitter_def calls_type_append split: option.splits sum.splits)
  qed (simp add: tx_main_def)
qed

text \<open>
  C37: The verbosity option. In each kind of build, once a program has set up its logging, a message
  of any of its files is delivered exactly when its level is within the verbosity and within the
  level of the build, to the system log if that was asked for, and under the module of the file.
\<close>

theorem verbosity_filters_messages:
  "log_macro disabled release (setup_logging use_syslog v (initial_handlers Default_Logger)) lvl fname msg =
     (if int (log_level_value lvl) \<le> max 0 v \<and> log_level_value lvl \<le> DXWIFI_LOG_LEVEL disabled release
      then Some (if use_syslog then Syslogger else Default_Logger, file_to_log_module fname, lvl, msg) else None)"
  using file_to_log_module_less[of fname]
  by (auto simp: log_macro_def log_message_def setup_logging_def set_log_level_def set_logger_def Let_def
      initial_handlers_def log_level_of_order)

text \<open>
  C11: From the command line to the file. If the capture device can be opened and set up, the
  reception program in file mode ends by \<open>exit(0)\<close> and leaves exactly one file changed: the named
  one has what the session put out, after or over what it had.
\<close>

theorem reception_program_writes_file:
  assumes "rx_parse_args (dxwifi_tests bld) lstat 0 opts rx_default_args = Some args"
    and "rx_mode args = RX_FILE_MODE" and "good_run bld (cli_rx args) r out"
    and "env_open env" and "env_setnonblock env \<noteq> PCAP_ERROR" and "env_set_datalink env \<noteq> PCAP_ERROR"
    and "env_compile env \<noteq> PCAP_ERROR" and "env_setfilter env \<noteq> PCAP_ERROR"
  shows "\<exists>calls w hs. rx_main bld env lstat opts (r # rest) fs stdout = Ended calls (w, hs) \<and>
     rw_fs w = fs(output_path args \<mapsto> (let old = (case fs (output_path args) of None \<Rightarrow> [] | Some d \<Rightarrow> d) in
       if rx_append args then old @ out else out @ drop (length out) old))"
proof -
  let ?rx = "(cli_rx args)\<lparr>rx_activated := False\<rparr>"
  let ?w = "\<lparr>rw_rx = ?rx, rw_fs = fs, rw_stdout = stdout\<rparr>"
  obtain cs where o: "open_receiver bld env (rx_savefile args) (rx_device args) (cli_rx args) = (cs, Inr ?rx)"
    using assms(4-8) by (cases "dxwifi_tests bld") (auto simp: open_receiver_def checked_def Let_def)
  have "good_run bld ?rx r out" using good_run_same(1)[of ?rx "cli_rx args" bld r out] assms(3) by simp
  then obtain state w' where w': "open_file_and_capture bld (output_path args) (rx_append args) r ?w = Some (Inr (state, w'))"
    "rw_fs w' = fs(output_path args \<mapsto> (let old = (case fs (output_path args) of None \<Rightarrow> [] | Some d \<Rightarrow> d) in
       if rx_append args then old @ out else out @ drop (length out) old))"
    using open_file_and_capture_ok[of bld ?w r out "output_path args" "rx_append args"] by (auto simp: Let_def)
  then have "receive bld args (r # rest) ?w = Some (Inr w')" using assms(2) by (simp add: receive_def)
  then show ?thesis using w'(2) by (auto simp: rx_main_def assms(1) o Let_def)
qed

theorem reception_program_writes_file_witness:
  "\<exists>calls w hs. rx_main sample_build \<lparr>env_open = True, env_setnonblock = 0, env_set_datalink = 0, env_compile = 0,
       env_setfilter = 0, env_dump_open = True\<rparr> (\<lambda>p. None) [(ARGP_KEY_ARG, ''out''), (ARGP_KEY_END, [])]
       [sample_run sample_events] Map.empty \<lparr>of_data = [], of_pos = 0, of_append = False\<rparr> = Ended calls (w, hs) \<and>
     rw_fs w ''out'' = Some (replicate 300 8 @ replicate 300 7)"
proof -
  have b: "rx_parse_args (dxwifi_tests sample_build) (\<lambda>p. None) 0 [(ARGP_KEY_ARG, ''out''), (ARGP_KEY_END, [])] rx_default_args =
      Some sample_rx_args"
    using sample_rx_args_parsed by (simp add: sample_build_def)
  have g: "good_run sample_build (cli_rx sample_rx_args) (sample_run sample_events) (replicate 300 8 @ replicate 300 7)"
    using sample_run_good by simp
  show ?thesis
    using reception_program_writes_file[OF b sample_rx_args_sel(3) g, of "\<lparr>env_open = True, env_setnonblock = 0,
        env_set_datalink = 0, env_compile = 0, env_setfilter = 0, env_dump_open = True\<rparr>" "[]" Map.empty
        "\<lparr>of_data = [], of_pos = 0, of_append = False\<rparr>"]
    by (auto simp: PCAP_ERROR_def)
qed

end
