(* ===== verification/Transfers.thy ===== *)
theory Transfers imports Link Programs begin

text \<open>
  Several files through both programs: the transmission program in file or directory mode
  and the reception program in directory mode, from the command lines to the files. Nothing tells the receiver where
  a file ends but the preamble of the next one, and the timeout after the last.
\<close>

subsection \<open>How the frames heard are dealt to the captures\<close>

text \<open>
  With one frame per dispatch a capture takes frames up to the preamble that ends it, or all; the
  next capture begins with the frame behind.
\<close>

fun deal :: "nat \<Rightarrow> capture list \<Rightarrow> capture list \<times> capture list" where
  "deal n [] = ([], [])"
| "deal n (c # cs) =
     (if second_preamble n [c] then ([c], cs)
      else let (own, rest) = deal (n + data_count [c]) cs in (c # own, rest))"

lemma deal_rest: "length (snd (deal n cs)) \<le> length cs - 1"
  by (induction n cs rule: deal.induct) (auto simp: split_beta Let_def)

function deals :: "capture list \<Rightarrow> capture list list" where
  "deals cs = (if cs = [] then [] else fst (deal 0 cs) # deals (snd (deal 0 cs)))"
  by pat_completeness auto
termination
proof (relation "measure length")
  show "(snd (deal 0 cs), cs) \<in> measure length" if "cs \<noteq> []" for cs
    using deal_rest[of 0 cs] that by (cases cs) auto
qed simp

declare deals.simps [simp del]

definition one_frame :: "capture \<Rightarrow> rx_event" where
  "one_frame c = \<lparr>rx_stop_poll = False, rx_poll = 1, rx_packets = [c], rx_dispatch = 1, rx_stop_after = False\<rparr>"

text \<open>The captures of a receiver that hears \<open>cs\<close> and then nothing until it times out.\<close>

definition hearing :: "int \<Rightarrow> pcap_stat option \<Rightarrow> rx_event list \<Rightarrow> rx_run" where
  "hearing fd ps es = \<lparr>rr_opens = True, rr_fd = fd, rr_events = es, rr_stats = ps\<rparr>"

definition hearing_all :: "int \<Rightarrow> pcap_stat option \<Rightarrow> capture list \<Rightarrow> rx_run list" where
  "hearing_all fd ps cs =
     map (\<lambda>c. hearing fd ps (map one_frame c)) (butlast (deals cs)) @
     [hearing fd ps (map one_frame (last (deals cs)) @ [timeout_event])]"

lemma one_frame_turn [simp]:
  "turn_captures (one_frame c) = [c]" "\<not> turn_stops bld (one_frame c)"
  by (simp_all add: turn_captures_def turn_stops_def one_frame_def)

lemma timeout_turn [simp]: "turn_captures timeout_event = []" "turn_stops bld timeout_event"
  by (simp_all add: turn_captures_def turn_stops_def timeout_event_def)

lemma busy_frames: "busy bld (map one_frame cs)"
  by (simp add: busy_def one_frame_def)

lemma session_frames_open: "\<not> second_preamble n cs \<Longrightarrow> session bld n (map one_frame cs) = None"
  by (induction cs arbitrary: n) (auto simp: Let_def)

lemma session_frames_closed:
  "\<not> second_preamble n cs \<Longrightarrow> second_preamble (n + data_count cs) [c] \<Longrightarrow>
   session bld n (map one_frame (cs @ [c])) = Some (cs @ [c])"
proof (induction cs arbitrary: n)
  case (Cons d cs)
  have "session bld (n + data_count [d]) (map one_frame (cs @ [c])) = Some (cs @ [c])"
    using Cons.prems by (intro Cons.IH) (auto split: if_splits)
  then show ?case using Cons.prems by (simp add: Let_def)
qed simp

lemma session_timeout:
  "session bld n es = None \<Longrightarrow> session bld n (es @ [timeout_event]) = Some (concat (map turn_captures es))"
  by (induction es arbitrary: n) (auto simp: Let_def split: if_splits)

lemma turn_captures_frames: "concat (map turn_captures (map one_frame cs)) = cs"
  by (induction cs) simp_all

lemma deal_open: "\<not> second_preamble n cs \<Longrightarrow> deal n cs = (cs, [])"
  by (induction cs arbitrary: n) (auto simp: Let_def split: if_splits)

lemma deal_closed:
  "\<not> second_preamble n cs \<Longrightarrow> second_preamble (n + data_count cs) [c] \<Longrightarrow>
   deal n (cs @ c # rest) = (cs @ [c], rest)"
proof (induction cs arbitrary: n)
  case (Cons d cs)
  have "deal (n + data_count [d]) (cs @ c # rest) = (cs @ [c], rest)"
    using Cons.prems by (intro Cons.IH) (auto split: if_splits)
  then show ?case using Cons.prems by (auto simp: Let_def split: if_splits)
qed simp

subsection \<open>The capture that times out\<close>

lemma rx_loop_waits:
  assumes "session bld n es = None" and "cs = concat (map turn_captures es)" and "fc_abs (shortfalls cs + k) n pend fc"
    and "\<forall>c \<in> set cs. capture_fits (pb_size fc) c" and "numbers_ok pend (inputs (fc_rx fc) n cs)"
    and "n + data_count cs < 2 ^ 32" and "rx_activated (fc_rx fc)" and "\<not> end_capture fc"
  shows "\<exists>fc'. rx_activated (fc_rx fc') \<and> \<not> end_capture fc' \<and>
     (\<forall>es'. rx_loop bld file_write fc (es @ es') = rx_loop bld file_write fc' es')"
  using assms
proof (induction es arbitrary: n cs pend fc)
  case (Cons e es)
  let ?cs = "turn_captures e"
  define ds where "ds = concat (map turn_captures es)"
  have cs: "cs = ?cs @ ds" using Cons.prems(2) by (simp add: ds_def)
  have ns: "\<not> turn_stops bld e" "\<not> second_preamble n ?cs" and ses: "session bld (n + data_count ?cs) es = None"
    using Cons.prems(1) by (auto simp: Let_def split: if_splits)
  have fits: "\<forall>c \<in> set ?cs. capture_fits (pb_size fc) c" using Cons.prems(4) cs by simp
  have num: "numbers_ok pend (inputs (fc_rx fc) n ?cs @ inputs (fc_rx fc) (n + data_count ?cs) ds)"
    using Cons.prems(5) cs by (simp add: inputs_append)
  have small: "n + data_count ?cs < 2 ^ 32" using Cons.prems(6) cs by simp
  have abs: "fc_abs (shortfalls ?cs + (shortfalls ds + k)) n pend fc"
    using Cons.prems(3) cs by (simp add: add.assoc)
  obtain fc1 pend1 where turn: "rx_turn bld file_write fc e = Inr fc1"
    and a1: "fc_abs (shortfalls ds + k) (n + data_count ?cs) pend1 fc1"
      "numbers_ok pend1 (inputs (fc_rx fc) (n + data_count ?cs) ds)"
    and f1: "fc_rx fc1 = (fc_rx fc)\<lparr>rx_activated := \<not> turn_stops bld e\<rparr>"
      "pb_size fc1 = pb_size fc" "end_capture fc1 = second_preamble n ?cs"
    using rx_turn_ok[OF abs fits num small Cons.prems(7,8)] by blast
  have same: "fc_rx fc1 = fc_rx fc" using f1(1) ns Cons.prems(7) by simp
  obtain fc' where fc': "rx_activated (fc_rx fc')" "\<not> end_capture fc'"
    "\<forall>es'. rx_loop bld file_write fc1 (es @ es') = rx_loop bld file_write fc' es'"
    using Cons.IH[OF ses ds_def a1(1)] Cons.prems cs a1(2) same f1 ns by (auto simp: ds_def)
  have "rx_loop bld file_write fc (e # es @ es') = rx_loop bld file_write fc1 (es @ es')" for es'
    using Cons.prems(7,8) turn by (simp add: rx_loop.simps[of _ _ fc])
  then show ?case using fc' by auto
qed auto

lemma timed_out_state:
  assumes "0 \<le> sfd" and "session bld 0 es = None" and cs: "cs = concat (map turn_captures es)"
    and "session_fits rx cs" and "numbers_ok [] (inputs rx 0 cs)" and "data_count cs < 2 ^ 32"
    and run: "receiver_activate_capture bld file_write sfd ps rx out (es @ [timeout_event]) = Some (Inr (rx', out', st))"
  shows "capture_state st = DXWIFI_RX_TIMED_OUT"
proof -
  define fc where "fc = (init_frame_controller rx out)\<lparr>fc_rx := rx\<lparr>rx_activated := True\<rparr>\<rparr>"
  have f: "fc_rx fc = rx\<lparr>rx_activated := True\<rparr>" "pb_size fc = packet_buffer_size rx" "\<not> end_capture fc"
    by (simp_all add: fc_def init_frame_controller_def)
  have "packet_buffer_size rx + (shortfalls cs + 0) < DXWIFI_BLOCK_SIZE_MIN * Suc DXWIFI_RX_PACKET_HEAP_CAPACITY"
    using assms(4) by (simp add: session_fits_def)
  then have abs: "fc_abs (shortfalls cs + 0) 0 [] fc"
    using init_controller_abs[of rx "shortfalls cs + 0" out] unfolding fc_def by simp
  obtain fc' where fc': "rx_activated (fc_rx fc')" "\<not> end_capture fc'"
    "\<forall>es'. rx_loop bld file_write fc (es @ es') = rx_loop bld file_write fc' es'"
    using rx_loop_waits[OF assms(2) cs abs] assms f by (auto simp: session_fits_def)
  define f1 where "f1 = set_capture_state DXWIFI_RX_TIMED_OUT (fc'\<lparr>fc_rx := (fc_rx fc')\<lparr>rx_activated := False\<rparr>\<rparr>)"
  have "rx_turn bld file_write fc' timeout_event = Inr f1"
    by (simp add: rx_turn_def timeout_event_def rx_signal_stop_def f1_def)
  moreover have "\<not> rx_activated (fc_rx f1)" by (simp add: f1_def)
  ultimately have "rx_loop bld file_write fc (es @ [timeout_event]) = Some (Inr f1)"
    using fc' by (simp add: rx_loop.simps[of _ _ fc'] rx_loop.simps[of _ _ f1])
  moreover have "receiver_activate_capture bld file_write sfd ps rx out es' =
      map_option (\<lambda>r. bind_res r (rx_finish file_write ps)) (rx_loop bld file_write fc es')" for es'
    using assms(1) by (simp add: receiver_activate_capture_def fc_def init_frame_controller_def Let_def)
  ultimately obtain f2 where "dump_packet_buffer file_write f1 = Inr f2" "capture_state st = capture_state (rx_stats f2)"
    using run by (auto simp: rx_finish_def bind_res_eq_Inr Let_def teardown_frame_controller_def split: option.splits)
  moreover have "capture_state (rx_stats f1) = DXWIFI_RX_TIMED_OUT" by (simp add: f1_def set_capture_state_def)
  ultimately show ?thesis using keeps.dump_packet_buffer_R[of file_write f1 f2] by (simp add: keeps_def)
qed

lemma last_capture:
  fixes path :: string
  assumes good: "good_run bld (rw_rx w) (hearing fd ps (map one_frame cs @ [timeout_event])) out"
    and "\<not> second_preamble 0 cs" and fresh: "rw_fs w path = None"
  shows "\<exists>w'. open_file_and_capture bld path app (hearing fd ps (map one_frame cs @ [timeout_event])) w =
       Some (Inr (DXWIFI_RX_TIMED_OUT, w')) \<and> rw_fs w' = (rw_fs w)(path \<mapsto> out)"
proof -
  let ?es = "map one_frame cs"
  have none: "session bld 0 ?es = None" using assms(2) by (rule session_frames_open)
  have ses: "session bld 0 (?es @ [timeout_event]) = Some cs"
    using session_timeout[OF none] unfolding turn_captures_frames .
  have g: "0 \<le> fd" "session_fits (rw_rx w) cs" "numbers_ok [] (inputs (rw_rx w) 0 cs)" "data_count cs < 2 ^ 32"
    "out = buffered (rw_rx w) (packet_buffer_size (rw_rx w)) [] 0 (inputs (rw_rx w) 0 cs)"
    using good ses by (auto simp: good_run_def hearing_def)
  obtain rx' st where run: "receiver_activate_capture bld file_write fd ps (rw_rx w) [] (?es @ [timeout_event]) =
      Some (Inr (rx', out, st))"
    using receiver_session[OF g(1) ses g(2-4), of ps "[]"] g(5) by auto
  have st: "capture_state st = DXWIFI_RX_TIMED_OUT"
    by (rule timed_out_state[OF g(1) none turn_captures_frames[symmetric] g(2-4) run])
  have os: "receiver_activate_capture bld os_write fd ps (rw_rx w) (open_output (rw_fs w) path app) (?es @ [timeout_event]) =
      Some (Inr (rx', file_after [] app out, st))"
    unfolding open_output_after capture_file.receiver_activate_capture_map run using fresh by simp
  show ?thesis
    using os st file_after_data[of "[]" app out]
    by (auto simp: open_file_and_capture_def setup_handlers_and_capture_def hearing_def)
qed


subsection \<open>Transmissions one after the other\<close>

definition kind :: "capture \<Rightarrow> dxwifi_control_frame" where
  "kind c = classify (payload_of (snd c))"

lemma second_preamble_kind:
  "second_preamble n (c # cs) \<longleftrightarrow> kind c = DXWIFI_CONTROL_FRAME_PREAMBLE \<and> 0 < n \<or>
     second_preamble (n + data_count [c]) cs"
  by (simp add: kind_def)

lemma preamble_no_data: "kind c = DXWIFI_CONTROL_FRAME_PREAMBLE \<Longrightarrow> \<not> is_data c"
  by (simp add: kind_def is_data_def)

lemma body_no_preamble: "\<forall>c \<in> set b. kind c \<noteq> DXWIFI_CONTROL_FRAME_PREAMBLE \<Longrightarrow> \<not> second_preamble n b"
  by (induction b arbitrary: n) (simp_all add: kind_def)

lemma preambles_first:
  "\<forall>c \<in> set p. kind c = DXWIFI_CONTROL_FRAME_PREAMBLE \<Longrightarrow> data_count p = 0 \<and> \<not> second_preamble 0 p"
  by (induction p) (simp_all add: preamble_no_data)

definition transmission_ok :: "capture list \<times> capture list \<Rightarrow> bool" where
  "transmission_ok t \<longleftrightarrow> fst t \<noteq> [] \<and> (\<forall>c \<in> set (fst t). kind c = DXWIFI_CONTROL_FRAME_PREAMBLE) \<and>
     (\<forall>c \<in> set (snd t). kind c \<noteq> DXWIFI_CONTROL_FRAME_PREAMBLE) \<and> 0 < data_count (snd t)"

definition frames_of :: "(capture list \<times> capture list) list \<Rightarrow> capture list" where
  "frames_of ts = concat (map (\<lambda>t. fst t @ snd t) ts)"

text \<open>
  Every transmission gets a capture, which has its data frames and no others; all but the last end
  with the first preamble that follows.
\<close>

lemma deals_transmissions:
  assumes "\<forall>c \<in> set p. kind c = DXWIFI_CONTROL_FRAME_PREAMBLE"
    and "\<forall>c \<in> set b. kind c \<noteq> DXWIFI_CONTROL_FRAME_PREAMBLE" and "0 < data_count b"
    and "\<forall>t \<in> set ts. transmission_ok t"
  shows "\<exists>init lst. deals (p @ b @ frames_of ts) = init @ [lst] \<and> \<not> second_preamble 0 lst \<and>
     (\<forall>s \<in> set init. session bld 0 (map one_frame s) = Some s) \<and>
     map (filter is_data) (init @ [lst]) = map (filter is_data) (b # map snd ts) \<and>
     (\<forall>s \<in> set (init @ [lst]). set s \<subseteq> set (p @ b @ frames_of ts))"
  using assms
proof (induction ts arbitrary: p b)
  case Nil
  have "\<not> second_preamble 0 (p @ b)"
    using preambles_first[OF Nil.prems(1)] body_no_preamble[OF Nil.prems(2)] by (simp add: second_preamble_append)
  moreover have "p @ b \<noteq> []" using Nil.prems(3) by auto
  moreover have "filter is_data p = []" using Nil.prems(1) preamble_no_data by (auto simp: filter_empty_conv)
  ultimately show ?case
    by (intro exI[of _ "[]"] exI[of _ "p @ b"])
      (simp add: frames_of_def deals.simps[of "p @ b"] deals.simps[of "[]"] deal_open)
next
  case (Cons t ts)
  obtain c p1 b1 where t: "t = (c # p1, b1)" using Cons.prems(4) by (cases t; cases "fst t") (auto simp: transmission_ok_def)
  have ok: "kind c = DXWIFI_CONTROL_FRAME_PREAMBLE" "\<forall>c \<in> set p1. kind c = DXWIFI_CONTROL_FRAME_PREAMBLE"
    "\<forall>c \<in> set b1. kind c \<noteq> DXWIFI_CONTROL_FRAME_PREAMBLE" "0 < data_count b1" "\<forall>t \<in> set ts. transmission_ok t"
    using Cons.prems(4) t by (auto simp: transmission_ok_def)
  have open_pb: "\<not> second_preamble 0 (p @ b)" and closed: "second_preamble (0 + data_count (p @ b)) [c]"
    using preambles_first[OF Cons.prems(1)] body_no_preamble[OF Cons.prems(2)] Cons.prems(3) ok(1)
    by (simp_all add: second_preamble_append kind_def)
  have T: "p @ b @ frames_of (t # ts) = (p @ b) @ c # (p1 @ b1 @ frames_of ts)" by (simp add: t frames_of_def)
  have "deal 0 (p @ b @ frames_of (t # ts)) = ((p @ b) @ [c], p1 @ b1 @ frames_of ts)"
    unfolding T by (rule deal_closed[OF open_pb closed])
  moreover have "p @ b @ frames_of (t # ts) \<noteq> []" unfolding T by simp
  ultimately have d: "deals (p @ b @ frames_of (t # ts)) = ((p @ b) @ [c]) # deals (p1 @ b1 @ frames_of ts)"
    by (subst deals.simps) (simp only: fst_conv snd_conv if_False)
  obtain init lst where IH: "deals (p1 @ b1 @ frames_of ts) = init @ [lst]" "\<not> second_preamble 0 lst"
     "\<forall>s \<in> set init. session bld 0 (map one_frame s) = Some s"
     "map (filter is_data) (init @ [lst]) = map (filter is_data) (b1 # map snd ts)"
     "\<forall>s \<in> set (init @ [lst]). set s \<subseteq> set (p1 @ b1 @ frames_of ts)"
    using Cons.IH[OF ok(2-5)] by blast
  have "filter is_data ((p @ b) @ [c]) = filter is_data b"
    using Cons.prems(1) ok(1) preamble_no_data by (auto simp: filter_empty_conv)
  then have m: "map (filter is_data) ((((p @ b) @ [c]) # init) @ [lst]) = map (filter is_data) (b # map snd (t # ts))"
    using IH(4) by (simp add: t)
  have s: "session bld 0 (map one_frame ((p @ b) @ [c])) = Some ((p @ b) @ [c])"
    by (rule session_frames_closed[OF open_pb closed])
  show ?case
  proof (intro exI conjI)
    show "deals (p @ b @ frames_of (t # ts)) = (((p @ b) @ [c]) # init) @ [lst]" using d IH(1) by simp
    show "\<forall>s \<in> set ((((p @ b) @ [c]) # init)). session bld 0 (map one_frame s) = Some s" using s IH(3) by simp
    show "\<forall>s \<in> set ((((p @ b) @ [c]) # init) @ [lst]). set s \<subseteq> set (p @ b @ frames_of (t # ts))"
      using IH(5) unfolding T by auto
  qed (use IH(2) m in simp_all)
qed


subsection \<open>What is heard of a list of files\<close>

definition sent_as :: "'u dxwifi_transmitter \<Rightarrow> byte list list \<Rightarrow> byte list list \<Rightarrow> bool" where
  "sent_as tx blocks air \<longleftrightarrow> map air_payload air = payloads_on_air tx blocks"

text \<open>What a file must be like: not empty, and its blocks none that a receiver takes for control frames.\<close>

definition sendable_blocks :: "'u dxwifi_transmitter \<Rightarrow> byte list list \<Rightarrow> bool" where
  "sendable_blocks tx blocks \<longleftrightarrow> blocks \<noteq> [] \<and> (\<forall>b \<in> set blocks. link_block tx b) \<and>
     short_bytes blocks \<le> 256 \<and> length blocks < 2 ^ 31"

definition parted :: "byte list \<Rightarrow> byte list \<Rightarrow> nat \<Rightarrow> byte list list \<Rightarrow> capture list \<times> capture list" where
  "parted rtap fcs k air = (map (heard rtap fcs) (take k air), map (heard rtap fcs) (drop k air))"

lemma frames_of_parted: "frames_of (map (parted rtap fcs k) airs) = map (heard rtap fcs) (concat airs)"
  by (induction airs) (simp_all add: frames_of_def parted_def flip: map_append)

lemma sent_sizes:
  assumes "sent_as tx blocks air" and "sendable_blocks tx blocks" and "blocksize tx \<le> 2048" and "a \<in> set air"
  shows "air_payload a \<noteq> [] \<and> length (air_payload a) \<le> 2048"
proof -
  have "air_payload a \<in> set (payloads_on_air tx blocks)"
    using assms(1,4) by (metis sent_as_def image_eqI list.set_map)
  then show ?thesis
    using assms(2,3)
    by (auto simp: payloads_on_air_def sendable_blocks_def link_block_def good_block_def wire_defs simp del: replicate.simps)
qed

lemma filter_classify: "filter (\<lambda>pl. classify pl = DXWIFI_CONTROL_FRAME_NONE) (map air_payload xs) = map air_payload (filter plain xs)"
  by (induction xs) (simp_all add: plain_def)

lemma kind_heard: "device_ok rtap fcs \<Longrightarrow> air_payload a \<noteq> [] \<Longrightarrow> kind (heard rtap fcs a) = classify (air_payload a)"
  by (simp add: kind_def heard_fields(1))

lemma parted_ok:
  assumes dev: "device_ok rtap fcs" and sent: "sent_as tx blocks air" and good: "sendable_blocks tx blocks"
    and tx: "blocksize tx \<le> 2048" "0 < ctrl_copies tx"
  shows "transmission_ok (parted rtap fcs (ctrl_copies tx) air)"
    and "filter is_data (snd (parted rtap fcs (ctrl_copies tx) air)) =
       map (heard rtap fcs) (filter plain (drop (ctrl_copies tx) air))"
    and "map air_payload (filter plain (drop (ctrl_copies tx) air)) = blocks"
proof -
  let ?k = "ctrl_copies tx" and ?pre = "replicate DXWIFI_FRAME_CONTROL_DATA_SIZE (0xff :: byte)"
    and ?eot = "replicate DXWIFI_FRAME_CONTROL_DATA_SIZE (0xaa :: byte)"
  have size: "\<forall>a \<in> set air. air_payload a \<noteq> []" using sent_sizes[OF sent good tx(1)] by blast
  then have sz: "\<forall>a \<in> set (take ?k air). air_payload a \<noteq> []" "\<forall>a \<in> set (drop ?k air). air_payload a \<noteq> []"
    by (auto dest: in_set_takeD in_set_dropD)
  have front: "map air_payload (take ?k air) = replicate ?k ?pre"
    and rear: "map air_payload (drop ?k air) = blocks @ replicate ?k ?eot"
    using sent by (simp_all add: sent_as_def payloads_on_air_def flip: take_map drop_map)
  have neq: "(0xff :: byte) \<noteq> 0xaa" by simp
  have ctl: "classify ?pre = DXWIFI_CONTROL_FRAME_PREAMBLE" "classify ?eot = DXWIFI_CONTROL_FRAME_EOT"
    using neq by (simp_all add: classify_def wire_defs replicate_eq_replicate del: replicate.simps)
  have data: "classify b = DXWIFI_CONTROL_FRAME_NONE" if "b \<in> set blocks" for b
    using good that by (simp add: sendable_blocks_def link_block_def)
  show f: "filter is_data (snd (parted rtap fcs ?k air)) = map (heard rtap fcs) (filter plain (drop ?k air))"
    unfolding parted_def snd_conv by (rule filter_heard[OF dev sz(2)])
  have "filter (\<lambda>pl. classify pl = DXWIFI_CONTROL_FRAME_NONE) (blocks @ replicate ?k ?eot) = blocks"
    using data ctl by (simp add: filter_id_conv filter_empty_conv)
  then show b: "map air_payload (filter plain (drop ?k air)) = blocks" unfolding filter_classify[symmetric] rear .
  have "kind (heard rtap fcs a) = DXWIFI_CONTROL_FRAME_PREAMBLE" if "a \<in> set (take ?k air)" for a
  proof -
    have "air_payload a \<in> set (map air_payload (take ?k air))" using that by simp
    then have "air_payload a = ?pre" unfolding front by simp
    moreover have "air_payload a \<noteq> []" using sz(1) that by blast
    ultimately show ?thesis using kind_heard[OF dev, of a] ctl(1) by simp
  qed
  moreover have "kind (heard rtap fcs a) \<noteq> DXWIFI_CONTROL_FRAME_PREAMBLE" if "a \<in> set (drop ?k air)" for a
  proof -
    have "air_payload a \<in> set (map air_payload (drop ?k air))" using that by simp
    then show ?thesis using kind_heard[OF dev] sz(2) that ctl data unfolding rear by auto
  qed
  moreover have "take ?k air \<noteq> []" using front tx(2) by (metis length_map length_replicate list.size(3) nat_less_le)
  moreover have "0 < data_count (snd (parted rtap fcs ?k air))"
    using f b good by (auto simp: data_count_filter sendable_blocks_def)
  ultimately show "transmission_ok (parted rtap fcs ?k air)" by (auto simp: transmission_ok_def parted_def)
qed

lemma heard_run_good:
  assumes dev: "device_ok rtap fcs" and rx: "config_ok rx" "\<not> ordered rx" "length rtap + 2076 \<le> packet_buffer_size rx"
    and air: "\<forall>a \<in> set air. air_payload a \<noteq> [] \<and> length (air_payload a) \<le> 2048" "set s \<subseteq> heard rtap fcs ` set air"
    and data: "filter is_data s = map (heard rtap fcs) data" "map air_payload data = blocks" "set data \<subseteq> set air"
    and blocks: "short_bytes blocks \<le> 256" "length blocks < 2 ^ 31"
    and "session bld 0 es = Some s" and "0 \<le> fd"
  shows "good_run bld rx (hearing fd ps es) (concat blocks)"
proof -
  have ne: "\<forall>a \<in> set data. air_payload a \<noteq> []" using air(1) data(3) by auto
  have fits: "\<forall>c \<in> set s. capture_fits (packet_buffer_size rx) c"
    using heard_fits[OF dev _ _ rx(3)] air by (auto dest: subsetD)
  have "shortfalls s \<le> 256" using shortfalls_heard[OF dev ne, of s] data blocks(1) by simp
  then have sf: "session_fits rx s" using session_fits_config[OF rx(1) fits] by blast
  have "map (payload_of \<circ> snd) (map (heard rtap fcs) data) = map air_payload data"
    using ne by (simp add: heard_fields(1)[OF dev])
  then have dp: "data_payloads s = blocks" unfolding data_payloads_def data(1) data(2) .
  have dc: "data_count s < 2 ^ 31" using blocks(2) data(2) unfolding data_count_filter data(1) by auto
  show ?thesis
    using buffered_unordered[OF rx(2), of "[]" 0 s "packet_buffer_size rx" 0] dc dp sf
      numbers_ok_unordered[OF rx(2) dc] assms(12,13)
    by (simp add: good_run_def hearing_def by_number_def)
qed


text \<open>The files that the reception program leaves, one for every transmission.\<close>

lemma reception_of_transmissions:
  assumes dev: "device_ok rtap fcs" "length rtap \<le> 228" and "0 \<le> fd"
    and rargs: "rx_parse_args tests lstat 0 opts rx_default_args = Some args" "\<not> ordered (cli_rx args)"
    and rx: "same_rx (rw_rx w) (cli_rx args)"
    and tx: "blocksize tx \<le> 2048" "0 < ctrl_copies tx"
    and sent: "list_all2 (sent_as tx) contents airs" "contents \<noteq> []" "\<forall>c \<in> set contents. sendable_blocks tx c"
    and names: "\<forall>i < length airs. path_fits args i \<and> rw_fs w (capture_path args (int i)) = None"
    and many: "int (length airs) \<le> INT_MAX"
  shows "\<exists>w'. capture_in_directory bld args (hearing_all fd ps (map (heard rtap fcs) (concat airs))) w = Some (Inr w') \<and>
     (\<forall>i < length airs. rw_fs w' (capture_path args (int i)) = Some (concat (contents ! i))) \<and>
     (\<forall>p. (\<forall>i < length airs. p \<noteq> capture_path args (int i)) \<longrightarrow> rw_fs w' p = rw_fs w p)"
proof -
  let ?k = "ctrl_copies tx" and ?T = "map (heard rtap fcs) (concat airs)"
  let ?ts = "map (parted rtap fcs ?k) airs"
  have conf: "config_ok (rw_rx w)" "\<not> ordered (rw_rx w)" "length rtap + 2076 \<le> packet_buffer_size (rw_rx w)"
  proof -
    have c: "(rw_rx w)\<lparr>rx_activated := True\<rparr> = (cli_rx args)\<lparr>rx_activated := True\<rparr>" using rx by (simp add: same_rx_def)
    have "ordered (rw_rx w) = ordered (cli_rx args)" "packet_buffer_size (rw_rx w) = packet_buffer_size (cli_rx args)"
      using arg_cong[OF c, of ordered] arg_cong[OF c, of packet_buffer_size] by simp_all
    then show "config_ok (rw_rx w)" "\<not> ordered (rw_rx w)" "length rtap + 2076 \<le> packet_buffer_size (rw_rx w)"
      using rx_parse_args_ok[OF rx_default_args_ok rargs(1)] rargs(2) dev(2)
      by (simp_all add: rx_args_ok_def config_ok_def rx_size_defs wire_defs)
  qed
  have part: "transmission_ok (parted rtap fcs ?k a) \<and> filter is_data (snd (parted rtap fcs ?k a)) =
       map (heard rtap fcs) (filter plain (drop ?k a)) \<and> map air_payload (filter plain (drop ?k a)) = c"
    if "sent_as tx c a" "c \<in> set contents" for a c
    using parted_ok[OF dev(1) that(1) _ tx] sent(3) that(2) by blast
  have size: "\<forall>a \<in> set (concat airs). air_payload a \<noteq> [] \<and> length (air_payload a) \<le> 2048"
  proof
    fix a assume "a \<in> set (concat airs)"
    then obtain air where "air \<in> set airs" "a \<in> set air" by auto
    then obtain j where j: "j < length airs" "a \<in> set (airs ! j)" by (metis in_set_conv_nth)
    then show "air_payload a \<noteq> [] \<and> length (air_payload a) \<le> 2048"
      using sent_sizes[of tx "contents ! j" "airs ! j" a] sent tx(1) by (auto simp: list_all2_conv_all_nth)
  qed
  have all: "\<forall>t \<in> set ?ts. transmission_ok t"
    using part sent(1) by (fastforce simp: list_all2_conv_all_nth in_set_conv_nth)
  obtain a as where airs: "airs = a # as" using sent(1,2) by (cases airs) auto
  let ?p = "fst (parted rtap fcs ?k a)" and ?b = "snd (parted rtap fcs ?k a)"
  have T: "?T = ?p @ ?b @ frames_of (map (parted rtap fcs ?k) as)"
    using frames_of_parted[of rtap fcs ?k airs] by (simp add: airs frames_of_def)
  obtain init lst where d: "deals ?T = init @ [lst]" "\<not> second_preamble 0 lst"
     "\<forall>s \<in> set init. session bld 0 (map one_frame s) = Some s"
     "map (filter is_data) (init @ [lst]) = map (filter is_data) (map snd ?ts)"
     "\<forall>s \<in> set (init @ [lst]). set s \<subseteq> set ?T"
    using deals_transmissions[of ?p ?b "map (parted rtap fcs ?k) as" bld] all
    unfolding T by (auto simp: airs transmission_ok_def)
  have len: "length (init @ [lst]) = length airs" using arg_cong[OF d(4), of length] by simp
  have good: "good_run bld (rw_rx w) (hearing fd ps es) (concat (contents ! i))"
    if i: "i < length airs" and ses: "session bld 0 es = Some ((init @ [lst]) ! i)" for i es
  proof (rule heard_run_good[OF dev(1) conf size _ _ _ _ _ _ ses \<open>0 \<le> fd\<close>])
    have s: "sent_as tx (contents ! i) (airs ! i)" and c: "contents ! i \<in> set contents"
      using sent(1) i by (auto simp: list_all2_conv_all_nth)
    show "set ((init @ [lst]) ! i) \<subseteq> heard rtap fcs ` set (concat airs)"
      using d(5) i len by (metis nth_mem set_map)
    have "filter is_data ((init @ [lst]) ! i) = map (filter is_data) (map snd ?ts) ! i"
      unfolding d(4)[symmetric] using i unfolding len[symmetric] by (rule nth_map[symmetric])
    then show "filter is_data ((init @ [lst]) ! i) = map (heard rtap fcs) (filter plain (drop ?k (airs ! i)))"
      using part[OF s c] i by simp
    show "map air_payload (filter plain (drop ?k (airs ! i))) = contents ! i" using part[OF s c] by blast
    show "set (filter plain (drop ?k (airs ! i))) \<subseteq> set (concat airs)"
      using i by (auto dest!: in_set_dropD intro: nth_mem)
    show "short_bytes (contents ! i) \<le> 256" "length (contents ! i) < 2 ^ 31"
      using sent(3) c by (auto simp: sendable_blocks_def)
  qed
  let ?n = "length init"
  let ?rs = "map (\<lambda>c. hearing fd ps (map one_frame c)) init"
  let ?last = "hearing fd ps (map one_frame lst @ [timeout_event])"
  have H: "hearing_all fd ps ?T = ?rs @ [?last]" by (simp add: hearing_all_def d(1))
  have n: "length airs = Suc ?n" using len by simp
  have goods: "list_all2 (good_run bld (rw_rx w)) ?rs (map concat (take ?n contents))"
    using sent(1) d(3) n good
    by (auto simp: list_all2_conv_all_nth nth_append)
  have busies: "\<forall>r \<in> set ?rs. busy bld (rr_events r)" by (auto simp: hearing_def busy_frames)
  obtain w1 where w1: "capture_loop bld args (int 0) DXWIFI_RX_NORMAL (?rs @ [?last]) w =
       capture_loop bld args (int (0 + length ?rs)) DXWIFI_RX_NORMAL [?last] w1" "same_rx (rw_rx w1) (rw_rx w)"
     "\<forall>i < length ?rs. rw_fs w1 (capture_path args (int (0 + i))) = Some (map concat (take ?n contents) ! i)"
     "\<forall>p. (\<forall>i < length ?rs. p \<noteq> capture_path args (int (0 + i))) \<longrightarrow> rw_fs w1 p = rw_fs w p"
    using capture_loop_files[OF goods busies, of args 0 "[?last]"] names many n by auto
  have dist: "capture_path args (int ?n) \<noteq> capture_path args (int i)" if "i < ?n" for i
    using capture_path_distinct[of args ?n i] names that n by auto
  have "session bld 0 (map one_frame lst @ [timeout_event]) = Some lst"
    using session_timeout[OF session_frames_open[OF d(2)]] unfolding turn_captures_frames .
  then have "good_run bld (rw_rx w) ?last (concat (contents ! ?n))" using good[of ?n] n by (simp add: nth_append)
  then have gl: "good_run bld (rw_rx w1) ?last (concat (contents ! ?n))" using good_run_same(1)[OF w1(2)] by simp
  have fresh: "rw_fs w1 (capture_path args (int ?n)) = None" using w1(4) dist names n by auto
  obtain w' where w': "open_file_and_capture bld (capture_path args (int ?n)) (rx_append args) ?last w1 =
       Some (Inr (DXWIFI_RX_TIMED_OUT, w'))" "rw_fs w' = (rw_fs w1)(capture_path args (int ?n) \<mapsto> concat (contents ! ?n))"
    using last_capture[OF gl d(2) fresh] by blast
  have "fits_int (int ?n + 1)" using many n by (simp add: fits_int_def INT_MIN_def)
  then have "capture_in_directory bld args (hearing_all fd ps ?T) w = Some (Inr w')"
    using w1(1) w'(1) unfolding H capture_in_directory_def
    by (simp add: capture_loop.simps[of _ _ "int ?n"] capture_loop.simps[of _ _ "int ?n + 1"])
  moreover have "rw_fs w' (capture_path args (int i)) = Some (concat (contents ! i))" if "i < length airs" for i
    using that n w1(3) w'(2) dist[of i] sent(1)
    by (cases "i = ?n") (auto simp: list_all2_lengthD)
  moreover have "rw_fs w' p = rw_fs w p" if "\<forall>i < length airs. p \<noteq> capture_path args (int i)" for p
    using that n w1(4) w'(2) by auto
  ultimately show ?thesis by blast
qed


text \<open>Both programs, when a transmission of some contents is known.\<close>

lemma programs_meet:
  fixes delay :: 'u and targs :: "'u tx_cli_args"
  assumes targs: "tx_parse_args (dxwifi_tests tbld) tlstat topts tx_default_args = Some targs"
      "0 \<le> redundant_ctrl_frames (cli_tx targs)"
    and tlib: "env_open tenv" "env_dump_open tenv"
    and run: "transmit port denv delay targs \<lparr>w_tx = init_transmitter (cli_tx targs), w_runs = runs, w_air = []\<rparr> = Some (Inr tw)"
    and airs: "map (map air_payload) (w_air tw) = map (payloads_on_air (cli_tx targs)) contents"
    and good: "contents \<noteq> []" "\<forall>c \<in> set contents. sendable_blocks (cli_tx targs) c"
    and rargs: "rx_parse_args (dxwifi_tests rbld) rlstat 0 ropts rx_default_args = Some rargs" "rx_mode rargs = RX_DIRECTORY_MODE"
      "\<not> ordered (cli_rx rargs)"
    and rlib: "env_open renv" "env_setnonblock renv \<noteq> PCAP_ERROR" "env_set_datalink renv \<noteq> PCAP_ERROR"
      "env_compile renv \<noteq> PCAP_ERROR" "env_setfilter renv \<noteq> PCAP_ERROR"
    and dev: "device_ok rtap fcs" "length rtap \<le> 228" "0 \<le> fd"
    and names: "\<forall>i < length contents. path_fits rargs i \<and> rfs (capture_path rargs (int i)) = None"
    and many: "int (length contents) \<le> INT_MAX"
  shows "\<exists>calls ths calls' rw rhs.
     tx_main tbld tenv denv port delay tlstat topts runs = Ended calls (tw, ths) \<and>
     rx_main rbld renv rlstat ropts (hearing_all fd ps (map (heard rtap fcs) (concat (w_air tw)))) rfs stdout =
       Ended calls' (rw, rhs) \<and>
     map (\<lambda>i. rw_fs rw (capture_path rargs (int i))) [0 ..< length contents] = map (\<lambda>c. Some (concat c)) contents \<and>
     (\<forall>p. (\<forall>i < length contents. p \<noteq> capture_path rargs (int i)) \<longrightarrow> rw_fs rw p = rfs p)"
proof -
  let ?tx = "cli_tx targs"
  have len: "length (w_air tw) = length contents" using airs by (metis length_map)
  have sent: "list_all2 (sent_as ?tx) contents (w_air tw)"
    using airs len unfolding list_all2_conv_all_nth sent_as_def by (metis nth_map)
  have tok: "blocksize ?tx \<le> 2048" "0 < ctrl_copies ?tx"
    using tx_parse_args_ok[OF tx_default_args_ok targs(1)] targs(2) by (simp_all add: tx_args_ok_def ctrl_copies_def wire_defs)
  obtain tcs where topen: "open_transmitter tbld tenv (tx_savefile targs) (tx_device targs) ?tx = (tcs, Inr (init_transmitter ?tx))"
    using tlib by (cases "dxwifi_tests tbld") (auto simp: open_transmitter_def checked_def Let_def)
  have tmain: "\<exists>calls ths. tx_main tbld tenv denv port delay tlstat topts runs = Ended calls (tw, ths)"
    by (simp add: tx_main_def targs(1) topen Let_def run)
  let ?rx = "(cli_rx rargs)\<lparr>rx_activated := False\<rparr>"
  let ?rw = "\<lparr>rw_rx = ?rx, rw_fs = rfs, rw_stdout = stdout\<rparr>"
  obtain rcs where ropen: "open_receiver rbld renv (rx_savefile rargs) (rx_device rargs) (cli_rx rargs) = (rcs, Inr ?rx)"
    using rlib by (cases "dxwifi_tests rbld") (auto simp: open_receiver_def checked_def Let_def)
  have same: "same_rx (rw_rx ?rw) (cli_rx rargs)" by simp
  obtain rw where rw: "capture_in_directory rbld rargs (hearing_all fd ps (map (heard rtap fcs) (concat (w_air tw)))) ?rw = Some (Inr rw)"
     "\<forall>i < length (w_air tw). rw_fs rw (capture_path rargs (int i)) = Some (concat (contents ! i))"
     "\<forall>p. (\<forall>i < length (w_air tw). p \<noteq> capture_path rargs (int i)) \<longrightarrow> rw_fs rw p = rfs p"
    using reception_of_transmissions[OF dev rargs(1,3) same tok sent good, of rbld ps] names many len by auto
  have rmain: "\<exists>calls rhs. rx_main rbld renv rlstat ropts
      (hearing_all fd ps (map (heard rtap fcs) (concat (w_air tw)))) rfs stdout = Ended calls (rw, rhs)"
    by (simp add: rx_main_def rargs(1) ropen Let_def receive_def rargs(2) rw(1))
  have "map (\<lambda>i. rw_fs rw (capture_path rargs (int i))) [0 ..< length contents] = map (\<lambda>c. Some (concat c)) contents"
    using rw(2) len by (intro nth_equalityI) simp_all
  then show ?thesis using tmain rmain rw(3) len by auto
qed

text \<open>The transmissions of files that are each sent \<open>k\<close> times.\<close>

lemma repeated_contents:
  "contents = concat (map (\<lambda>f. replicate k (content f)) fs) \<Longrightarrow>
   runs = concat (map (\<lambda>f. replicate k (file_run (content f))) fs) \<Longrightarrow>
   concat (map (\<lambda>f. replicate k (payloads_on_air tx (content f))) fs) = map (payloads_on_air tx) contents \<and>
   length runs = length contents \<and>
   map (\<lambda>c. Some (concat c)) contents = concat (map (\<lambda>f. replicate k (Some (concat (content f)))) fs) \<and>
   set contents \<subseteq> content ` set fs \<and> (0 < k \<longrightarrow> fs \<noteq> [] \<longrightarrow> contents \<noteq> [])"
  by (cases fs) (auto simp: map_concat comp_def length_concat)

section \<open>Properties\<close>




text \<open>The file \<open>b\<close>, sent twice to a directory \<open>d\<close>; \<open>a\<close> does not exist.\<close>

definition sample_pcap :: pcap_env where
  "sample_pcap = \<lparr>env_open = True, env_setnonblock = 0, env_set_datalink = 0, env_compile = 0,
     env_setfilter = 0, env_dump_open = True\<rparr>"

definition sample_disk :: tx_dir_env where
  "sample_disk = \<lparr>env_opens = (\<lambda>f. f = ''b''), env_lstat = (\<lambda>p. None), env_fnmatch = (\<lambda>p s. True),
     env_opendir = (\<lambda>d. None), env_inotify_fd = 3, env_add_watch = (\<lambda>d m. 1), env_dir_events = []\<rparr>"



end
