(* ===== verification/Radiotap.thy ===== *)
theory Radiotap imports Programs begin

text \<open>
  What a driver makes of the radiotap header of an injected frame, by the rules that
  \<open>libdxwifi/transmitter.h\<close> refers to: the fields that \<open>it_present\<close> announces follow each other in
  the order of their bits, each at a multiple of its alignment from the start of the header, and
  the frame proper begins after \<open>it_len\<close> bytes. Size and alignment of a field are the radiotap
  standard's and an argument here. The second half shows that the transmission program never
  puts a frame on the air that is read in another way, whatever happens to it.
\<close>

unbundle bit_operations_syntax

subsection \<open>Reading a header\<close>

type_synonym radiotap_layout = "ieee80211_radiotap_presence \<Rightarrow> nat \<times> nat"

definition radiotap_order :: "ieee80211_radiotap_presence list" where
  "radiotap_order =
     [IEEE80211_RADIOTAP_TSFT, IEEE80211_RADIOTAP_FLAGS, IEEE80211_RADIOTAP_RATE,
      IEEE80211_RADIOTAP_CHANNEL, IEEE80211_RADIOTAP_FHSS, IEEE80211_RADIOTAP_DBM_ANTSIGNAL,
      IEEE80211_RADIOTAP_DBM_ANTNOISE, IEEE80211_RADIOTAP_LOCK_QUALITY,
      IEEE80211_RADIOTAP_TX_ATTENUATION, IEEE80211_RADIOTAP_DB_TX_ATTENUATION,
      IEEE80211_RADIOTAP_DBM_TX_POWER, IEEE80211_RADIOTAP_ANTENNA, IEEE80211_RADIOTAP_DB_ANTSIGNAL,
      IEEE80211_RADIOTAP_DB_ANTNOISE, IEEE80211_RADIOTAP_RX_FLAGS, IEEE80211_RADIOTAP_TX_FLAGS,
      IEEE80211_RADIOTAP_RTS_RETRIES, IEEE80211_RADIOTAP_DATA_RETRIES, IEEE80211_RADIOTAP_MCS,
      IEEE80211_RADIOTAP_AMPDU_STATUS, IEEE80211_RADIOTAP_VHT, IEEE80211_RADIOTAP_TIMESTAMP,
      IEEE80211_RADIOTAP_HE, IEEE80211_RADIOTAP_HE_MU, IEEE80211_RADIOTAP_ZERO_LEN_PSDU,
      IEEE80211_RADIOTAP_LSIG]"

text \<open>The order is that of the bits, and all fields but the namespace bits are in it.\<close>

lemma radiotap_order_sorted: "sorted_wrt (<) (map radiotap_presence radiotap_order)"
  by (simp add: radiotap_order_def)

lemma radiotap_order_complete:
  "f \<in> set radiotap_order \<longleftrightarrow> radiotap_presence f < 29"
  by (cases f) (simp_all add: radiotap_order_def)

definition align_to :: "nat \<Rightarrow> nat \<Rightarrow> nat" where
  "align_to a k = (k + a - 1) div a * a"

fun radiotap_walk :: "radiotap_layout \<Rightarrow> byte list \<Rightarrow> u32 \<Rightarrow> nat \<Rightarrow> ieee80211_radiotap_presence list \<Rightarrow>
    (ieee80211_radiotap_presence \<times> byte list) list option" where
  "radiotap_walk L hdr present k [] = Some []"
| "radiotap_walk L hdr present k (f # fs) =
     (if bit present (radiotap_presence f)
      then let (a, n) = L f; k = align_to a k in
           if k + n \<le> length hdr
           then map_option (Cons (f, slice hdr k n)) (radiotap_walk L hdr present (k + n) fs)
           else None
      else radiotap_walk L hdr present k fs)"

text \<open>
  The fields and what follows the header. A reader gives up on another version, on a header that
  is cut short, and on bits without a field in the header file (other namespaces among them).
\<close>

definition radiotap_known :: u32 where
  "radiotap_known = foldr (\<lambda>f w. push_bit (radiotap_presence f) 1 OR w) radiotap_order 0"

definition radiotap_read :: "radiotap_layout \<Rightarrow> byte list \<Rightarrow>
    ((ieee80211_radiotap_presence \<times> byte list) list \<times> byte list) option" where
  "radiotap_read L pkt =
     (if length pkt < 8 then None
      else let len = unat (le16_of (slice pkt 2 2)); present = le32_of (slice pkt 4 4) in
           if pkt ! 0 \<noteq> IEEE80211_RADIOTAP_MAJOR_VERSION \<or> len < 8 \<or> length pkt < len \<or>
              present AND NOT radiotap_known \<noteq> 0 then None
           else map_option (\<lambda>fs. (fs, drop len pkt)) (radiotap_walk L (take len pkt) present 8 radiotap_order))"

definition layout_ok :: "radiotap_layout \<Rightarrow> bool" where
  "layout_ok L \<longleftrightarrow> L IEEE80211_RADIOTAP_FLAGS = (1, 1) \<and> L IEEE80211_RADIOTAP_RATE = (1, 1) \<and>
     L IEEE80211_RADIOTAP_TX_FLAGS = (2, 2)"

text \<open>The fields of the header of a transmitter.\<close>

definition configured_fields :: "'u dxwifi_transmitter \<Rightarrow> (ieee80211_radiotap_presence \<times> byte list) list" where
  "configured_fields tx =
     [(IEEE80211_RADIOTAP_FLAGS, [rtap_flags tx]), (IEEE80211_RADIOTAP_RATE, [rtap_rate_mbps tx * 2]),
      (IEEE80211_RADIOTAP_TX_FLAGS, le16_bytes (rtap_tx_flags tx))]"

definition configured_header :: "'u dxwifi_transmitter \<Rightarrow> dxwifi_tx_radiotap_hdr" where
  "configured_header tx = construct_radiotap_header (radiotap_hdr setup_dxwifi_tx_frame)
     (rtap_flags tx) (rtap_rate_mbps tx) (rtap_tx_flags tx)"

lemma presence_word:
  "DXWIFI_TX_RADIOTAP_PRESENCE_BIT_FIELD = 0x8006"
  by (simp add: DXWIFI_TX_RADIOTAP_PRESENCE_BIT_FIELD_def)

lemma radiotap_known_value: "radiotap_known = 0x0dfbffff"
  by (simp add: radiotap_known_def radiotap_order_def)

lemma configured_header_bytes:
  "tx_radiotap_bytes (configured_header tx) =
     [0, 0, 12, 0, 0x06, 0x80, 0, 0, rtap_flags tx, rtap_rate_mbps tx * 2] @ le16_bytes (rtap_tx_flags tx)"
  by (simp add: configured_header_def construct_radiotap_header_def tx_radiotap_bytes_def radiotap_bytes_def
      setup_dxwifi_tx_frame_def presence_word IEEE80211_RADIOTAP_MAJOR_VERSION_def TX_RADIOTAP_HDR_SIZE_def
      le16_bytes_def le32_bytes_def)

lemma present_bits:
  "filter (\<lambda>f. bit (0x8006 :: u32) (radiotap_presence f)) radiotap_order =
     [IEEE80211_RADIOTAP_FLAGS, IEEE80211_RADIOTAP_RATE, IEEE80211_RADIOTAP_TX_FLAGS]"
  by (simp add: radiotap_order_def bit_numeral_rec)

lemma radiotap_walk_filter:
  "radiotap_walk L hdr present k fs =
   radiotap_walk L hdr present k (filter (\<lambda>f. bit present (radiotap_presence f)) fs)"
  by (induction fs arbitrary: k) (auto simp: Let_def split: prod.splits)

lemma le32_presence: "le32_of (slice ([0, 0, 12, 0, 0x06, 0x80, 0, 0, a, b] @ xs) 4 4) = 0x8006"
  by (simp add: slice_def le32_of_def)

lemma radiotap_read_header:
  assumes "layout_ok L"
  shows "radiotap_read L (tx_radiotap_bytes (configured_header tx) @ rest) = Some (configured_fields tx, rest)"
proof -
  obtain x y where xy: "le16_bytes (rtap_tx_flags tx) = [x, y]" by (simp add: le16_bytes_def)
  let ?h = "[0, 0, 12, 0, 0x06, 0x80, 0, 0, rtap_flags tx, rtap_rate_mbps tx * 2, x, y]"
  have len: "le16_of (slice (?h @ rest) 2 2) = 12" by (simp add: slice_def le16_of_def)
  have walk: "radiotap_walk L ?h 0x8006 8 radiotap_order = Some (configured_fields tx)"
    using assms
    by (subst radiotap_walk_filter, subst present_bits)
      (simp add: layout_ok_def align_to_def slice_def configured_fields_def xy bit_numeral_rec)
  have word: "le32_of (slice (?h @ rest) 4 4) = 0x8006"
    using le32_presence[of "rtap_flags tx" "rtap_rate_mbps tx * 2" "[x, y] @ rest"] by simp
  have bytes: "tx_radiotap_bytes (configured_header tx) @ rest = ?h @ rest"
    by (simp add: configured_header_bytes xy)
  have top: "(?h @ rest) ! 0 = IEEE80211_RADIOTAP_MAJOR_VERSION" "take 12 (?h @ rest) = ?h" "drop 12 (?h @ rest) = rest"
    "\<not> length (?h @ rest) < 8" "\<not> length (?h @ rest) < 12"
    by (simp_all add: IEEE80211_RADIOTAP_MAJOR_VERSION_def)
  have known: "(0x8006 :: u32) AND NOT radiotap_known = 0" by (simp add: radiotap_known_value)
  show ?thesis
    unfolding bytes radiotap_read_def len word Let_def by (simp add: top walk known del: append.simps)
qed

subsection \<open>Frames on the air\<close>

text \<open>A handler that leaves the radiotap header and the size of the payload alone.\<close>

definition keeps_radiotap :: "'u dxwifi_tx_frame_handler \<Rightarrow> bool" where
  "keeps_radiotap h \<longleftrightarrow> (\<forall>cb. callback h = Some cb \<longrightarrow>
     (\<forall>f sz st. fst (cb f sz st (user_args h)) = sz \<and>
        radiotap_hdr (snd (cb f sz st (user_args h))) = radiotap_hdr f))"

definition pipelines_keep :: "'u dxwifi_transmitter \<Rightarrow> bool" where
  "pipelines_keep tx \<longleftrightarrow> (\<forall>h \<in> set (preinjection tx) \<union> set (postinjection tx). keeps_radiotap h)"

lemma invoke_keeps_radiotap:
  "\<forall>h \<in> set p. keeps_radiotap h \<Longrightarrow>
   fst (invoke_handlers p f st) = ucast (prev_bytes_read st) \<and> radiotap_hdr (snd (invoke_handlers p f st)) = radiotap_hdr f"
proof -
  have "fst (invoke_loop p f sz st) = sz \<and> radiotap_hdr (snd (invoke_loop p f sz st)) = radiotap_hdr f"
    if "\<forall>h \<in> set p. keeps_radiotap h" for f sz
    using that
  proof (induction p arbitrary: f)
    case (Cons h p)
    show ?case
    proof (cases "callback h")
      case (Some cb)
      obtain sz' f' where cb: "cb f sz st (user_args h) = (sz', f')" by fastforce
      then have "sz' = sz \<and> radiotap_hdr f' = radiotap_hdr f"
        using Cons.prems Some by (metis fst_conv keeps_radiotap_def list.set_intros(1) snd_conv)
      then show ?thesis using Cons.IH[of f'] Cons.prems Some cb by simp
    qed (use Cons in simp)
  qed simp
  then show "\<forall>h \<in> set p. keeps_radiotap h \<Longrightarrow> ?thesis" by (simp add: invoke_handlers_def)
qed

text \<open>A frame that begins with the configured header.\<close>

definition labelled :: "'u dxwifi_transmitter \<Rightarrow> byte list \<Rightarrow> bool" where
  "labelled tx pkt \<longleftrightarrow> (\<exists>rest. pkt = tx_radiotap_bytes (configured_header tx) @ rest)"

text \<open>The sizes that are injected: at most a block, or what a failed \<open>read\<close> leaves behind.\<close>

definition usual_size :: "size_t \<Rightarrow> bool" where
  "usual_size sz \<longleftrightarrow> unat sz \<le> 2 ^ 16 \<or> unat sz = 2 ^ 32 - 1"

lemma packet_size_covers:
  assumes "usual_size sz"
  shows "12 \<le> unat (packet_size sz)" "12 \<le> unat (ucast (packet_size sz) :: u32)"
proof -
  have p: "packet_size sz = of_nat (40 + unat sz)" by (simp add: packet_size_def wire_defs)
  have u: "unat (packet_size sz) = 40 + unat sz"
    unfolding p using assms by (simp only: unat_of_nat usual_size_def) (elim disjE; simp)
  then show "12 \<le> unat (packet_size sz)" by simp
  have "unat (ucast (packet_size sz) :: u32) = (40 + unat sz) mod 2 ^ 32"
    using u by (simp add: unsigned_ucast_eq take_bit_eq_mod)
  moreover have "12 \<le> (40 + n) mod 2 ^ 32" if "n \<le> 2 ^ 16 \<or> n = 2 ^ 32 - 1" for n :: nat
    using that by (elim disjE) (simp_all add: mod_less)
  ultimately show "12 \<le> unat (ucast (packet_size sz) :: u32)"
    using assms unfolding usual_size_def by metis
qed

lemma inject_labelled:
  assumes "inject_packet port air f sz = Inr (st, air')" and "usual_size sz"
    and "radiotap_hdr f = configured_header tx"
  shows "\<exists>pkt. air' = air @ [pkt] \<and> labelled tx pkt"
proof -
  have lab: "labelled tx pkt" if "mem_read (frame_bytes f) 0 n = Inr pkt" "12 \<le> n" for n pkt
  proof -
    have "pkt = take n (frame_bytes f)" using that(1) by (auto simp: mem_read_def slice_def split: if_splits)
    then show ?thesis
      using that(2) assms(3) by (auto simp: labelled_def frame_bytes_def TX_RADIOTAP_HDR_SIZE_def)
  qed
  show ?thesis
    using assms(1) packet_size_covers[OF assms(2)] lab
    by (cases port) (auto simp: inject_packet_def bind_res_eq_Inr Let_def)
qed

definition labelled_session :: "'u dxwifi_transmitter \<Rightarrow> 'u tx_session \<Rightarrow> bool" where
  "labelled_session tx s \<longleftrightarrow> same_tx (ts_tx s) tx \<and> radiotap_hdr (ts_frame s) = configured_header tx \<and>
     (\<forall>pkt \<in> set (ts_air s). labelled tx pkt)"

lemma same_tx_keeps:
  assumes "same_tx a b"
  shows "pipelines_keep a = pipelines_keep b" "blocksize a = blocksize b" "configured_header a = configured_header b"
    "configured_fields a = configured_fields b" "labelled a = labelled b"
proof -
  have f: "f (a\<lparr>tx_activated := True\<rparr>) = f (b\<lparr>tx_activated := True\<rparr>)" for f :: "'a dxwifi_transmitter \<Rightarrow> 'c"
    using assms by (simp add: same_tx_def)
  show "pipelines_keep a = pipelines_keep b" using f[of pipelines_keep] by (simp add: pipelines_keep_def)
  show "blocksize a = blocksize b" using f[of blocksize] by simp
  show c: "configured_header a = configured_header b" using f[of configured_header] by (simp add: configured_header_def)
  show "configured_fields a = configured_fields b" using f[of configured_fields] by (simp add: configured_fields_def)
  show "labelled a = labelled b" by (simp add: labelled_def c fun_eq_iff)
qed

lemma labelled_signal_stop: "labelled_session tx s \<Longrightarrow> labelled_session tx (signal_stop b s)"
  by (auto simp: labelled_session_def signal_stop_def stop_transmission_def)

lemma labelled_read:
  assumes "labelled_session tx s" and "tx_read s r = Inr s'" and "blocksize tx \<le> DXWIFI_BLOCK_SIZE_MAX"
  shows "labelled_session tx s' \<and> ts_tx s' = ts_tx s \<and> usual_size (ucast (prev_bytes_read (ts_stats s')))"
proof (cases r)
  case None
  have "unat (ucast (- 1 :: u32) :: size_t) = 4294967295"
    by (simp add: unsigned_ucast_eq unsigned_minus_1_eq_mask mask_eq_exp_minus_1)
  then show ?thesis using assms(1,2) None by (auto simp: tx_read_def labelled_session_def usual_size_def)
next
  case (Some bs)
  let ?n = "length (take (blocksize (ts_tx s)) bs)"
  have "?n \<le> DXWIFI_BLOCK_SIZE_MAX"
    using assms(1,3) same_tx_keeps(2)[of "ts_tx s" tx] by (simp add: labelled_session_def)
  then have n: "?n \<le> 2048" by (simp add: DXWIFI_BLOCK_SIZE_MAX_def)
  then have "unat (of_nat ?n :: u32) = ?n" by (simp only: unat_of_nat) simp
  then have "unat (ucast (of_nat ?n :: u32) :: size_t) = ?n"
    using n by (simp add: unsigned_ucast_eq take_bit_nat_eq_self)
  then have "usual_size (ucast (of_nat ?n :: u32))" using n by (simp add: usual_size_def)
  then show ?thesis using assms(1,2) Some by (auto simp: tx_read_def labelled_session_def bind_res_eq_Inr Let_def)
qed

lemma labelled_send_block:
  assumes "labelled_session tx s" and "pipelines_keep tx" and "tx_send_block port s = Inr s'"
    and "usual_size (ucast (prev_bytes_read (ts_stats s)))"
  shows "labelled_session tx s'"
proof -
  have same: "same_tx (ts_tx s) tx" and hdr: "radiotap_hdr (ts_frame s) = configured_header tx"
    using assms(1) by (simp_all add: labelled_session_def)
  then have pre: "\<forall>h \<in> set (preinjection (ts_tx s)). keeps_radiotap h"
    and post: "\<forall>h \<in> set (postinjection (ts_tx s)). keeps_radiotap h"
    using assms(2) same_tx_keeps(1)[OF same] by (simp_all add: pipelines_keep_def)
  obtain sz f where inv: "invoke_handlers (preinjection (ts_tx s)) (ts_frame s) (ts_stats s) = (sz, f)" by fastforce
  have f: "usual_size sz" "radiotap_hdr f = configured_header tx"
    using invoke_keeps_radiotap[OF pre, of "ts_frame s" "ts_stats s"] assms(4) inv hdr by simp_all
  obtain st air where inj: "inject_packet port (ts_air s) f sz = Inr (st, air)"
    and s': "ts_air s' = air" "ts_tx s' = ts_tx s" "\<exists>u. ts_frame s' = snd (invoke_handlers (postinjection (ts_tx s)) f u)"
    using assms(3) inv by (auto simp: tx_send_block_def bind_res_eq_Inr Let_def split_beta) blast
  have "radiotap_hdr (ts_frame s') = configured_header tx"
    using s'(3) invoke_keeps_radiotap[OF post] f(2) by auto
  then show ?thesis
    using inject_labelled[OF inj f] assms(1) s'(1,2) by (auto simp: labelled_session_def)
qed

lemma labelled_turn:
  assumes "labelled_session tx s" and "pipelines_keep tx" and "blocksize tx \<le> DXWIFI_BLOCK_SIZE_MAX"
    and "tx_turn port s e = Inr s'"
  shows "labelled_session tx s'"
proof -
  let ?t = "signal_stop (ev_stop_poll e) s"
  have t: "labelled_session tx ?t" using assms(1) by (rule labelled_signal_stop)
  consider (timeout) "ev_poll e = 0" | (err) "ev_poll e < 0" | (ready) "0 < ev_poll e" by linarith
  then show ?thesis
  proof cases
    case ready
    then obtain u v where u: "tx_read ?t (ev_read e) = Inr u"
      and v: "(if 0 < prev_bytes_read (ts_stats u) then tx_send_block port u else Inr u) = Inr v"
      and s': "s' = signal_stop (ev_stop_after e) v"
      using assms(4) by (auto simp: tx_turn_def bind_res_eq_Inr Let_def)
    note ru = labelled_read[OF t u assms(3)]
    have "labelled_session tx v"
      using v ru labelled_send_block[OF _ assms(2), of u port v] by (auto split: if_splits)
    then show ?thesis unfolding s' by (rule labelled_signal_stop)
  next
    case timeout
    let ?u = "?t\<lparr>ts_stats := (ts_stats ?t)\<lparr>tx_state := DXWIFI_TX_TIMED_OUT\<rparr>,
        ts_tx := (ts_tx ?t)\<lparr>tx_activated := False\<rparr>\<rparr>"
    have "labelled_session tx ?u" using t by (simp add: labelled_session_def)
    then show ?thesis
      using assms(4) labelled_signal_stop[of tx ?u "ev_stop_after e"] timeout by (simp add: tx_turn_def Let_def)
  next
    case err
    let ?u = "?t\<lparr>ts_stats := (ts_stats ?t)\<lparr>tx_state :=
        (if tx_activated (ts_tx ?t) then DXWIFI_TX_ERROR else DXWIFI_TX_DEACTIVATED)\<rparr>\<rparr>"
    have "labelled_session tx ?u" using t by (simp add: labelled_session_def)
    then show ?thesis
      using assms(4) labelled_signal_stop[of tx ?u "ev_stop_after e"] err by (simp add: tx_turn_def Let_def)
  qed
qed

lemma labelled_loop:
  "labelled_session tx s \<Longrightarrow> pipelines_keep tx \<Longrightarrow> blocksize tx \<le> DXWIFI_BLOCK_SIZE_MAX \<Longrightarrow>
   tx_loop port s es = Some (Inr s') \<Longrightarrow> labelled_session tx s'"
proof (induction es arbitrary: s)
  case (Cons e es)
  from Cons.prems(4) obtain t where "tx_turn port s e = Inr t" by (auto split: sum.splits)
  with Cons labelled_turn[OF Cons.prems(1-3) this] show ?case by (auto split: if_splits)
qed simp

lemma labelled_control:
  assumes "send_control_frame port t air f ty = Inr (f', air')" and "radiotap_hdr f = configured_header tx"
    and "\<forall>pkt \<in> set air. labelled tx pkt"
  shows "radiotap_hdr f' = configured_header tx \<and> (\<forall>pkt \<in> set air'. labelled tx pkt)"
proof -
  have sz: "usual_size (of_nat DXWIFI_FRAME_CONTROL_DATA_SIZE)"
    by (simp add: usual_size_def DXWIFI_FRAME_CONTROL_DATA_SIZE_def)
  have "\<forall>pkt \<in> set air'. labelled tx pkt"
    if "inject_times n port air g (of_nat DXWIFI_FRAME_CONTROL_DATA_SIZE) = Inr air'"
      "radiotap_hdr g = configured_header tx" "\<forall>pkt \<in> set air. labelled tx pkt" for n g air
    using that
  proof (induction n arbitrary: air)
    case (Suc n)
    from Suc.prems(1) obtain st a where a: "inject_packet port air g (of_nat DXWIFI_FRAME_CONTROL_DATA_SIZE) = Inr (st, a)"
      and rest: "inject_times n port a g (of_nat DXWIFI_FRAME_CONTROL_DATA_SIZE) = Inr air'"
      by (auto simp: bind_res_eq_Inr)
    obtain pkt where "a = air @ [pkt]" "labelled tx pkt"
      using inject_labelled[OF a sz Suc.prems(2)] by blast
    then have "\<forall>pkt \<in> set a. labelled tx pkt" using Suc.prems(3) by auto
    then show ?case by (rule Suc.IH[OF rest Suc.prems(2)])
  qed simp
  note times = this
  obtain pl where f': "f' = f\<lparr>payload := pl\<rparr>" and
    "inject_times (nat (redundant_ctrl_frames t + 1)) port air f' (of_nat DXWIFI_FRAME_CONTROL_DATA_SIZE) = Inr air'"
    using assms(1) by (auto simp: send_control_frame_def bind_res_eq_Inr Let_def simp del: inject_times.simps)
  then show ?thesis using times assms(2,3) by simp
qed

lemma labelled_transmission:
  assumes "pipelines_keep tx" and "blocksize tx \<le> DXWIFI_BLOCK_SIZE_MAX"
    and "start_transmission port tx es = Some (Inr s)"
  shows "labelled_session tx s"
proof -
  obtain s0 s1 where s0: "tx_begin port tx = Inr s0" and s1: "tx_loop port s0 es = Some (Inr s1)"
    and s: "tx_finish port s1 = Inr s"
    using assms(3) by (auto simp: start_transmission_def bind_res_eq_Inr split: sum.splits)
  let ?f = "setup_dxwifi_tx_frame\<lparr>radiotap_hdr := configured_header tx,
    mac_hdr := construct_ieee80211_header (mac_hdr setup_dxwifi_tx_frame) (fctl tx) 0xffff (tx_address tx)\<rparr>"
  obtain f0 where f0: "send_control_frame port (tx\<lparr>tx_activated := True\<rparr>) [] ?f DXWIFI_CONTROL_FRAME_PREAMBLE = Inr (f0, ts_air s0)"
    "ts_frame s0 = f0" "ts_tx s0 = tx\<lparr>tx_activated := True\<rparr>"
    using s0 unfolding tx_begin_def Let_def configured_header_def
    by (cases "send_control_frame port (tx\<lparr>tx_activated := True\<rparr>) [] ?f DXWIFI_CONTROL_FRAME_PREAMBLE")
      (auto simp: configured_header_def bind_res_eq_Inr)
  have "labelled_session tx s0"
    using labelled_control[OF f0(1), of tx] f0(2,3) by (simp add: labelled_session_def)
  then have l1: "labelled_session tx s1" using labelled_loop[OF _ assms(1,2) s1] by blast
  obtain f where f: "send_control_frame port (ts_tx s1) (ts_air s1) (ts_frame s1) DXWIFI_CONTROL_FRAME_EOT = Inr (f, ts_air s)"
    "ts_frame s = f" "ts_tx s = ts_tx s1"
    using s by (auto simp: tx_finish_def bind_res_eq_Inr Let_def)
  show ?thesis
    using labelled_control[OF f(1), of tx] f(2,3) l1 by (simp add: labelled_session_def)
qed

subsection \<open>What every transmission keeps, the program keeps\<close>

text \<open>A property of the callback's state that the callback keeps is kept by the watcher.\<close>

lemma listen_invariant:
  assumes h: "\<And>w d n w'. h w d n = Inr w' \<Longrightarrow> Q w \<Longrightarrow> Q w'"
    and "dirwatch_listen fnm h dw w es = Some (Inr (dw', w'))" and "Q w"
  shows "Q w'"
proof -
  have close: "Q w'" if "close_file h dn name ps w = Inr (qs, w')" "Q w" for dn name ps qs w w'
    using that by (induction ps arbitrary: qs) (auto simp: bind_res_eq_Inr intro: h split: if_splits)
  have "on_close h dw e w = Inr (dw', w') \<Longrightarrow> Q w \<Longrightarrow> Q w'" for dw e w dw' w'
    by (auto simp: on_close_def bind_res_eq_Inr intro: close split: if_splits option.splits)
  then have "process_events fnm h dw es w = Inr (dw', w') \<Longrightarrow> Q w \<Longrightarrow> Q w'" for dw es w dw' w'
    by (induction es arbitrary: dw w) (auto simp: bind_res_eq_Inr)
  then have turn: "dw_turn fnm h dw w e = Inr (dw', w') \<Longrightarrow> Q w \<Longrightarrow> Q w'" for dw w e dw' w'
    by (auto simp: dw_turn_def bind_res_eq_Inr Let_def split: if_splits)
  have "dw_loop fnm h dw w es = Some (Inr (dw', w')) \<Longrightarrow> Q w \<Longrightarrow> Q w'" for dw w es
  proof (induction es arbitrary: dw w)
    case (Cons e es)
    then show ?case
      by (subst (asm) (2) dw_loop.simps) (auto split: if_splits sum.splits intro: turn)
  qed (subst (asm) dw_loop.simps, auto split: if_splits)
  then show ?thesis using assms(2,3) by (auto simp: dirwatch_listen_def)
qed

locale tx_world_invariant =
  fixes port :: tx_port and P :: "'u tx_world \<Rightarrow> bool"
  assumes run: "setup_handlers_and_transmit port es w = Some (Inr (st, w')) \<Longrightarrow> P w \<Longrightarrow> P w'"
    and runs: "P w \<Longrightarrow> P (w\<lparr>w_runs := rs\<rparr>)"
begin

lemma retransmit_keeps: "retransmit port cnt fv st w = Some (Inr (st', w')) \<Longrightarrow> P w \<Longrightarrow> P w'"
proof (induction "w_runs w" arbitrary: cnt st w)
  case (Cons r rs)
  show ?case
  proof (cases "(0 \<le> cnt \<or> fv) \<and> st = DXWIFI_TX_NORMAL")
    case True
    with Cons(2,3) obtain u v
      where one: "(if run_seek r = -1 then Some (Inr (DXWIFI_TX_ERROR, w))
          else setup_handlers_and_transmit port (run_events r) w) = Some (Inr (u, v))"
      and rest: "retransmit port (cnt - 1) fv u (v\<lparr>w_runs := rs\<rparr>) = Some (Inr (st', w'))"
      by (subst (asm) retransmit.simps) (auto split: list.splits option.splits sum.splits if_splits)
    have "P v" using one Cons(4) by (auto split: if_splits dest: run)
    then have "P (v\<lparr>w_runs := rs\<rparr>)" by (rule runs)
    then show ?thesis using Cons(1)[OF _ rest] by simp
  qed (use Cons(3,4) in \<open>subst (asm) retransmit.simps, auto\<close>)
qed (subst (asm) retransmit.simps, auto split: if_splits)

lemma files_keep: "transmit_files_from port opens n fs st w = Some (Inr (st', w')) \<Longrightarrow> P w \<Longrightarrow> P w'"
  by (induction fs arbitrary: st w) (auto split: if_splits option.splits sum.splits dest: retransmit_keeps)

lemma transmit_files_keep: "transmit_files port opens fs n w = Some (Inr (st', w')) \<Longrightarrow> P w \<Longrightarrow> P w'"
  unfolding transmit_files_def by (rule files_keep)

lemma entries_keep:
  "transmit_entries port opens ls fnm filt d n fs st w = Some (Inr (st', w')) \<Longrightarrow> P w \<Longrightarrow> P w'"
  by (induction fs arbitrary: st w)
    (auto split: if_splits option.splits sum.splits dest: transmit_files_keep)

lemma contents_keep:
  "transmit_directory_contents port opens ls fnm od filt d n w = Some (Inr w') \<Longrightarrow> P w \<Longrightarrow> P w'"
  by (auto simp: transmit_directory_contents_def bind_res_eq_Inr split: option.splits dest: entries_keep)

lemma new_file_keeps:
  "transmit_new_file port opens n ow d f = Inr ow' \<Longrightarrow> pred_option P ow \<Longrightarrow> pred_option P ow'"
  by (auto simp: transmit_new_file_def bind_res_eq_Inr split: option.splits dest: transmit_files_keep)

lemma watch_keeps: "watch_new_files port env args d w = Some (Inr w') \<Longrightarrow> P w \<Longrightarrow> P w'"
  using listen_invariant[where Q = "pred_option P" and h = "transmit_new_file port (env_opens env) (retransmit_count args)",
      OF new_file_keeps]
  by (fastforce simp: watch_new_files_def bind_res_eq_Inr split: sum.splits option.splits prod.splits)

lemma directory_keeps: "transmit_directory port env args w = Some (Inr w') \<Longrightarrow> P w \<Longrightarrow> P w'"
  by (auto simp: transmit_directory_def Let_def split: if_splits option.splits sum.splits
      dest: contents_keep watch_keeps)

lemma transmit_keeps:
  assumes "transmit port env delay args w = Some (Inr w')" and "P (w\<lparr>w_tx := attach_all delay args (w_tx w)\<rparr>)"
  shows "P w'"
proof -
  let ?w = "w\<lparr>w_tx := attach_all delay args (w_tx w)\<rparr>"
  have "P (?w\<lparr>w_runs := rs\<rparr>)" for rs using assms(2) by (rule runs)
  then show ?thesis
    using assms
    by (cases "tx_mode args")
      (auto simp: transmit_def Let_def bind_res_eq_Inr split: list.splits
        dest: run transmit_files_keep directory_keeps)
qed

end

text \<open>The frames of a world all bear the header of a transmitter that is used throughout.\<close>

definition labelled_world :: "'u dxwifi_transmitter \<Rightarrow> 'u tx_world \<Rightarrow> bool" where
  "labelled_world tx w \<longleftrightarrow> pipelines_keep tx \<and> blocksize tx \<le> DXWIFI_BLOCK_SIZE_MAX \<and> same_tx (w_tx w) tx \<and>
     (\<forall>run \<in> set (w_air w). \<forall>pkt \<in> set run. labelled tx pkt)"

interpretation labels: tx_world_invariant port "labelled_world tx" for port tx
proof
  fix es st w w'
  assume run: "setup_handlers_and_transmit port es w = Some (Inr (st, w'))" and lab: "labelled_world tx w"
  have same: "same_tx (w_tx w) tx" using lab by (simp add: labelled_world_def)
  obtain s where s: "start_transmission port (w_tx w) es = Some (Inr s)"
    "w' = w\<lparr>w_tx := ts_tx s, w_air := w_air w @ [ts_air s]\<rparr>"
    using run by (auto simp: setup_handlers_and_transmit_def bind_res_eq_Inr)
  have "labelled_session (w_tx w) s"
    using lab same_tx_keeps(1,2)[OF same] by (intro labelled_transmission[OF _ _ s(1)]) (simp_all add: labelled_world_def)
  then have "same_tx (ts_tx s) (w_tx w)" "\<forall>pkt \<in> set (ts_air s). labelled tx pkt"
    using same_tx_keeps(5)[OF same] by (simp_all add: labelled_session_def)
  then show "labelled_world tx w'"
    using lab same_tx_trans[OF _ same] by (auto simp: labelled_world_def s(2))
qed (simp add: labelled_world_def)

lemma program_pipelines_keep: "pipelines_keep (attach_all delay args (init_transmitter tx))"
proof -
  have p: "preinjection (init_transmitter tx) = replicate DXWIFI_TX_FRAME_HANDLER_MAX no_handler"
    "postinjection (init_transmitter tx) = replicate DXWIFI_TX_FRAME_HANDLER_MAX no_handler"
    by (simp_all add: init_transmitter_def)
  show ?thesis
    unfolding attach_all_pipelines[OF p]
    by (auto simp: pipelines_keep_def keeps_radiotap_def program_preinjection_def program_postinjection_def
        no_handler_def delay_transmission_def attach_frame_number_def log_frame_stats_def)
qed

section \<open>Properties\<close>

text \<open>The rate is doubled in a byte: 128 megabits per second are announced as none.\<close>

lemma rate_wraps: "rtap_hdr_rate (construct_radiotap_header h fl (128 + r) tf) = rtap_hdr_rate (construct_radiotap_header h fl r tf)"
proof -
  have "(128 :: byte) * 2 = 0" by code_simp
  then show ?thesis by (simp add: construct_radiotap_header_def distrib_right del: mult_numeral_left_semiring_numeral)
qed

text \<open>
  C16: Every frame that the transmission program puts on the air, in any mode, with any handlers it
  attaches, whatever files and directories it meets, however \<open>poll\<close> and \<open>read\<close> answer and whenever it
  is stopped, is read by the rules of radiotap as a frame with the flags, the rate (twice the
  megabits, in a byte) and the transmission flags of the command line, followed by the MAC frame.
\<close>

theorem air_frames_labelled:
  fixes delay :: 'u
  assumes "tx_main bld env denv port delay lstat opts runs = Ended calls (w, hs)" and "layout_ok L"
  shows "\<exists>args :: 'u tx_cli_args. tx_parse_args (dxwifi_tests bld) lstat opts tx_default_args = Some args \<and>
     (\<forall>run \<in> set (w_air w). \<forall>pkt \<in> set run.
        radiotap_read L pkt = Some (configured_fields (cli_tx args), drop TX_RADIOTAP_HDR_SIZE pkt))"
proof -
  obtain args :: "'u tx_cli_args" where args: "tx_parse_args (dxwifi_tests bld) lstat opts tx_default_args = Some args"
    using assms(1) by (auto simp: tx_main_def split: option.splits)
  obtain cs r where o: "open_transmitter bld env (tx_savefile args) (tx_device args) (cli_tx args) = (cs, r)" by fastforce
  then have r: "r = Inr (init_transmitter (cli_tx args))"
    using assms(1) by (auto simp: tx_main_def args o open_transmitter_def Let_def checked_def split: if_splits)
  let ?tx = "attach_all delay args (init_transmitter (cli_tx args))"
  let ?w = "\<lparr>w_tx = init_transmitter (cli_tx args), w_runs = runs, w_air = []\<rparr>"
  have run: "transmit port denv delay args ?w = Some (Inr w)"
    using assms(1) by (auto simp: tx_main_def args o r Let_def split: option.splits sum.splits)
  have p: "preinjection (init_transmitter (cli_tx args)) = replicate DXWIFI_TX_FRAME_HANDLER_MAX no_handler"
    "postinjection (init_transmitter (cli_tx args)) = replicate DXWIFI_TX_FRAME_HANDLER_MAX no_handler"
    by (simp_all add: init_transmitter_def)
  have cfg: "configured_header ?tx = configured_header (cli_tx args)" "blocksize ?tx = blocksize (cli_tx args)"
    unfolding attach_all_pipelines[OF p] by (simp_all add: configured_header_def init_transmitter_def)
  have "labelled_world ?tx (?w\<lparr>w_tx := ?tx\<rparr>)"
    using tx_parse_args_ok[OF tx_default_args_ok args] cfg(2)
    by (simp add: labelled_world_def program_pipelines_keep tx_args_ok_def)
  then have "labelled_world ?tx w" using labels.transmit_keeps[OF run] by simp
  then have lab: "labelled (cli_tx args) pkt" if "run \<in> set (w_air w)" "pkt \<in> set run" for run pkt
    using that by (simp add: labelled_world_def labelled_def cfg)
  have "radiotap_read L pkt = Some (configured_fields (cli_tx args), drop TX_RADIOTAP_HDR_SIZE pkt)"
    if "labelled (cli_tx args) pkt" for pkt
    using that radiotap_read_header[OF assms(2), of "cli_tx args"] by (auto simp: labelled_def)
  then show ?thesis using args lab by blast
qed

definition standard_layout :: radiotap_layout where
  "standard_layout f =
     (if f = IEEE80211_RADIOTAP_TSFT then (8, 8) else if f = IEEE80211_RADIOTAP_CHANNEL then (2, 4)
      else if f = IEEE80211_RADIOTAP_TX_FLAGS then (2, 2) else (1, 1))"

theorem air_frames_labelled_witness:
  "\<exists>calls w hs. tx_main sample_build
       \<lparr>env_open = True, env_setnonblock = 0, env_set_datalink = 0, env_compile = 0, env_setfilter = 0, env_dump_open = True\<rparr>
       \<lparr>env_opens = (\<lambda>f. False), env_lstat = (\<lambda>p. None), env_fnmatch = (\<lambda>p s. True), env_opendir = (\<lambda>d. None),
         env_inotify_fd = 3, env_add_watch = (\<lambda>d m. 1), env_dir_events = []\<rparr>
       Savefile () (\<lambda>p. None) [(ARGP_KEY_END, [])] [file_run [[1, 2, 3]]] = Ended calls (w, hs) \<and>
     map length (w_air w) = [3] \<and>
     (\<forall>run \<in> set (w_air w). \<forall>pkt \<in> set run. radiotap_read standard_layout pkt =
        Some ([(IEEE80211_RADIOTAP_FLAGS, [0x10]), (IEEE80211_RADIOTAP_RATE, [2]), (IEEE80211_RADIOTAP_TX_FLAGS, [8, 0])],
          drop TX_RADIOTAP_HDR_SIZE pkt))"
proof -
  let ?env = "\<lparr>env_open = True, env_setnonblock = 0, env_set_datalink = 0, env_compile = 0, env_setfilter = 0, env_dump_open = True\<rparr>"
  let ?denv = "\<lparr>env_opens = (\<lambda>f. False), env_lstat = (\<lambda>p. None), env_fnmatch = (\<lambda>p s. True), env_opendir = (\<lambda>d. None),
         env_inotify_fd = 3, env_add_watch = (\<lambda>d m. 1), env_dir_events = []\<rparr>"
  let ?args = "tx_default_args :: unit tx_cli_args"
  have parsed: "tx_parse_args (dxwifi_tests sample_build) (\<lambda>p. None) [(ARGP_KEY_END, [])] ?args = Some ?args"
    by (simp add: tx_parse_opt_def tx_key_defs tx_key_end_def tx_default_args_def)
  obtain cs where o: "open_transmitter sample_build ?env (tx_savefile ?args) (tx_device ?args) (cli_tx ?args) =
      (cs, Inr (init_transmitter (cli_tx ?args)))"
    by (cases "dxwifi_tests sample_build") (auto simp: open_transmitter_def checked_def Let_def)
  let ?tx = "attach_all () ?args (init_transmitter (cli_tx ?args))"
  let ?w = "\<lparr>w_tx = ?tx, w_runs = [], w_air = []\<rparr>"
  have ok: "transmitter_ok ?tx"
    by (intro attach_all_ok tx_default_args_ok) (simp_all add: tx_default_args_def fits_int_def INT_MIN_def INT_MAX_def)
  have p: "preinjection (init_transmitter (cli_tx ?args)) = replicate DXWIFI_TX_FRAME_HANDLER_MAX no_handler"
    "postinjection (init_transmitter (cli_tx ?args)) = replicate DXWIFI_TX_FRAME_HANDLER_MAX no_handler"
    by (simp_all add: init_transmitter_def)
  have sz: "good_block ?tx [1, 2, 3]" "payloads_on_air ?tx [[1, 2, 3]] =
      [replicate DXWIFI_FRAME_CONTROL_DATA_SIZE 0xff, [1, 2, 3], replicate DXWIFI_FRAME_CONTROL_DATA_SIZE 0xaa]"
    unfolding attach_all_pipelines[OF p]
    by (simp_all add: good_block_def payloads_on_air_def ctrl_copies_def init_transmitter_def tx_default_args_def)
  obtain w where w: "setup_handlers_and_transmit Savefile (run_events (file_run [[1, 2, 3]])) ?w = Some (Inr (DXWIFI_TX_NORMAL, w))"
    "map (map air_payload) (w_air w) = [payloads_on_air ?tx [[1, 2, 3]]]"
    using transmit_file_run[of ?w "[[1, 2, 3]]" Savefile] ok sz(1) by auto
  have len: "map length (w_air w) = [3]"
    using w(2) unfolding sz(2) by (auto simp: map_eq_Cons_conv)
  have mode: "tx_mode ?args = TX_STREAM_MODE" by (simp add: tx_default_args_def)
  have run: "\<exists>calls hs. tx_main sample_build ?env ?denv Savefile () (\<lambda>p. None) [(ARGP_KEY_END, [])] [file_run [[1, 2, 3]]] =
      Ended calls (w, hs)"
    unfolding tx_main_def parsed using w(1) by (simp add: o transmit_def mode)
  then obtain calls hs where e: "tx_main sample_build ?env ?denv Savefile () (\<lambda>p. None) [(ARGP_KEY_END, [])] [file_run [[1, 2, 3]]] =
      Ended calls (w, hs)" by blast
  have "layout_ok standard_layout" by (simp add: layout_ok_def standard_layout_def)
  from air_frames_labelled[OF e this] obtain args :: "unit tx_cli_args" where
    "tx_parse_args (dxwifi_tests sample_build) (\<lambda>p. None) [(ARGP_KEY_END, [])] tx_default_args = Some args"
    and a: "\<forall>run \<in> set (w_air w). \<forall>pkt \<in> set run.
        radiotap_read standard_layout pkt = Some (configured_fields (cli_tx args), drop TX_RADIOTAP_HDR_SIZE pkt)" by blast
  then have "args = ?args" using parsed by simp
  then have "configured_fields (cli_tx args) = [(IEEE80211_RADIOTAP_FLAGS, [0x10]), (IEEE80211_RADIOTAP_RATE, [2]),
      (IEEE80211_RADIOTAP_TX_FLAGS, [8, 0])]"
    by (simp add: configured_fields_def tx_default_args_def le16_bytes_def)
  then show ?thesis using a e len by auto
qed

end
