(* ===== verification/RadiotapFields.thy ===== *)
theory RadiotapFields
  imports Prelude
begin

text \<open>
  The enumerations of \<open>libdxwifi/details/ieee80211.h\<close> for the fields of a radiotap header that the
  programs do not send: channel, receive flags, MCS, A-MPDU, VHT, timestamp, HE, L-SIG and PSDU
  type. They describe what a card may put before a captured frame. Each is a datatype with the
  values of its constants; the layout that the values give to the fields is checked at the end.
\<close>

unbundle bit_operations_syntax

subsection \<open>Channel and receive flags\<close>

datatype ieee80211_radiotap_channel_flags =
    IEEE80211_CHAN_CCK | IEEE80211_CHAN_OFDM | IEEE80211_CHAN_2GHZ | IEEE80211_CHAN_5GHZ
  | IEEE80211_CHAN_DYN | IEEE80211_CHAN_HALF | IEEE80211_CHAN_QUARTER

primrec channel_flag :: "ieee80211_radiotap_channel_flags \<Rightarrow> u16" where
  "channel_flag IEEE80211_CHAN_CCK = 0x0020"
| "channel_flag IEEE80211_CHAN_OFDM = 0x0040"
| "channel_flag IEEE80211_CHAN_2GHZ = 0x0080"
| "channel_flag IEEE80211_CHAN_5GHZ = 0x0100"
| "channel_flag IEEE80211_CHAN_DYN = 0x0400"
| "channel_flag IEEE80211_CHAN_HALF = 0x4000"
| "channel_flag IEEE80211_CHAN_QUARTER = 0x8000"

datatype ieee80211_radiotap_rx_flags =
    IEEE80211_RADIOTAP_F_RX_BADPLCP

primrec radiotap_rx_flag :: "ieee80211_radiotap_rx_flags \<Rightarrow> u16" where
  "radiotap_rx_flag IEEE80211_RADIOTAP_F_RX_BADPLCP = 0x0002"

subsection \<open>MCS and A-MPDU\<close>

datatype ieee80211_radiotap_mcs_have =
    IEEE80211_RADIOTAP_MCS_HAVE_BW | IEEE80211_RADIOTAP_MCS_HAVE_MCS
  | IEEE80211_RADIOTAP_MCS_HAVE_GI | IEEE80211_RADIOTAP_MCS_HAVE_FMT
  | IEEE80211_RADIOTAP_MCS_HAVE_FEC | IEEE80211_RADIOTAP_MCS_HAVE_STBC

primrec mcs_have :: "ieee80211_radiotap_mcs_have \<Rightarrow> u16" where
  "mcs_have IEEE80211_RADIOTAP_MCS_HAVE_BW = 0x01"
| "mcs_have IEEE80211_RADIOTAP_MCS_HAVE_MCS = 0x02"
| "mcs_have IEEE80211_RADIOTAP_MCS_HAVE_GI = 0x04"
| "mcs_have IEEE80211_RADIOTAP_MCS_HAVE_FMT = 0x08"
| "mcs_have IEEE80211_RADIOTAP_MCS_HAVE_FEC = 0x10"
| "mcs_have IEEE80211_RADIOTAP_MCS_HAVE_STBC = 0x20"

datatype ieee80211_radiotap_mcs_flags =
    IEEE80211_RADIOTAP_MCS_BW_MASK | IEEE80211_RADIOTAP_MCS_BW_20 | IEEE80211_RADIOTAP_MCS_BW_40
  | IEEE80211_RADIOTAP_MCS_BW_20L | IEEE80211_RADIOTAP_MCS_BW_20U | IEEE80211_RADIOTAP_MCS_SGI
  | IEEE80211_RADIOTAP_MCS_FMT_GF | IEEE80211_RADIOTAP_MCS_FEC_LDPC
  | IEEE80211_RADIOTAP_MCS_STBC_MASK | IEEE80211_RADIOTAP_MCS_STBC_1
  | IEEE80211_RADIOTAP_MCS_STBC_2 | IEEE80211_RADIOTAP_MCS_STBC_3
  | IEEE80211_RADIOTAP_MCS_STBC_SHIFT

primrec mcs_flag :: "ieee80211_radiotap_mcs_flags \<Rightarrow> u16" where
  "mcs_flag IEEE80211_RADIOTAP_MCS_BW_MASK = 0x03"
| "mcs_flag IEEE80211_RADIOTAP_MCS_BW_20 = 0"
| "mcs_flag IEEE80211_RADIOTAP_MCS_BW_40 = 1"
| "mcs_flag IEEE80211_RADIOTAP_MCS_BW_20L = 2"
| "mcs_flag IEEE80211_RADIOTAP_MCS_BW_20U = 3"
| "mcs_flag IEEE80211_RADIOTAP_MCS_SGI = 0x04"
| "mcs_flag IEEE80211_RADIOTAP_MCS_FMT_GF = 0x08"
| "mcs_flag IEEE80211_RADIOTAP_MCS_FEC_LDPC = 0x10"
| "mcs_flag IEEE80211_RADIOTAP_MCS_STBC_MASK = 0x60"
| "mcs_flag IEEE80211_RADIOTAP_MCS_STBC_1 = 1"
| "mcs_flag IEEE80211_RADIOTAP_MCS_STBC_2 = 2"
| "mcs_flag IEEE80211_RADIOTAP_MCS_STBC_3 = 3"
| "mcs_flag IEEE80211_RADIOTAP_MCS_STBC_SHIFT = 5"

datatype ieee80211_radiotap_ampdu_flags =
    IEEE80211_RADIOTAP_AMPDU_REPORT_ZEROLEN | IEEE80211_RADIOTAP_AMPDU_IS_ZEROLEN
  | IEEE80211_RADIOTAP_AMPDU_LAST_KNOWN | IEEE80211_RADIOTAP_AMPDU_IS_LAST
  | IEEE80211_RADIOTAP_AMPDU_DELIM_CRC_ERR | IEEE80211_RADIOTAP_AMPDU_DELIM_CRC_KNOWN
  | IEEE80211_RADIOTAP_AMPDU_EOF | IEEE80211_RADIOTAP_AMPDU_EOF_KNOWN

primrec ampdu_flag :: "ieee80211_radiotap_ampdu_flags \<Rightarrow> u16" where
  "ampdu_flag IEEE80211_RADIOTAP_AMPDU_REPORT_ZEROLEN = 0x0001"
| "ampdu_flag IEEE80211_RADIOTAP_AMPDU_IS_ZEROLEN = 0x0002"
| "ampdu_flag IEEE80211_RADIOTAP_AMPDU_LAST_KNOWN = 0x0004"
| "ampdu_flag IEEE80211_RADIOTAP_AMPDU_IS_LAST = 0x0008"
| "ampdu_flag IEEE80211_RADIOTAP_AMPDU_DELIM_CRC_ERR = 0x0010"
| "ampdu_flag IEEE80211_RADIOTAP_AMPDU_DELIM_CRC_KNOWN = 0x0020"
| "ampdu_flag IEEE80211_RADIOTAP_AMPDU_EOF = 0x0040"
| "ampdu_flag IEEE80211_RADIOTAP_AMPDU_EOF_KNOWN = 0x0080"

subsection \<open>VHT\<close>

datatype ieee80211_radiotap_vht_known =
    IEEE80211_RADIOTAP_VHT_KNOWN_STBC | IEEE80211_RADIOTAP_VHT_KNOWN_TXOP_PS_NA
  | IEEE80211_RADIOTAP_VHT_KNOWN_GI | IEEE80211_RADIOTAP_VHT_KNOWN_SGI_NSYM_DIS
  | IEEE80211_RADIOTAP_VHT_KNOWN_LDPC_EXTRA_OFDM_SYM | IEEE80211_RADIOTAP_VHT_KNOWN_BEAMFORMED
  | IEEE80211_RADIOTAP_VHT_KNOWN_BANDWIDTH | IEEE80211_RADIOTAP_VHT_KNOWN_GROUP_ID
  | IEEE80211_RADIOTAP_VHT_KNOWN_PARTIAL_AID

primrec vht_known :: "ieee80211_radiotap_vht_known \<Rightarrow> u16" where
  "vht_known IEEE80211_RADIOTAP_VHT_KNOWN_STBC = 0x0001"
| "vht_known IEEE80211_RADIOTAP_VHT_KNOWN_TXOP_PS_NA = 0x0002"
| "vht_known IEEE80211_RADIOTAP_VHT_KNOWN_GI = 0x0004"
| "vht_known IEEE80211_RADIOTAP_VHT_KNOWN_SGI_NSYM_DIS = 0x0008"
| "vht_known IEEE80211_RADIOTAP_VHT_KNOWN_LDPC_EXTRA_OFDM_SYM = 0x0010"
| "vht_known IEEE80211_RADIOTAP_VHT_KNOWN_BEAMFORMED = 0x0020"
| "vht_known IEEE80211_RADIOTAP_VHT_KNOWN_BANDWIDTH = 0x0040"
| "vht_known IEEE80211_RADIOTAP_VHT_KNOWN_GROUP_ID = 0x0080"
| "vht_known IEEE80211_RADIOTAP_VHT_KNOWN_PARTIAL_AID = 0x0100"

datatype ieee80211_radiotap_vht_flags =
    IEEE80211_RADIOTAP_VHT_FLAG_STBC | IEEE80211_RADIOTAP_VHT_FLAG_TXOP_PS_NA
  | IEEE80211_RADIOTAP_VHT_FLAG_SGI | IEEE80211_RADIOTAP_VHT_FLAG_SGI_NSYM_M10_9
  | IEEE80211_RADIOTAP_VHT_FLAG_LDPC_EXTRA_OFDM_SYM | IEEE80211_RADIOTAP_VHT_FLAG_BEAMFORMED

primrec vht_flag :: "ieee80211_radiotap_vht_flags \<Rightarrow> u16" where
  "vht_flag IEEE80211_RADIOTAP_VHT_FLAG_STBC = 0x01"
| "vht_flag IEEE80211_RADIOTAP_VHT_FLAG_TXOP_PS_NA = 0x02"
| "vht_flag IEEE80211_RADIOTAP_VHT_FLAG_SGI = 0x04"
| "vht_flag IEEE80211_RADIOTAP_VHT_FLAG_SGI_NSYM_M10_9 = 0x08"
| "vht_flag IEEE80211_RADIOTAP_VHT_FLAG_LDPC_EXTRA_OFDM_SYM = 0x10"
| "vht_flag IEEE80211_RADIOTAP_VHT_FLAG_BEAMFORMED = 0x20"

datatype ieee80211_radiotap_vht_coding =
    IEEE80211_RADIOTAP_CODING_LDPC_USER0 | IEEE80211_RADIOTAP_CODING_LDPC_USER1
  | IEEE80211_RADIOTAP_CODING_LDPC_USER2 | IEEE80211_RADIOTAP_CODING_LDPC_USER3

primrec vht_coding :: "ieee80211_radiotap_vht_coding \<Rightarrow> u16" where
  "vht_coding IEEE80211_RADIOTAP_CODING_LDPC_USER0 = 0x01"
| "vht_coding IEEE80211_RADIOTAP_CODING_LDPC_USER1 = 0x02"
| "vht_coding IEEE80211_RADIOTAP_CODING_LDPC_USER2 = 0x04"
| "vht_coding IEEE80211_RADIOTAP_CODING_LDPC_USER3 = 0x08"

subsection \<open>Timestamp\<close>

datatype ieee80211_radiotap_timestamp_unit_spos =
    IEEE80211_RADIOTAP_TIMESTAMP_UNIT_MASK | IEEE80211_RADIOTAP_TIMESTAMP_UNIT_MS
  | IEEE80211_RADIOTAP_TIMESTAMP_UNIT_US | IEEE80211_RADIOTAP_TIMESTAMP_UNIT_NS
  | IEEE80211_RADIOTAP_TIMESTAMP_SPOS_MASK | IEEE80211_RADIOTAP_TIMESTAMP_SPOS_BEGIN_MDPU
  | IEEE80211_RADIOTAP_TIMESTAMP_SPOS_PLCP_SIG_ACQ | IEEE80211_RADIOTAP_TIMESTAMP_SPOS_EO_PPDU
  | IEEE80211_RADIOTAP_TIMESTAMP_SPOS_EO_MPDU | IEEE80211_RADIOTAP_TIMESTAMP_SPOS_UNKNOWN

primrec timestamp_unit_spos :: "ieee80211_radiotap_timestamp_unit_spos \<Rightarrow> u16" where
  "timestamp_unit_spos IEEE80211_RADIOTAP_TIMESTAMP_UNIT_MASK = 0x000F"
| "timestamp_unit_spos IEEE80211_RADIOTAP_TIMESTAMP_UNIT_MS = 0x0000"
| "timestamp_unit_spos IEEE80211_RADIOTAP_TIMESTAMP_UNIT_US = 0x0001"
| "timestamp_unit_spos IEEE80211_RADIOTAP_TIMESTAMP_UNIT_NS = 0x0003"
| "timestamp_unit_spos IEEE80211_RADIOTAP_TIMESTAMP_SPOS_MASK = 0x00F0"
| "timestamp_unit_spos IEEE80211_RADIOTAP_TIMESTAMP_SPOS_BEGIN_MDPU = 0x0000"
| "timestamp_unit_spos IEEE80211_RADIOTAP_TIMESTAMP_SPOS_PLCP_SIG_ACQ = 0x0010"
| "timestamp_unit_spos IEEE80211_RADIOTAP_TIMESTAMP_SPOS_EO_PPDU = 0x0020"
| "timestamp_unit_spos IEEE80211_RADIOTAP_TIMESTAMP_SPOS_EO_MPDU = 0x0030"
| "timestamp_unit_spos IEEE80211_RADIOTAP_TIMESTAMP_SPOS_UNKNOWN = 0x00F0"

datatype ieee80211_radiotap_timestamp_flags =
    IEEE80211_RADIOTAP_TIMESTAMP_FLAG_64BIT | IEEE80211_RADIOTAP_TIMESTAMP_FLAG_32BIT
  | IEEE80211_RADIOTAP_TIMESTAMP_FLAG_ACCURACY

primrec timestamp_flag :: "ieee80211_radiotap_timestamp_flags \<Rightarrow> u16" where
  "timestamp_flag IEEE80211_RADIOTAP_TIMESTAMP_FLAG_64BIT = 0x00"
| "timestamp_flag IEEE80211_RADIOTAP_TIMESTAMP_FLAG_32BIT = 0x01"
| "timestamp_flag IEEE80211_RADIOTAP_TIMESTAMP_FLAG_ACCURACY = 0x02"

subsection \<open>HE\<close>

record ieee80211_radiotap_he =
  he_data1 :: u16
  he_data2 :: u16
  he_data3 :: u16
  he_data4 :: u16
  he_data5 :: u16
  he_data6 :: u16

datatype (plugins only: size) ieee80211_radiotap_he_bits =
    IEEE80211_RADIOTAP_HE_DATA1_FORMAT_MASK | IEEE80211_RADIOTAP_HE_DATA1_FORMAT_SU
  | IEEE80211_RADIOTAP_HE_DATA1_FORMAT_EXT_SU | IEEE80211_RADIOTAP_HE_DATA1_FORMAT_MU
  | IEEE80211_RADIOTAP_HE_DATA1_FORMAT_TRIG | IEEE80211_RADIOTAP_HE_DATA1_BSS_COLOR_KNOWN
  | IEEE80211_RADIOTAP_HE_DATA1_BEAM_CHANGE_KNOWN | IEEE80211_RADIOTAP_HE_DATA1_UL_DL_KNOWN
  | IEEE80211_RADIOTAP_HE_DATA1_DATA_MCS_KNOWN | IEEE80211_RADIOTAP_HE_DATA1_DATA_DCM_KNOWN
  | IEEE80211_RADIOTAP_HE_DATA1_CODING_KNOWN | IEEE80211_RADIOTAP_HE_DATA1_LDPC_XSYMSEG_KNOWN
  | IEEE80211_RADIOTAP_HE_DATA1_STBC_KNOWN | IEEE80211_RADIOTAP_HE_DATA1_SPTL_REUSE_KNOWN
  | IEEE80211_RADIOTAP_HE_DATA1_SPTL_REUSE2_KNOWN | IEEE80211_RADIOTAP_HE_DATA1_SPTL_REUSE3_KNOWN
  | IEEE80211_RADIOTAP_HE_DATA1_SPTL_REUSE4_KNOWN | IEEE80211_RADIOTAP_HE_DATA1_BW_RU_ALLOC_KNOWN
  | IEEE80211_RADIOTAP_HE_DATA1_DOPPLER_KNOWN | IEEE80211_RADIOTAP_HE_DATA2_PRISEC_80_KNOWN
  | IEEE80211_RADIOTAP_HE_DATA2_GI_KNOWN | IEEE80211_RADIOTAP_HE_DATA2_NUM_LTF_SYMS_KNOWN
  | IEEE80211_RADIOTAP_HE_DATA2_PRE_FEC_PAD_KNOWN | IEEE80211_RADIOTAP_HE_DATA2_TXBF_KNOWN
  | IEEE80211_RADIOTAP_HE_DATA2_PE_DISAMBIG_KNOWN | IEEE80211_RADIOTAP_HE_DATA2_TXOP_KNOWN
  | IEEE80211_RADIOTAP_HE_DATA2_MIDAMBLE_KNOWN | IEEE80211_RADIOTAP_HE_DATA2_RU_OFFSET
  | IEEE80211_RADIOTAP_HE_DATA2_RU_OFFSET_KNOWN | IEEE80211_RADIOTAP_HE_DATA2_PRISEC_80_SEC
  | IEEE80211_RADIOTAP_HE_DATA3_BSS_COLOR | IEEE80211_RADIOTAP_HE_DATA3_BEAM_CHANGE
  | IEEE80211_RADIOTAP_HE_DATA3_UL_DL | IEEE80211_RADIOTAP_HE_DATA3_DATA_MCS
  | IEEE80211_RADIOTAP_HE_DATA3_DATA_DCM | IEEE80211_RADIOTAP_HE_DATA3_CODING
  | IEEE80211_RADIOTAP_HE_DATA3_LDPC_XSYMSEG | IEEE80211_RADIOTAP_HE_DATA3_STBC
  | IEEE80211_RADIOTAP_HE_DATA4_SU_MU_SPTL_REUSE | IEEE80211_RADIOTAP_HE_DATA4_MU_STA_ID
  | IEEE80211_RADIOTAP_HE_DATA4_TB_SPTL_REUSE1 | IEEE80211_RADIOTAP_HE_DATA4_TB_SPTL_REUSE2
  | IEEE80211_RADIOTAP_HE_DATA4_TB_SPTL_REUSE3 | IEEE80211_RADIOTAP_HE_DATA4_TB_SPTL_REUSE4
  | IEEE80211_RADIOTAP_HE_DATA5_DATA_BW_RU_ALLOC
  | IEEE80211_RADIOTAP_HE_DATA5_DATA_BW_RU_ALLOC_20MHZ
  | IEEE80211_RADIOTAP_HE_DATA5_DATA_BW_RU_ALLOC_40MHZ
  | IEEE80211_RADIOTAP_HE_DATA5_DATA_BW_RU_ALLOC_80MHZ
  | IEEE80211_RADIOTAP_HE_DATA5_DATA_BW_RU_ALLOC_160MHZ
  | IEEE80211_RADIOTAP_HE_DATA5_DATA_BW_RU_ALLOC_26T
  | IEEE80211_RADIOTAP_HE_DATA5_DATA_BW_RU_ALLOC_52T
  | IEEE80211_RADIOTAP_HE_DATA5_DATA_BW_RU_ALLOC_106T
  | IEEE80211_RADIOTAP_HE_DATA5_DATA_BW_RU_ALLOC_242T
  | IEEE80211_RADIOTAP_HE_DATA5_DATA_BW_RU_ALLOC_484T
  | IEEE80211_RADIOTAP_HE_DATA5_DATA_BW_RU_ALLOC_996T
  | IEEE80211_RADIOTAP_HE_DATA5_DATA_BW_RU_ALLOC_2x996T | IEEE80211_RADIOTAP_HE_DATA5_GI
  | IEEE80211_RADIOTAP_HE_DATA5_GI_0_8 | IEEE80211_RADIOTAP_HE_DATA5_GI_1_6
  | IEEE80211_RADIOTAP_HE_DATA5_GI_3_2 | IEEE80211_RADIOTAP_HE_DATA5_LTF_SIZE
  | IEEE80211_RADIOTAP_HE_DATA5_LTF_SIZE_UNKNOWN | IEEE80211_RADIOTAP_HE_DATA5_LTF_SIZE_1X
  | IEEE80211_RADIOTAP_HE_DATA5_LTF_SIZE_2X | IEEE80211_RADIOTAP_HE_DATA5_LTF_SIZE_4X
  | IEEE80211_RADIOTAP_HE_DATA5_NUM_LTF_SYMS | IEEE80211_RADIOTAP_HE_DATA5_PRE_FEC_PAD
  | IEEE80211_RADIOTAP_HE_DATA5_TXBF | IEEE80211_RADIOTAP_HE_DATA5_PE_DISAMBIG
  | IEEE80211_RADIOTAP_HE_DATA6_NSTS | IEEE80211_RADIOTAP_HE_DATA6_DOPPLER
  | IEEE80211_RADIOTAP_HE_DATA6_TB_PPDU_BW_KNOWN | IEEE80211_RADIOTAP_HE_DATA6_TB_PPDU_BW
  | IEEE80211_RADIOTAP_HE_DATA6_TB_PPDU_BW_20MHZ | IEEE80211_RADIOTAP_HE_DATA6_TB_PPDU_BW_40MHZ
  | IEEE80211_RADIOTAP_HE_DATA6_TB_PPDU_BW_80MHZ | IEEE80211_RADIOTAP_HE_DATA6_TB_PPDU_BW_160MHZ
  | IEEE80211_RADIOTAP_HE_DATA6_TXOP | IEEE80211_RADIOTAP_HE_DATA6_MIDAMBLE_PDCTY

primrec he_bits :: "ieee80211_radiotap_he_bits \<Rightarrow> u16" where
  "he_bits IEEE80211_RADIOTAP_HE_DATA1_FORMAT_MASK = 3"
| "he_bits IEEE80211_RADIOTAP_HE_DATA1_FORMAT_SU = 0"
| "he_bits IEEE80211_RADIOTAP_HE_DATA1_FORMAT_EXT_SU = 1"
| "he_bits IEEE80211_RADIOTAP_HE_DATA1_FORMAT_MU = 2"
| "he_bits IEEE80211_RADIOTAP_HE_DATA1_FORMAT_TRIG = 3"
| "he_bits IEEE80211_RADIOTAP_HE_DATA1_BSS_COLOR_KNOWN = 0x0004"
| "he_bits IEEE80211_RADIOTAP_HE_DATA1_BEAM_CHANGE_KNOWN = 0x0008"
| "he_bits IEEE80211_RADIOTAP_HE_DATA1_UL_DL_KNOWN = 0x0010"
| "he_bits IEEE80211_RADIOTAP_HE_DATA1_DATA_MCS_KNOWN = 0x0020"
| "he_bits IEEE80211_RADIOTAP_HE_DATA1_DATA_DCM_KNOWN = 0x0040"
| "he_bits IEEE80211_RADIOTAP_HE_DATA1_CODING_KNOWN = 0x0080"
| "he_bits IEEE80211_RADIOTAP_HE_DATA1_LDPC_XSYMSEG_KNOWN = 0x0100"
| "he_bits IEEE80211_RADIOTAP_HE_DATA1_STBC_KNOWN = 0x0200"
| "he_bits IEEE80211_RADIOTAP_HE_DATA1_SPTL_REUSE_KNOWN = 0x0400"
| "he_bits IEEE80211_RADIOTAP_HE_DATA1_SPTL_REUSE2_KNOWN = 0x0800"
| "he_bits IEEE80211_RADIOTAP_HE_DATA1_SPTL_REUSE3_KNOWN = 0x1000"
| "he_bits IEEE80211_RADIOTAP_HE_DATA1_SPTL_REUSE4_KNOWN = 0x2000"
| "he_bits IEEE80211_RADIOTAP_HE_DATA1_BW_RU_ALLOC_KNOWN = 0x4000"
| "he_bits IEEE80211_RADIOTAP_HE_DATA1_DOPPLER_KNOWN = 0x8000"
| "he_bits IEEE80211_RADIOTAP_HE_DATA2_PRISEC_80_KNOWN = 0x0001"
| "he_bits IEEE80211_RADIOTAP_HE_DATA2_GI_KNOWN = 0x0002"
| "he_bits IEEE80211_RADIOTAP_HE_DATA2_NUM_LTF_SYMS_KNOWN = 0x0004"
| "he_bits IEEE80211_RADIOTAP_HE_DATA2_PRE_FEC_PAD_KNOWN = 0x0008"
| "he_bits IEEE80211_RADIOTAP_HE_DATA2_TXBF_KNOWN = 0x0010"
| "he_bits IEEE80211_RADIOTAP_HE_DATA2_PE_DISAMBIG_KNOWN = 0x0020"
| "he_bits IEEE80211_RADIOTAP_HE_DATA2_TXOP_KNOWN = 0x0040"
| "he_bits IEEE80211_RADIOTAP_HE_DATA2_MIDAMBLE_KNOWN = 0x0080"
| "he_bits IEEE80211_RADIOTAP_HE_DATA2_RU_OFFSET = 0x3f00"
| "he_bits IEEE80211_RADIOTAP_HE_DATA2_RU_OFFSET_KNOWN = 0x4000"
| "he_bits IEEE80211_RADIOTAP_HE_DATA2_PRISEC_80_SEC = 0x8000"
| "he_bits IEEE80211_RADIOTAP_HE_DATA3_BSS_COLOR = 0x003f"
| "he_bits IEEE80211_RADIOTAP_HE_DATA3_BEAM_CHANGE = 0x0040"
| "he_bits IEEE80211_RADIOTAP_HE_DATA3_UL_DL = 0x0080"
| "he_bits IEEE80211_RADIOTAP_HE_DATA3_DATA_MCS = 0x0f00"
| "he_bits IEEE80211_RADIOTAP_HE_DATA3_DATA_DCM = 0x1000"
| "he_bits IEEE80211_RADIOTAP_HE_DATA3_CODING = 0x2000"
| "he_bits IEEE80211_RADIOTAP_HE_DATA3_LDPC_XSYMSEG = 0x4000"
| "he_bits IEEE80211_RADIOTAP_HE_DATA3_STBC = 0x8000"
| "he_bits IEEE80211_RADIOTAP_HE_DATA4_SU_MU_SPTL_REUSE = 0x000f"
| "he_bits IEEE80211_RADIOTAP_HE_DATA4_MU_STA_ID = 0x7ff0"
| "he_bits IEEE80211_RADIOTAP_HE_DATA4_TB_SPTL_REUSE1 = 0x000f"
| "he_bits IEEE80211_RADIOTAP_HE_DATA4_TB_SPTL_REUSE2 = 0x00f0"
| "he_bits IEEE80211_RADIOTAP_HE_DATA4_TB_SPTL_REUSE3 = 0x0f00"
| "he_bits IEEE80211_RADIOTAP_HE_DATA4_TB_SPTL_REUSE4 = 0xf000"
| "he_bits IEEE80211_RADIOTAP_HE_DATA5_DATA_BW_RU_ALLOC = 0x000f"
| "he_bits IEEE80211_RADIOTAP_HE_DATA5_DATA_BW_RU_ALLOC_20MHZ = 0"
| "he_bits IEEE80211_RADIOTAP_HE_DATA5_DATA_BW_RU_ALLOC_40MHZ = 1"
| "he_bits IEEE80211_RADIOTAP_HE_DATA5_DATA_BW_RU_ALLOC_80MHZ = 2"
| "he_bits IEEE80211_RADIOTAP_HE_DATA5_DATA_BW_RU_ALLOC_160MHZ = 3"
| "he_bits IEEE80211_RADIOTAP_HE_DATA5_DATA_BW_RU_ALLOC_26T = 4"
| "he_bits IEEE80211_RADIOTAP_HE_DATA5_DATA_BW_RU_ALLOC_52T = 5"
| "he_bits IEEE80211_RADIOTAP_HE_DATA5_DATA_BW_RU_ALLOC_106T = 6"
| "he_bits IEEE80211_RADIOTAP_HE_DATA5_DATA_BW_RU_ALLOC_242T = 7"
| "he_bits IEEE80211_RADIOTAP_HE_DATA5_DATA_BW_RU_ALLOC_484T = 8"
| "he_bits IEEE80211_RADIOTAP_HE_DATA5_DATA_BW_RU_ALLOC_996T = 9"
| "he_bits IEEE80211_RADIOTAP_HE_DATA5_DATA_BW_RU_ALLOC_2x996T = 10"
| "he_bits IEEE80211_RADIOTAP_HE_DATA5_GI = 0x0030"
| "he_bits IEEE80211_RADIOTAP_HE_DATA5_GI_0_8 = 0"
| "he_bits IEEE80211_RADIOTAP_HE_DATA5_GI_1_6 = 1"
| "he_bits IEEE80211_RADIOTAP_HE_DATA5_GI_3_2 = 2"
| "he_bits IEEE80211_RADIOTAP_HE_DATA5_LTF_SIZE = 0x00c0"
| "he_bits IEEE80211_RADIOTAP_HE_DATA5_LTF_SIZE_UNKNOWN = 0"
| "he_bits IEEE80211_RADIOTAP_HE_DATA5_LTF_SIZE_1X = 1"
| "he_bits IEEE80211_RADIOTAP_HE_DATA5_LTF_SIZE_2X = 2"
| "he_bits IEEE80211_RADIOTAP_HE_DATA5_LTF_SIZE_4X = 3"
| "he_bits IEEE80211_RADIOTAP_HE_DATA5_NUM_LTF_SYMS = 0x0700"
| "he_bits IEEE80211_RADIOTAP_HE_DATA5_PRE_FEC_PAD = 0x3000"
| "he_bits IEEE80211_RADIOTAP_HE_DATA5_TXBF = 0x4000"
| "he_bits IEEE80211_RADIOTAP_HE_DATA5_PE_DISAMBIG = 0x8000"
| "he_bits IEEE80211_RADIOTAP_HE_DATA6_NSTS = 0x000f"
| "he_bits IEEE80211_RADIOTAP_HE_DATA6_DOPPLER = 0x0010"
| "he_bits IEEE80211_RADIOTAP_HE_DATA6_TB_PPDU_BW_KNOWN = 0x0020"
| "he_bits IEEE80211_RADIOTAP_HE_DATA6_TB_PPDU_BW = 0x00c0"
| "he_bits IEEE80211_RADIOTAP_HE_DATA6_TB_PPDU_BW_20MHZ = 0"
| "he_bits IEEE80211_RADIOTAP_HE_DATA6_TB_PPDU_BW_40MHZ = 1"
| "he_bits IEEE80211_RADIOTAP_HE_DATA6_TB_PPDU_BW_80MHZ = 2"
| "he_bits IEEE80211_RADIOTAP_HE_DATA6_TB_PPDU_BW_160MHZ = 3"
| "he_bits IEEE80211_RADIOTAP_HE_DATA6_TXOP = 0x7f00"
| "he_bits IEEE80211_RADIOTAP_HE_DATA6_MIDAMBLE_PDCTY = 0x8000"

record ieee80211_radiotap_he_mu =
  mu_flags1 :: u16
  mu_flags2 :: u16
  ru_ch1 :: "byte list"
  ru_ch2 :: "byte list"

datatype (plugins only: size) ieee80211_radiotap_he_mu_bits =
    IEEE80211_RADIOTAP_HE_MU_FLAGS1_SIG_B_MCS | IEEE80211_RADIOTAP_HE_MU_FLAGS1_SIG_B_MCS_KNOWN
  | IEEE80211_RADIOTAP_HE_MU_FLAGS1_SIG_B_DCM | IEEE80211_RADIOTAP_HE_MU_FLAGS1_SIG_B_DCM_KNOWN
  | IEEE80211_RADIOTAP_HE_MU_FLAGS1_CH2_CTR_26T_RU_KNOWN
  | IEEE80211_RADIOTAP_HE_MU_FLAGS1_CH1_RU_KNOWN | IEEE80211_RADIOTAP_HE_MU_FLAGS1_CH2_RU_KNOWN
  | IEEE80211_RADIOTAP_HE_MU_FLAGS1_CH1_CTR_26T_RU_KNOWN
  | IEEE80211_RADIOTAP_HE_MU_FLAGS1_CH1_CTR_26T_RU
  | IEEE80211_RADIOTAP_HE_MU_FLAGS1_SIG_B_COMP_KNOWN
  | IEEE80211_RADIOTAP_HE_MU_FLAGS1_SIG_B_SYMS_USERS_KNOWN
  | IEEE80211_RADIOTAP_HE_MU_FLAGS2_BW_FROM_SIG_A_BW
  | IEEE80211_RADIOTAP_HE_MU_FLAGS2_BW_FROM_SIG_A_BW_20MHZ
  | IEEE80211_RADIOTAP_HE_MU_FLAGS2_BW_FROM_SIG_A_BW_40MHZ
  | IEEE80211_RADIOTAP_HE_MU_FLAGS2_BW_FROM_SIG_A_BW_80MHZ
  | IEEE80211_RADIOTAP_HE_MU_FLAGS2_BW_FROM_SIG_A_BW_160MHZ
  | IEEE80211_RADIOTAP_HE_MU_FLAGS2_BW_FROM_SIG_A_BW_KNOWN
  | IEEE80211_RADIOTAP_HE_MU_FLAGS2_SIG_B_COMP | IEEE80211_RADIOTAP_HE_MU_FLAGS2_SIG_B_SYMS_USERS
  | IEEE80211_RADIOTAP_HE_MU_FLAGS2_PUNC_FROM_SIG_A_BW
  | IEEE80211_RADIOTAP_HE_MU_FLAGS2_PUNC_FROM_SIG_A_BW_KNOWN
  | IEEE80211_RADIOTAP_HE_MU_FLAGS2_CH2_CTR_26T_RU

primrec he_mu_bits :: "ieee80211_radiotap_he_mu_bits \<Rightarrow> u16" where
  "he_mu_bits IEEE80211_RADIOTAP_HE_MU_FLAGS1_SIG_B_MCS = 0x000f"
| "he_mu_bits IEEE80211_RADIOTAP_HE_MU_FLAGS1_SIG_B_MCS_KNOWN = 0x0010"
| "he_mu_bits IEEE80211_RADIOTAP_HE_MU_FLAGS1_SIG_B_DCM = 0x0020"
| "he_mu_bits IEEE80211_RADIOTAP_HE_MU_FLAGS1_SIG_B_DCM_KNOWN = 0x0040"
| "he_mu_bits IEEE80211_RADIOTAP_HE_MU_FLAGS1_CH2_CTR_26T_RU_KNOWN = 0x0080"
| "he_mu_bits IEEE80211_RADIOTAP_HE_MU_FLAGS1_CH1_RU_KNOWN = 0x0100"
| "he_mu_bits IEEE80211_RADIOTAP_HE_MU_FLAGS1_CH2_RU_KNOWN = 0x0200"
| "he_mu_bits IEEE80211_RADIOTAP_HE_MU_FLAGS1_CH1_CTR_26T_RU_KNOWN = 0x1000"
| "he_mu_bits IEEE80211_RADIOTAP_HE_MU_FLAGS1_CH1_CTR_26T_RU = 0x2000"
| "he_mu_bits IEEE80211_RADIOTAP_HE_MU_FLAGS1_SIG_B_COMP_KNOWN = 0x4000"
| "he_mu_bits IEEE80211_RADIOTAP_HE_MU_FLAGS1_SIG_B_SYMS_USERS_KNOWN = 0x8000"
| "he_mu_bits IEEE80211_RADIOTAP_HE_MU_FLAGS2_BW_FROM_SIG_A_BW = 0x0003"
| "he_mu_bits IEEE80211_RADIOTAP_HE_MU_FLAGS2_BW_FROM_SIG_A_BW_20MHZ = 0x0000"
| "he_mu_bits IEEE80211_RADIOTAP_HE_MU_FLAGS2_BW_FROM_SIG_A_BW_40MHZ = 0x0001"
| "he_mu_bits IEEE80211_RADIOTAP_HE_MU_FLAGS2_BW_FROM_SIG_A_BW_80MHZ = 0x0002"
| "he_mu_bits IEEE80211_RADIOTAP_HE_MU_FLAGS2_BW_FROM_SIG_A_BW_160MHZ = 0x0003"
| "he_mu_bits IEEE80211_RADIOTAP_HE_MU_FLAGS2_BW_FROM_SIG_A_BW_KNOWN = 0x0004"
| "he_mu_bits IEEE80211_RADIOTAP_HE_MU_FLAGS2_SIG_B_COMP = 0x0008"
| "he_mu_bits IEEE80211_RADIOTAP_HE_MU_FLAGS2_SIG_B_SYMS_USERS = 0x00f0"
| "he_mu_bits IEEE80211_RADIOTAP_HE_MU_FLAGS2_PUNC_FROM_SIG_A_BW = 0x0300"
| "he_mu_bits IEEE80211_RADIOTAP_HE_MU_FLAGS2_PUNC_FROM_SIG_A_BW_KNOWN = 0x0400"
| "he_mu_bits IEEE80211_RADIOTAP_HE_MU_FLAGS2_CH2_CTR_26T_RU = 0x0800"

subsection \<open>L-SIG and frames without a PSDU\<close>

datatype ieee80211_radiotap_lsig_data1 =
    IEEE80211_RADIOTAP_LSIG_DATA1_RATE_KNOWN | IEEE80211_RADIOTAP_LSIG_DATA1_LENGTH_KNOWN

primrec lsig_data1 :: "ieee80211_radiotap_lsig_data1 \<Rightarrow> u16" where
  "lsig_data1 IEEE80211_RADIOTAP_LSIG_DATA1_RATE_KNOWN = 0x0001"
| "lsig_data1 IEEE80211_RADIOTAP_LSIG_DATA1_LENGTH_KNOWN = 0x0002"

datatype ieee80211_radiotap_lsig_data2 =
    IEEE80211_RADIOTAP_LSIG_DATA2_RATE | IEEE80211_RADIOTAP_LSIG_DATA2_LENGTH

primrec lsig_data2 :: "ieee80211_radiotap_lsig_data2 \<Rightarrow> u16" where
  "lsig_data2 IEEE80211_RADIOTAP_LSIG_DATA2_RATE = 0x000f"
| "lsig_data2 IEEE80211_RADIOTAP_LSIG_DATA2_LENGTH = 0xfff0"

record ieee80211_radiotap_lsig =
  lsig_word1 :: u16
  lsig_word2 :: u16

datatype ieee80211_radiotap_zero_len_psdu_type =
    IEEE80211_RADIOTAP_ZERO_LEN_PSDU_SOUNDING | IEEE80211_RADIOTAP_ZERO_LEN_PSDU_NOT_CAPTURED
  | IEEE80211_RADIOTAP_ZERO_LEN_PSDU_VENDOR

primrec zero_len_psdu_type :: "ieee80211_radiotap_zero_len_psdu_type \<Rightarrow> u16" where
  "zero_len_psdu_type IEEE80211_RADIOTAP_ZERO_LEN_PSDU_SOUNDING = 0"
| "zero_len_psdu_type IEEE80211_RADIOTAP_ZERO_LEN_PSDU_NOT_CAPTURED = 1"
| "zero_len_psdu_type IEEE80211_RADIOTAP_ZERO_LEN_PSDU_VENDOR = 0xff"

subsection \<open>Layout\<close>

text \<open>
  The fields of a word share no bit. A field of several bits begins at its lowest bit; the values
  that the header gives for such a field fit into it.
\<close>

fun disjoint_masks :: "u16 list \<Rightarrow> bool" where
  "disjoint_masks [] = True"
| "disjoint_masks (m # ms) = ((\<forall>k \<in> set ms. m AND k = 0) \<and> disjoint_masks ms)"

definition field_max :: "u16 \<Rightarrow> u16" where
  "field_max m = m div (m AND - m)"

definition he_words :: "ieee80211_radiotap_he_bits list list" where
  "he_words =
    [[IEEE80211_RADIOTAP_HE_DATA1_FORMAT_MASK, IEEE80211_RADIOTAP_HE_DATA1_BSS_COLOR_KNOWN,
      IEEE80211_RADIOTAP_HE_DATA1_BEAM_CHANGE_KNOWN, IEEE80211_RADIOTAP_HE_DATA1_UL_DL_KNOWN,
      IEEE80211_RADIOTAP_HE_DATA1_DATA_MCS_KNOWN, IEEE80211_RADIOTAP_HE_DATA1_DATA_DCM_KNOWN,
      IEEE80211_RADIOTAP_HE_DATA1_CODING_KNOWN, IEEE80211_RADIOTAP_HE_DATA1_LDPC_XSYMSEG_KNOWN,
      IEEE80211_RADIOTAP_HE_DATA1_STBC_KNOWN, IEEE80211_RADIOTAP_HE_DATA1_SPTL_REUSE_KNOWN,
      IEEE80211_RADIOTAP_HE_DATA1_SPTL_REUSE2_KNOWN, IEEE80211_RADIOTAP_HE_DATA1_SPTL_REUSE3_KNOWN,
      IEEE80211_RADIOTAP_HE_DATA1_SPTL_REUSE4_KNOWN, IEEE80211_RADIOTAP_HE_DATA1_BW_RU_ALLOC_KNOWN,
      IEEE80211_RADIOTAP_HE_DATA1_DOPPLER_KNOWN],
     [IEEE80211_RADIOTAP_HE_DATA2_PRISEC_80_KNOWN, IEEE80211_RADIOTAP_HE_DATA2_GI_KNOWN,
      IEEE80211_RADIOTAP_HE_DATA2_NUM_LTF_SYMS_KNOWN, IEEE80211_RADIOTAP_HE_DATA2_PRE_FEC_PAD_KNOWN,
      IEEE80211_RADIOTAP_HE_DATA2_TXBF_KNOWN, IEEE80211_RADIOTAP_HE_DATA2_PE_DISAMBIG_KNOWN,
      IEEE80211_RADIOTAP_HE_DATA2_TXOP_KNOWN, IEEE80211_RADIOTAP_HE_DATA2_MIDAMBLE_KNOWN,
      IEEE80211_RADIOTAP_HE_DATA2_RU_OFFSET, IEEE80211_RADIOTAP_HE_DATA2_RU_OFFSET_KNOWN,
      IEEE80211_RADIOTAP_HE_DATA2_PRISEC_80_SEC],
     [IEEE80211_RADIOTAP_HE_DATA3_BSS_COLOR, IEEE80211_RADIOTAP_HE_DATA3_BEAM_CHANGE,
      IEEE80211_RADIOTAP_HE_DATA3_UL_DL, IEEE80211_RADIOTAP_HE_DATA3_DATA_MCS,
      IEEE80211_RADIOTAP_HE_DATA3_DATA_DCM, IEEE80211_RADIOTAP_HE_DATA3_CODING,
      IEEE80211_RADIOTAP_HE_DATA3_LDPC_XSYMSEG, IEEE80211_RADIOTAP_HE_DATA3_STBC],
     [IEEE80211_RADIOTAP_HE_DATA4_SU_MU_SPTL_REUSE, IEEE80211_RADIOTAP_HE_DATA4_MU_STA_ID],
     [IEEE80211_RADIOTAP_HE_DATA4_TB_SPTL_REUSE1, IEEE80211_RADIOTAP_HE_DATA4_TB_SPTL_REUSE2,
      IEEE80211_RADIOTAP_HE_DATA4_TB_SPTL_REUSE3, IEEE80211_RADIOTAP_HE_DATA4_TB_SPTL_REUSE4],
     [IEEE80211_RADIOTAP_HE_DATA5_DATA_BW_RU_ALLOC, IEEE80211_RADIOTAP_HE_DATA5_GI,
      IEEE80211_RADIOTAP_HE_DATA5_LTF_SIZE, IEEE80211_RADIOTAP_HE_DATA5_NUM_LTF_SYMS,
      IEEE80211_RADIOTAP_HE_DATA5_PRE_FEC_PAD, IEEE80211_RADIOTAP_HE_DATA5_TXBF,
      IEEE80211_RADIOTAP_HE_DATA5_PE_DISAMBIG],
     [IEEE80211_RADIOTAP_HE_DATA6_NSTS, IEEE80211_RADIOTAP_HE_DATA6_DOPPLER,
      IEEE80211_RADIOTAP_HE_DATA6_TB_PPDU_BW_KNOWN, IEEE80211_RADIOTAP_HE_DATA6_TB_PPDU_BW,
      IEEE80211_RADIOTAP_HE_DATA6_TXOP, IEEE80211_RADIOTAP_HE_DATA6_MIDAMBLE_PDCTY]]"

lemma he_words_disjoint: "list_all (\<lambda>ms. disjoint_masks (map he_bits ms)) he_words"
  by (simp add: he_words_def)

lemma he_values_fit:
  "he_bits IEEE80211_RADIOTAP_HE_DATA1_FORMAT_TRIG \<le> field_max (he_bits IEEE80211_RADIOTAP_HE_DATA1_FORMAT_MASK)"
  "he_bits IEEE80211_RADIOTAP_HE_DATA5_DATA_BW_RU_ALLOC_2x996T
     \<le> field_max (he_bits IEEE80211_RADIOTAP_HE_DATA5_DATA_BW_RU_ALLOC)"
  "he_bits IEEE80211_RADIOTAP_HE_DATA5_GI_3_2 \<le> field_max (he_bits IEEE80211_RADIOTAP_HE_DATA5_GI)"
  "he_bits IEEE80211_RADIOTAP_HE_DATA5_LTF_SIZE_4X \<le> field_max (he_bits IEEE80211_RADIOTAP_HE_DATA5_LTF_SIZE)"
  "he_bits IEEE80211_RADIOTAP_HE_DATA6_TB_PPDU_BW_160MHZ \<le> field_max (he_bits IEEE80211_RADIOTAP_HE_DATA6_TB_PPDU_BW)"
  by (simp_all add: field_max_def)

lemma mcs_layout:
  "disjoint_masks (map mcs_flag [IEEE80211_RADIOTAP_MCS_BW_MASK, IEEE80211_RADIOTAP_MCS_SGI,
     IEEE80211_RADIOTAP_MCS_FMT_GF, IEEE80211_RADIOTAP_MCS_FEC_LDPC, IEEE80211_RADIOTAP_MCS_STBC_MASK])"
  "mcs_flag IEEE80211_RADIOTAP_MCS_BW_20U \<le> field_max (mcs_flag IEEE80211_RADIOTAP_MCS_BW_MASK)"
  "push_bit (unat (mcs_flag IEEE80211_RADIOTAP_MCS_STBC_SHIFT)) (mcs_flag IEEE80211_RADIOTAP_MCS_STBC_3)
     = mcs_flag IEEE80211_RADIOTAP_MCS_STBC_MASK"
  by (simp_all add: field_max_def)

end
