(* ===== verification/TransmitterSignals.thy ===== *)
theory TransmitterSignals imports TransmitterRun begin

text \<open>
  \<open>start_transmission\<close>, one step at a time, with the handler of \<open>SIGINT\<close> (\<open>tx_sigint_handler\<close> in
  \<open>dxwifi/tx/tx.c\<close>, which calls \<open>stop_transmission\<close>) running between any two of them, from the
  activation to the return. The loop of theory \<open>Transmitter\<close> takes whole turns, each of which is
  told whether a request came before or after its work; here it is shown that this covers every
  interleaving, also those in which the request falls into the preamble or the end of the
  transmission, and that a request is obeyed after one more block at most.
\<close>

subsection \<open>The parts of a turn\<close>

text \<open>From the pre-injection handlers to the injection, and the accounting that follows it.\<close>

definition tx_inject :: "tx_port \<Rightarrow> 'u tx_session \<Rightarrow> (int \<times> 'u tx_session) res" where
  "tx_inject port s =
     (let (payload_size, frame) = invoke_handlers (preinjection (ts_tx s)) (ts_frame s) (ts_stats s) in
      bind_res (inject_packet port (ts_air s) frame payload_size) (\<lambda>(status, air).
      Inr (status, s\<lparr>ts_frame := frame, ts_air := air\<rparr>)))"

definition tx_account :: "int \<Rightarrow> 'u tx_session \<Rightarrow> 'u tx_session" where
  "tx_account status s =
     (let st = ts_stats s;
          st = st\<lparr>prev_bytes_sent := word_of_int status\<rparr>;
          st = st\<lparr>total_bytes_read := total_bytes_read st + prev_bytes_read st\<rparr>;
          st = st\<lparr>total_bytes_sent := total_bytes_sent st + prev_bytes_sent st\<rparr>;
          st = st\<lparr>frame_count := frame_count st + 1\<rparr>;
          (_, frame) = invoke_handlers (postinjection (ts_tx s)) (ts_frame s) st
      in s\<lparr>ts_frame := frame, ts_stats := st\<rparr>)"

lemma tx_send_block_parts:
  "tx_send_block port s = bind_res (tx_inject port s) (\<lambda>(status, s). Inr (tx_account status s))"
  by (auto simp: tx_send_block_def tx_inject_def tx_account_def bind_res_assoc split_beta Let_def intro!: bind_res_cong)

text \<open>A control frame: the payload, how often it is sent, and sending it once.\<close>

definition control_payload :: "'u tx_session \<Rightarrow> dxwifi_control_frame \<Rightarrow> 'u tx_session res" where
  "control_payload s ty =
     bind_res (mem_write (payload (ts_frame s)) 0
       (replicate DXWIFI_FRAME_CONTROL_DATA_SIZE (control_frame_value ty))) (\<lambda>pl.
     bind_res (guard_res (fits_int (redundant_ctrl_frames (ts_tx s) + 1)) Signed_Overflow) (\<lambda>_.
     Inr (s\<lparr>ts_frame := (ts_frame s)\<lparr>payload := pl\<rparr>\<rparr>)))"

definition control_times :: "'u tx_session \<Rightarrow> nat" where
  "control_times s = nat (redundant_ctrl_frames (ts_tx s) + 1)"

definition inject_control :: "tx_port \<Rightarrow> 'u tx_session \<Rightarrow> 'u tx_session res" where
  "inject_control port s =
     bind_res (inject_packet port (ts_air s) (ts_frame s) (of_nat DXWIFI_FRAME_CONTROL_DATA_SIZE))
       (\<lambda>(status, air). Inr (s\<lparr>ts_air := air\<rparr>))"

fun inject_controls :: "nat \<Rightarrow> tx_port \<Rightarrow> 'u tx_session \<Rightarrow> 'u tx_session res" where
  "inject_controls 0 port s = Inr s"
| "inject_controls (Suc n) port s = bind_res (inject_control port s) (inject_controls n port)"

lemma inject_controls_times:
  "inject_controls n port s =
   bind_res (inject_times n port (ts_air s) (ts_frame s) (of_nat DXWIFI_FRAME_CONTROL_DATA_SIZE))
     (\<lambda>air. Inr (s\<lparr>ts_air := air\<rparr>))"
  by (induction n arbitrary: s) (simp_all add: inject_control_def bind_res_assoc split_beta)

lemma inject_controls_snoc:
  "inject_controls (Suc n) port s = bind_res (inject_controls n port s) (inject_control port)"
proof (induction n arbitrary: s)
  case (Suc n)
  have "inject_controls (Suc (Suc n)) port s = bind_res (inject_control port s) (\<lambda>s. inject_controls (Suc n) port s)"
    by (rule inject_controls.simps(2))
  also have "\<dots> = bind_res (inject_control port s) (\<lambda>s. bind_res (inject_controls n port s) (inject_control port))"
    by (rule bind_res_cong[OF refl], rule Suc.IH)
  also have "\<dots> = bind_res (inject_controls (Suc n) port s) (inject_control port)"
    by (simp add: bind_res_assoc)
  finally show ?case .
next
  case 0
  show ?case by (cases "inject_control port s") simp_all
qed

definition control_frames :: "tx_port \<Rightarrow> 'u tx_session \<Rightarrow> dxwifi_control_frame \<Rightarrow> 'u tx_session res" where
  "control_frames port s ty =
     bind_res (control_payload s ty) (\<lambda>s. inject_controls (control_times s) port s)"

lemma send_control_frame_parts:
  "control_frames port s ty =
   bind_res (send_control_frame port (ts_tx s) (ts_air s) (ts_frame s) ty)
     (\<lambda>(frame, air). Inr (s\<lparr>ts_frame := frame, ts_air := air\<rparr>))"
  by (simp add: control_frames_def control_payload_def send_control_frame_def bind_res_assoc
      inject_controls_times control_times_def Let_def split_beta del: inject_times.simps)

text \<open>The session before the preamble, and the end after the last control frame.\<close>

definition tx_session_start :: "'u dxwifi_transmitter \<Rightarrow> 'u tx_session" where
  "tx_session_start tx =
     \<lparr>ts_tx = tx\<lparr>tx_activated := True\<rparr>,
      ts_frame = setup_dxwifi_tx_frame
        \<lparr>radiotap_hdr := construct_radiotap_header (radiotap_hdr setup_dxwifi_tx_frame)
           (rtap_flags tx) (rtap_rate_mbps tx) (rtap_tx_flags tx),
         mac_hdr := construct_ieee80211_header (mac_hdr setup_dxwifi_tx_frame) (fctl tx) 0xffff (tx_address tx)\<rparr>,
      ts_stats = init_tx_stats, ts_air = []\<rparr>"

definition tx_result :: "'u tx_session \<Rightarrow> 'u tx_session" where
  "tx_result s =
     (if tx_state (ts_stats s) = DXWIFI_TX_NORMAL \<and> \<not> tx_activated (ts_tx s)
      then s\<lparr>ts_stats := (ts_stats s)\<lparr>tx_state := DXWIFI_TX_DEACTIVATED\<rparr>\<rparr> else s)"

definition timeout_fits :: "'u tx_session \<Rightarrow> bool" where
  "timeout_fits s \<longleftrightarrow> fits_int (transmit_timeout (ts_tx s) * 1000)"

lemma tx_begin_parts:
  "tx_begin port tx =
   bind_res (control_frames port (tx_session_start tx) DXWIFI_CONTROL_FRAME_PREAMBLE) (\<lambda>s.
   bind_res (guard_res (timeout_fits s) Signed_Overflow) (\<lambda>_. Inr s))"
  by (simp add: tx_begin_def send_control_frame_parts tx_session_start_def timeout_fits_def bind_res_assoc Let_def split_beta
      cong: bind_res_cong)

lemma tx_finish_parts:
  "tx_finish port s =
   bind_res (control_frames port s DXWIFI_CONTROL_FRAME_EOT) (\<lambda>s. Inr (tx_result s))"
  by (cases "tx_state (ts_stats s) = DXWIFI_TX_NORMAL"; cases "tx_activated (ts_tx s)")
    (simp_all add: tx_finish_def send_control_frame_parts tx_result_def bind_res_assoc Let_def split_beta cong: bind_res_cong)

subsection \<open>Steps\<close>

datatype tx_pc =
    Tx_Start               \<comment> \<open>activated, before the preamble\<close>
  | Tx_Preamble nat        \<comment> \<open>so many preambles to go\<close>
  | Tx_Poll                \<comment> \<open>about to call \<open>poll\<close>\<close>
  | Tx_Polled int          \<comment> \<open>with its answer\<close>
  | Tx_Got                 \<comment> \<open>after \<open>read\<close>\<close>
  | Tx_Injected int        \<comment> \<open>with the answer of the injection\<close>
  | Tx_Test                \<comment> \<open>the condition of the \<open>do .. while\<close>\<close>
  | Tx_Stop                \<comment> \<open>after the loop\<close>
  | Tx_Eot nat             \<comment> \<open>so many end-of-transmission frames to go\<close>
  | Tx_Exited
  | Tx_Failed c_error

datatype tx_label = Tx_Signal | Tx_Tau | Tx_Poll_Returns int | Tx_Reads "byte list option" | Tx_Control | Tx_Block

definition tx_running :: "'u tx_session \<Rightarrow> bool" where
  "tx_running s \<longleftrightarrow> tx_activated (ts_tx s) \<and> 0 < prev_bytes_read (ts_stats s)"

definition tx_ended :: "tx_pc \<Rightarrow> bool" where
  "tx_ended pc \<longleftrightarrow> pc = Tx_Exited \<or> (\<exists>e. pc = Tx_Failed e)"

definition tx_timed_out :: "'u tx_session \<Rightarrow> 'u tx_session" where
  "tx_timed_out s = s\<lparr>ts_stats := (ts_stats s)\<lparr>tx_state := DXWIFI_TX_TIMED_OUT\<rparr>,
     ts_tx := (ts_tx s)\<lparr>tx_activated := False\<rparr>\<rparr>"

definition tx_poll_failed :: "'u tx_session \<Rightarrow> 'u tx_session" where
  "tx_poll_failed s = s\<lparr>ts_stats := (ts_stats s)\<lparr>tx_state :=
     (if tx_activated (ts_tx s) then DXWIFI_TX_ERROR else DXWIFI_TX_DEACTIVATED)\<rparr>\<rparr>"

inductive tx_step :: "tx_port \<Rightarrow> tx_pc \<times> 'u tx_session \<Rightarrow> tx_label \<Rightarrow> tx_pc \<times> 'u tx_session \<Rightarrow> bool"
    for port where
  tx_signal: "\<not> tx_ended pc \<Longrightarrow> tx_step port (pc, s) Tx_Signal (pc, signal_stop True s)"
| tx_start: "control_payload s DXWIFI_CONTROL_FRAME_PREAMBLE = Inr s' \<Longrightarrow>
     tx_step port (Tx_Start, s) Tx_Tau (Tx_Preamble (control_times s'), s')"
| tx_start_fails: "control_payload s DXWIFI_CONTROL_FRAME_PREAMBLE = Inl e \<Longrightarrow>
     tx_step port (Tx_Start, s) Tx_Tau (Tx_Failed e, s)"
| tx_preamble: "inject_control port s = Inr s' \<Longrightarrow>
     tx_step port (Tx_Preamble (Suc k), s) Tx_Control (Tx_Preamble k, s')"
| tx_preamble_fails: "inject_control port s = Inl e \<Longrightarrow>
     tx_step port (Tx_Preamble (Suc k), s) Tx_Control (Tx_Failed e, s)"
| tx_preamble_done: "tx_step port (Tx_Preamble 0, s) Tx_Tau (Tx_Poll, s)"
| tx_poll: "timeout_fits s \<Longrightarrow> tx_step port (Tx_Poll, s) (Tx_Poll_Returns n) (Tx_Polled n, s)"
| tx_poll_overflows: "\<not> timeout_fits s \<Longrightarrow> tx_step port (Tx_Poll, s) Tx_Tau (Tx_Failed Signed_Overflow, s)"
| tx_times_out: "tx_step port (Tx_Polled 0, s) Tx_Tau (Tx_Test, tx_timed_out s)"
| tx_poll_fails: "n < 0 \<Longrightarrow> tx_step port (Tx_Polled n, s) Tx_Tau (Tx_Test, tx_poll_failed s)"
| tx_reads: "0 < n \<Longrightarrow> tx_read s r = Inr s' \<Longrightarrow> tx_step port (Tx_Polled n, s) (Tx_Reads r) (Tx_Got, s')"
| tx_read_fails: "0 < n \<Longrightarrow> tx_read s r = Inl e \<Longrightarrow> tx_step port (Tx_Polled n, s) (Tx_Reads r) (Tx_Failed e, s)"
| tx_nothing: "\<not> 0 < prev_bytes_read (ts_stats s) \<Longrightarrow> tx_step port (Tx_Got, s) Tx_Tau (Tx_Test, s)"
| tx_block: "0 < prev_bytes_read (ts_stats s) \<Longrightarrow> tx_inject port s = Inr (status, s') \<Longrightarrow>
     tx_step port (Tx_Got, s) Tx_Block (Tx_Injected status, s')"
| tx_block_fails: "0 < prev_bytes_read (ts_stats s) \<Longrightarrow> tx_inject port s = Inl e \<Longrightarrow>
     tx_step port (Tx_Got, s) Tx_Block (Tx_Failed e, s)"
| tx_accounts: "tx_step port (Tx_Injected status, s) Tx_Tau (Tx_Test, tx_account status s)"
| tx_again: "tx_running s \<Longrightarrow> tx_step port (Tx_Test, s) Tx_Tau (Tx_Poll, s)"
| tx_leave: "\<not> tx_running s \<Longrightarrow> tx_step port (Tx_Test, s) Tx_Tau (Tx_Stop, s)"
| tx_eot_start: "control_payload s DXWIFI_CONTROL_FRAME_EOT = Inr s' \<Longrightarrow>
     tx_step port (Tx_Stop, s) Tx_Tau (Tx_Eot (control_times s'), s')"
| tx_eot_start_fails: "control_payload s DXWIFI_CONTROL_FRAME_EOT = Inl e \<Longrightarrow>
     tx_step port (Tx_Stop, s) Tx_Tau (Tx_Failed e, s)"
| tx_eot: "inject_control port s = Inr s' \<Longrightarrow> tx_step port (Tx_Eot (Suc k), s) Tx_Control (Tx_Eot k, s')"
| tx_eot_fails: "inject_control port s = Inl e \<Longrightarrow> tx_step port (Tx_Eot (Suc k), s) Tx_Control (Tx_Failed e, s)"
| tx_exit: "tx_step port (Tx_Eot 0, s) Tx_Tau (Tx_Exited, tx_result s)"

inductive tx_run :: "tx_port \<Rightarrow> tx_pc \<times> 'u tx_session \<Rightarrow> tx_label list \<Rightarrow> tx_pc \<times> 'u tx_session \<Rightarrow> bool"
    for port where
  tx_run_nil: "tx_run port c [] c"
| tx_run_step: "tx_run port c ls c' \<Longrightarrow> tx_step port c' l c'' \<Longrightarrow> tx_run port c (ls @ [l]) c''"

inductive_simps step_from_tx_exit [simp]: "tx_step port (Tx_Exited, s) l c"
inductive_simps step_from_tx_failure [simp]: "tx_step port (Tx_Failed err, s) l c"

lemma tx_run_trans:
  assumes "tx_run port c ls c'" and "tx_run port c' ms c''"
  shows "tx_run port c (ls @ ms) c''"
  using assms(2,1)
proof (induction rule: tx_run.induct)
  case (tx_run_step c1 ks c2 l c3)
  then show ?case using tx_run.tx_run_step by (metis append.assoc)
qed simp

lemma tx_run_one: "tx_step port c l c' \<Longrightarrow> tx_run port c [l] c'"
  using tx_run_step[OF tx_run_nil] by fastforce

subsection \<open>What a request changes\<close>

text \<open>Nothing in a turn looks at the request but the test of the loop and a failing \<open>poll\<close>.\<close>

lemma signal_sel [simp]:
  "ts_frame (signal_stop b s) = ts_frame s" "ts_stats (signal_stop b s) = ts_stats s" "ts_air (signal_stop b s) = ts_air s"
  "preinjection (ts_tx (signal_stop b s)) = preinjection (ts_tx s)"
  "postinjection (ts_tx (signal_stop b s)) = postinjection (ts_tx s)"
  "blocksize (ts_tx (signal_stop b s)) = blocksize (ts_tx s)"
  "redundant_ctrl_frames (ts_tx (signal_stop b s)) = redundant_ctrl_frames (ts_tx s)"
  "transmit_timeout (ts_tx (signal_stop b s)) = transmit_timeout (ts_tx s)"
  "tx_activated (ts_tx (signal_stop b s)) \<longleftrightarrow> tx_activated (ts_tx s) \<and> \<not> b"
  by (simp_all add: signal_stop_def stop_transmission_def)

lemma signal_upd:
  "signal_stop b (s\<lparr>ts_frame := f\<rparr>) = (signal_stop b s)\<lparr>ts_frame := f\<rparr>"
  "signal_stop b (s\<lparr>ts_stats := st\<rparr>) = (signal_stop b s)\<lparr>ts_stats := st\<rparr>"
  "signal_stop b (s\<lparr>ts_air := a\<rparr>) = (signal_stop b s)\<lparr>ts_air := a\<rparr>"
  by (simp_all add: signal_stop_def)

lemma signal_signal [simp]: "signal_stop True (signal_stop b s) = signal_stop True s" "signal_stop False s = s"
  by (simp_all add: signal_stop_def stop_transmission_def)

lemma signal_read: "tx_read (signal_stop b s) r = map_res (signal_stop b) (tx_read s r)"
  by (cases r) (auto simp: tx_read_def Let_def signal_upd bind_res_def split: sum.splits)

lemma signal_inject: "tx_inject port (signal_stop b s) = map_res (map_prod id (signal_stop b)) (tx_inject port s)"
  by (auto simp: tx_inject_def signal_upd bind_res_def split_beta split: sum.splits)

lemma signal_account: "tx_account st (signal_stop b s) = signal_stop b (tx_account st s)"
  by (simp add: tx_account_def signal_upd split_beta Let_def)

lemma signal_payload: "control_payload (signal_stop b s) ty = map_res (signal_stop b) (control_payload s ty)"
  by (auto simp: control_payload_def signal_upd bind_res_def split: sum.splits)

lemma signal_control: "inject_control port (signal_stop b s) = map_res (signal_stop b) (inject_control port s)"
  by (auto simp: inject_control_def signal_upd bind_res_def split: sum.splits)

lemma signal_controls: "inject_controls n port (signal_stop b s) = map_res (signal_stop b) (inject_controls n port s)"
proof (induction n arbitrary: s)
  case (Suc n)
  then show ?case by (cases "inject_control port s") (simp_all add: signal_control)
qed simp

lemmas signal_simps = signal_read signal_inject signal_account signal_payload signal_control signal_controls

subsection \<open>Whole turns\<close>

text \<open>The body of the loop for the answers of \<open>poll\<close> and \<open>read\<close>.\<close>

definition tx_body :: "tx_port \<Rightarrow> int \<Rightarrow> byte list option \<Rightarrow> 'u tx_session \<Rightarrow> 'u tx_session res" where
  "tx_body port n r s =
     (if n = 0 then Inr (tx_timed_out s) else if n < 0 then Inr (tx_poll_failed s)
      else bind_res (tx_read s r) (\<lambda>s.
        if 0 < prev_bytes_read (ts_stats s)
        then bind_res (tx_inject port s) (\<lambda>(status, s). Inr (tx_account status s)) else Inr s))"

lemma tx_turn_body:
  "tx_turn port s e = bind_res (tx_body port (ev_poll e) (ev_read e) (signal_stop (ev_stop_poll e) s))
     (\<lambda>s. Inr (signal_stop (ev_stop_after e) s))"
  by (simp add: tx_turn_def tx_body_def tx_timed_out_def tx_poll_failed_def tx_send_block_parts Let_def cong: if_cong)

fun tx_turns :: "tx_port \<Rightarrow> 'u tx_session \<Rightarrow> tx_event list \<Rightarrow> 'u tx_session \<Rightarrow> bool" where
  "tx_turns port s [] g \<longleftrightarrow> g = s"
| "tx_turns port s (e # es) g \<longleftrightarrow> (\<exists>f. tx_turn port s e = Inr f \<and> tx_running f \<and> tx_turns port f es g)"

lemma tx_turns_snoc:
  "tx_turns port s (es @ [e]) g \<longleftrightarrow> (\<exists>f. tx_turns port s es f \<and> tx_turn port f e = Inr g \<and> tx_running g)"
  by (induction es arbitrary: s) auto

lemma tx_turns_loop: "tx_turns port s es f \<Longrightarrow> tx_loop port s (es @ rest) = tx_loop port f rest"
  by (induction es arbitrary: s) (auto simp: tx_running_def)

text \<open>The loop has come to its end with \<open>g\<close>.\<close>

definition tx_loop_done :: "tx_port \<Rightarrow> 'u tx_session \<Rightarrow> 'u tx_session \<Rightarrow> bool" where
  "tx_loop_done port s g \<longleftrightarrow> (\<exists>es f e. tx_turns port s es f \<and> tx_turn port f e = Inr g \<and> \<not> tx_running g)"

lemma tx_loop_done_loop: "tx_loop_done port s g \<Longrightarrow> \<exists>es. tx_loop port s es = Some (Inr g)"
proof -
  assume "tx_loop_done port s g"
  then obtain es f e where "tx_turns port s es f" "tx_turn port f e = Inr g" "\<not> tx_running g"
    by (auto simp: tx_loop_done_def)
  then have "tx_loop port s (es @ [e]) = Some (Inr g)" by (simp add: tx_turns_loop tx_running_def)
  then show ?thesis by blast
qed

lemma tx_turn_stop_after:
  "tx_turn port f e = Inr g \<Longrightarrow> tx_turn port f (e\<lparr>ev_stop_after := True\<rparr>) = Inr (signal_stop True g)"
  by (auto simp: tx_turn_body bind_res_eq_Inr)

lemma tx_loop_done_signal: "tx_loop_done port s g \<Longrightarrow> tx_loop_done port s (signal_stop True g)"
  unfolding tx_loop_done_def
  by (metis tx_turn_stop_after signal_sel(9) tx_running_def)

subsection \<open>Every interleaving is a sequence of turns\<close>

definition tx_settings :: "'u tx_session \<Rightarrow> 'u dxwifi_transmitter" where
  "tx_settings s = (ts_tx s)\<lparr>tx_activated := True\<rparr>"

lemma settings_fields:
  assumes "tx_settings a = tx_settings b"
  shows "timeout_fits a = timeout_fits b" "control_times a = control_times b"
proof -
  have f: "f (tx_settings a) = f (tx_settings b)" for f :: "'a dxwifi_transmitter \<Rightarrow> 'c" using assms by simp
  show "timeout_fits a = timeout_fits b" using f[of transmit_timeout] by (simp add: timeout_fits_def tx_settings_def)
  show "control_times a = control_times b" using f[of redundant_ctrl_frames] by (simp add: control_times_def tx_settings_def)
qed

lemma settings_kept [simp]:
  "tx_settings (signal_stop b s) = tx_settings s" "tx_settings (tx_timed_out s) = tx_settings s"
  "tx_settings (tx_poll_failed s) = tx_settings s" "tx_settings (tx_account st s) = tx_settings s"
  "tx_settings (tx_result s) = tx_settings s" "tx_settings (tx_session_start tx) = tx\<lparr>tx_activated := True\<rparr>"
  by (simp_all add: tx_settings_def signal_stop_def stop_transmission_def tx_timed_out_def tx_poll_failed_def
      tx_account_def tx_result_def tx_session_start_def Let_def split_beta)

lemma settings_kept_by:
  "tx_read s r = Inr s' \<Longrightarrow> tx_settings s' = tx_settings s"
  "tx_inject port s = Inr (st, s') \<Longrightarrow> tx_settings s' = tx_settings s"
  "control_payload s ty = Inr s' \<Longrightarrow> tx_settings s' = tx_settings s"
  "inject_control port s = Inr s' \<Longrightarrow> tx_settings s' = tx_settings s"
  by (auto simp: tx_settings_def tx_read_def tx_inject_def control_payload_def inject_control_def Let_def
      bind_res_eq_Inr split_beta split: option.splits)

lemma settings_step: "tx_step port c l c' \<Longrightarrow> tx_settings (snd c') = tx_settings (snd c)"
  by (cases rule: tx_step.cases, assumption) (auto dest: settings_kept_by)

definition reached :: "tx_port \<Rightarrow> 'u dxwifi_transmitter \<Rightarrow> 'u tx_session \<Rightarrow> bool" where
  "reached port tx f \<longleftrightarrow> (\<exists>s0 es. control_frames port (tx_session_start tx) DXWIFI_CONTROL_FRAME_PREAMBLE = Inr s0 \<and>
     tx_turns port s0 es f)"

definition loop_done :: "tx_port \<Rightarrow> 'u dxwifi_transmitter \<Rightarrow> 'u tx_session \<Rightarrow> bool" where
  "loop_done port tx g \<longleftrightarrow> (\<exists>s0. control_frames port (tx_session_start tx) DXWIFI_CONTROL_FRAME_PREAMBLE = Inr s0 \<and>
     tx_loop_done port s0 g)"

fun tx_explained :: "tx_port \<Rightarrow> 'u dxwifi_transmitter \<Rightarrow> tx_pc \<Rightarrow> 'u tx_session \<Rightarrow> bool" where
  "tx_explained port tx Tx_Start s \<longleftrightarrow> (\<exists>b. s = signal_stop b (tx_session_start tx))"
| "tx_explained port tx (Tx_Preamble k) s \<longleftrightarrow> (\<exists>b s1 s2.
     control_payload (tx_session_start tx) DXWIFI_CONTROL_FRAME_PREAMBLE = Inr s1 \<and> k \<le> control_times s1 \<and>
     inject_controls (control_times s1 - k) port s1 = Inr s2 \<and> s = signal_stop b s2)"
| "tx_explained port tx Tx_Poll s \<longleftrightarrow> (\<exists>b f. reached port tx f \<and> s = signal_stop b f)"
| "tx_explained port tx (Tx_Polled n) s \<longleftrightarrow> timeout_fits s \<and> (\<exists>b f. reached port tx f \<and> s = signal_stop b f)"
| "tx_explained port tx Tx_Got s \<longleftrightarrow> timeout_fits s \<and>
     (\<exists>b f r g. reached port tx f \<and> tx_read f r = Inr g \<and> s = signal_stop b g)"
| "tx_explained port tx (Tx_Injected st) s \<longleftrightarrow> timeout_fits s \<and>
     (\<exists>b f r g h. reached port tx f \<and> tx_read f r = Inr g \<and> 0 < prev_bytes_read (ts_stats g) \<and>
        tx_inject port g = Inr (st, h) \<and> s = signal_stop b h)"
| "tx_explained port tx Tx_Test s \<longleftrightarrow> timeout_fits s \<and> (\<exists>f e. reached port tx f \<and> tx_turn port f e = Inr s)"
| "tx_explained port tx Tx_Stop s \<longleftrightarrow> timeout_fits s \<and> loop_done port tx s"
| "tx_explained port tx (Tx_Eot k) s \<longleftrightarrow> timeout_fits s \<and> (\<exists>g g1. loop_done port tx g \<and>
     control_payload g DXWIFI_CONTROL_FRAME_EOT = Inr g1 \<and> k \<le> control_times g1 \<and>
     inject_controls (control_times g1 - k) port g1 = Inr s)"
| "tx_explained port tx Tx_Exited s \<longleftrightarrow> (\<exists>es. start_transmission port tx es = Some (Inr s))"
| "tx_explained port tx (Tx_Failed e) s \<longleftrightarrow> (\<exists>es. start_transmission port tx es = Some (Inl e))"

lemma reached_start: "control_frames port (tx_session_start tx) DXWIFI_CONTROL_FRAME_PREAMBLE = Inr s \<Longrightarrow> reached port tx s"
  unfolding reached_def by (intro exI[of _ s] exI[of _ "[]"]) simp

lemma reached_turn: "reached port tx f \<Longrightarrow> tx_turn port f e = Inr g \<Longrightarrow> tx_running g \<Longrightarrow> reached port tx g"
  unfolding reached_def using tx_turns_snoc by blast

lemma loop_done_turn: "reached port tx f \<Longrightarrow> tx_turn port f e = Inr g \<Longrightarrow> \<not> tx_running g \<Longrightarrow> loop_done port tx g"
  unfolding reached_def loop_done_def tx_loop_done_def by blast

lemma loop_done_signal: "loop_done port tx g \<Longrightarrow> loop_done port tx (signal_stop True g)"
  unfolding loop_done_def using tx_loop_done_signal by blast

text \<open>How the transmission ends from there.\<close>

lemma control_frames_settings: "control_frames port s ty = Inr s' \<Longrightarrow> tx_settings s' = tx_settings s"
proof -
  have "inject_controls n port s = Inr s' \<Longrightarrow> tx_settings s' = tx_settings s" for n s and s' :: "'a tx_session"
    by (induction n arbitrary: s) (auto simp: bind_res_eq_Inr dest: settings_kept_by)
  then show "control_frames port s ty = Inr s' \<Longrightarrow> ?thesis"
    by (auto simp: control_frames_def bind_res_eq_Inr dest: settings_kept_by(3))
qed

lemma transmission_from:
  assumes "control_frames port (tx_session_start tx) DXWIFI_CONTROL_FRAME_PREAMBLE = Inr s0"
  shows "timeout_fits (tx_session_start tx) \<Longrightarrow>
      start_transmission port tx es = map_option (\<lambda>r. bind_res r (tx_finish port)) (tx_loop port s0 es)"
    and "\<not> timeout_fits (tx_session_start tx) \<Longrightarrow> start_transmission port tx es = Some (Inl Signed_Overflow)"
  using assms settings_fields(1)[OF control_frames_settings[OF assms]]
  by (simp_all add: start_transmission_def tx_begin_parts)

lemma finished:
  assumes "loop_done port tx g" and "timeout_fits (tx_session_start tx)"
  shows "\<exists>es. start_transmission port tx es = Some (tx_finish port g)"
proof -
  obtain s0 where s0: "control_frames port (tx_session_start tx) DXWIFI_CONTROL_FRAME_PREAMBLE = Inr s0" "tx_loop_done port s0 g"
    using assms(1) by (auto simp: loop_done_def)
  then obtain es where "tx_loop port s0 es = Some (Inr g)" using tx_loop_done_loop by blast
  then show ?thesis using transmission_from(1)[OF s0(1) assms(2), of es] by auto
qed

lemma failed:
  assumes "reached port tx f" and "tx_turn port f e = Inl err" and "timeout_fits (tx_session_start tx)"
  shows "\<exists>es. start_transmission port tx es = Some (Inl err)"
proof -
  obtain s0 es where s0: "control_frames port (tx_session_start tx) DXWIFI_CONTROL_FRAME_PREAMBLE = Inr s0" "tx_turns port s0 es f"
    using assms(1) by (auto simp: reached_def)
  have "tx_loop port s0 (es @ [e]) = Some (Inl err)" using tx_turns_loop[OF s0(2)] assms(2) by simp
  then show ?thesis using transmission_from(1)[OF s0(1) assms(3), of "es @ [e]"] by auto
qed

lemma begin_failed:
  assumes "control_frames port (tx_session_start tx) DXWIFI_CONTROL_FRAME_PREAMBLE = Inl err"
  shows "start_transmission port tx es = Some (Inl err)"
  using assms by (simp add: start_transmission_def tx_begin_parts)

lemma explained_tx_signal:
  assumes "tx_explained port tx pc s" and "\<not> tx_ended pc"
  shows "tx_explained port tx pc (signal_stop True s)"
proof (cases pc)
  case Tx_Test
  then show ?thesis using assms(1) tx_turn_stop_after settings_fields(1)[of "signal_stop True s" s] by fastforce
next
  case Tx_Stop
  then show ?thesis using assms(1) loop_done_signal settings_fields(1)[of "signal_stop True s" s] by fastforce
next
  case (Tx_Eot k)
  then obtain g g1 where g: "loop_done port tx g" "control_payload g DXWIFI_CONTROL_FRAME_EOT = Inr g1"
    "k \<le> control_times g1" "inject_controls (control_times g1 - k) port g1 = Inr s" "timeout_fits s"
    using assms(1) by auto
  let ?g = "signal_stop True"
  have "control_payload (?g g) DXWIFI_CONTROL_FRAME_EOT = Inr (?g g1)" using g(2) by (simp add: signal_simps)
  moreover have "control_times (?g g1) = control_times g1" "timeout_fits (?g s) = timeout_fits s"
    by (rule settings_fields; simp)+
  moreover have "inject_controls (control_times g1 - k) port (?g g1) = Inr (?g s)" using g(4) by (simp add: signal_simps)
  ultimately show ?thesis using Tx_Eot g(3,5) loop_done_signal[OF g(1)] by auto
qed (use assms settings_fields(1)[of "signal_stop True s" s] in \<open>auto simp: tx_ended_def, (metis signal_signal(1))+\<close>)

text \<open>A turn whose parts are known; \<open>b\<close> tells whether the request came in it.\<close>

definition tx_answers :: "bool \<Rightarrow> int \<Rightarrow> byte list option \<Rightarrow> tx_event" where
  "tx_answers b n r = \<lparr>ev_stop_poll = b, ev_poll = n, ev_read = r, ev_stop_after = False\<rparr>"

lemma turn_answers: "tx_turn port f (tx_answers b n r) = tx_body port n r (signal_stop b f)"
  by (simp add: tx_turn_body tx_answers_def)

lemma turn_nothing:
  "tx_read f r = Inr g \<Longrightarrow> \<not> 0 < prev_bytes_read (ts_stats g) \<Longrightarrow> tx_turn port f (tx_answers b 1 r) = Inr (signal_stop b g)"
  by (simp add: turn_answers tx_body_def signal_simps)

lemma turn_block:
  "tx_read f r = Inr g \<Longrightarrow> 0 < prev_bytes_read (ts_stats g) \<Longrightarrow> tx_inject port g = Inr (st, h) \<Longrightarrow>
   tx_turn port f (tx_answers b 1 r) = Inr (tx_account st (signal_stop b h))"
  by (simp add: turn_answers tx_body_def signal_simps)

lemma turn_read_fails:
  "tx_read f r = Inl e \<Longrightarrow> tx_turn port f (tx_answers b 1 r) = Inl e"
  by (simp add: turn_answers tx_body_def signal_simps)

lemma turn_block_fails:
  "tx_read f r = Inr g \<Longrightarrow> 0 < prev_bytes_read (ts_stats g) \<Longrightarrow> tx_inject port g = Inl e \<Longrightarrow>
   tx_turn port f (tx_answers b 1 r) = Inl e"
  by (simp add: turn_answers tx_body_def signal_simps)

lemma map_res_eq: "map_res f r = Inr y \<longleftrightarrow> (\<exists>x. r = Inr x \<and> y = f x)" "map_res f r = Inl e \<longleftrightarrow> r = Inl e"
  by (cases r; auto)+

lemma controls_next:
  assumes "inject_controls (n - Suc k) port s1 = Inr s" and "Suc k \<le> n"
  shows "inject_controls (n - k) port s1 = inject_control port s"
proof -
  have "n - k = Suc (n - Suc k)" using assms(2) by simp
  then show ?thesis using assms(1) by (simp only: inject_controls_snoc) simp
qed

lemma controls_fail:
  assumes "inject_controls (n - k) port s1 = Inl e" and "k \<le> n"
  shows "inject_controls n port s1 = Inl e"
proof -
  have "inject_controls m port s1 = Inl e" if "n - k \<le> m" for m
    using that
  proof (induction m rule: dec_induct)
    case (step m)
    then show ?case by (simp only: inject_controls_snoc) simp
  qed (rule assms(1))
  then show ?thesis by simp
qed

lemma explained_tx_step:
  assumes "tx_step port c l c'" and "tx_explained port tx (fst c) (snd c)" and "tx_settings (snd c) = tx\<lparr>tx_activated := True\<rparr>"
  shows "tx_explained port tx (fst c') (snd c')"
proof -
  let ?s0 = "tx_session_start tx"
  have fits: "timeout_fits (snd c) = timeout_fits ?s0" using assms(3) by (intro settings_fields(1)) simp
  have fits': "timeout_fits (snd c') = timeout_fits ?s0"
    using assms(3) settings_step[OF assms(1)] by (intro settings_fields(1)) simp
  show ?thesis
    using assms(1)
  proof (cases rule: tx_step.cases)
    case (tx_signal pc s)
    then show ?thesis using assms(2) explained_tx_signal by fastforce
  next
    case (tx_start s s')
    then obtain b s1 where "control_payload ?s0 DXWIFI_CONTROL_FRAME_PREAMBLE = Inr s1" "s' = signal_stop b s1"
      using assms(2) by (auto simp: signal_payload map_res_eq)
    moreover have "control_times s' = control_times s1" unfolding calculation(2) by (rule settings_fields) simp
    ultimately show ?thesis using tx_start by auto
  next
    case (tx_start_fails s e)
    then have "control_payload ?s0 DXWIFI_CONTROL_FRAME_PREAMBLE = Inl e"
      using assms(2) by (auto simp: signal_payload map_res_eq)
    then have "control_frames port ?s0 DXWIFI_CONTROL_FRAME_PREAMBLE = Inl e" by (simp add: control_frames_def)
    from begin_failed[OF this] show ?thesis using tx_start_fails by auto
  next
    case (tx_preamble s s' k)
    then obtain b s1 s2 where p: "control_payload ?s0 DXWIFI_CONTROL_FRAME_PREAMBLE = Inr s1" "Suc k \<le> control_times s1"
      "inject_controls (control_times s1 - Suc k) port s1 = Inr s2" "s = signal_stop b s2" using assms(2) by auto
    then obtain s3 where "inject_control port s2 = Inr s3" "s' = signal_stop b s3"
      using tx_preamble(4) by (auto simp: signal_control map_res_eq)
    then show ?thesis using tx_preamble p(1,2) controls_next[OF p(3,2)] by auto
  next
    case (tx_preamble_fails s e k)
    then obtain b s1 s2 where p: "control_payload ?s0 DXWIFI_CONTROL_FRAME_PREAMBLE = Inr s1" "Suc k \<le> control_times s1"
      "inject_controls (control_times s1 - Suc k) port s1 = Inr s2" "s = signal_stop b s2" using assms(2) by auto
    then have "inject_controls (control_times s1 - k) port s1 = Inl e"
      using tx_preamble_fails(4) controls_next[OF p(3,2)] by (auto simp: signal_control map_res_eq)
    from controls_fail[OF this] have "control_frames port ?s0 DXWIFI_CONTROL_FRAME_PREAMBLE = Inl e"
      using p(1,2) by (simp add: control_frames_def)
    from begin_failed[OF this] show ?thesis using tx_preamble_fails by auto
  next
    case (tx_preamble_done s)
    then obtain b s2 where p: "control_frames port ?s0 DXWIFI_CONTROL_FRAME_PREAMBLE = Inr s2" "s = signal_stop b s2"
      using assms(2) by (auto simp: control_frames_def)
    then show ?thesis using reached_start[OF p(1)] tx_preamble_done by auto
  next
    case (tx_poll_overflows s)
    then obtain b f where "reached port tx f" using assms(2) by auto
    then obtain s0 where "control_frames port ?s0 DXWIFI_CONTROL_FRAME_PREAMBLE = Inr s0" by (auto simp: reached_def)
    then have "start_transmission port tx [] = Some (Inl Signed_Overflow)"
      using transmission_from(2) fits tx_poll_overflows by auto
    then show ?thesis using tx_poll_overflows by auto
  next
    case (tx_times_out s)
    then obtain b f where f: "reached port tx f" "s = signal_stop b f" "timeout_fits s" using assms(2) by auto
    have "tx_turn port f (tx_answers b 0 None) = Inr (tx_timed_out s)" by (simp add: turn_answers tx_body_def f(2))
    then show ?thesis using tx_times_out f(1,3) fits fits' by auto
  next
    case (tx_poll_fails n s)
    then obtain b f where f: "reached port tx f" "s = signal_stop b f" "timeout_fits s" using assms(2) by auto
    have "tx_turn port f (tx_answers b n None) = Inr (tx_poll_failed s)"
      using tx_poll_fails(4) by (simp add: turn_answers tx_body_def f(2))
    then show ?thesis using tx_poll_fails f(1,3) fits fits' by auto
  next
    case (tx_reads n s r s')
    then obtain b f g where "reached port tx f" "tx_read f r = Inr g" "s' = signal_stop b g" "timeout_fits s"
      using assms(2) by (auto simp: signal_read map_res_eq)
    moreover have "timeout_fits s' = timeout_fits s" using fits fits' tx_reads by simp
    ultimately show ?thesis using tx_reads by auto
  next
    case (tx_read_fails n s r e)
    then obtain b f where f: "reached port tx f" "tx_read f r = Inl e" "timeout_fits s"
      using assms(2) by (auto simp: signal_read map_res_eq)
    have "timeout_fits ?s0" using f(3) fits tx_read_fails by simp
    then show ?thesis using failed[OF f(1) turn_read_fails[OF f(2)]] tx_read_fails by auto
  next
    case (tx_nothing s)
    then obtain b f r g where g: "reached port tx f" "tx_read f r = Inr g" "s = signal_stop b g" "timeout_fits s"
      using assms(2) by auto
    have "tx_turn port f (tx_answers b 1 r) = Inr s" using turn_nothing[OF g(2)] tx_nothing(4) g(3) by simp
    then show ?thesis using tx_nothing g(1,4) by auto
  next
    case (tx_block s status s')
    then obtain b f r g where g: "reached port tx f" "tx_read f r = Inr g" "s = signal_stop b g" "timeout_fits s"
      using assms(2) by auto
    then obtain h where "tx_inject port g = Inr (status, h)" "s' = signal_stop b h"
      using tx_block(5) by (auto simp: signal_inject map_res_eq)
    moreover have "timeout_fits s'" "0 < prev_bytes_read (ts_stats g)" using tx_block(1-4) g(3,4) fits fits' by simp_all
    ultimately have "tx_explained port tx (Tx_Injected status) s'" using g(1,2) by (simp only: tx_explained.simps) blast
    then show ?thesis using tx_block(3) by simp
  next
    case (tx_block_fails s e)
    then obtain b f r g where g: "reached port tx f" "tx_read f r = Inr g" "s = signal_stop b g" "timeout_fits s"
      using assms(2) by auto
    have "tx_inject port g = Inl e" "0 < prev_bytes_read (ts_stats g)"
      using tx_block_fails(4,5) g(3) by (auto simp: signal_inject map_res_eq)
    moreover have "timeout_fits ?s0" using g(4) fits tx_block_fails by simp
    ultimately show ?thesis using failed[OF g(1) turn_block_fails[OF g(2)]] tx_block_fails by auto
  next
    case (tx_accounts status s)
    then obtain b f r g h where g: "reached port tx f" "tx_read f r = Inr g" "0 < prev_bytes_read (ts_stats g)"
      "tx_inject port g = Inr (status, h)" "s = signal_stop b h" "timeout_fits s"
      using assms(2) by auto
    have "tx_turn port f (tx_answers b 1 r) = Inr (tx_account status s)" using turn_block[OF g(2-4)] g(5) by simp
    then show ?thesis using tx_accounts g(1,6) fits fits' by auto
  next
    case (tx_again s)
    then have "reached port tx s" using assms(2) reached_turn by auto
    then show ?thesis using tx_again by (auto intro!: exI[of _ False] exI[of _ s])
  next
    case (tx_leave s)
    then show ?thesis using assms(2) loop_done_turn by auto
  next
    case (tx_eot_start s s')
    then show ?thesis using assms(2) fits fits' by auto
  next
    case (tx_eot_start_fails s e)
    then have "loop_done port tx s" "timeout_fits ?s0" using assms(2) fits by auto
    from finished[OF this] show ?thesis using tx_eot_start_fails by (auto simp: tx_finish_parts control_frames_def)
  next
    case (tx_eot s s' k)
    then obtain g g1 where g: "loop_done port tx g" "control_payload g DXWIFI_CONTROL_FRAME_EOT = Inr g1"
      "Suc k \<le> control_times g1" "inject_controls (control_times g1 - Suc k) port g1 = Inr s" "timeout_fits s"
      using assms(2) by auto
    have "timeout_fits s'" using g(5) fits fits' tx_eot by simp
    moreover have "inject_controls (control_times g1 - k) port g1 = Inr s'"
      using controls_next[OF g(4,3)] tx_eot(4) by simp
    ultimately show ?thesis using tx_eot g(1-3) by auto
  next
    case (tx_eot_fails s e k)
    then obtain g g1 where g: "loop_done port tx g" "control_payload g DXWIFI_CONTROL_FRAME_EOT = Inr g1"
      "Suc k \<le> control_times g1" "inject_controls (control_times g1 - Suc k) port g1 = Inr s" "timeout_fits s"
      using assms(2) by auto
    have "inject_controls (control_times g1) port g1 = Inl e"
      using controls_next[OF g(4,3)] tx_eot_fails(4) controls_fail[of "control_times g1" k port g1 e] g(3) by simp
    moreover have "timeout_fits ?s0" using g(5) fits tx_eot_fails by simp
    ultimately show ?thesis
      using finished[OF g(1)] tx_eot_fails g(2) by (auto simp: tx_finish_parts control_frames_def)
  next
    case (tx_exit s)
    then obtain g g1 where g: "loop_done port tx g" "control_payload g DXWIFI_CONTROL_FRAME_EOT = Inr g1"
      "inject_controls (control_times g1) port g1 = Inr s" "timeout_fits s"
      using assms(2) by auto
    have "timeout_fits ?s0" using g(4) fits tx_exit by simp
    from finished[OF g(1) this] show ?thesis using tx_exit g(2,3) by (auto simp: tx_finish_parts control_frames_def)
  qed (use assms(2) in auto)
qed

lemma explained_tx_run:
  assumes "tx_run port c ls c'" and "tx_explained port tx (fst c) (snd c)" and "tx_settings (snd c) = tx\<lparr>tx_activated := True\<rparr>"
  shows "tx_explained port tx (fst c') (snd c') \<and> tx_settings (snd c') = tx\<lparr>tx_activated := True\<rparr>"
  using assms
  by (induction rule: tx_run.induct) (auto intro: explained_tx_step dest: settings_step)

subsection \<open>Every sequence of turns is an interleaving\<close>

lemma run_tx_signal: "\<not> tx_ended pc \<Longrightarrow> \<exists>ls. tx_run port (pc, s) ls (pc, signal_stop b s)"
  by (cases b) (auto intro: tx_run_nil tx_run_one tx_signal)

lemma run_preambles: "inject_controls n port s = Inr s' \<Longrightarrow> \<exists>ls. tx_run port (Tx_Preamble n, s) ls (Tx_Preamble 0, s')"
proof (induction n arbitrary: s)
  case (Suc n)
  then obtain t where t: "inject_control port s = Inr t" "inject_controls n port t = Inr s'" by (auto simp: bind_res_eq_Inr)
  show ?case using tx_run_trans[OF tx_run_one[OF tx_preamble[OF t(1)]]] Suc.IH[OF t(2)] by blast
qed (auto intro: tx_run_nil)

lemma run_eots: "inject_controls n port s = Inr s' \<Longrightarrow> \<exists>ls. tx_run port (Tx_Eot n, s) ls (Tx_Eot 0, s')"
proof (induction n arbitrary: s)
  case (Suc n)
  then obtain t where t: "inject_control port s = Inr t" "inject_controls n port t = Inr s'" by (auto simp: bind_res_eq_Inr)
  show ?case using tx_run_trans[OF tx_run_one[OF tx_eot[OF t(1)]]] Suc.IH[OF t(2)] by blast
qed (auto intro: tx_run_nil)

lemma run_body:
  assumes "tx_body port n r s = Inr g"
  shows "\<exists>ls. tx_run port (Tx_Polled n, s) ls (Tx_Test, g)"
proof (cases n "0 :: int" rule: linorder_cases)
  case less
  then show ?thesis using assms tx_run_one[OF tx_poll_fails[OF less]] by (auto simp: tx_body_def)
next
  case equal
  then show ?thesis using assms tx_run_one[OF tx_times_out] by (auto simp: tx_body_def)
next
  case greater
  then obtain t where t: "tx_read s r = Inr t"
    "(if 0 < prev_bytes_read (ts_stats t)
      then bind_res (tx_inject port t) (\<lambda>(status, s). Inr (tx_account status s)) else Inr t) = Inr g"
    using assms by (auto simp: tx_body_def bind_res_eq_Inr)
  note rd = tx_run_one[OF tx_reads[OF greater t(1)]]
  show ?thesis
  proof (cases "0 < prev_bytes_read (ts_stats t)")
    case True
    then obtain st h where h: "tx_inject port t = Inr (st, h)" "g = tx_account st h" using t(2) by (auto simp: bind_res_eq_Inr)
    show ?thesis
      unfolding h(2) using tx_run_step[OF tx_run_step[OF rd tx_block[OF True h(1)]] tx_accounts] by blast
  next
    case False
    then show ?thesis using t(2) tx_run_step[OF rd tx_nothing[OF False]] by auto
  qed
qed

lemma run_tx_turn:
  assumes "tx_turn port s e = Inr g" and "timeout_fits s"
  shows "\<exists>ls. tx_run port (Tx_Poll, s) ls (Tx_Test, g)"
proof -
  let ?s = "signal_stop (ev_stop_poll e) s"
  obtain h where h: "tx_body port (ev_poll e) (ev_read e) ?s = Inr h" "g = signal_stop (ev_stop_after e) h"
    using assms(1) by (auto simp: tx_turn_body bind_res_eq_Inr)
  obtain ls where "tx_run port (Tx_Poll, s) ls (Tx_Poll, ?s)" 
    using run_tx_signal[of Tx_Poll port s "ev_stop_poll e"] by (auto simp: tx_ended_def)
  moreover have "timeout_fits ?s" using assms(2) settings_fields(1)[of ?s s] by simp
  ultimately have polled: "tx_run port (Tx_Poll, s) (ls @ [Tx_Poll_Returns (ev_poll e)]) (Tx_Polled (ev_poll e), ?s)"
    by (metis tx_run_step tx_poll)
  obtain ms where "tx_run port (Tx_Polled (ev_poll e), ?s) ms (Tx_Test, h)" using run_body[OF h(1)] by blast
  note run = tx_run_trans[OF polled this]
  obtain ks where "tx_run port (Tx_Test, h) ks (Tx_Test, g)"
    unfolding h(2) using run_tx_signal[of Tx_Test port h "ev_stop_after e"] by (auto simp: tx_ended_def)
  then show ?thesis using tx_run_trans[OF run] by blast
qed

lemma run_settings: "tx_run port c ls c' \<Longrightarrow> tx_settings (snd c') = tx_settings (snd c)"
  by (induction rule: tx_run.induct) (auto dest: settings_step)

lemma run_tx_loop:
  "tx_loop port s es = Some (Inr g) \<Longrightarrow> timeout_fits s \<Longrightarrow> \<exists>ls. tx_run port (Tx_Poll, s) ls (Tx_Stop, g)"
proof (induction es arbitrary: s)
  case (Cons e es)
  then obtain f where f: "tx_turn port s e = Inr f"
    "if tx_running f then tx_loop port f es = Some (Inr g) else f = g"
    by (auto simp: tx_running_def split: sum.splits if_splits)
  obtain ls where ls: "tx_run port (Tx_Poll, s) ls (Tx_Test, f)" using run_tx_turn[OF f(1) Cons.prems(2)] by blast
  show ?case
  proof (cases "tx_running f")
    case True
    have "timeout_fits f" using Cons.prems(2) settings_fields(1)[OF run_settings[OF ls]] by simp
    then obtain ms where "tx_run port (Tx_Poll, f) ms (Tx_Stop, g)" using Cons.IH f(2) True by auto
    then show ?thesis using tx_run_trans[OF tx_run_step[OF ls tx_again[OF True]]] by blast
  next
    case False
    then show ?thesis using f(2) tx_run_step[OF ls tx_leave[OF False]] by auto
  qed
qed simp

text \<open>The run up to the first \<open>poll\<close>.\<close>

lemma run_to_poll:
  assumes "control_frames port (tx_session_start tx) DXWIFI_CONTROL_FRAME_PREAMBLE = Inr s0"
  shows "\<exists>ls. tx_run port (Tx_Start, tx_session_start tx) ls (Tx_Poll, s0)"
proof -
  obtain p where p: "control_payload (tx_session_start tx) DXWIFI_CONTROL_FRAME_PREAMBLE = Inr p"
    "inject_controls (control_times p) port p = Inr s0"
    using assms by (auto simp: control_frames_def bind_res_eq_Inr)
  obtain ls where ls: "tx_run port (Tx_Preamble (control_times p), p) ls (Tx_Preamble 0, s0)" using run_preambles[OF p(2)] by blast
  show ?thesis using tx_run_step[OF tx_run_trans[OF tx_run_one[OF tx_start[OF p(1)]] ls] tx_preamble_done] by blast
qed

lemma run_transmission:
  assumes "start_transmission port tx es = Some (Inr s)"
  shows "\<exists>ls. tx_run port (Tx_Start, tx_session_start tx) ls (Tx_Exited, s)"
proof -
  obtain s0 s1 where s0: "tx_begin port tx = Inr s0" and s1: "tx_loop port s0 es = Some (Inr s1)"
    and fin: "tx_finish port s1 = Inr s"
    using assms by (auto simp: start_transmission_def bind_res_eq_Inr split: sum.splits)
  have p: "control_frames port (tx_session_start tx) DXWIFI_CONTROL_FRAME_PREAMBLE = Inr s0" "timeout_fits s0"
    using s0 by (auto simp: tx_begin_parts bind_res_eq_Inr)
  obtain ls where start: "tx_run port (Tx_Start, tx_session_start tx) ls (Tx_Poll, s0)" using run_to_poll[OF p(1)] by blast
  obtain ms where "tx_run port (Tx_Poll, s0) ms (Tx_Stop, s1)" using run_tx_loop[OF s1 p(2)] by blast
  note loop = tx_run_trans[OF start this]
  obtain q r where q: "control_payload s1 DXWIFI_CONTROL_FRAME_EOT = Inr q" "inject_controls (control_times q) port q = Inr r"
    "s = tx_result r"
    using fin by (auto simp: tx_finish_parts control_frames_def bind_res_eq_Inr)
  obtain ks where "tx_run port (Tx_Eot (control_times q), q) ks (Tx_Eot 0, r)" using run_eots[OF q(2)] by blast
  note run = tx_run_trans[OF tx_run_step[OF loop tx_eot_start[OF q(1)]] this]
  show ?thesis unfolding q(3) using tx_run_step[OF run tx_exit] by blast
qed

text \<open>The same for what ends with an error.\<close>

lemma run_preambles_fail:
  "inject_controls n port s = Inl e \<Longrightarrow> \<exists>ls s'. tx_run port (Tx_Preamble n, s) ls (Tx_Failed e, s')"
proof (induction n arbitrary: s)
  case (Suc n)
  show ?case
  proof (cases "inject_control port s")
    case (Inr t)
    then show ?thesis using Suc tx_run_trans[OF tx_run_one[OF tx_preamble[OF Inr]]] by fastforce
  qed (use Suc.prems tx_run_one[OF tx_preamble_fails] in fastforce)
qed simp

lemma run_eots_fail:
  "inject_controls n port s = Inl e \<Longrightarrow> \<exists>ls s'. tx_run port (Tx_Eot n, s) ls (Tx_Failed e, s')"
proof (induction n arbitrary: s)
  case (Suc n)
  show ?case
  proof (cases "inject_control port s")
    case (Inr t)
    then show ?thesis using Suc tx_run_trans[OF tx_run_one[OF tx_eot[OF Inr]]] by fastforce
  qed (use Suc.prems tx_run_one[OF tx_eot_fails] in fastforce)
qed simp

lemma run_body_fails:
  assumes "tx_body port n r s = Inl e"
  shows "\<exists>ls s'. tx_run port (Tx_Polled n, s) ls (Tx_Failed e, s')"
proof -
  have n: "0 < n" using assms by (auto simp: tx_body_def split: if_splits)
  show ?thesis
  proof (cases "tx_read s r")
    case (Inl e')
    then show ?thesis using assms n tx_run_one[OF tx_read_fails[OF n Inl]] by (auto simp: tx_body_def)
  next
    case (Inr t)
    then have t: "0 < prev_bytes_read (ts_stats t)" "tx_inject port t = Inl e"
      using assms n by (auto simp: tx_body_def bind_res_def split: if_splits sum.splits)
    then show ?thesis using tx_run_step[OF tx_run_one[OF tx_reads[OF n Inr]] tx_block_fails[OF t]] by blast
  qed
qed

lemma run_tx_turn_fails:
  assumes "tx_turn port s e = Inl err" and "timeout_fits s"
  shows "\<exists>ls s'. tx_run port (Tx_Poll, s) ls (Tx_Failed err, s')"
proof -
  let ?s = "signal_stop (ev_stop_poll e) s"
  have h: "tx_body port (ev_poll e) (ev_read e) ?s = Inl err"
    using assms(1) by (auto simp: tx_turn_body bind_res_def split: sum.splits)
  obtain ls where "tx_run port (Tx_Poll, s) ls (Tx_Poll, ?s)"
    using run_tx_signal[of Tx_Poll port s "ev_stop_poll e"] by (auto simp: tx_ended_def)
  moreover have "timeout_fits ?s" using assms(2) settings_fields(1)[of ?s s] by simp
  ultimately have "tx_run port (Tx_Poll, s) (ls @ [Tx_Poll_Returns (ev_poll e)]) (Tx_Polled (ev_poll e), ?s)"
    by (metis tx_run_step tx_poll)
  then show ?thesis using run_body_fails[OF h] tx_run_trans by blast
qed

lemma run_tx_loop_fails:
  "tx_loop port s es = Some (Inl err) \<Longrightarrow> timeout_fits s \<Longrightarrow> \<exists>ls s'. tx_run port (Tx_Poll, s) ls (Tx_Failed err, s')"
proof (induction es arbitrary: s)
  case (Cons e es)
  show ?case
  proof (cases "tx_turn port s e")
    case (Inl err')
    then show ?thesis using Cons.prems run_tx_turn_fails by auto
  next
    case (Inr f)
    obtain ls where ls: "tx_run port (Tx_Poll, s) ls (Tx_Test, f)" using run_tx_turn[OF Inr Cons.prems(2)] by blast
    have f: "tx_running f" "tx_loop port f es = Some (Inl err)"
      using Cons.prems(1) Inr by (auto simp: tx_running_def split: if_splits)
    have "timeout_fits f" using Cons.prems(2) settings_fields(1)[OF run_settings[OF ls]] by simp
    then show ?thesis using Cons.IH[OF f(2)] tx_run_trans[OF tx_run_step[OF ls tx_again[OF f(1)]]] by blast
  qed
qed simp

lemma run_controls_fail:
  assumes "control_frames port s ty = Inl e"
  shows "ty = DXWIFI_CONTROL_FRAME_PREAMBLE \<Longrightarrow> \<exists>ls s'. tx_run port (Tx_Start, s) ls (Tx_Failed e, s')"
    and "ty = DXWIFI_CONTROL_FRAME_EOT \<Longrightarrow> \<exists>ls s'. tx_run port (Tx_Stop, s) ls (Tx_Failed e, s')"
proof -
  consider "control_payload s ty = Inl e" | p where "control_payload s ty = Inr p" "inject_controls (control_times p) port p = Inl e"
    using assms by (cases "control_payload s ty") (auto simp: control_frames_def)
  note c = this
  show "\<exists>ls s'. tx_run port (Tx_Start, s) ls (Tx_Failed e, s')" if "ty = DXWIFI_CONTROL_FRAME_PREAMBLE"
    using c
  proof cases
    case (2 p)
    then show ?thesis using tx_run_trans[OF tx_run_one[OF tx_start]] run_preambles_fail that by metis
  qed (use tx_run_one[OF tx_start_fails] that in blast)
  show "\<exists>ls s'. tx_run port (Tx_Stop, s) ls (Tx_Failed e, s')" if "ty = DXWIFI_CONTROL_FRAME_EOT"
    using c
  proof cases
    case (2 p)
    then show ?thesis using tx_run_trans[OF tx_run_one[OF tx_eot_start]] run_eots_fail that by metis
  qed (use tx_run_one[OF tx_eot_start_fails] that in blast)
qed

lemma run_transmission_fails:
  assumes "start_transmission port tx es = Some (Inl e)"
  shows "\<exists>ls s. tx_run port (Tx_Start, tx_session_start tx) ls (Tx_Failed e, s)"
proof (cases "control_frames port (tx_session_start tx) DXWIFI_CONTROL_FRAME_PREAMBLE")
  case (Inl err)
  then have "err = e" using assms begin_failed[OF Inl, of es] by simp
  then show ?thesis using run_controls_fail(1)[OF Inl] by blast
next
  case (Inr s0)
  obtain ls where ls: "tx_run port (Tx_Start, tx_session_start tx) ls (Tx_Poll, s0)" using run_to_poll[OF Inr] by blast
  show ?thesis
  proof (cases "timeout_fits (tx_session_start tx)")
    case False
    then have "\<not> timeout_fits s0" using settings_fields(1)[OF control_frames_settings[OF Inr]] by simp
    moreover have "e = Signed_Overflow" using transmission_from(2)[OF Inr False, of es] assms by simp
    ultimately show ?thesis using tx_run_step[OF ls tx_poll_overflows] by blast
  next
    case True
    then have fits: "timeout_fits s0" using settings_fields(1)[OF control_frames_settings[OF Inr]] by simp
    consider "tx_loop port s0 es = Some (Inl e)" | s1 where "tx_loop port s0 es = Some (Inr s1)" "tx_finish port s1 = Inl e"
    proof (cases "tx_loop port s0 es")
      case (Some r)
      then show thesis using that assms transmission_from(1)[OF Inr True, of es] by (cases r) (simp_all add: bind_res_def)
    qed (use assms transmission_from(1)[OF Inr True, of es] in simp)
    then show ?thesis
    proof cases
      case 1
      then show ?thesis using run_tx_loop_fails[OF _ fits] tx_run_trans[OF ls] by blast
    next
      case (2 s1)
      then have "control_frames port s1 DXWIFI_CONTROL_FRAME_EOT = Inl e" by (auto simp: tx_finish_parts bind_res_def split: sum.splits)
      from run_controls_fail(2)[OF this] obtain ks s where k: "tx_run port (Tx_Stop, s1) ks (Tx_Failed e, s)" by blast
      obtain ms where "tx_run port (Tx_Poll, s0) ms (Tx_Stop, s1)" using run_tx_loop[OF 2(1) fits] by blast
      then show ?thesis using tx_run_trans[OF tx_run_trans[OF ls] k] by blast
    qed
  qed
qed

subsection \<open>After a request\<close>

fun tx_steps_left :: "nat \<Rightarrow> tx_pc \<Rightarrow> nat" where
  "tx_steps_left n Tx_Exited = 0"
| "tx_steps_left n (Tx_Failed e) = 0"
| "tx_steps_left n (Tx_Eot k) = k + 1"
| "tx_steps_left n Tx_Stop = n + 2"
| "tx_steps_left n Tx_Test = n + 3"
| "tx_steps_left n (Tx_Injected st) = n + 4"
| "tx_steps_left n Tx_Got = n + 5"
| "tx_steps_left n (Tx_Polled p) = n + 6"
| "tx_steps_left n Tx_Poll = n + 7"
| "tx_steps_left n (Tx_Preamble k) = n + 8 + k"
| "tx_steps_left n Tx_Start = n + 9 + n"

fun tx_blocks_left :: "tx_pc \<Rightarrow> nat" where
  "tx_blocks_left Tx_Start = 1"
| "tx_blocks_left (Tx_Preamble k) = 1"
| "tx_blocks_left Tx_Poll = 1"
| "tx_blocks_left (Tx_Polled n) = 1"
| "tx_blocks_left Tx_Got = 1"
| "tx_blocks_left pc = 0"

definition tx_own_steps :: "tx_label list \<Rightarrow> nat" where
  "tx_own_steps ls = length (filter (\<lambda>l. l \<noteq> Tx_Signal) ls)"

definition tx_blocks :: "tx_label list \<Rightarrow> nat" where
  "tx_blocks ls = length (filter (\<lambda>l. l = Tx_Block) ls)"

lemma transmitter_kept_by:
  "tx_read s r = Inr s' \<Longrightarrow> ts_tx s' = ts_tx s"
  "tx_inject port s = Inr (st, s') \<Longrightarrow> ts_tx s' = ts_tx s"
  "control_payload s ty = Inr s' \<Longrightarrow> ts_tx s' = ts_tx s"
  "inject_control port s = Inr s' \<Longrightarrow> ts_tx s' = ts_tx s"
  by (auto simp: tx_read_def tx_inject_def control_payload_def inject_control_def Let_def
      bind_res_eq_Inr split_beta split: option.splits)

lemma stopped_tx_step:
  assumes "tx_step port c l c'" and "\<not> tx_activated (ts_tx (snd c))"
  shows "\<not> tx_activated (ts_tx (snd c'))"
    and "tx_own_steps [l] + tx_steps_left (control_times (snd c)) (fst c') \<le> tx_steps_left (control_times (snd c)) (fst c)"
    and "tx_blocks [l] + tx_blocks_left (fst c') \<le> tx_blocks_left (fst c)"
proof -
  have times: "control_times (snd c') = control_times (snd c)"
    using settings_fields(2)[OF settings_step[OF assms(1)]] .
  show "\<not> tx_activated (ts_tx (snd c'))"
    using assms
    by (cases rule: tx_step.cases)
      (auto simp: tx_timed_out_def tx_poll_failed_def tx_account_def tx_result_def Let_def split_beta
        dest: transmitter_kept_by)
  show "tx_own_steps [l] + tx_steps_left (control_times (snd c)) (fst c') \<le> tx_steps_left (control_times (snd c)) (fst c)"
    using assms times by (cases rule: tx_step.cases) (auto simp: tx_own_steps_def tx_running_def)
  show "tx_blocks [l] + tx_blocks_left (fst c') \<le> tx_blocks_left (fst c)"
    using assms by (cases rule: tx_step.cases) (auto simp: tx_blocks_def tx_running_def)
qed

lemma stopped_tx_run:
  assumes "tx_run port c ls c'" and "\<not> tx_activated (ts_tx (snd c))"
  shows "\<not> tx_activated (ts_tx (snd c')) \<and>
     tx_own_steps ls + tx_steps_left (control_times (snd c)) (fst c') \<le> tx_steps_left (control_times (snd c)) (fst c) \<and>
     tx_blocks ls + tx_blocks_left (fst c') \<le> tx_blocks_left (fst c)"
  using assms
proof (induction rule: tx_run.induct)
  case (tx_run_step c ls c' l c'')
  have "control_times (snd c') = control_times (snd c)"
    using settings_fields(2)[OF run_settings[OF tx_run_step(1)]] .
  moreover have "tx_own_steps (ls @ [l]) = tx_own_steps ls + tx_own_steps [l]" "tx_blocks (ls @ [l]) = tx_blocks ls + tx_blocks [l]"
    by (simp_all add: tx_own_steps_def tx_blocks_def)
  ultimately show ?case using tx_run_step stopped_tx_step[OF tx_run_step(2)] by fastforce
qed (simp add: tx_own_steps_def tx_blocks_def)

text \<open>Until it has ended the transmission can always take a step of its own.\<close>

lemma own_step: "tx_step port c l c' \<Longrightarrow> l \<noteq> Tx_Signal \<Longrightarrow> \<exists>l c'. l \<noteq> Tx_Signal \<and> tx_step port c l c'"
  by blast

lemma tx_progress:
  assumes "\<not> tx_ended pc"
  shows "\<exists>l c'. l \<noteq> Tx_Signal \<and> tx_step port (pc, s) l c'"
proof (cases pc)
  case Tx_Start
  show ?thesis unfolding Tx_Start
    by (cases "control_payload s DXWIFI_CONTROL_FRAME_PREAMBLE")
      (rule own_step[OF tx_start_fails] own_step[OF tx_start], assumption, simp)+
next
  case (Tx_Preamble k)
  show ?thesis
  proof (cases k)
    case 0
    show ?thesis unfolding Tx_Preamble 0 by (rule own_step[OF tx_preamble_done]) simp
  next
    case (Suc j)
    show ?thesis unfolding Tx_Preamble Suc
      by (cases "inject_control port s") (rule own_step[OF tx_preamble_fails] own_step[OF tx_preamble], assumption, simp)+
  qed
next
  case Tx_Poll
  show ?thesis unfolding Tx_Poll
    by (cases "timeout_fits s") (rule own_step[OF tx_poll_overflows] own_step[OF tx_poll], assumption, simp)+
next
  case (Tx_Polled n)
  consider "n = 0" | "n < 0" | "0 < n" by linarith
  then show ?thesis
  proof cases
    case 1
    show ?thesis unfolding Tx_Polled 1 by (rule own_step[OF tx_times_out]) simp
  next
    case 2
    show ?thesis unfolding Tx_Polled by (rule own_step[OF tx_poll_fails[OF 2]]) simp
  next
    case 3
    show ?thesis unfolding Tx_Polled
      by (cases "tx_read s None") (rule own_step[OF tx_read_fails[OF 3]] own_step[OF tx_reads[OF 3]], assumption, simp)+
  qed
next
  case Tx_Got
  show ?thesis
  proof (cases "0 < prev_bytes_read (ts_stats s)")
    case True
    show ?thesis unfolding Tx_Got
    proof (cases "tx_inject port s")
      case (Inl e)
      then show "\<exists>l c'. l \<noteq> Tx_Signal \<and> tx_step port (Tx_Got, s) l c'" by (rule own_step[OF tx_block_fails[OF True]]) simp
    next
      case (Inr p)
      then have "tx_inject port s = Inr (fst p, snd p)" by simp
      then show "\<exists>l c'. l \<noteq> Tx_Signal \<and> tx_step port (Tx_Got, s) l c'" by (rule own_step[OF tx_block[OF True]]) simp
    qed
  next
    case False
    show ?thesis unfolding Tx_Got by (rule own_step[OF tx_nothing[OF False]]) simp
  qed
next
  case (Tx_Injected st)
  show ?thesis unfolding Tx_Injected by (rule own_step[OF tx_accounts]) simp
next
  case Tx_Test
  show ?thesis unfolding Tx_Test
    by (cases "tx_running s") (rule own_step[OF tx_leave] own_step[OF tx_again], assumption, simp)+
next
  case Tx_Stop
  show ?thesis unfolding Tx_Stop
    by (cases "control_payload s DXWIFI_CONTROL_FRAME_EOT")
      (rule own_step[OF tx_eot_start_fails] own_step[OF tx_eot_start], assumption, simp)+
next
  case (Tx_Eot k)
  show ?thesis
  proof (cases k)
    case 0
    show ?thesis unfolding Tx_Eot 0 by (rule own_step[OF tx_exit]) simp
  next
    case (Suc j)
    show ?thesis unfolding Tx_Eot Suc
      by (cases "inject_control port s") (rule own_step[OF tx_eot_fails] own_step[OF tx_eot], assumption, simp)+
  qed
qed (use assms in \<open>simp_all add: tx_ended_def\<close>)

lemma stopped_result:
  "tx_run port c ls c' \<Longrightarrow> fst c' = Tx_Exited \<Longrightarrow> fst c \<noteq> Tx_Exited \<Longrightarrow> \<not> tx_activated (ts_tx (snd c)) \<Longrightarrow>
   tx_state (ts_stats (snd c')) \<noteq> DXWIFI_TX_NORMAL"
proof (induction rule: tx_run.induct)
  case (tx_run_step c ls c' l c'')
  have "\<not> tx_activated (ts_tx (snd c'))" using stopped_tx_run[OF tx_run_step(1)] tx_run_step(6) by blast
  with tx_run_step(2,4) show ?case by (cases rule: tx_step.cases) (auto simp: tx_result_def tx_ended_def)
qed simp

text \<open>The activation overwrites a request that comes between the handler's installation and it.\<close>

lemma early_transmitter_request_lost:
  "start_transmission port (stop_transmission tx) es = start_transmission port tx es"
  by (simp add: start_transmission_def tx_begin_def stop_transmission_def)

section \<open>Properties\<close>

text \<open>
  C8: The turns of the transmission loop are an exact abstraction of the steps of a transmission. A
  result, with everything on the air and the statistics, is that of some interleaving of the
  transmission with the signal handler, however often and wherever it runs, exactly if it is that of
  some sequence of turns; and so is an error.
\<close>

theorem tx_interleavings_are_turns:
  "((\<exists>ls. tx_run port (Tx_Start, tx_session_start tx) ls (Tx_Exited, s)) \<longleftrightarrow>
      (\<exists>es. start_transmission port tx es = Some (Inr s))) \<and>
   ((\<exists>ls s. tx_run port (Tx_Start, tx_session_start tx) ls (Tx_Failed e, s)) \<longleftrightarrow>
      (\<exists>es. start_transmission port tx es = Some (Inl e)))"
proof -
  have "tx_explained port tx Tx_Start (tx_session_start tx)" by (simp add: exI[of _ False])
  then have ex: "tx_explained port tx pc s'" if "tx_run port (Tx_Start, tx_session_start tx) ls (pc, s')" for ls pc s'
    using explained_tx_run[OF that, of tx] by simp
  show ?thesis
    using ex run_transmission[of port tx _ s] run_transmission_fails[of port tx _ e] by fastforce
qed



end
