(* ===== verification/ReceiverSignals.thy ===== *)
theory ReceiverSignals imports ReceiverProperties ReceiverMaps begin

text \<open>
  The capture loop of \<open>receiver_activate_capture\<close>, one step at a time, with the handler of
  \<open>SIGINT\<close> (\<open>sigint_handler\<close> in \<open>dxwifi/rx/rx.c\<close>, which calls \<open>receiver_stop_capture\<close>) running
  between any two of them. The loop of theory \<open>Receiver\<close> takes whole turns, each of which is told
  whether a request came before or after its work; here it is shown that this covers every
  interleaving, and that a request is obeyed.
\<close>

subsection \<open>Steps\<close>

datatype rx_pc =
    At_Test                \<comment> \<open>the condition of the \<open>while\<close>\<close>
  | At_Poll                \<comment> \<open>about to call \<open>poll\<close>\<close>
  | After_Poll int         \<comment> \<open>with its answer\<close>
  | In_Dispatch            \<comment> \<open>\<open>pcap_dispatch\<close>, between two frames\<close>
  | After_Dispatch int     \<comment> \<open>with its answer\<close>
  | Exited
  | Failed c_error

datatype rx_label = Signal | Tau | Poll_Returns int | Frame capture | Dispatch_Returns int

definition stop_fc :: "'s frame_controller \<Rightarrow> 's frame_controller" where
  "stop_fc fc = fc\<lparr>fc_rx := receiver_stop_capture (fc_rx fc)\<rparr>"

definition running :: "'s frame_controller \<Rightarrow> bool" where
  "running fc \<longleftrightarrow> rx_activated (fc_rx fc) \<and> \<not> end_capture fc"

inductive rx_step :: "build \<Rightarrow> 's write_call \<Rightarrow> rx_pc \<times> 's frame_controller \<Rightarrow> rx_label \<Rightarrow>
    rx_pc \<times> 's frame_controller \<Rightarrow> bool" for bld wr where
  signal: "pc \<noteq> Exited \<Longrightarrow> (\<forall>e. pc \<noteq> Failed e) \<Longrightarrow> rx_step bld wr (pc, fc) Signal (pc, stop_fc fc)"
| enter: "running fc \<Longrightarrow> rx_step bld wr (At_Test, fc) Tau (At_Poll, fc)"
| leave: "\<not> running fc \<Longrightarrow> rx_step bld wr (At_Test, fc) Tau (Exited, fc)"
| poll: "rx_step bld wr (At_Poll, fc) (Poll_Returns n) (After_Poll n, fc)"
| timed_out: "rx_step bld wr (After_Poll 0, fc) Tau
     (At_Test, set_capture_state DXWIFI_RX_TIMED_OUT (fc\<lparr>fc_rx := (fc_rx fc)\<lparr>rx_activated := False\<rparr>\<rparr>))"
| poll_failed: "n < 0 \<Longrightarrow> rx_step bld wr (After_Poll n, fc) Tau
     (At_Test, set_capture_state (if rx_activated (fc_rx fc) then DXWIFI_RX_ERROR else DXWIFI_RX_DEACTIVATED) fc)"
| dispatch: "0 < n \<Longrightarrow> rx_step bld wr (After_Poll n, fc) Tau (In_Dispatch, fc)"
| frame: "process_frame bld wr fc pkt fr = Inr fc' \<Longrightarrow>
     rx_step bld wr (In_Dispatch, fc) (Frame (pkt, fr)) (In_Dispatch, fc')"
| crash: "process_frame bld wr fc pkt fr = Inl err \<Longrightarrow>
     rx_step bld wr (In_Dispatch, fc) (Frame (pkt, fr)) (Failed err, fc)"
| dispatched: "rx_step bld wr (In_Dispatch, fc) (Dispatch_Returns r) (After_Dispatch r, fc)"
| turn_done: "rx_step bld wr (After_Dispatch r, fc) Tau
     (At_Test, if dxwifi_tests bld \<and> r = 0
       then set_capture_state DXWIFI_RX_DEACTIVATED (fc\<lparr>fc_rx := (fc_rx fc)\<lparr>rx_activated := False\<rparr>\<rparr>)
       else fc)"

inductive rx_run :: "build \<Rightarrow> 's write_call \<Rightarrow> rx_pc \<times> 's frame_controller \<Rightarrow> rx_label list \<Rightarrow>
    rx_pc \<times> 's frame_controller \<Rightarrow> bool" for bld wr where
  run_nil: "rx_run bld wr c [] c"
| run_step: "rx_run bld wr c ls c' \<Longrightarrow> rx_step bld wr c' l c'' \<Longrightarrow> rx_run bld wr c (ls @ [l]) c''"

inductive_cases step_from_testE: "rx_step bld wr (At_Test, fc) l c"
inductive_cases step_from_pollE: "rx_step bld wr (At_Poll, fc) l c"
inductive_cases step_after_pollE: "rx_step bld wr (After_Poll n, fc) l c"
inductive_cases step_in_dispatchE: "rx_step bld wr (In_Dispatch, fc) l c"
inductive_cases step_after_dispatchE: "rx_step bld wr (After_Dispatch r, fc) l c"
inductive_simps step_from_exit [simp]: "rx_step bld wr (Exited, fc) l c"
inductive_simps step_from_failure [simp]: "rx_step bld wr (Failed err, fc) l c"

subsection \<open>Processing does not look at the request\<close>

interpretation stop_map: controller_map stop_fc "\<lambda>s. s" wr wr for wr
  by unfold_locales (simp_all add: stop_fc_def receiver_stop_capture_def)

lemma stop_fc_simps [simp]:
  "\<not> rx_activated (fc_rx (stop_fc fc))" "stop_fc (stop_fc fc) = stop_fc fc" "end_capture (stop_fc fc) = end_capture fc"
  "\<not> running (stop_fc fc)"
  by (simp_all add: stop_fc_def receiver_stop_capture_def running_def)

lemma stop_signal: "rx_signal_stop b fc = (if b then stop_fc fc else fc)"
  by (simp add: rx_signal_stop_def stop_fc_def)

lemma set_state_stop: "set_capture_state st (stop_fc fc) = stop_fc (set_capture_state st fc)"
  by (simp add: set_capture_state_def stop_fc_def)

lemma dispatch_append: "dispatch bld wr fc (cs @ ds) = bind_res (dispatch bld wr fc cs) (\<lambda>fc. dispatch bld wr fc ds)"
  by (induction cs arbitrary: fc) (auto simp: bind_res_assoc)

subsection \<open>Whole turns\<close>

fun rx_turns :: "build \<Rightarrow> 's write_call \<Rightarrow> 's frame_controller \<Rightarrow> rx_event list \<Rightarrow> 's frame_controller \<Rightarrow> bool" where
  "rx_turns bld wr fc [] g \<longleftrightarrow> g = fc"
| "rx_turns bld wr fc (e # es) g \<longleftrightarrow> running fc \<and> (\<exists>f. rx_turn bld wr fc e = Inr f \<and> rx_turns bld wr f es g)"

lemma rx_turns_snoc:
  "rx_turns bld wr fc (es @ [e]) g \<longleftrightarrow> (\<exists>f. rx_turns bld wr fc es f \<and> running f \<and> rx_turn bld wr f e = Inr g)"
  by (induction es arbitrary: fc) auto

lemma rx_turns_loop: "rx_turns bld wr fc es f \<Longrightarrow> rx_loop bld wr fc (es @ rest) = rx_loop bld wr f rest"
  by (induction es arbitrary: fc) (auto simp: rx_loop.simps[of _ _ fc] running_def rx_loop.simps)

lemma turn_stop_after:
  "rx_turn bld wr f e = Inr g \<Longrightarrow> rx_turn bld wr f (e\<lparr>rx_stop_after := True\<rparr>) = Inr (stop_fc g)"
  by (auto simp: rx_turn_def Let_def bind_res_eq_Inr stop_signal)

text \<open>What is known of the loop at each point, as turns that were completed and one that is under way.\<close>

fun explained :: "build \<Rightarrow> 's write_call \<Rightarrow> 's frame_controller \<Rightarrow> rx_pc \<Rightarrow> 's frame_controller \<Rightarrow> bool" where
  "explained bld wr fc0 At_Test fc \<longleftrightarrow> fc = stop_fc fc0 \<or> (\<exists>es. rx_turns bld wr fc0 es fc)"
| "explained bld wr fc0 (After_Poll n) fc \<longleftrightarrow>
     (\<exists>es f b. rx_turns bld wr fc0 es f \<and> running f \<and> fc = rx_signal_stop b f)"
| "explained bld wr fc0 At_Poll fc \<longleftrightarrow>
     (\<exists>es f b. rx_turns bld wr fc0 es f \<and> running f \<and> fc = rx_signal_stop b f)"
| "explained bld wr fc0 In_Dispatch fc \<longleftrightarrow>
     (\<exists>es f b cs g. rx_turns bld wr fc0 es f \<and> running f \<and> dispatch bld wr f cs = Inr g \<and> fc = rx_signal_stop b g)"
| "explained bld wr fc0 (After_Dispatch r) fc \<longleftrightarrow>
     (\<exists>es f b cs g. rx_turns bld wr fc0 es f \<and> running f \<and> dispatch bld wr f cs = Inr g \<and> fc = rx_signal_stop b g)"
| "explained bld wr fc0 Exited fc \<longleftrightarrow> fc = stop_fc fc0 \<or> (\<exists>es. rx_loop bld wr fc0 es = Some (Inr fc))"
| "explained bld wr fc0 (Failed err) fc \<longleftrightarrow> (\<exists>es. rx_loop bld wr fc0 es = Some (Inl err))"

lemma signal_twice: "stop_fc (rx_signal_stop b f) = rx_signal_stop True f"
  by (simp add: stop_signal)

lemma explained_signal:
  assumes "explained bld wr fc0 pc fc" and "running fc0" and "pc \<noteq> Exited" and "\<forall>e. pc \<noteq> Failed e"
  shows "explained bld wr fc0 pc (stop_fc fc)"
proof (cases pc)
  case At_Test
  show ?thesis
  proof (cases "fc = stop_fc fc0")
    case False
    then obtain es where es: "rx_turns bld wr fc0 es fc" using assms(1) At_Test by auto
    show ?thesis
    proof (cases es rule: rev_cases)
      case Nil
      then show ?thesis using es At_Test by simp
    next
      case (snoc es' e)
      then obtain f where "rx_turns bld wr fc0 es' f" "running f" "rx_turn bld wr f e = Inr fc"
        using es rx_turns_snoc by blast
      then have "rx_turns bld wr fc0 (es' @ [e\<lparr>rx_stop_after := True\<rparr>]) (stop_fc fc)"
        using turn_stop_after rx_turns_snoc by blast
      then show ?thesis using At_Test by auto
    qed
  qed (use At_Test in simp)
qed (use assms in \<open>auto simp: signal_twice\<close>, (metis signal_twice)+)

lemma explained_leave:
  assumes "explained bld wr fc0 At_Test fc" and "\<not> running fc"
  shows "explained bld wr fc0 Exited fc"
proof -
  have "rx_loop bld wr fc [] = Some (Inr fc)" using assms(2) by (simp add: rx_loop.simps running_def)
  then show ?thesis using assms(1) rx_turns_loop[of bld wr fc0 _ fc "[]"] by auto
qed

text \<open>A turn under way is completed.\<close>

lemma explained_turn:
  assumes "rx_turns bld wr fc0 es f" and "running f" and "rx_turn bld wr f e = Inr g"
  shows "explained bld wr fc0 At_Test g"
  using assms rx_turns_snoc by (metis explained.simps(1))

lemma turn_timeout:
  "rx_turn bld wr f \<lparr>rx_stop_poll = b, rx_poll = 0, rx_packets = [], rx_dispatch = 0, rx_stop_after = False\<rparr> =
   Inr (set_capture_state DXWIFI_RX_TIMED_OUT ((rx_signal_stop b f)\<lparr>fc_rx := (fc_rx (rx_signal_stop b f))\<lparr>rx_activated := False\<rparr>\<rparr>))"
  by (simp add: rx_turn_def Let_def rx_signal_stop_def)

lemma turn_failed:
  "n < 0 \<Longrightarrow> rx_turn bld wr f \<lparr>rx_stop_poll = b, rx_poll = n, rx_packets = [], rx_dispatch = 0, rx_stop_after = False\<rparr> =
   Inr (set_capture_state (if rx_activated (fc_rx (rx_signal_stop b f)) then DXWIFI_RX_ERROR else DXWIFI_RX_DEACTIVATED)
     (rx_signal_stop b f))"
  by (simp add: rx_turn_def Let_def rx_signal_stop_def)

lemma dispatch_signal: "dispatch bld wr (rx_signal_stop b f) cs = map_res (rx_signal_stop b) (dispatch bld wr f cs)"
  by (cases b; cases "dispatch bld wr f cs") (simp_all add: stop_signal stop_map.dispatch_map)

lemma turn_dispatch:
  "rx_turn bld wr f \<lparr>rx_stop_poll = b, rx_poll = 1, rx_packets = cs, rx_dispatch = r, rx_stop_after = False\<rparr> =
   bind_res (dispatch bld wr f cs) (\<lambda>g. Inr (if dxwifi_tests bld \<and> r = 0
     then set_capture_state DXWIFI_RX_DEACTIVATED ((rx_signal_stop b g)\<lparr>fc_rx := (fc_rx (rx_signal_stop b g))\<lparr>rx_activated := False\<rparr>\<rparr>)
     else rx_signal_stop b g))"
  by (cases "dispatch bld wr f cs") (simp_all add: rx_turn_def dispatch_signal, simp_all add: rx_signal_stop_def)

lemma process_signal:
  "process_frame bld wr (rx_signal_stop b f) pkt fr = map_res (rx_signal_stop b) (process_frame bld wr f pkt fr)"
  by (cases b; cases "process_frame bld wr f pkt fr") (simp_all add: stop_signal stop_map.process_frame_map)

lemma explained_step:
  assumes "rx_step bld wr c l c'" and "explained bld wr fc0 (fst c) (snd c)" and "running fc0"
  shows "explained bld wr fc0 (fst c') (snd c')"
  using assms
proof (cases rule: rx_step.cases)
  case (signal pc fc)
  then show ?thesis using assms explained_signal by (metis fst_conv snd_conv)
next
  case (enter fc)
  then obtain es where "rx_turns bld wr fc0 es fc" using assms(2) by auto
  then have "\<exists>es f b. rx_turns bld wr fc0 es f \<and> running f \<and> fc = rx_signal_stop b f"
    using enter(4) by (intro exI[of _ es] exI[of _ fc] exI[of _ False]) (simp add: rx_signal_stop_def)
  then show ?thesis using enter by simp
next
  case (leave fc)
  then show ?thesis using assms explained_leave by simp
next
  case (timed_out fc)
  then obtain es f b where "rx_turns bld wr fc0 es f" "running f" "fc = rx_signal_stop b f" using assms(2) by auto
  then show ?thesis using timed_out explained_turn turn_timeout by (metis fst_conv snd_conv)
next
  case (poll_failed n fc)
  then obtain es f b where "rx_turns bld wr fc0 es f" "running f" "fc = rx_signal_stop b f" using assms(2) by auto
  then show ?thesis using poll_failed explained_turn turn_failed by (metis fst_conv snd_conv)
next
  case (dispatch n fc)
  then obtain es f b where "rx_turns bld wr fc0 es f" "running f" "fc = rx_signal_stop b f" using assms(2) by auto
  moreover have "dispatch bld wr f [] = Inr f" by simp
  ultimately show ?thesis using dispatch by (metis explained.simps(4) fst_conv snd_conv)
next
  case (frame fc pkt fr fc')
  then obtain es f b cs g where t: "rx_turns bld wr fc0 es f" "running f" "dispatch bld wr f cs = Inr g"
    "fc = rx_signal_stop b g" using assms(2) by auto
  then obtain g' where g': "process_frame bld wr g pkt fr = Inr g'" "fc' = rx_signal_stop b g'"
    using frame(4) by (cases "process_frame bld wr g pkt fr") (simp_all add: process_signal)
  have "dispatch bld wr f (cs @ [(pkt, fr)]) = Inr g'" using t(3) g'(1) by (simp add: dispatch_append)
  then show ?thesis using frame t g' by (metis explained.simps(4) fst_conv snd_conv)
next
  case (crash fc pkt fr err)
  then obtain es f b cs g where t: "rx_turns bld wr fc0 es f" "running f" "dispatch bld wr f cs = Inr g"
    "fc = rx_signal_stop b g" using assms(2) by auto
  then have "process_frame bld wr g pkt fr = Inl err"
    using crash(4) by (cases "process_frame bld wr g pkt fr") (simp_all add: process_signal)
  then have "rx_turn bld wr f \<lparr>rx_stop_poll = b, rx_poll = 1, rx_packets = cs @ [(pkt, fr)], rx_dispatch = 0,
      rx_stop_after = False\<rparr> = Inl err"
    using t(3) by (simp add: turn_dispatch dispatch_append)
  then have "rx_loop bld wr f [\<lparr>rx_stop_poll = b, rx_poll = 1, rx_packets = cs @ [(pkt, fr)], rx_dispatch = 0,
      rx_stop_after = False\<rparr>] = Some (Inl err)"
    using t(2) by (simp add: rx_loop.simps running_def)
  then show ?thesis using crash t(1) rx_turns_loop by (metis explained.simps(7) fst_conv snd_conv)
next
  case (turn_done r fc)
  then obtain es f b cs g where t: "rx_turns bld wr fc0 es f" "running f" "dispatch bld wr f cs = Inr g"
    "fc = rx_signal_stop b g" using assms(2) by auto
  have "rx_turn bld wr f \<lparr>rx_stop_poll = b, rx_poll = 1, rx_packets = cs, rx_dispatch = r, rx_stop_after = False\<rparr> =
      Inr (snd c')"
    using turn_done t(3,4) by (simp add: turn_dispatch)
  moreover have "fst c' = At_Test" using turn_done by simp
  ultimately show ?thesis using explained_turn[OF t(1,2)] by metis
qed (use assms in auto)

lemma explained_run:
  assumes "rx_run bld wr c ls c'" and "explained bld wr fc0 (fst c) (snd c)" and "running fc0"
  shows "explained bld wr fc0 (fst c') (snd c')"
  using assms by (induction rule: rx_run.induct) (auto intro: explained_step)

subsection \<open>Every sequence of turns is an interleaving\<close>

lemma rx_run_trans:
  assumes "rx_run bld wr c ls c'" and "rx_run bld wr c' ms c''"
  shows "rx_run bld wr c (ls @ ms) c''"
  using assms(2,1)
proof (induction rule: rx_run.induct)
  case (run_step c1 ks c2 l c3)
  then show ?case using rx_run.run_step by (metis append.assoc)
qed simp

lemma run_one: "rx_step bld wr c l c' \<Longrightarrow> rx_run bld wr c [l] c'"
  using run_step[OF run_nil] by fastforce

lemma run_signal: "pc \<noteq> Exited \<Longrightarrow> \<forall>e. pc \<noteq> Failed e \<Longrightarrow> \<exists>ls. rx_run bld wr (pc, fc) ls (pc, rx_signal_stop b fc)"
  by (cases b) (auto simp: stop_signal intro: run_nil run_one signal)

lemma run_frames:
  "dispatch bld wr fc cs = Inr g \<Longrightarrow> \<exists>ls. rx_run bld wr (In_Dispatch, fc) ls (In_Dispatch, g)"
proof (induction cs arbitrary: fc)
  case Nil
  then show ?case by (auto intro: run_nil)
next
  case (Cons c cs)
  obtain pkt fr where c: "c = (pkt, fr)" by (cases c)
  then obtain f1 where "process_frame bld wr fc pkt fr = Inr f1" "dispatch bld wr f1 cs = Inr g"
    using Cons.prems by (auto simp: bind_res_eq_Inr)
  then show ?case using Cons.IH rx_run_trans run_one[OF rx_step.frame] by blast
qed

lemma run_turn:
  assumes "running f" and "rx_turn bld wr f e = Inr g"
  shows "\<exists>ls. rx_run bld wr (At_Test, f) ls (At_Test, g)"
proof -
  let ?f = "rx_signal_stop (rx_stop_poll e) f"
  obtain ls where start: "rx_run bld wr (At_Test, f) ls (At_Poll, ?f)"
    using run_one[OF enter[OF assms(1)]] run_signal[of At_Poll] rx_run_trans by blast
  have polled: "rx_run bld wr (At_Test, f) (ls @ [Poll_Returns (rx_poll e)]) (After_Poll (rx_poll e), ?f)"
    using run_step[OF start poll] .
  obtain h where h: "g = rx_signal_stop (rx_stop_after e) h"
    and hc: "if rx_poll e = 0 then h = set_capture_state DXWIFI_RX_TIMED_OUT (?f\<lparr>fc_rx := (fc_rx ?f)\<lparr>rx_activated := False\<rparr>\<rparr>)
      else if rx_poll e < 0
      then h = set_capture_state (if rx_activated (fc_rx ?f) then DXWIFI_RX_ERROR else DXWIFI_RX_DEACTIVATED) ?f
      else \<exists>d. dispatch bld wr ?f (rx_packets e) = Inr d \<and> h = (if dxwifi_tests bld \<and> rx_dispatch e = 0
        then set_capture_state DXWIFI_RX_DEACTIVATED (d\<lparr>fc_rx := (fc_rx d)\<lparr>rx_activated := False\<rparr>\<rparr>) else d)"
    using assms(2) by (auto simp: rx_turn_def Let_def bind_res_eq_Inr split: if_splits)
  have "\<exists>ms. rx_run bld wr (After_Poll (rx_poll e), ?f) ms (At_Test, h)"
  proof (cases "rx_poll e" "0 :: int" rule: linorder_cases)
    case less
    then show ?thesis using hc run_one[OF poll_failed[OF less]] by (metis less_irrefl)
  next
    case equal
    then show ?thesis using hc run_one[OF timed_out] by metis
  next
    case greater
    then obtain d where d: "dispatch bld wr ?f (rx_packets e) = Inr d"
      "h = (if dxwifi_tests bld \<and> rx_dispatch e = 0
        then set_capture_state DXWIFI_RX_DEACTIVATED (d\<lparr>fc_rx := (fc_rx d)\<lparr>rx_activated := False\<rparr>\<rparr>) else d)"
      using hc by (metis less_asym less_irrefl)
    obtain ms where "rx_run bld wr (In_Dispatch, ?f) ms (In_Dispatch, d)" using run_frames[OF d(1)] by blast
    note run = rx_run_trans[OF run_one[OF rx_step.dispatch[OF greater]] this]
    show ?thesis
      unfolding d(2) using run_step[OF run_step[OF run dispatched] turn_done] by blast
  qed
  then obtain ms where "rx_run bld wr (After_Poll (rx_poll e), ?f) ms (At_Test, h)" by blast
  note run = rx_run_trans[OF polled this]
  obtain ks where "rx_run bld wr (At_Test, h) ks (At_Test, g)" using run_signal[of At_Test] unfolding h by blast
  then show ?thesis using rx_run_trans[OF run] by blast
qed

lemma run_loop:
  "rx_loop bld wr fc es = Some (Inr g) \<Longrightarrow> \<exists>ls. rx_run bld wr (At_Test, fc) ls (Exited, g)"
proof (induction es arbitrary: fc)
  case Nil
  then have "\<not> running fc" "g = fc" by (auto simp: rx_loop.simps[of _ _ fc] running_def split: if_splits)
  then show ?case using run_one[OF leave] by blast
next
  case (Cons e es)
  show ?case
  proof (cases "running fc")
    case False
    then have "g = fc" using Cons.prems by (auto simp: rx_loop.simps[of _ _ fc] running_def)
    then show ?thesis using False run_one[OF leave] by blast
  next
    case True
    then obtain f where "rx_turn bld wr fc e = Inr f" "rx_loop bld wr f es = Some (Inr g)"
      using Cons.prems by (auto simp: rx_loop.simps[of _ _ fc] running_def split: sum.splits)
    then show ?thesis using True Cons.IH run_turn rx_run_trans by blast
  qed
qed

subsection \<open>After a request\<close>

fun steps_left :: "rx_pc \<Rightarrow> nat" where
  "steps_left At_Test = 1"
| "steps_left At_Poll = 5"
| "steps_left (After_Poll n) = 4"
| "steps_left In_Dispatch = 3"
| "steps_left (After_Dispatch r) = 2"
| "steps_left Exited = 0"
| "steps_left (Failed e) = 0"

definition own_steps :: "rx_label list \<Rightarrow> nat" where
  "own_steps ls = length (filter (\<lambda>l. l \<noteq> Signal \<and> (\<forall>c. l \<noteq> Frame c)) ls)"

lemma process_frame_rx: "process_frame bld wr fc pkt fr = Inr fc' \<Longrightarrow> \<not> rx_activated (fc_rx fc) \<Longrightarrow> \<not> rx_activated (fc_rx fc')"
proof -
  assume p: "process_frame bld wr fc pkt fr = Inr fc'" and off: "\<not> rx_activated (fc_rx fc)"
  have "stop_fc fc = fc" using off by (simp add: stop_fc_def receiver_stop_capture_def)
  then have "stop_fc fc' = fc'" using p stop_map.process_frame_map[of bld wr fc pkt fr] by simp
  then show ?thesis by (metis stop_fc_simps(1))
qed

lemma stopped_step:
  assumes "rx_step bld wr c l c'" and "\<not> rx_activated (fc_rx (snd c))"
  shows "\<not> rx_activated (fc_rx (snd c')) \<and> own_steps [l] + steps_left (fst c') \<le> steps_left (fst c)"
  using assms
  by (cases rule: rx_step.cases) (auto simp: own_steps_def running_def set_capture_state_def process_frame_rx)

lemma stopped_run:
  assumes "rx_run bld wr c ls c'" and "\<not> rx_activated (fc_rx (snd c))"
  shows "\<not> rx_activated (fc_rx (snd c')) \<and> own_steps ls + steps_left (fst c') \<le> steps_left (fst c)"
  using assms
proof (induction rule: rx_run.induct)
  case (run_step c ls c' l c'')
  then have "own_steps (ls @ [l]) = own_steps ls + own_steps [l]" by (simp add: own_steps_def)
  then show ?case using run_step stopped_step[OF run_step(2)] by fastforce
qed (simp add: own_steps_def)

lemma stopped_no_poll:
  assumes "rx_run bld wr c ls c'" and "\<not> rx_activated (fc_rx (snd c))" and "fst c \<noteq> At_Poll"
  shows "fst c' \<noteq> At_Poll \<and> (\<forall>n. Poll_Returns n \<notin> set ls)"
  using assms
proof (induction rule: rx_run.induct)
  case (run_step c ls c1 l c2)
  have "\<not> rx_activated (fc_rx (snd c1))" using stopped_run[OF run_step(1,4)] by simp
  with run_step(2) have "fst c1 \<noteq> At_Poll \<Longrightarrow> fst c2 \<noteq> At_Poll \<and> (\<forall>n. l \<noteq> Poll_Returns n)"
    by (cases rule: rx_step.cases) (auto simp: running_def)
  then show ?case using run_step by auto
qed simp

lemma steps_left_bound: "steps_left pc \<le> 5" "pc \<noteq> At_Poll \<Longrightarrow> steps_left pc \<le> 4"
  by (cases pc; simp)+

text \<open>The controller with which \<open>receiver_activate_capture\<close> enters its loop.\<close>

definition start_controller :: "dxwifi_receiver \<Rightarrow> 's \<Rightarrow> 's frame_controller" where
  "start_controller rx fd = (init_frame_controller rx fd)\<lparr>fc_rx := rx\<lparr>rx_activated := True\<rparr>\<rparr>"

lemma start_running: "running (start_controller rx fd)"
  by (simp add: start_controller_def running_def init_frame_controller_def)

lemma start_capture:
  "0 \<le> sfd \<Longrightarrow> receiver_activate_capture bld wr sfd ps rx fd es =
     map_option (\<lambda>r. bind_res r (rx_finish wr ps)) (rx_loop bld wr (start_controller rx fd) es)"
  by (simp add: receiver_activate_capture_def start_controller_def init_frame_controller_def Let_def)

text \<open>
  The handler is installed before the receiver is activated: a request that arrives in between is
  overwritten by the activation.
\<close>

lemma early_request_lost:
  "receiver_activate_capture bld wr sfd ps (receiver_stop_capture rx) fd es =
   receiver_activate_capture bld wr sfd ps rx fd es"
  by (simp add: receiver_activate_capture_def init_frame_controller_def receiver_stop_capture_def Let_def)

section \<open>Properties\<close>

text \<open>
  C7: The turns of the capture loop are an exact abstraction of its steps. Every interleaving of the
  loop with the signal handler, however often and wherever it runs, ends as some sequence of
  turns does, with the same output, statistics and error, unless the request comes before the
  first turn, when nothing is captured; and every sequence of turns is such an interleaving.
\<close>

theorem interleavings_are_turns:
  assumes "0 \<le> sfd"
  shows "(\<forall>ls fc. rx_run bld wr (At_Test, start_controller rx fd) ls (Exited, fc) \<longrightarrow>
        fc = stop_fc (start_controller rx fd) \<or>
        (\<exists>es. receiver_activate_capture bld wr sfd ps rx fd es = Some (rx_finish wr ps fc))) \<and>
     (\<forall>ls fc err. rx_run bld wr (At_Test, start_controller rx fd) ls (Failed err, fc) \<longrightarrow>
        (\<exists>es. receiver_activate_capture bld wr sfd ps rx fd es = Some (Inl err))) \<and>
     (\<forall>es r. receiver_activate_capture bld wr sfd ps rx fd es = Some (Inr r) \<longrightarrow>
        (\<exists>ls fc. rx_run bld wr (At_Test, start_controller rx fd) ls (Exited, fc) \<and> rx_finish wr ps fc = Inr r))"
proof (intro conjI allI impI)
  let ?fc0 = "start_controller rx fd"
  have start: "explained bld wr ?fc0 At_Test ?fc0" by (simp add: exI[of _ "[]"])
  have ex: "explained bld wr ?fc0 pc fc" if "rx_run bld wr (At_Test, ?fc0) ls (pc, fc)" for ls pc fc
    using explained_run[OF that _ start_running] start by simp
  show "fc = stop_fc ?fc0 \<or> (\<exists>es. receiver_activate_capture bld wr sfd ps rx fd es = Some (rx_finish wr ps fc))"
    if "rx_run bld wr (At_Test, ?fc0) ls (Exited, fc)" for ls fc
    using ex[OF that] by (force simp: start_capture[OF assms])
  show "\<exists>es. receiver_activate_capture bld wr sfd ps rx fd es = Some (Inl err)"
    if "rx_run bld wr (At_Test, ?fc0) ls (Failed err, fc)" for ls fc err
    using ex[OF that] by (force simp: start_capture[OF assms])
  show "\<exists>ls fc. rx_run bld wr (At_Test, ?fc0) ls (Exited, fc) \<and> rx_finish wr ps fc = Inr r"
    if run: "receiver_activate_capture bld wr sfd ps rx fd es = Some (Inr r)" for es r
  proof -
    obtain fc where "rx_loop bld wr ?fc0 es = Some (Inr fc)" "rx_finish wr ps fc = Inr r"
      using run unfolding start_capture[OF assms] by (auto simp: bind_res_eq_Inr)
    then show ?thesis using run_loop by blast
  qed
qed

text \<open>A request between the test of the loop and the call of \<open>poll\<close>, which then still waits.\<close>

lemma sample_interleaving:
  fixes fd :: "byte list" and rx :: dxwifi_receiver
  defines "f \<equiv> stop_fc (start_controller rx fd)"
  shows "rx_run bld wr (At_Test, start_controller rx fd) ([] @ [Tau] @ [Signal] @ [Poll_Returns (-1)] @ [Tau] @ [Tau])
     (Exited, set_capture_state DXWIFI_RX_DEACTIVATED f)"
proof -
  let ?f = "start_controller rx fd"
  have t: "rx_step bld wr (After_Poll (-1), f) Tau (At_Test, set_capture_state DXWIFI_RX_DEACTIVATED f)"
    using poll_failed[of "-1" bld wr f] by (simp add: f_def)
  have l: "rx_step bld wr (At_Test, set_capture_state DXWIFI_RX_DEACTIVATED f) Tau
      (Exited, set_capture_state DXWIFI_RX_DEACTIVATED f)"
    by (rule leave) (simp add: f_def set_state_stop)
  note s1 = run_step[OF run_nil enter[OF start_running]]
  have s2: "rx_run bld wr (At_Test, ?f) (([] @ [Tau]) @ [Signal]) (At_Poll, f)"
    unfolding f_def by (rule run_step[OF s1 signal]) simp_all
  show ?thesis using run_step[OF run_step[OF run_step[OF s2 poll] t] l] by simp
qed

theorem interleavings_are_turns_witness:
  "\<exists>es. receiver_activate_capture sample_build file_write 3 None (sample_rx False False) [] es =
     Some (rx_finish file_write None
       (set_capture_state DXWIFI_RX_DEACTIVATED (stop_fc (start_controller (sample_rx False False) []))))"
proof -
  have "set_capture_state DXWIFI_RX_DEACTIVATED (stop_fc (start_controller (sample_rx False False) ([] :: byte list))) \<noteq>
      stop_fc (start_controller (sample_rx False False) [])"
  proof
    assume "set_capture_state DXWIFI_RX_DEACTIVATED (stop_fc (start_controller (sample_rx False False) ([] :: byte list))) =
      stop_fc (start_controller (sample_rx False False) [])"
    from arg_cong[OF this, of "\<lambda>fc. capture_state (rx_stats fc)"] show False
      by (simp add: set_capture_state_def stop_map.sel start_controller_def init_frame_controller_def)
  qed
  then show ?thesis
    using interleavings_are_turns[where sfd = 3 and bld = sample_build and wr = file_write and ps = None
        and rx = "sample_rx False False" and fd = "[]"]
      sample_interleaving[where bld = sample_build and wr = file_write and rx = "sample_rx False False" and fd = "[]"]
    by auto
qed



end
