(* ===== verification/ReceiverStats.thy ===== *)
theory ReceiverStats imports ReceiverProperties ReceiverMaps begin

text \<open>
  The byte counts in \<open>dxwifi_rx_stats\<close>: at every point of a capture, what has been written to a
  sink that takes everything is what the two counters for payload and noise say, as 32-bit sums.
\<close>

definition accounted :: "u32 \<Rightarrow> byte list frame_controller \<Rightarrow> bool" where
  "accounted start fc \<longleftrightarrow>
     of_nat (length (sink fc)) = start + total_writelen (rx_stats fc) + total_noise_added (rx_stats fc)"

lemma noise_loop_accounted:
  "noise_loop file_write noise n t s = (t', s') \<Longrightarrow> of_nat (length s') - t' = (of_nat (length s) - t :: u32)"
proof (induction n arbitrary: t s)
  case (Suc n)
  have "of_nat (length s') - t' = (of_nat (length (s @ noise)) - (t + word_of_int (int (length noise))) :: u32)"
    using Suc.prems by (intro Suc.IH) (simp add: file_write_def)
  then show ?case by simp
qed simp

definition keeps_account :: "byte list frame_controller \<Rightarrow> byte list frame_controller \<Rightarrow> bool" where
  "keeps_account fc fc' \<longleftrightarrow> (\<forall>start. accounted start fc \<longrightarrow> accounted start fc')"

lemma accounted_noise:
  assumes "noise_loop file_write ns n (total_noise_added (rx_stats fc)) (sink fc) = (t, s')"
  shows "keeps_account fc (fc\<lparr>rx_stats := (rx_stats fc)\<lparr>total_noise_added := t\<rparr>, sink := s'\<rparr>)"
  using noise_loop_accounted[OF assms] by (auto simp: keeps_account_def accounted_def algebra_simps)

interpretation account: controller_relation keeps_account file_write
  by unfold_locales
    (auto simp: accounted_noise, auto simp: keeps_account_def accounted_def file_write_def)

lemma accounted_upd [simp]:
  "accounted start (fc\<lparr>fc_rx := r\<rparr>) = accounted start fc"
  "accounted start (set_capture_state st fc) = accounted start fc"
  "accounted start (rx_signal_stop c fc) = accounted start fc"
  by (simp_all add: accounted_def set_capture_state_def rx_signal_stop_def)

lemma dispatch_accounted: "dispatch bld file_write fc cs = Inr fc' \<Longrightarrow> accounted start fc \<Longrightarrow> accounted start fc'"
  using account.dispatch_R by (simp add: keeps_account_def)

lemma rx_turn_accounted: "rx_turn bld file_write fc e = Inr fc' \<Longrightarrow> accounted start fc \<Longrightarrow> accounted start fc'"
  by (auto simp: rx_turn_def Let_def bind_res_eq_Inr split: if_splits dest!: dispatch_accounted)

lemma rx_loop_accounted:
  "rx_loop bld file_write fc es = Some (Inr fc') \<Longrightarrow> accounted start fc \<Longrightarrow> accounted start fc'"
proof (induction es arbitrary: fc)
  case Nil
  then show ?case by (auto simp: rx_loop.simps[of _ _ fc] split: if_splits)
next
  case (Cons e es)
  then show ?case
    by (auto simp: rx_loop.simps[of _ _ fc] split: if_splits sum.splits dest: rx_turn_accounted)
qed

section \<open>Properties\<close>

text \<open>
  C21: The statistics of a capture account for every byte: whatever the receiver was configured
  to and whatever happened in the session, if the sink took all that was written, the output has grown
  by \<open>total_writelen\<close> bytes of payload and \<open>total_noise_added\<close> bytes of noise (modulo \<open>2 ^ 32\<close>, the
  range of the counters).
\<close>

theorem statistics_account_for_output:
  assumes "receiver_activate_capture bld file_write sfd ps rx out es = Some (Inr (rx', out', st))"
  shows "of_nat (length out') = of_nat (length out) + total_writelen st + total_noise_added st"
proof -
  define fc where "fc = (init_frame_controller rx out)\<lparr>fc_rx := (fc_rx (init_frame_controller rx out))\<lparr>rx_activated := True\<rparr>\<rparr>"
  obtain f1 f2 where l: "rx_loop bld file_write fc es = Some (Inr f1)" and d: "dump_packet_buffer file_write f1 = Inr f2"
    and r: "out' = sink f2" "total_writelen st = total_writelen (rx_stats f2)"
      "total_noise_added st = total_noise_added (rx_stats f2)"
    using assms
    by (auto simp: receiver_activate_capture_def fc_def Let_def rx_finish_def bind_res_eq_Inr
        teardown_frame_controller_def split: if_splits option.splits)
  have "accounted (of_nat (length out)) fc"
    by (simp add: fc_def accounted_def init_frame_controller_def zero_rx_stats_def)
  then have "accounted (of_nat (length out)) f2"
    using rx_loop_accounted[OF l] account.dump_packet_buffer_R[OF d] by (simp add: keeps_account_def)
  then show ?thesis by (simp add: accounted_def r)
qed

theorem statistics_account_for_output_witness:
  "\<exists>rx' st. receiver_activate_capture sample_build file_write 3 None (sample_rx True True) [] gap_events =
     Some (Inr (rx', replicate 300 7 @ replicate 300 0x55 @ replicate 300 9, st)) \<and>
     total_writelen st + total_noise_added st = 900"
proof -
  obtain rx' st where run: "receiver_activate_capture sample_build file_write 3 None (sample_rx True True) [] gap_events =
     Some (Inr (rx', replicate 300 7 @ replicate 300 0x55 @ replicate 300 9, st))" using gap_session by blast
  from statistics_account_for_output[OF this] show ?thesis using run by simp
qed

end
