(* ===== verification/Options.thy ===== *)
theory Options imports TxCli RxCli begin

text \<open>
  The option tables of the two command lines (\<open>opts\<close> in \<open>dxwifi/tx/cli.c\<close> and \<open>dxwifi/rx/cli.c\<close>) and
  how they agree with the parsers. argp hands the key of an entry to the parser, with the argument
  when the entry has one and a null pointer when not; it accepts no other keys than those of the table
  and its own. The help texts of the entries and the flag that hides an option in the usage line are left
  out. The two option tables and parsers are what \<open>main\<close> hands to \<open>argp_parse\<close>.
\<close>

unbundle bit_operations_syntax

text \<open>An entry without name and key is the heading of a group.\<close>

record argp_option =
  opt_name :: "string option"
  opt_key :: int
  opt_arg :: "string option"
  opt_group :: int

definition heading :: "int \<Rightarrow> argp_option" where
  "heading g = \<lparr>opt_name = None, opt_key = 0, opt_arg = None, opt_group = g\<rparr>"

definition flag_opt :: "string \<Rightarrow> int \<Rightarrow> int \<Rightarrow> argp_option" where
  "flag_opt n k g = \<lparr>opt_name = Some n, opt_key = k, opt_arg = None, opt_group = g\<rparr>"

definition value_opt :: "string \<Rightarrow> int \<Rightarrow> string \<Rightarrow> int \<Rightarrow> argp_option" where
  "value_opt n k a g = \<lparr>opt_name = Some n, opt_key = k, opt_arg = Some a, opt_group = g\<rparr>"

definition PRIMARY_GROUP :: int where "PRIMARY_GROUP = 0"
definition TX_HELP_GROUP :: int where "TX_HELP_GROUP = 3000"
definition RX_DIRECTORY_GROUP :: int where "RX_DIRECTORY_GROUP = 500"

definition tx_opts :: "bool \<Rightarrow> argp_option list" where
  "tx_opts tests =
    [value_opt ''dev'' (key_char CHR ''d'') ''<network-device>'' PRIMARY_GROUP,
     value_opt ''blocksize'' (key_char CHR ''b'') ''<blocksize>'' PRIMARY_GROUP,
     value_opt ''timeout'' (key_char CHR ''t'') ''<seconds>'' PRIMARY_GROUP,
     value_opt ''delay'' (key_char CHR ''u'') ''<mseconds>'' PRIMARY_GROUP,
     value_opt ''file-delay'' (key_char CHR ''f'') ''<mseconds>'' PRIMARY_GROUP,
     value_opt ''redundancy'' (key_char CHR ''r'') ''<number>'' PRIMARY_GROUP,
     value_opt ''retransmit'' (key_char CHR ''c'') ''<number>'' PRIMARY_GROUP,
     heading TX_DIRECTORY_GROUP,
     value_opt ''filter'' (directory_key FILE_FILTER) ''<glob>'' TX_DIRECTORY_GROUP,
     flag_opt ''include-all'' (directory_key INCLUDE_ALL_FLAG) TX_DIRECTORY_GROUP,
     flag_opt ''no-listen'' (directory_key NO_LISTEN_FLAG) TX_DIRECTORY_GROUP,
     value_opt ''watch-timeout'' (directory_key WATCHDIR_TIMEOUT) ''<seconds>'' TX_DIRECTORY_GROUP,
     heading TX_MAC_HEADER_GROUP,
     value_opt ''address'' (GET_KEY 1 TX_MAC_HEADER_GROUP) ''<macaddr>'' TX_MAC_HEADER_GROUP,
     heading TX_RTAP_CONF_GROUP,
     value_opt ''rate'' (GET_KEY (int (radiotap_presence IEEE80211_RADIOTAP_RATE)) TX_RTAP_CONF_GROUP) ''<Mbps>'' TX_RTAP_CONF_GROUP,
     flag_opt ''cfp'' (flag_key IEEE80211_RADIOTAP_F_CFP) TX_RTAP_FLAGS_GROUP,
     flag_opt ''short-preamble'' (flag_key IEEE80211_RADIOTAP_F_SHORTPRE) TX_RTAP_FLAGS_GROUP,
     flag_opt ''wep'' (flag_key IEEE80211_RADIOTAP_F_WEP) TX_RTAP_FLAGS_GROUP,
     flag_opt ''frag'' (flag_key IEEE80211_RADIOTAP_F_FRAG) TX_RTAP_FLAGS_GROUP,
     flag_opt ''nofcs'' (flag_key IEEE80211_RADIOTAP_F_FCS) TX_RTAP_FLAGS_GROUP,
     flag_opt ''ack'' (tx_flag_key IEEE80211_RADIOTAP_F_TX_NOACK) TX_RTAP_TX_FLAGS_GROUP,
     flag_opt ''sequence'' (tx_flag_key IEEE80211_RADIOTAP_F_TX_NOSEQNO) TX_RTAP_TX_FLAGS_GROUP,
     flag_opt ''ordered'' (tx_flag_key IEEE80211_RADIOTAP_F_TX_ORDER) TX_RTAP_TX_FLAGS_GROUP,
     heading TX_HELP_GROUP,
     flag_opt ''verbose'' (key_char CHR ''v'') TX_HELP_GROUP,
     flag_opt ''syslog'' (key_char CHR ''s'') TX_HELP_GROUP,
     flag_opt ''quiet'' (key_char CHR ''q'') TX_HELP_GROUP]
    @ (if tests then [heading TX_TEST_GROUP, value_opt ''savefile'' (GET_KEY 1 TX_TEST_GROUP) ''<filename>'' TX_TEST_GROUP]
       else [])"

definition rx_opts :: "bool \<Rightarrow> argp_option list" where
  "rx_opts tests =
    [value_opt ''dev'' (key_char CHR ''d'') ''<network-device>'' PRIMARY_GROUP,
     value_opt ''timeout'' (key_char CHR ''t'') ''<seconds>'' PRIMARY_GROUP,
     value_opt ''dispatch-count'' (key_char CHR ''c'') ''<number>'' PRIMARY_GROUP,
     value_opt ''buffsize'' (key_char CHR ''b'') ''<nbytes>'' PRIMARY_GROUP,
     flag_opt ''append'' (key_char CHR ''a'') PRIMARY_GROUP,
     flag_opt ''ordered'' (key_char CHR ''o'') PRIMARY_GROUP,
     flag_opt ''add-noise'' (key_char CHR ''n'') PRIMARY_GROUP,
     heading RX_DIRECTORY_GROUP,
     value_opt ''prefix'' (key_char CHR ''p'') ''<file-prefix>'' RX_DIRECTORY_GROUP,
     value_opt ''extension'' (key_char CHR ''e'') ''<file-extension>'' RX_DIRECTORY_GROUP,
     heading RX_PCAP_SETTINGS_GROUP,
     value_opt ''snaplen'' (pcap_key SNAPLEN) ''<bytes>'' RX_PCAP_SETTINGS_GROUP,
     value_opt ''buffer-timeout'' (pcap_key BUFFER_TIMEOUT) ''<ms>'' RX_PCAP_SETTINGS_GROUP,
     value_opt ''filter'' (pcap_key FILTER) ''<string>'' RX_PCAP_SETTINGS_GROUP,
     flag_opt ''no-optimize'' (pcap_key NO_OPTIMIZE) RX_PCAP_SETTINGS_GROUP,
     heading RX_HELP_GROUP,
     flag_opt ''verbose'' (key_char CHR ''v'') RX_HELP_GROUP,
     flag_opt ''syslog'' (key_char CHR ''s'') RX_HELP_GROUP,
     flag_opt ''quiet'' (key_char CHR ''q'') RX_HELP_GROUP]
    @ (if tests then [heading RX_TEST_GROUP, value_opt ''savefile'' (GET_KEY 1 RX_TEST_GROUP) ''<filename>'' RX_TEST_GROUP]
       else [])"

subsection \<open>Agreement with the parsers\<close>

definition entries :: "argp_option list \<Rightarrow> argp_option list" where
  "entries os = filter (\<lambda>x. opt_name x \<noteq> None) os"

lemma entries_simps [simp]:
  "entries [] = []" "entries (heading g # os) = entries os"
  "entries (flag_opt n k g # os) = flag_opt n k g # entries os"
  "entries (value_opt n k a g # os) = value_opt n k a g # entries os"
  "entries (os @ ps) = entries os @ entries ps"
  by (simp_all add: entries_def heading_def flag_opt_def value_opt_def)

lemma opt_sel [simp]:
  "opt_key (flag_opt n k g) = k" "opt_name (flag_opt n k g) = Some n" "opt_arg (flag_opt n k g) = None"
  "opt_key (value_opt n k a g) = k" "opt_name (value_opt n k a g) = Some n" "opt_arg (value_opt n k a g) = Some a"
  by (simp_all add: flag_opt_def value_opt_def)

text \<open>
  A table is right for a parser \<open>p\<close>, a function of the key and the argument, if names and keys are
  unambiguous, every entry is understood, the parser of an entry without argument does not look at
  it, and nothing is understood that is neither in the table nor one of argp's own keys.
\<close>

definition table_ok :: "argp_option list \<Rightarrow> (int \<Rightarrow> string \<Rightarrow> 'a argp_result) \<Rightarrow> bool" where
  "table_ok os p \<longleftrightarrow> distinct (map opt_key (entries os)) \<and> distinct (map opt_name (entries os)) \<and>
     (\<forall>x \<in> set (entries os). (\<forall>a b. p (opt_key x) a \<noteq> Unknown_Key b) \<and>
        (opt_arg x = None \<longrightarrow> (\<forall>a b. p (opt_key x) a = p (opt_key x) b))) \<and>
     (\<forall>k a. k \<notin> opt_key ` set (entries os) \<and> k \<notin> {ARGP_KEY_ARG, ARGP_KEY_END, ARGP_KEY_INIT} \<longrightarrow>
        (\<exists>b. p k a = Unknown_Key b))"

lemma radiotap_rate_key: "GET_KEY (int (radiotap_presence IEEE80211_RADIOTAP_RATE)) TX_RTAP_CONF_GROUP = 1502"
  by (simp add: GET_KEY_def tx_groups)

lemma rx_table_ok: "table_ok (rx_opts tests) (\<lambda>k a. rx_parse_opt tests lstat n k a args)"
  unfolding table_ok_def
  apply (intro conjI)
  subgoal by (simp add: rx_opts_def rx_key_defs)
  subgoal by (simp add: rx_opts_def)
  subgoal by (simp add: rx_opts_def rx_parse_opt_def rx_key_defs set_rx_def Let_def)
  subgoal by (simp add: rx_opts_def rx_parse_opt_def rx_key_defs)
  done

lemma tx_table_ok: "table_ok (tx_opts tests) (\<lambda>k a. tx_parse_opt tests lstat k a args)"
  unfolding table_ok_def
  apply (intro conjI)
  subgoal by (simp add: tx_opts_def tx_key_defs)
  subgoal by (simp add: tx_opts_def)
  subgoal by (simp add: tx_opts_def tx_parse_opt_def tx_key_defs set_tx_def Let_def split: option.splits)
  subgoal by (simp add: tx_opts_def tx_parse_opt_def tx_key_defs)
  done

subsection \<open>The parsers\<close>

text \<open>
  What is handed to \<open>argp_parse\<close>. The parser gets the number of the argument, which argp keeps in
  \<open>state->arg_num\<close>. The fields \<open>children\<close>, \<open>help_filter\<close> and \<open>argp_domain\<close> are null.
\<close>

record 'a argp =
  argp_options :: "argp_option list"
  argp_parser :: "nat \<Rightarrow> int \<Rightarrow> string \<Rightarrow> 'a \<Rightarrow> 'a argp_result"
  argp_args_doc :: string
  argp_doc :: string

definition tx_args_doc :: string where "tx_args_doc = ''input-file(s)/directory(s)''"
definition tx_doc :: string where
  "tx_doc = ''Read bytes from input file(s) and inject them over a monitor mode enabled WiFi interface''"
definition rx_args_doc :: string where "rx_args_doc = ''output-file/directory''"
definition rx_doc :: string where
  "rx_doc = ''Capture packets matching a BPF program filter and output payload data to stdout/file(s)''"

definition tx_argparser :: "bool \<Rightarrow> stat_call \<Rightarrow> 'u tx_cli_args argp" where
  "tx_argparser tests lstat =
     \<lparr>argp_options = tx_opts tests, argp_parser = (\<lambda>_. tx_parse_opt tests lstat),
      argp_args_doc = tx_args_doc, argp_doc = tx_doc\<rparr>"

definition rx_argparser :: "bool \<Rightarrow> stat_call \<Rightarrow> rx_cli_args argp" where
  "rx_argparser tests lstat =
     \<lparr>argp_options = rx_opts tests, argp_parser = rx_parse_opt tests lstat,
      argp_args_doc = rx_args_doc, argp_doc = rx_doc\<rparr>"

text \<open>\<open>argp_parse\<close> on the keys it derives from a command line, for any parser.\<close>

fun argp_run :: "'a argp \<Rightarrow> nat \<Rightarrow> (int \<times> string) list \<Rightarrow> 'a \<Rightarrow> 'a option" where
  "argp_run p n [] args = Some args"
| "argp_run p n ((key, arg) # opts) args =
     (let n' = (if key = ARGP_KEY_ARG then Suc n else n) in
      case argp_parser p n key arg args of
        Parsed args \<Rightarrow> argp_run p n' opts args
      | Unknown_Key args \<Rightarrow> argp_run p n' opts args
      | Usage_Exit \<Rightarrow> None)"

lemma tx_parse_args_argp: "tx_parse_args tests lstat opts args = argp_run (tx_argparser tests lstat) n opts args"
  by (induction opts arbitrary: n args) (auto simp: tx_argparser_def Let_def split: argp_result.splits)

lemma rx_parse_args_argp: "rx_parse_args tests lstat n opts args = argp_run (rx_argparser tests lstat) n opts args"
  by (induction opts arbitrary: n args) (auto simp: rx_argparser_def Let_def split: argp_result.splits)

section \<open>Properties\<close>

text \<open>
  C40: The option tables and the parsers agree, in both programs and in both builds: no two options
  share a name or a key, every option of the table is understood, an option without argument never has its (null)
  argument read, and the parsers understand no key that argp could not hand to them.
\<close>

theorem option_tables_agree:
  "table_ok (tx_opts tests) (\<lambda>k a. tx_parse_opt tests lstat k a tx_args) \<and>
   table_ok (rx_opts tests) (\<lambda>k a. rx_parse_opt tests lstat n k a rx_args)"
  by (intro conjI tx_table_ok rx_table_ok)

end
