(* ===== verification/Printf.thy ===== *)
theory Printf imports Programs begin

text \<open>
  The formatting functions of the C library, as far as the program uses them: a format is read into
  literal characters and conversions, the conversions take the arguments in order. What C leaves
  undefined is the error \<open>Bad_Format\<close>: a conversion without an argument, an argument of another size or
  kind, a null pointer for \<open>%s\<close>. A signed and an unsigned integer of the same size may stand for each
  other, as on every target of the project: the bits are read as the conversion says. A conversion
  that the program does not use is an error here too; all of them but \<open>%m\<close> need an argument. The second
  part has \<open>gmtime\<close> and \<open>strftime\<close>.
\<close>

subsection \<open>Arguments and formats\<close>

text \<open>An argument after the default promotions: \<open>bool\<close> and the 8- and 16-bit types have become \<open>int\<close>.\<close>

datatype c_arg =
    Arg_Int int
  | Arg_Uint u32
  | Arg_Long int
  | Arg_Ulong size_t
  | Arg_Str "string option"

text \<open>A conversion has a zero flag, a least width, the modifier \<open>l\<close> and its letter.\<close>

datatype piece = Literal char | Conv bool nat bool char

datatype parse_state = In_Text | In_Spec bool nat bool

fun parse_from :: "parse_state \<Rightarrow> string \<Rightarrow> piece list option" where
  "parse_from In_Text [] = Some []"
| "parse_from (In_Spec z n l) [] = None"
| "parse_from In_Text (c # cs) =
     (if c = CHR ''%'' then parse_from (In_Spec False 0 False) cs
      else map_option ((#) (Literal c)) (parse_from In_Text cs))"
| "parse_from (In_Spec z n l) (c # cs) =
     (if c = CHR ''%'' then (if z \<or> 0 < n \<or> l then None else map_option ((#) (Literal c)) (parse_from In_Text cs))
      else if c = CHR ''l'' then (if l then None else parse_from (In_Spec z n True) cs)
      else if c = CHR ''d'' \<or> c = CHR ''x'' \<or> (c = CHR ''s'' \<and> \<not> l) then map_option ((#) (Conv z n l c)) (parse_from In_Text cs)
      else if c = CHR ''0'' \<and> n = 0 \<and> \<not> l then parse_from (In_Spec True n l) cs
      else if is_digit c \<and> \<not> l then parse_from (In_Spec z (10 * n + (of_char c - 48)) l) cs
      else None)"

definition parse_format :: "string \<Rightarrow> piece list option" where
  "parse_format fmt = parse_from In_Text fmt"

subsection \<open>Printing\<close>

definition show_int :: "int \<Rightarrow> string" where
  "show_int i = (if i < 0 then CHR ''-'' # show_nat (nat (- i)) else show_nat (nat i))"

definition pad :: "bool \<Rightarrow> nat \<Rightarrow> string \<Rightarrow> string" where
  "pad z n s =
     (if z then (case s of c # t \<Rightarrow> if c = CHR ''-'' then c # replicate (n - length s) (CHR ''0'') @ t
                                   else replicate (n - length s) (CHR ''0'') @ s
                 | [] \<Rightarrow> replicate n (CHR ''0''))
      else replicate (n - length s) (CHR '' '') @ s)"

definition show_arg :: "bool \<Rightarrow> char \<Rightarrow> c_arg \<Rightarrow> string res" where
  "show_arg l c a =
     (case a of
        Arg_Int i \<Rightarrow> if l then Inl Bad_Format
          else if c = CHR ''d'' then Inr (show_int i)
          else if c = CHR ''x'' then Inr (sprint_x 0 (nat (i mod 2 ^ 32))) else Inl Bad_Format
      | Arg_Uint u \<Rightarrow> if l then Inl Bad_Format
          else if c = CHR ''d'' then Inr (show_int (sint u))
          else if c = CHR ''x'' then Inr (sprint_x 0 (unat u)) else Inl Bad_Format
      | Arg_Long i \<Rightarrow> if \<not> l then Inl Bad_Format
          else if c = CHR ''d'' then Inr (show_int i)
          else if c = CHR ''x'' then Inr (sprint_x 0 (nat (i mod 2 ^ 64))) else Inl Bad_Format
      | Arg_Ulong u \<Rightarrow> if \<not> l then Inl Bad_Format
          else if c = CHR ''d'' then Inr (show_int (sint u))
          else if c = CHR ''x'' then Inr (sprint_x 0 (unat u)) else Inl Bad_Format
      | Arg_Str s \<Rightarrow> if c = CHR ''s'' \<and> \<not> l then (case s of Some t \<Rightarrow> Inr t | None \<Rightarrow> Inl Bad_Format)
          else Inl Bad_Format)"

fun print_pieces :: "piece list \<Rightarrow> c_arg list \<Rightarrow> string res" where
  "print_pieces [] as = Inr []"
| "print_pieces (Literal c # ps) as = map_res ((#) c) (print_pieces ps as)"
| "print_pieces (Conv z n l c # ps) [] = Inl Bad_Format"
| "print_pieces (Conv z n l c # ps) (a # as) =
     bind_res (show_arg l c a) (\<lambda>s. map_res ((@) (pad (z \<and> c \<noteq> CHR ''s'') n s)) (print_pieces ps as))"

definition c_printf :: "string \<Rightarrow> c_arg list \<Rightarrow> string res" where
  "c_printf fmt as = (case parse_format fmt of None \<Rightarrow> Inl Bad_Format | Some ps \<Rightarrow> print_pieces ps as)"

text \<open>\<open>snprintf\<close> into \<open>n > 0\<close> characters: the string that is left there, and the answer.\<close>

definition c_snprintf :: "nat \<Rightarrow> string \<Rightarrow> c_arg list \<Rightarrow> (string \<times> nat) res" where
  "c_snprintf n fmt as = map_res (\<lambda>s. (take (n - 1) s, length s)) (c_printf fmt as)"

subsection \<open>When a call is defined\<close>

fun conversions :: "piece list \<Rightarrow> (bool \<times> char) list" where
  "conversions [] = []"
| "conversions (Literal c # ps) = conversions ps"
| "conversions (Conv z n l c # ps) = (l, c) # conversions ps"

fun arg_matches :: "bool \<times> char \<Rightarrow> c_arg \<Rightarrow> bool" where
  "arg_matches (l, c) (Arg_Int i) \<longleftrightarrow> \<not> l \<and> c \<in> {CHR ''d'', CHR ''x''}"
| "arg_matches (l, c) (Arg_Uint u) \<longleftrightarrow> \<not> l \<and> c \<in> {CHR ''d'', CHR ''x''}"
| "arg_matches (l, c) (Arg_Long i) \<longleftrightarrow> l \<and> c \<in> {CHR ''d'', CHR ''x''}"
| "arg_matches (l, c) (Arg_Ulong u) \<longleftrightarrow> l \<and> c \<in> {CHR ''d'', CHR ''x''}"
| "arg_matches (l, c) (Arg_Str s) \<longleftrightarrow> \<not> l \<and> c = CHR ''s'' \<and> s \<noteq> None"

fun args_match :: "(bool \<times> char) list \<Rightarrow> c_arg list \<Rightarrow> bool" where
  "args_match [] as \<longleftrightarrow> True"
| "args_match (k # ks) [] \<longleftrightarrow> False"
| "args_match (k # ks) (a # as) \<longleftrightarrow> arg_matches k a \<and> args_match ks as"

definition signature :: "string \<Rightarrow> (bool \<times> char) list option" where
  "signature fmt = map_option conversions (parse_format fmt)"

lemma is_ok_map_res [simp]: "is_ok (map_res f r) = is_ok r"
  by (cases r) simp_all

lemma show_arg_ok: "is_ok (show_arg l c a) \<longleftrightarrow> arg_matches (l, c) a"
  by (cases a) (auto simp: show_arg_def split: option.splits)

lemma print_pieces_ok: "is_ok (print_pieces ps as) \<longleftrightarrow> args_match (conversions ps) as"
proof (induction ps as rule: print_pieces.induct)
  case (4 z n l c ps a as)
  show ?case using "4.IH" show_arg_ok[of l c a] by (cases "show_arg l c a") auto
qed simp_all

lemma printf_ok: "is_ok (c_printf fmt as) \<longleftrightarrow> (\<exists>ks. signature fmt = Some ks \<and> args_match ks as)"
  by (auto simp: c_printf_def signature_def print_pieces_ok split: option.splits)

text \<open>A text without a percent sign prints as itself.\<close>

lemma parse_plain: "CHR ''%'' \<notin> set s \<Longrightarrow> parse_from In_Text s = Some (map Literal s)"
  by (induction s) auto

lemma print_literals: "print_pieces (map Literal s @ ps) as = map_res ((@) s) (print_pieces ps as)"
proof (induction s)
  case (Cons c s)
  then show ?case by (cases "print_pieces ps as") simp_all
qed (cases "print_pieces ps as"; simp)

lemma printf_plain: "CHR ''%'' \<notin> set s \<Longrightarrow> c_printf s as = Inr s"
  using print_literals[of s "[]" as] by (simp add: c_printf_def parse_format_def parse_plain)

subsection \<open>Numbers\<close>

lemma show_nat_digits: "c \<in> set (show_nat n) \<Longrightarrow> is_digit c"
proof (induction n rule: show_nat.induct)
  case (1 n)
  have d: "is_digit (char_of (48 + k))" if "k < 10" for k :: nat using that by (simp add: is_digit_def)
  show ?case
    using 1 d[of n] d[of "n mod 10"] by (cases "n < 10") (auto simp: show_nat.simps[of n])
qed

text \<open>Decimal numbers are read back by the value of their digits, so different numbers look different.\<close>

definition read_int :: "string \<Rightarrow> int" where
  "read_int s = (case s of c # t \<Rightarrow> if c = CHR ''-'' then - digits_value t else digits_value s | [] \<Rightarrow> 0)"

lemma show_nat_not_nil: "show_nat n \<noteq> []"
  by (subst show_nat.simps) simp

lemma read_show_int: "read_int (show_int i) = i"
proof (cases "i < 0")
  case True
  then show ?thesis by (simp add: show_int_def read_int_def digits_show)
next
  case False
  obtain c t where ct: "show_nat (nat i) = c # t" using show_nat_not_nil by (cases "show_nat (nat i)") auto
  then have "c \<noteq> CHR ''-''" using show_nat_digits[of c "nat i"] by (auto simp: is_digit_def)
  then show ?thesis using False ct digits_show[of "nat i"] by (simp add: show_int_def read_int_def)
qed

lemma show_int_inject: "show_int i = show_int j \<longleftrightarrow> i = j"
  by (metis read_show_int)

text \<open>The zero padded hexadecimal numbers of the hexdump.\<close>

declare hex_pad.simps(1) [simp del]

lemma hex_digits_step:
  "k \<noteq> 0 \<Longrightarrow> hex_pad 0 k = hex_pad 0 (k div 16) @ [hex_digit (k mod 16)]"
  "hex_pad 0 0 = []"
  by (subst hex_pad.simps(1); simp)+

lemma hex_pad_zeros: "hex_pad n 0 = replicate n (CHR ''0'')"
  by (induction n) (simp_all add: hex_digits_step hex_digit_def char_of_def bit_0 replicate_append_same)

lemma hex_pad_fill: "hex_pad n k = replicate (n - length (hex_pad 0 k)) (CHR ''0'') @ hex_pad 0 k"
proof (induction n arbitrary: k)
  case (Suc n)
  show ?case
  proof (cases "k = 0")
    case True
    show ?thesis unfolding True hex_pad_zeros by simp
  next
    case False
    have "hex_pad (Suc n) k = (replicate (n - length (hex_pad 0 (k div 16))) (CHR ''0'') @ hex_pad 0 (k div 16)) @ [hex_digit (k mod 16)]"
      using Suc.IH[of "k div 16"] by (simp only: hex_pad.simps(2))
    then show ?thesis unfolding hex_digits_step(1)[OF False] by (simp del: hex_pad.simps)
  qed
qed (simp del: hex_pad.simps)

lemma hex_no_sign: "CHR ''-'' \<notin> set (hex_pad 0 x)"
proof (induction x rule: less_induct)
  case (less x)
  have d: "hex_digit j \<noteq> CHR ''-''" if "j < 16" for j
  proof -
    have "j \<in> {0, 1, 2, 3, 4, 5, 6, 7, 8, 9, 10, 11, 12, 13, 14, 15}" using that by (simp only: insert_iff empty_iff) presburger
    then show ?thesis by (auto simp: hex_digit_def char_of_def bit_0)
  qed
  show ?case
  proof (cases "x = 0")
    case False
    then have "CHR ''-'' \<notin> set (hex_pad 0 (x div 16))" by (intro less.IH) simp
    then show ?thesis using False d[of "x mod 16"] by (simp add: hex_digits_step(1))
  qed (simp add: hex_digits_step(2))
qed

lemma pad_hex: "pad True (Suc n) (sprint_x 0 x) = sprint_x (Suc n) x"
proof (cases "x = 0")
  case True
  have "sprint_x (Suc n) 0 = replicate (Suc n) (CHR ''0'')" unfolding sprint_x_def hex_pad_zeros by simp
  then show ?thesis by (simp add: True pad_def sprint_x_def replicate_append_same)
next
  case False
  have "hex_pad 0 x \<noteq> []" unfolding hex_digits_step(1)[OF False] by simp
  then obtain c cs where c: "hex_pad 0 x = c # cs" by (meson list.exhaust)
  then have "c \<noteq> CHR ''-''" using hex_no_sign[of x] by auto
  then show ?thesis using False c hex_pad_fill[of "Suc n" x] by (simp add: sprint_x_def pad_def del: hex_pad.simps)
qed

lemma show_int_of_nat: "show_int (int n) = show_nat n"
  by (simp add: show_int_def)

end
