(* ===== verification/Calendar.thy ===== *)
theory Calendar imports Printf begin

text \<open>
  \<open>gmtime\<close> and \<open>strftime\<close>, with which \<open>receiver.c\<close> prints the time of a frame. The calendar repeats
  after 400 years; within such an era years and months are counted off. The time is found again from
  its fields, and from the text.
\<close>

subsection \<open>Years and months\<close>

definition leap :: "nat \<Rightarrow> bool" where
  "leap y \<longleftrightarrow> y mod 4 = 0 \<and> (y mod 100 \<noteq> 0 \<or> y mod 400 = 0)"

definition year_days :: "nat \<Rightarrow> nat" where
  "year_days y = (if leap y then 366 else 365)"

definition month_days :: "nat \<Rightarrow> nat list" where
  "month_days y = [31, if leap y then 29 else 28, 31, 30, 31, 30, 31, 31, 30, 31, 30, 31]"

primrec days_before :: "nat \<Rightarrow> nat" where
  "days_before 0 = 0"
| "days_before (Suc y) = days_before y + year_days y"

function find_year :: "nat \<Rightarrow> nat \<Rightarrow> nat \<times> nat" where
  "find_year y d = (if d < year_days y then (y, d) else find_year (y + 1) (d - year_days y))"
  by pat_completeness auto
termination by (relation "measure snd") (auto simp: year_days_def split: if_splits)

declare find_year.simps [simp del]

fun find_month :: "nat list \<Rightarrow> nat \<Rightarrow> nat \<Rightarrow> nat \<times> nat" where
  "find_month [] m d = (m, d)"
| "find_month (l # ls) m d = (if d < l then (m, d) else find_month ls (m + 1) (d - l))"

lemma find_year_ok:
  "find_year y d = (y', d') \<Longrightarrow> days_before y + d = days_before y' + d' \<and> d' < year_days y' \<and> y \<le> y'"
proof (induction y d rule: find_year.induct)
  case (1 y d)
  show ?case
  proof (cases "d < year_days y")
    case True
    then show ?thesis using "1.prems" by (simp add: find_year.simps[of y d])
  next
    case False
    then show ?thesis using 1 by (auto simp: find_year.simps[of y d])
  qed
qed

lemma days_before_mono: "a \<le> b \<Longrightarrow> days_before a \<le> days_before b"
  by (induction b) (auto simp: le_Suc_eq)

definition era_days :: nat where "era_days = 146097"

lemma leap_days:
  "(if leap y then 1 else 0) + (if y mod 100 = 0 then 1 else 0) = (if y mod 4 = 0 then 1 else 0) + (if y mod 400 = 0 then 1 else (0 :: nat))"
proof -
  have "y mod 400 = 0 \<Longrightarrow> y mod 100 = 0" "y mod 100 = 0 \<Longrightarrow> y mod 4 = 0" by presburger+
  then show ?thesis by (auto simp: leap_def)
qed

lemma div_ceil: "0 < n \<Longrightarrow> (y + (n - 1)) div n = y div n + (if y mod n = 0 then 0 else (1 :: nat))"
proof -
  assume n: "0 < n"
  have "(y + (n - 1)) div n = (n * (y div n) + (y mod n + (n - 1))) div n" by (metis add.assoc mult_div_mod_eq)
  also have "\<dots> = y div n + (y mod n + (n - 1)) div n" using n by (intro div_mult_self4) simp
  also have "(y mod n + (n - 1)) div n = (if y mod n = 0 then 0 else 1)"
  proof (cases "y mod n")
    case (Suc r)
    then have "r < n" "y mod n + (n - 1) = n + r" using n mod_less_divisor[OF n, of y] by auto
    then show ?thesis using n Suc by simp
  qed (use n in simp)
  finally show ?thesis .
qed

lemma div_step: "0 < n \<Longrightarrow> (y + n) div n = (y + (n - 1)) div n + (if y mod n = 0 then 1 else (0 :: nat))"
  using div_ceil[of n y] by auto

lemma days_before_closed:
  "days_before y + (y + 99) div 100 = 365 * y + (y + 3) div 4 + (y + 399) div 400"
proof (induction y)
  case (Suc y)
  have "year_days y = 365 + (if leap y then 1 else 0)" by (simp add: year_days_def)
  moreover have "Suc y + 99 = y + 100" "Suc y + 3 = y + 4" "Suc y + 399 = y + 400" by simp_all
  ultimately show ?case using Suc leap_days[of y] div_step[of 4 y] div_step[of 100 y] div_step[of 400 y]
    by (simp only: days_before.simps mult_Suc_right) simp
qed simp

lemma era_length: "days_before 400 = era_days"
  using days_before_closed[of 400] by (simp add: era_days_def)

lemma find_year_era:
  assumes "find_year 0 d = (y, r)" and "d < era_days"
  shows "y < 400"
proof (rule ccontr)
  assume "\<not> y < 400"
  then have "days_before 400 \<le> days_before y" by (intro days_before_mono) simp
  then show False using find_year_ok[OF assms(1)] assms(2) by (simp add: era_length)
qed

lemma find_month_ok:
  "find_month ls m d = (m', d') \<Longrightarrow> d < sum_list ls \<Longrightarrow>
   m \<le> m' \<and> m' < m + length ls \<and> sum_list (take (m' - m) ls) + d' = d \<and> d' < ls ! (m' - m)"
proof (induction ls arbitrary: m d)
  case (Cons l ls)
  show ?case
  proof (cases "d < l")
    case True
    then show ?thesis using Cons.prems by simp
  next
    case False
    then have IH: "Suc m \<le> m' \<and> m' < Suc m + length ls \<and> sum_list (take (m' - Suc m) ls) + d' = d - l \<and> d' < ls ! (m' - Suc m)"
      using Cons.IH[of "Suc m" "d - l"] Cons.prems by auto
    then have "m' - m = Suc (m' - Suc m)" by auto
    then show ?thesis using IH False by auto
  qed
qed simp

lemma sum_month_days: "sum_list (month_days y) = year_days y"
  by (simp add: month_days_def year_days_def)

subsection \<open>The fields of a time\<close>

text \<open>The month begins with 0 and the year is the full one; C counts it from 1900.\<close>

record tm =
  tm_sec :: nat
  tm_min :: nat
  tm_hour :: nat
  tm_mday :: nat
  tm_mon :: nat
  tm_year :: int

definition epoch_days :: int where "epoch_days = 719528"

definition gmtime :: "int \<Rightarrow> tm option" where
  "gmtime t =
     (let days = t div 86400 + epoch_days;
          sod = nat (t mod 86400);
          (y, yday) = find_year 0 (nat (days mod int era_days));
          (m, d) = find_month (month_days y) 0 yday;
          year = 400 * (days div int era_days) + int y
      in if fits_int (year - 1900)
         then Some \<lparr>tm_sec = sod mod 60, tm_min = sod div 60 mod 60, tm_hour = sod div 3600, tm_mday = d + 1,
                    tm_mon = m, tm_year = year\<rparr>
         else None)"

definition tm_seconds :: "tm \<Rightarrow> int" where
  "tm_seconds x =
     (let y = nat (tm_year x mod 400);
          days = int era_days * (tm_year x div 400) + int (days_before y + sum_list (take (tm_mon x) (month_days y)) + (tm_mday x - 1))
      in (days - epoch_days) * 86400 + int (tm_hour x * 3600 + tm_min x * 60 + tm_sec x))"

lemma gmtime_ok:
  assumes "gmtime t = Some x"
  shows "tm_seconds x = t" and "tm_sec x < 60" "tm_min x < 60" "tm_hour x < 24" "0 < tm_mday x" "tm_mday x \<le> 31" "tm_mon x < 12"
proof -
  define days where "days = t div 86400 + epoch_days"
  define sod where "sod = nat (t mod 86400)"
  obtain y r where y: "find_year 0 (nat (days mod int era_days)) = (y, r)" by fastforce
  obtain m d where m: "find_month (month_days y) 0 r = (m, d)" by fastforce
  have x: "x = \<lparr>tm_sec = sod mod 60, tm_min = sod div 60 mod 60, tm_hour = sod div 3600, tm_mday = d + 1, tm_mon = m,
      tm_year = 400 * (days div int era_days) + int y\<rparr>"
    using assms y m unfolding gmtime_def days_def[symmetric] sod_def[symmetric] by (auto simp: Let_def split: if_splits)
  have pos: "0 < int era_days" by (simp add: era_days_def)
  then have less: "nat (days mod int era_days) < era_days" by (simp add: nat_less_iff)
  have y400: "y < 400" by (rule find_year_era[OF y less])
  have yr: "days_before y + r = nat (days mod int era_days)" "r < year_days y" using find_year_ok[OF y] by auto
  have mr: "m < 12" "sum_list (take m (month_days y)) + d = r" "d < month_days y ! m"
    using find_month_ok[OF m] yr(2) by (auto simp: sum_month_days) (simp add: month_days_def)
  have sod: "int sod = t mod 86400" "sod < 86400" by (simp_all add: sod_def nat_less_iff)
  have "days mod int era_days = int (days_before y + sum_list (take m (month_days y)) + d)"
    using yr(1) mr(2) pos by (metis add.assoc int_nat_eq pos_mod_sign)
  then have "int era_days * (days div int era_days) + int (days_before y + sum_list (take m (month_days y)) + d) = days"
    by (metis mult_div_mod_eq)
  moreover have "nat ((400 * k + int y) mod 400) = y \<and> (400 * k + int y) div 400 = k" for k using y400 by auto
  moreover have "sod div 3600 * 3600 + sod div 60 mod 60 * 60 + sod mod 60 = sod"
  proof -
    have "sod div 3600 = sod div 60 div 60" using div_mult2_eq[of sod 60 60] by simp
    moreover have "sod div 60 div 60 * 60 + sod div 60 mod 60 = sod div 60" "sod div 60 * 60 + sod mod 60 = sod"
      by (rule div_mult_mod_eq)+
    ultimately show ?thesis by linarith
  qed
  then have "int (sod div 3600 * 3600 + sod div 60 mod 60 * 60 + sod mod 60) = t mod 86400" using sod(1) by (simp only:)
  ultimately have "tm_seconds x = (days - epoch_days) * 86400 + t mod 86400"
    by (simp add: tm_seconds_def x Let_def)
  also have "\<dots> = t" unfolding days_def by (simp add: div_mult_mod_eq)
  finally show "tm_seconds x = t" .
  show "tm_sec x < 60" "tm_min x < 60" "tm_hour x < 24" "0 < tm_mday x" "tm_mon x < 12"
    using sod(2) mr(1) by (simp_all add: x less_mult_imp_div_less)
  have "month_days y ! m \<le> 31"
  proof -
    have "m \<in> {0, 1, 2, 3, 4, 5, 6, 7, 8, 9, 10, 11}" using mr(1) by (simp only: insert_iff empty_iff) presburger
    then show ?thesis by (auto simp: month_days_def)
  qed
  then show "tm_mday x \<le> 31" using mr(3) by (simp add: x)
qed

lemma gmtime_inject: "gmtime t = Some x \<Longrightarrow> gmtime u = Some x \<Longrightarrow> t = u"
  using gmtime_ok(1) by metis

subsection \<open>The text\<close>

definition two_digits :: "nat \<Rightarrow> string" where
  "two_digits n = pad True 2 (show_nat n)"

text \<open>\<open>strftime\<close> for the conversions that are used; \<open>%Y\<close> is not padded.\<close>

fun strftime :: "string \<Rightarrow> tm \<Rightarrow> string res" where
  "strftime [] x = Inr []"
| "strftime [c] x = (if c = CHR ''%'' then Inl Bad_Format else Inr [c])"
| "strftime (c # k # cs) x =
     (if c = CHR ''%'' then
        bind_res (if k = CHR ''Y'' then Inr (show_int (tm_year x))
                  else if k = CHR ''m'' then Inr (two_digits (tm_mon x + 1))
                  else if k = CHR ''d'' then Inr (two_digits (tm_mday x))
                  else if k = CHR ''H'' then Inr (two_digits (tm_hour x))
                  else if k = CHR ''M'' then Inr (two_digits (tm_min x))
                  else if k = CHR ''S'' then Inr (two_digits (tm_sec x))
                  else Inl Bad_Format) (\<lambda>s. map_res ((@) s) (strftime cs x))
      else map_res ((#) c) (strftime (k # cs) x))"

lemma two_digits:
  assumes "n < 100"
  shows "length (two_digits n) = 2" and "read_int (two_digits n) = int n"
proof -
  have nd: "(char_of (48 + k) :: char) \<noteq> CHR ''-''" if "k < 10" for k :: nat
  proof -
    have "of_char (char_of (48 + k) :: char) = 48 + k" using that by simp
    moreover have "of_char (CHR ''-'') = (45 :: nat)" by simp
    ultimately have "char_of (48 + k) = CHR ''-'' \<Longrightarrow> 48 + k = 45" by metis
    then show ?thesis by linarith
  qed
  have v: "digit_value (char_of (48 + k)) = int k" if "k < 10" for k :: nat
    using that by (simp add: digit_value_def)
  have p: "pad True 2 [x] = [CHR ''0'', x]" "pad True 2 [x, y] = [x, y]" if "x \<noteq> CHR ''-''" for x y
    using that by (simp_all add: pad_def)
  have t: "two_digits n = [char_of (48 + n div 10), char_of (48 + n mod 10)]"
  proof (cases "n < 10")
    case True
    have "(char_of (48 :: nat) :: char) = CHR ''0''" by (simp add: char_of_def bit_0)
    then show ?thesis using True p(1)[OF nd[OF True]] by (simp add: two_digits_def show_nat.simps[of n])
  next
    case False
    have "n div 10 < 10" using assms by (simp add: less_mult_imp_div_less)
    then show ?thesis
      using False p(2)[OF nd] by (simp add: two_digits_def show_nat.simps[of n] show_nat.simps[of "n div 10"])
  qed
  show "length (two_digits n) = 2" by (simp add: t)
  have "n div 10 < 10" using assms by (simp add: less_mult_imp_div_less)
  moreover have "int (n div 10) * 10 + int (n mod 10) = int n" by (metis div_mult_mod_eq of_nat_add of_nat_mult of_nat_numeral)
  ultimately show "read_int (two_digits n) = int n"
    unfolding t using nd[of "n div 10"] v[of "n div 10"] v[of "n mod 10"]
    by (simp add: read_int_def digits_value_def)
qed

lemma two_digits_inject: "n < 100 \<Longrightarrow> m < 100 \<Longrightarrow> two_digits n = two_digits m \<longleftrightarrow> n = m"
  by (metis two_digits(2) of_nat_eq_iff)

end
