(* ===== verification/Messages.thy ===== *)
theory Messages imports Calendar begin

text \<open>
  The messages of the two programs and the library: every call of the logging macros and of the
  assertions with its level, its file, its format and its arguments in their C types. A file is named
  as in the repository; the build puts the path of its directory before it, which the logging does not
  look at. Strings that the library promises not to be null (\<open>strerror\<close>, \<open>pcap_statustostr\<close>) are \<open>string\<close>.
\<close>

subsection \<open>Calls\<close>

record log_call =
  lc_level :: dxwifi_log_level
  lc_file :: string
  lc_format :: string
  lc_args :: "c_arg list"

definition call_of :: "dxwifi_log_level \<Rightarrow> string \<Rightarrow> string \<Rightarrow> c_arg list \<Rightarrow> log_call" where
  "call_of lvl f fmt as = \<lparr>lc_level = lvl, lc_file = f, lc_format = fmt, lc_args = as\<rparr>"

definition log_text :: "log_call \<Rightarrow> string res" where
  "log_text lc = c_printf (lc_format lc) (lc_args lc)"

text \<open>\<open>__log\<close>: only the logger looks at the format.\<close>

definition log_formatted :: "'l dxwifi_log_handler list \<Rightarrow> log_call \<Rightarrow>
    ('l \<times> dxwifi_log_module \<times> dxwifi_log_level \<times> string) option res" where
  "log_formatted hs lc =
     (if log_message hs (lc_level lc) (lc_file lc) [] = None then Inr None
      else map_res (log_message hs (lc_level lc) (lc_file lc)) (log_text lc))"

subsection \<open>Assertions\<close>

text \<open>
  The macros of \<open>assert.h\<close>. With \<open>LIBDXWIFI_DISABLE_ASSERTS\<close> nothing is evaluated, with \<open>NDEBUG\<close> the ones
  for debugging are nothing. The answer is what is delivered and how the program goes on.
\<close>

type_synonym 'l assertion = "(('l \<times> dxwifi_log_module \<times> dxwifi_log_level \<times> string) option \<times> unit res) res"

definition assert_check :: "bool \<Rightarrow> bool \<Rightarrow> 'l dxwifi_log_handler list \<Rightarrow> string \<Rightarrow> nat \<Rightarrow> string \<Rightarrow> bool \<Rightarrow>
    string \<Rightarrow> c_arg list \<Rightarrow> 'l assertion" where
  "assert_check exits enabled hs fname line text expr msg as =
     (if \<not> enabled \<or> expr then Inr (None, Inr ())
      else bind_res (c_printf msg as) (assert_failed exits hs fname line text))"

definition assert_M :: "bool \<Rightarrow> 'l dxwifi_log_handler list \<Rightarrow> string \<Rightarrow> nat \<Rightarrow> string \<Rightarrow> bool \<Rightarrow>
    string \<Rightarrow> c_arg list \<Rightarrow> 'l assertion" where
  "assert_M disabled = assert_check True (\<not> disabled)"

definition assert_continue :: "bool \<Rightarrow> 'l dxwifi_log_handler list \<Rightarrow> string \<Rightarrow> nat \<Rightarrow> string \<Rightarrow> bool \<Rightarrow>
    string \<Rightarrow> c_arg list \<Rightarrow> 'l assertion" where
  "assert_continue disabled = assert_check False (\<not> disabled)"

definition assert_plain :: "bool \<Rightarrow> 'l dxwifi_log_handler list \<Rightarrow> string \<Rightarrow> nat \<Rightarrow> string \<Rightarrow> bool \<Rightarrow> 'l assertion" where
  "assert_plain disabled hs fname line text expr = assert_M disabled hs fname line text expr '''' []"

definition assert_always :: "bool \<Rightarrow> 'l dxwifi_log_handler list \<Rightarrow> string \<Rightarrow> nat \<Rightarrow> string \<Rightarrow> c_arg list \<Rightarrow> 'l assertion" where
  "assert_always disabled hs fname line msg as = assert_M disabled hs fname line ''0'' False msg as"

definition debug_assert :: "bool \<Rightarrow> bool \<Rightarrow> 'l dxwifi_log_handler list \<Rightarrow> string \<Rightarrow> nat \<Rightarrow> string \<Rightarrow> bool \<Rightarrow> 'l assertion" where
  "debug_assert disabled release hs fname line text expr =
     (if release then Inr (None, Inr ()) else assert_plain disabled hs fname line text expr)"

definition debug_assert_M :: "bool \<Rightarrow> bool \<Rightarrow> 'l dxwifi_log_handler list \<Rightarrow> string \<Rightarrow> nat \<Rightarrow> string \<Rightarrow> bool \<Rightarrow>
    string \<Rightarrow> c_arg list \<Rightarrow> 'l assertion" where
  "debug_assert_M disabled release hs fname line text expr msg as =
     (if release then Inr (None, Inr ()) else assert_M disabled hs fname line text expr msg as)"

definition debug_assert_always :: "bool \<Rightarrow> bool \<Rightarrow> 'l dxwifi_log_handler list \<Rightarrow> string \<Rightarrow> nat \<Rightarrow> string \<Rightarrow> c_arg list \<Rightarrow> 'l assertion" where
  "debug_assert_always disabled release hs fname line msg as =
     (if release then Inr (None, Inr ()) else assert_always disabled hs fname line msg as)"

definition debug_assert_continue :: "bool \<Rightarrow> bool \<Rightarrow> 'l dxwifi_log_handler list \<Rightarrow> string \<Rightarrow> nat \<Rightarrow> string \<Rightarrow> bool \<Rightarrow>
    string \<Rightarrow> c_arg list \<Rightarrow> 'l assertion" where
  "debug_assert_continue disabled release hs fname line text expr msg as =
     (if release then Inr (None, Inr ()) else assert_continue disabled hs fname line text expr msg as)"

subsection \<open>Configuration and statistics\<close>

abbreviation LF :: char where "LF \<equiv> CHR 0x0A"

text \<open>A table: a title and lines that are indented by a tabulator.\<close>

definition table :: "string \<Rightarrow> string list \<Rightarrow> string" where
  "table title ls = title @ [LF] @ concat (map (\<lambda>l. CHR 0x09 # l @ [LF]) ls)"

definition log_tx_configuration :: "'u dxwifi_transmitter \<Rightarrow> string option \<Rightarrow> log_call" where
  "log_tx_configuration tx device_name =
     call_of DXWIFI_LOG_INFO ''libdxwifi/transmitter.c''
       (table ''DxWifi Transmitter Settings''
         [''Device:              %s'', ''Block Size:          %ld'', ''Transmit Timeout:    %d'',
          ''Redundant Ctrl:      %d'', ''Data Rate:           %dMbps'', ''RTAP flags:          0x%x'',
          ''RTAP Tx flags:       0x%x''])
       [Arg_Str device_name, Arg_Ulong (of_nat (blocksize tx)), Arg_Int (transmit_timeout tx),
        Arg_Int (redundant_ctrl_frames tx), Arg_Int (uint (rtap_rate_mbps tx)), Arg_Int (uint (rtap_flags tx)),
        Arg_Int (uint (rtap_tx_flags tx))]"

definition log_rx_configuration :: "dxwifi_receiver \<Rightarrow> string option \<Rightarrow> string option \<Rightarrow> log_call" where
  "log_rx_configuration rx dev_name datalink =
     call_of DXWIFI_LOG_INFO ''libdxwifi/receiver.c''
       (table ''DxWifi Receiver Settings''
         [''Device:                   %s'', ''Capture Timeout:          %ds'', ''Packet Buffer Size:       %ld'',
          ''Ordered:                  %d'', ''Add-noise:                %d'', ''Filter:                   %s'',
          ''Optimize:                 %d'', ''Snapshot Length:          %d'', ''PCAP Buffer Timeout:      %dms'',
          ''Dispatch Count:           %d'', ''Datalink Type:            %s''])
       [Arg_Str dev_name, Arg_Uint (capture_timeout rx), Arg_Ulong (of_nat (packet_buffer_size rx)),
        Arg_Int (of_bool (ordered rx)), Arg_Int (of_bool (add_noise rx)), Arg_Str (Some (rx_filter rx)),
        Arg_Int (of_bool (rx_optimize rx)), Arg_Int (rx_snaplen rx), Arg_Int (rx_pb_timeout rx),
        Arg_Uint (dispatch_count rx), Arg_Str datalink]"

definition log_tx_stats :: "dxwifi_tx_stats \<Rightarrow> log_call" where
  "log_tx_stats stats =
     call_of DXWIFI_LOG_DEBUG ''dxwifi/tx/tx.c''
       (table ''Transmission Stats''
         [''Total Bytes Read:    %d'', ''Total Bytes Sent:    %d'', ''Total Frames Sent:   %d''])
       [Arg_Uint (total_bytes_read stats), Arg_Uint (total_bytes_sent stats), Arg_Uint (frame_count stats)]"

definition log_rx_stats :: "dxwifi_rx_stats \<Rightarrow> log_call" where
  "log_rx_stats stats =
     call_of DXWIFI_LOG_DEBUG ''dxwifi/rx/rx.c''
       (table ''Receiver Capture Stats''
         [''Total Payload Size:          %d'', ''Total Write length:          %d'', ''Total Capture Size:          %d'',
          ''Total Blocks Lost:           %d'', ''Total Noise Added:           %d'', ''Packets Processed:           %d'',
          ''Packets Received:            %d'', ''Packets Dropped (Kernel):    %d'', ''Packets Dropped (NIC):       %d'',
          ''Note: Packet drop data is platform dependent.'',
          ''Blocks lost is only valid when `ordered` flag is set''])
       [Arg_Uint (total_payload_size stats), Arg_Uint (total_writelen stats), Arg_Uint (total_caplen stats),
        Arg_Uint (total_blocks_lost stats), Arg_Uint (total_noise_added stats), Arg_Uint (num_packets_processed stats),
        Arg_Uint (ps_recv (pcap_stats stats)), Arg_Uint (ps_drop (pcap_stats stats)), Arg_Uint (ps_ifdrop (pcap_stats stats))]"

text \<open>
  \<open>log_frame_stats\<close> of \<open>receiver.c\<close>: the time of the frame in a buffer of 256 characters. \<open>gmtime\<close> answers
  with a null pointer when the year is too large for an \<open>int\<close>.
\<close>

definition frame_timestamp :: "int \<Rightarrow> string res" where
  "frame_timestamp t =
     (case gmtime t of None \<Rightarrow> Inl Null_Deref
      | Some x \<Rightarrow> bind_res (strftime ''%Y-%m-%d %H:%M:%S'' x) (\<lambda>s.
          bind_res (guard_res (length s < 256) Out_Of_Bounds) (\<lambda>_. Inr s)))"

definition rx_log_frame_stats :: "u32 \<Rightarrow> pcap_pkthdr \<Rightarrow> log_call res" where
  "rx_log_frame_stats frame_no pkt =
     bind_res (frame_timestamp (ts_sec pkt)) (\<lambda>timestamp.
     Inr (call_of DXWIFI_LOG_DEBUG ''libdxwifi/receiver.c'' ''%d - (%s) - (Capture Length=%d, Packet Length=%d)''
       [Arg_Int (sint frame_no), Arg_Str (Some timestamp), Arg_Uint (caplen pkt), Arg_Uint (pktlen pkt)]))"

text \<open>\<open>log_frame_stats\<close> of \<open>tx.c\<close>; its counters have 32 bits.\<close>

definition tx_log_frame_stats :: "dxwifi_tx_stats \<Rightarrow> log_call" where
  "tx_log_frame_stats stats =
     call_of DXWIFI_LOG_DEBUG ''dxwifi/tx/tx.c'' ''Frame: %d - (Read: %ld, Sent: %ld)''
       [Arg_Uint (frame_count stats), Arg_Uint (prev_bytes_read stats), Arg_Uint (prev_bytes_sent stats)]"

text \<open>The bounds check of \<open>invoke_handlers\<close>, which prints a \<open>size_t\<close>.\<close>

definition payload_size_call :: "size_t \<Rightarrow> log_call" where
  "payload_size_call sz =
     call_of DXWIFI_LOG_FATAL ''libdxwifi/transmitter.c'' ''Payload size: %d, exceeds defined bounds'' [Arg_Ulong sz]"

text \<open>A failure to open the handle: the text of the library is the format.\<close>

definition open_failed_call :: "string \<Rightarrow> string \<Rightarrow> log_call" where
  "open_failed_call fname err_buff = call_of DXWIFI_LOG_FATAL fname err_buff []"

subsection \<open>Messages of one line\<close>

datatype transmitter_message =
    Control_Frame_Sent dxwifi_control_frame int
  | Savefile_Failed string
  | Transmitter_Closed | Transmission_Starts | Transmitter_Timeout
  | Transmitter_Poll_Failed string
  | Injection_Failed string
  | Transmission_Stopped

primrec transmitter_call :: "transmitter_message \<Rightarrow> log_call" where
  "transmitter_call (Control_Frame_Sent ty status) = call_of DXWIFI_LOG_DEBUG ''libdxwifi/transmitter.c''
     ''%s Frame Sent: %d'' [Arg_Str (Some (control_frame_type_to_str ty)), Arg_Int status]"
| "transmitter_call (Savefile_Failed e) = call_of DXWIFI_LOG_FATAL ''libdxwifi/transmitter.c''
     ''Failed to open savefile: %s'' [Arg_Str (Some e)]"
| "transmitter_call Transmitter_Closed = call_of DXWIFI_LOG_INFO ''libdxwifi/transmitter.c'' ''DxWifi transmitter closed'' []"
| "transmitter_call Transmission_Starts = call_of DXWIFI_LOG_INFO ''libdxwifi/transmitter.c'' ''Starting DxWiFi Transmission...'' []"
| "transmitter_call Transmitter_Timeout = call_of DXWIFI_LOG_INFO ''libdxwifi/transmitter.c'' ''Transmitter timeout occured'' []"
| "transmitter_call (Transmitter_Poll_Failed e) = call_of DXWIFI_LOG_ERROR ''libdxwifi/transmitter.c''
     ''Error occured: %s'' [Arg_Str (Some e)]"
| "transmitter_call (Injection_Failed e) = call_of DXWIFI_LOG_FATAL ''libdxwifi/transmitter.c''
     ''Injection failure: %s'' [Arg_Str (Some e)]"
| "transmitter_call Transmission_Stopped = call_of DXWIFI_LOG_INFO ''libdxwifi/transmitter.c'' ''DxWiFI Transmission stopped'' []"

datatype receiver_message =
    Packet_Buffer_Failed size_t
  | Uplink_Established | End_Of_Transmission | Unknown_Control_Type
  | Partial_Write int string
  | Nonblocking_Failed string
  | Datalink_Failed string
  | Filter_Compile_Failed string string
  | Filter_Set_Failed string
  | Receiver_Closed | Receiver_Not_Pollable | Capture_Starts | Receiver_Timeout
  | Receiver_Poll_Failed string
  | Capture_Failed string
  | Capture_Ended | No_Capture_Stats

primrec receiver_call :: "receiver_message \<Rightarrow> log_call" where
  "receiver_call (Packet_Buffer_Failed n) = call_of DXWIFI_LOG_FATAL ''libdxwifi/receiver.c''
     ''Failed to allocate Packet Buffer of size: %ld'' [Arg_Ulong n]"
| "receiver_call Uplink_Established = call_of DXWIFI_LOG_INFO ''libdxwifi/receiver.c'' ''Uplink established!'' []"
| "receiver_call End_Of_Transmission = call_of DXWIFI_LOG_INFO ''libdxwifi/receiver.c'' ''End-Of-Transmission signalled'' []"
| "receiver_call Unknown_Control_Type = call_of DXWIFI_LOG_FATAL ''libdxwifi/receiver.c'' ''Unkown control type'' []"
| "receiver_call (Partial_Write n e) = call_of DXWIFI_LOG_FATAL ''libdxwifi/receiver.c''
     ''Partial write: %d - %s'' [Arg_Int n, Arg_Str (Some e)]"
| "receiver_call (Nonblocking_Failed e) = call_of DXWIFI_LOG_FATAL ''libdxwifi/receiver.c''
     ''Failed to set nonblocking mode: %s'' [Arg_Str (Some e)]"
| "receiver_call (Datalink_Failed e) = call_of DXWIFI_LOG_FATAL ''libdxwifi/receiver.c''
     ''Failed to set datalink: %s'' [Arg_Str (Some e)]"
| "receiver_call (Filter_Compile_Failed f e) = call_of DXWIFI_LOG_FATAL ''libdxwifi/receiver.c''
     ''Failed to compile filter %s: %s'' [Arg_Str (Some f), Arg_Str (Some e)]"
| "receiver_call (Filter_Set_Failed e) = call_of DXWIFI_LOG_FATAL ''libdxwifi/receiver.c''
     ''Failed to set filter: %s'' [Arg_Str (Some e)]"
| "receiver_call Receiver_Closed = call_of DXWIFI_LOG_INFO ''libdxwifi/receiver.c'' ''DxWiFi receiver closed'' []"
| "receiver_call Receiver_Not_Pollable = call_of DXWIFI_LOG_FATAL ''libdxwifi/receiver.c'' ''Receiver handle cannot be polled'' []"
| "receiver_call Capture_Starts = call_of DXWIFI_LOG_INFO ''libdxwifi/receiver.c'' ''Starting packet capture...'' []"
| "receiver_call Receiver_Timeout = call_of DXWIFI_LOG_INFO ''libdxwifi/receiver.c'' ''Reciever timeout occured'' []"
| "receiver_call (Receiver_Poll_Failed e) = call_of DXWIFI_LOG_ERROR ''libdxwifi/receiver.c''
     ''Error occured: %s'' [Arg_Str (Some e)]"
| "receiver_call (Capture_Failed e) = call_of DXWIFI_LOG_FATAL ''libdxwifi/receiver.c''
     ''Capture failure: %s'' [Arg_Str (Some e)]"
| "receiver_call Capture_Ended = call_of DXWIFI_LOG_INFO ''libdxwifi/receiver.c'' ''DxWiFi Reciever capture ended'' []"
| "receiver_call No_Capture_Stats = call_of DXWIFI_LOG_WARN ''libdxwifi/receiver.c'' ''Failed to gather capture stats from PCAP'' []"

text \<open>The heap, the directory watcher and the programs.\<close>

datatype other_message =
    Heap_Allocation_Failed size_t | Heap_Is_Full
  | Watcher_Allocation_Failed string | Inotify_Failed string
  | Watcher_Activated | Watcher_Timeout | Watcher_Poll_Failed string | Watcher_Deactivated
  | Input_Open_Failed string string | Input_Opened string | Input_Seek_Failed string
  | Directory_Open_Failed string string
  | Output_Open_Failed string

primrec other_call :: "other_message \<Rightarrow> log_call" where
  "other_call (Heap_Allocation_Failed n) = call_of DXWIFI_LOG_FATAL ''libdxwifi/details/heap.c''
     ''Failed to allocated heap with capacity: %ld'' [Arg_Ulong n]"
| "other_call Heap_Is_Full = call_of DXWIFI_LOG_ERROR ''libdxwifi/details/heap.c'' ''Binary Heap is full'' []"
| "other_call (Watcher_Allocation_Failed e) = call_of DXWIFI_LOG_FATAL ''libdxwifi/details/dirwatch.c''
     ''Calloc failed: %s'' [Arg_Str (Some e)]"
| "other_call (Inotify_Failed e) = call_of DXWIFI_LOG_FATAL ''libdxwifi/details/dirwatch.c''
     ''Failed to initialize inotify: %s'' [Arg_Str (Some e)]"
| "other_call Watcher_Activated = call_of DXWIFI_LOG_INFO ''libdxwifi/details/dirwatch.c'' ''Dirwatch activated'' []"
| "other_call Watcher_Timeout = call_of DXWIFI_LOG_INFO ''libdxwifi/details/dirwatch.c'' ''Dirwatch timeout occured'' []"
| "other_call (Watcher_Poll_Failed e) = call_of DXWIFI_LOG_ERROR ''libdxwifi/details/dirwatch.c''
     ''Error occured: %s'' [Arg_Str (Some e)]"
| "other_call Watcher_Deactivated = call_of DXWIFI_LOG_INFO ''libdxwifi/details/dirwatch.c'' ''DirWatch deactivated'' []"
| "other_call (Input_Open_Failed f e) = call_of DXWIFI_LOG_ERROR ''dxwifi/tx/tx.c''
     ''Failed to open file: %s - %s'' [Arg_Str (Some f), Arg_Str (Some e)]"
| "other_call (Input_Opened f) = call_of DXWIFI_LOG_INFO ''dxwifi/tx/tx.c''
     ''Opened %s for transmission'' [Arg_Str (Some f)]"
| "other_call (Input_Seek_Failed e) = call_of DXWIFI_LOG_ERROR ''dxwifi/tx/tx.c''
     ''Failed to seek to beginning of file: %s'' [Arg_Str (Some e)]"
| "other_call (Directory_Open_Failed d e) = call_of DXWIFI_LOG_ERROR ''dxwifi/tx/tx.c''
     ''Failed to open directory: %s - %s'' [Arg_Str (Some d), Arg_Str (Some e)]"
| "other_call (Output_Open_Failed p) = call_of DXWIFI_LOG_ERROR ''dxwifi/rx/rx.c''
     ''Failed to open file: %s'' [Arg_Str (Some p)]"

subsection \<open>Which messages are defined\<close>

lemma log_text_ok: "is_ok (log_text (call_of lvl f fmt as)) \<longleftrightarrow> (\<exists>ks. signature fmt = Some ks \<and> args_match ks as)"
  by (simp add: log_text_def call_of_def printf_ok)

lemmas signature_simps = signature_def parse_format_def

lemma transmitter_call_ok: "is_ok (log_text (transmitter_call m))"
  by (cases m) (simp_all add: log_text_ok signature_simps)

lemma receiver_call_ok: "is_ok (log_text (receiver_call m))"
  by (cases m) (simp_all add: log_text_ok signature_simps)

lemma other_call_ok: "is_ok (log_text (other_call m))"
  by (cases m) (simp_all add: log_text_ok signature_simps)

subsection \<open>What the messages say\<close>

lemma table_text:
  "log_text (log_tx_stats st) = Inr (table ''Transmission Stats''
     [''Total Bytes Read:    '' @ show_int (sint (total_bytes_read st)),
      ''Total Bytes Sent:    '' @ show_int (sint (total_bytes_sent st)),
      ''Total Frames Sent:   '' @ show_int (sint (frame_count st))])"
  by (simp add: log_text_def log_tx_stats_def call_of_def c_printf_def parse_format_def table_def show_arg_def pad_def)

lemma table_text_rx:
  "log_text (log_rx_stats st) = Inr (table ''Receiver Capture Stats''
     [''Total Payload Size:          '' @ show_int (sint (total_payload_size st)),
      ''Total Write length:          '' @ show_int (sint (total_writelen st)),
      ''Total Capture Size:          '' @ show_int (sint (total_caplen st)),
      ''Total Blocks Lost:           '' @ show_int (sint (total_blocks_lost st)),
      ''Total Noise Added:           '' @ show_int (sint (total_noise_added st)),
      ''Packets Processed:           '' @ show_int (sint (num_packets_processed st)),
      ''Packets Received:            '' @ show_int (sint (ps_recv (pcap_stats st))),
      ''Packets Dropped (Kernel):    '' @ show_int (sint (ps_drop (pcap_stats st))),
      ''Packets Dropped (NIC):       '' @ show_int (sint (ps_ifdrop (pcap_stats st))),
      ''Note: Packet drop data is platform dependent.'',
      ''Blocks lost is only valid when `ordered` flag is set''])"
  by (simp add: log_text_def log_rx_stats_def call_of_def c_printf_def parse_format_def table_def show_arg_def pad_def)

lemma frame_text:
  "bind_res (rx_log_frame_stats n pkt) log_text = map_res (\<lambda>t.
     show_int (sint n) @ '' - ('' @ t @ '') - (Capture Length='' @ show_int (sint (caplen pkt)) @
     '', Packet Length='' @ show_int (sint (pktlen pkt)) @ '')'') (frame_timestamp (ts_sec pkt))"
  by (cases "frame_timestamp (ts_sec pkt)")
    (simp_all add: rx_log_frame_stats_def log_text_def call_of_def c_printf_def parse_format_def show_arg_def pad_def)

text \<open>A number ends where no digit follows.\<close>

lemma show_int_chars: "c \<in> set (show_int i) \<Longrightarrow> is_digit c \<or> c = CHR ''-''"
  using show_nat_digits by (auto simp: show_int_def split: if_splits)

lemma show_int_split:
  assumes "show_int i @ c # s = show_int j @ c # t" and "\<not> is_digit c" and "c \<noteq> CHR ''-''"
  shows "i = j" and "s = t"
proof -
  let ?P = "\<lambda>x. is_digit x \<or> x = CHR ''-''"
  have t: "takeWhile ?P (show_int k @ c # r) = show_int k" for k r
    using show_int_chars[of _ k] assms(2,3) by (simp add: takeWhile_append2)
  have eq: "show_int i = show_int j" using arg_cong[OF assms(1), of "takeWhile ?P"] unfolding t .
  then show "i = j" by (simp add: show_int_inject)
  show "s = t" using assms(1) eq by simp
qed

lemma show_int_eq: "\<not> is_digit c \<Longrightarrow> c \<noteq> CHR ''-'' \<Longrightarrow> show_int i @ c # s = show_int j @ c # t \<longleftrightarrow> i = j \<and> s = t"
  using show_int_split by metis

lemma no_digits: "\<not> is_digit LF" "\<not> is_digit (CHR '','')" "\<not> is_digit (CHR '' '')" "\<not> is_digit (CHR '')'')"
  by (simp_all add: is_digit_def)

lemma show_int_ends:
  "show_int i @ LF # s = show_int j @ LF # t \<longleftrightarrow> i = j \<and> s = t"
  "show_int i @ CHR '','' # s = show_int j @ CHR '','' # t \<longleftrightarrow> i = j \<and> s = t"
  "show_int i @ CHR '' '' # s = show_int j @ CHR '' '' # t \<longleftrightarrow> i = j \<and> s = t"
  "show_int i @ CHR '')'' # s = show_int j @ CHR '')'' # t \<longleftrightarrow> i = j \<and> s = t"
  by (rule show_int_eq, rule no_digits, simp)+

lemma signed_counter: "show_int (sint w) = show_nat (unat w) \<longleftrightarrow> unat w < 2 ^ 31" for w :: u32
proof -
  have "show_nat (unat w) = show_int (int (unat w))" by (simp add: show_int_def)
  then have "show_int (sint w) = show_nat (unat w) \<longleftrightarrow> sint w = int (unat w)" by (simp add: show_int_inject)
  also have "\<dots> \<longleftrightarrow> unat w < 2 ^ 31"
  proof
    assume "sint w = int (unat w)"
    moreover have "sint w < 2 ^ 31" using sint_less[of w] by simp
    ultimately have "int (unat w) < int (2 ^ 31)" by simp
    then show "unat w < 2 ^ 31" by (simp only: of_nat_less_iff)
  next
    assume "unat w < 2 ^ 31"
    then show "sint w = int (unat w)" using sint_of_nat[of "unat w"] by simp
  qed
  finally show ?thesis .
qed

text \<open>The text of a time determines it: the fields after the year have a fixed length.\<close>

lemma frame_timestamp_text:
  assumes "frame_timestamp t = Inr s"
  shows "\<exists>x. gmtime t = Some x \<and> s = show_int (tm_year x) @ (CHR ''-'' # two_digits (tm_mon x + 1) @
     CHR ''-'' # two_digits (tm_mday x) @ CHR '' '' # two_digits (tm_hour x) @ CHR '':'' # two_digits (tm_min x) @
     CHR '':'' # two_digits (tm_sec x))"
  using assms by (auto simp: frame_timestamp_def bind_res_eq_Inr split: option.splits)

lemma frame_timestamp_inject:
  assumes "frame_timestamp t = Inr s" and "frame_timestamp u = Inr s"
  shows "t = u"
proof -
  obtain x y where x: "gmtime t = Some x" "gmtime u = Some y" and
    eq: "show_int (tm_year x) @ (CHR ''-'' # two_digits (tm_mon x + 1) @
     CHR ''-'' # two_digits (tm_mday x) @ CHR '' '' # two_digits (tm_hour x) @ CHR '':'' # two_digits (tm_min x) @
     CHR '':'' # two_digits (tm_sec x)) = show_int (tm_year y) @ (CHR ''-'' # two_digits (tm_mon y + 1) @
     CHR ''-'' # two_digits (tm_mday y) @ CHR '' '' # two_digits (tm_hour y) @ CHR '':'' # two_digits (tm_min y) @
     CHR '':'' # two_digits (tm_sec y))"
    using frame_timestamp_text[OF assms(1)] frame_timestamp_text[OF assms(2)] by auto
  note bx = gmtime_ok[OF x(1)] and by' = gmtime_ok[OF x(2)]
  have l: "length (two_digits n) = 2" if "n < 100" for n using two_digits(1)[OF that] .
  have small: "tm_mon x + 1 < 100" "tm_mday x < 100" "tm_hour x < 100" "tm_min x < 100" "tm_sec x < 100"
    "tm_mon y + 1 < 100" "tm_mday y < 100" "tm_hour y < 100" "tm_min y < 100" "tm_sec y < 100"
    using bx by' by linarith+
  have "show_int (tm_year x) = show_int (tm_year y) \<and> two_digits (tm_mon x + 1) = two_digits (tm_mon y + 1) \<and>
     two_digits (tm_mday x) = two_digits (tm_mday y) \<and> two_digits (tm_hour x) = two_digits (tm_hour y) \<and>
     two_digits (tm_min x) = two_digits (tm_min y) \<and> two_digits (tm_sec x) = two_digits (tm_sec y)"
    using eq l[OF small(1)] l[OF small(2)] l[OF small(3)] l[OF small(4)] l[OF small(5)] l[OF small(6)]
      l[OF small(7)] l[OF small(8)] l[OF small(9)] l[OF small(10)]
    by (simp add: append_eq_append_conv)
  then have "tm_year x = tm_year y" "tm_mon x = tm_mon y" "tm_mday x = tm_mday y" "tm_hour x = tm_hour y"
    "tm_min x = tm_min y" "tm_sec x = tm_sec y"
    using two_digits_inject[OF small(1) small(6)] two_digits_inject[OF small(2) small(7)] two_digits_inject[OF small(3) small(8)]
      two_digits_inject[OF small(4) small(9)] two_digits_inject[OF small(5) small(10)] by (simp_all add: show_int_inject)
  then have "x = y" by simp
  then show ?thesis using gmtime_inject x by metis
qed

text \<open>The buffer of 256 characters is large enough for every year that \<open>gmtime\<close> can answer.\<close>

lemma show_nat_length: "n < 10 ^ Suc k \<Longrightarrow> length (show_nat n) \<le> Suc k"
proof (induction k arbitrary: n)
  case 0
  then show ?case by (simp add: show_nat.simps[of n])
next
  case (Suc k)
  then have "n div 10 < 10 ^ Suc k" by (simp add: less_mult_imp_div_less mult.commute)
  then show ?case using Suc.IH by (cases "n < 10") (simp_all add: show_nat.simps[of n])
qed

lemma show_int_length: "\<bar>i\<bar> < 10 ^ Suc k \<Longrightarrow> length (show_int i) \<le> Suc (Suc k)"
  using show_nat_length[of "nat (- i)" k] show_nat_length[of "nat i" k]
  by (auto simp: show_int_def nat_less_iff intro: le_SucI split: if_splits)

lemma frame_timestamp_ok: "is_ok (frame_timestamp t) \<longleftrightarrow> gmtime t \<noteq> None"
proof (cases "gmtime t")
  case (Some x)
  have y: "fits_int (tm_year x - 1900)" using Some by (auto simp: gmtime_def Let_def split: prod.splits if_splits)
  then have "\<bar>tm_year x\<bar> < 10 ^ Suc 9" by (auto simp: fits_int_def INT_MAX_def INT_MIN_def)
  from show_int_length[OF this] have l: "length (show_int (tm_year x)) \<le> 11" by simp
  note b = gmtime_ok[OF Some]
  have "tm_mon x + 1 < 100" "tm_mday x < 100" "tm_hour x < 100" "tm_min x < 100" "tm_sec x < 100" using b by linarith+
  then show ?thesis using Some l two_digits(1) by (simp add: frame_timestamp_def)
qed (simp add: frame_timestamp_def)

lemma sint_inject: "sint a = sint b \<longleftrightarrow> a = b" for a b :: u32
  by (auto intro: signed_word_eqI)

lemma two_digits_chars: "c \<in> set (two_digits n) \<Longrightarrow> is_digit c"
proof -
  have "is_digit (CHR ''0'')" by (simp add: is_digit_def)
  then show "c \<in> set (two_digits n) \<Longrightarrow> is_digit c"
    using show_nat_digits[of c n] by (auto simp: two_digits_def pad_def split: list.splits if_splits)
qed

lemma frame_timestamp_chars:
  assumes "frame_timestamp t = Inr s"
  shows "CHR '')'' \<notin> set s"
proof -
  have "c \<noteq> CHR '')''" if "is_digit c \<or> c = CHR ''-''" for c using that by (auto simp: is_digit_def)
  then show ?thesis
    using frame_timestamp_text[OF assms] two_digits_chars show_int_chars by fastforce
qed

lemma split_at: "c \<notin> set s \<Longrightarrow> c \<notin> set t \<Longrightarrow> s @ c # u = t @ c # v \<Longrightarrow> s = t \<and> u = v"
proof (induction s arbitrary: t)
  case Nil
  then show ?case by (cases t) auto
next
  case (Cons x s)
  then show ?case by (cases t) auto
qed

text \<open>A line about a frame.\<close>

lemma frame_text_inject:
  assumes "bind_res (rx_log_frame_stats n p) log_text = Inr l" and "bind_res (rx_log_frame_stats m q) log_text = Inr l"
  shows "n = m \<and> ts_sec p = ts_sec q \<and> caplen p = caplen q \<and> pktlen p = pktlen q"
proof -
  let ?rest = "\<lambda>p. '' - (Capture Length='' @ show_int (sint (caplen p)) @ '', Packet Length='' @ show_int (sint (pktlen p)) @ '')''"
  have t: "\<exists>t. frame_timestamp (ts_sec p) = Inr t \<and> l = show_int (sint n) @ CHR '' '' # ''- ('' @ t @ CHR '')'' # ?rest p"
    if "bind_res (rx_log_frame_stats n p) log_text = Inr l" for n p
    using that unfolding frame_text by (cases "frame_timestamp (ts_sec p)") auto
  obtain t u where tu: "frame_timestamp (ts_sec p) = Inr t" "frame_timestamp (ts_sec q) = Inr u"
    "show_int (sint n) @ CHR '' '' # ''- ('' @ t @ CHR '')'' # ?rest p = show_int (sint m) @ CHR '' '' # ''- ('' @ u @ CHR '')'' # ?rest q"
    using t[OF assms(1)] t[OF assms(2)] by auto
  have nm: "sint n = sint m" "''- ('' @ t @ CHR '')'' # ?rest p = ''- ('' @ u @ CHR '')'' # ?rest q"
    using tu(3) unfolding show_int_ends(3) by blast+
  have "t @ CHR '')'' # ?rest p = u @ CHR '')'' # ?rest q" using nm(2) by (simp only: append_Cons append_Nil list.inject simp_thms)
  from split_at[OF frame_timestamp_chars[OF tu(1)] frame_timestamp_chars[OF tu(2)] this] have e: "t = u" "?rest p = ?rest q" by blast+
  have "show_int (sint (caplen p)) @ CHR '','' # '' Packet Length='' @ show_int (sint (pktlen p)) @ CHR '')'' # [] =
      show_int (sint (caplen q)) @ CHR '','' # '' Packet Length='' @ show_int (sint (pktlen q)) @ CHR '')'' # []"
    using e(2) by (simp only: append_Cons append_Nil list.inject simp_thms)
  then have c: "sint (caplen p) = sint (caplen q)" "show_int (sint (pktlen p)) @ CHR '')'' # [] = show_int (sint (pktlen q)) @ CHR '')'' # []"
    unfolding show_int_ends(2) by (simp_all only: append_Cons append_Nil list.inject simp_thms)
  then have "sint (pktlen p) = sint (pktlen q)" unfolding show_int_ends(4) by blast
  moreover have "ts_sec p = ts_sec q" using frame_timestamp_inject[OF tu(1)] tu(2) unfolding e(1) by blast
  ultimately show ?thesis using nm(1) c(1) by (simp add: sint_inject)
qed

lemmas text_simps = c_printf_def parse_format_def show_arg_def pad_def show_int_of_nat

section \<open>Properties\<close>

text \<open>
  C22: Which messages are defined. Every call of the logging macros and of the assertions has a format
  that fits its arguments, with these exceptions: the message about every sent frame takes two 32-bit
  counters as \<open>long\<close>, the bounds check of the frame handlers a \<open>size_t\<close> as \<open>int\<close>; and what is said when the
  capture device cannot be opened has the text of the library for its format, so that it is only defined
  when that text, which repeats the name of the device, has no conversion in it.
\<close>

theorem messages_defined:
  "is_ok (log_text (log_tx_configuration tx (Some d))) \<and> is_ok (log_text (log_rx_configuration rx (Some d) (Some l))) \<and>
   is_ok (log_text (log_tx_stats tst)) \<and> is_ok (log_text (log_rx_stats rst)) \<and>
   (is_ok (bind_res (rx_log_frame_stats n pkt) log_text) \<longleftrightarrow> gmtime (ts_sec pkt) \<noteq> None) \<and>
   is_ok (log_text (transmitter_call tm)) \<and> is_ok (log_text (receiver_call rm)) \<and> is_ok (log_text (other_call om)) \<and>
   \<not> is_ok (log_text (tx_log_frame_stats tst)) \<and> \<not> is_ok (log_text (payload_size_call sz)) \<and>
   (is_ok (log_text (open_failed_call f err)) \<longleftrightarrow> signature err = Some [])"
proof -
  have "is_ok (log_text (log_tx_configuration tx (Some d)))"
    by (simp add: log_tx_configuration_def log_text_ok signature_simps table_def)
  moreover have "is_ok (log_text (log_rx_configuration rx (Some d) (Some l)))"
    by (simp add: log_rx_configuration_def log_text_ok signature_simps table_def)
  moreover have "is_ok (log_text (log_tx_stats tst))" "is_ok (log_text (log_rx_stats rst))" by (simp_all add: table_text table_text_rx)
  moreover have "is_ok (bind_res (rx_log_frame_stats n pkt) log_text) \<longleftrightarrow> gmtime (ts_sec pkt) \<noteq> None"
    by (simp add: frame_text frame_timestamp_ok)
  moreover have "\<not> is_ok (log_text (tx_log_frame_stats tst))" "\<not> is_ok (log_text (payload_size_call sz))"
    by (simp_all add: tx_log_frame_stats_def payload_size_call_def log_text_ok signature_simps)
  moreover have "is_ok (log_text (open_failed_call f err)) \<longleftrightarrow> signature err = Some []"
  proof -
    have "args_match ks [] \<longleftrightarrow> ks = []" for ks by (cases ks) simp_all
    then show ?thesis by (simp add: open_failed_call_def log_text_ok)
  qed
  ultimately show ?thesis by (simp only: transmitter_call_ok receiver_call_ok other_call_ok simp_thms)
qed

text \<open>
  Verbose transmissions. For every command line the handler table of the transmission program gives
  the message about a sent frame to a logger exactly if the verbosity is above 4, which is when the
  handler that writes it is attached; and then the call is undefined, whatever the counters are.
\<close>

theorem verbose_frame_message:
  "log_formatted (setup_logging (tx_use_syslog args) (tx_verbosity args) (initial_handlers Default_Logger))
     (tx_log_frame_stats stats) = (if 4 < tx_verbosity args then Inl Bad_Format else Inr None) \<and>
   attach_all delay args tx = (let t = attach_all delay (args\<lparr>tx_verbosity := 0\<rparr>) tx in
     if 4 < tx_verbosity args then snd (attach_postinject_handler t log_frame_stats None) else t)"
proof -
  have "log_text (tx_log_frame_stats stats) = Inl Bad_Format"
    by (simp add: tx_log_frame_stats_def log_text_def call_of_def c_printf_def parse_format_def show_arg_def)
  moreover have "length (initial_handlers Default_Logger) = DXWIFI_LOG_MODULE_COUNT" by (simp add: initial_handlers_def)
  moreover have "log_message (setup_logging us v (initial_handlers Default_Logger)) DXWIFI_LOG_DEBUG f msg = None \<longleftrightarrow> \<not> 4 < v"
    for us v f msg
    using file_to_log_module_less[of f]
    by (auto simp: log_message_def setup_logging_def set_log_level_def set_logger_def Let_def initial_handlers_def log_level_of_order)
  ultimately show ?thesis
    by (simp add: log_formatted_def tx_log_frame_stats_def call_of_def attach_all_def Let_def)
qed

text \<open>
  C23: What the messages tell. Two tables of statistics read the same exactly if their counters are the
  same, and two lines about captured frames only if they are about the same number, second and sizes.
  A counter is printed as a signed number: it looks like itself exactly below \<open>2 ^ 31\<close>.
\<close>

theorem messages_tell_apart:
  "(log_text (log_tx_stats a) = log_text (log_tx_stats b) \<longleftrightarrow>
      total_bytes_read a = total_bytes_read b \<and> total_bytes_sent a = total_bytes_sent b \<and> frame_count a = frame_count b) \<and>
   (log_text (log_rx_stats r) = log_text (log_rx_stats s) \<longleftrightarrow>
      total_payload_size r = total_payload_size s \<and> total_writelen r = total_writelen s \<and> total_caplen r = total_caplen s \<and>
      total_blocks_lost r = total_blocks_lost s \<and> total_noise_added r = total_noise_added s \<and>
      num_packets_processed r = num_packets_processed s \<and> pcap_stats r = pcap_stats s) \<and>
   (bind_res (rx_log_frame_stats n p) log_text = Inr line \<and> bind_res (rx_log_frame_stats m q) log_text = Inr line \<longrightarrow>
      n = m \<and> ts_sec p = ts_sec q \<and> caplen p = caplen q \<and> pktlen p = pktlen q) \<and>
   (show_int (sint (total_bytes_read a)) = show_nat (unat (total_bytes_read a)) \<longleftrightarrow> unat (total_bytes_read a) < 2 ^ 31)"
proof -
  have tx: "log_text (log_tx_stats a) = log_text (log_tx_stats b) \<longleftrightarrow>
      total_bytes_read a = total_bytes_read b \<and> total_bytes_sent a = total_bytes_sent b \<and> frame_count a = frame_count b"
    by (auto simp: table_text table_def show_int_eq show_int_inject sint_inject no_digits)
  have "pcap_stats r = pcap_stats s \<longleftrightarrow> ps_recv (pcap_stats r) = ps_recv (pcap_stats s) \<and>
      ps_drop (pcap_stats r) = ps_drop (pcap_stats s) \<and> ps_ifdrop (pcap_stats r) = ps_ifdrop (pcap_stats s)"
    by (cases "pcap_stats r"; cases "pcap_stats s") auto
  then have rx: "log_text (log_rx_stats r) = log_text (log_rx_stats s) \<longleftrightarrow>
      total_payload_size r = total_payload_size s \<and> total_writelen r = total_writelen s \<and> total_caplen r = total_caplen s \<and>
      total_blocks_lost r = total_blocks_lost s \<and> total_noise_added r = total_noise_added s \<and>
      num_packets_processed r = num_packets_processed s \<and> pcap_stats r = pcap_stats s"
    by (auto simp: table_text_rx table_def show_int_eq show_int_inject sint_inject no_digits)
  show ?thesis using tx rx frame_text_inject signed_counter by blast
qed

text \<open>The frame with number 7, captured when the year 2000 began.\<close>

theorem messages_tell_apart_witness:
  "let p = \<lparr>ts_sec = 946684800, ts_usec = 5, caplen = 60, pktlen = 64\<rparr>;
       line = ''7 - (2000-01-01 00:00:00) - (Capture Length=60, Packet Length=64)'' in
     bind_res (rx_log_frame_stats 7 p) log_text = Inr line \<and>
     {(n, ts_sec q, caplen q, pktlen q) | n q. bind_res (rx_log_frame_stats n q) log_text = Inr line} = {(7, 946684800, 60, 64)}"
proof -
  let ?p = "\<lparr>ts_sec = 946684800, ts_usec = 5, caplen = 60, pktlen = 64\<rparr>"
  let ?line = "''7 - (2000-01-01 00:00:00) - (Capture Length=60, Packet Length=64)''"
  have "gmtime 946684800 = Some \<lparr>tm_sec = 0, tm_min = 0, tm_hour = 0, tm_mday = 1, tm_mon = 0, tm_year = 2000\<rparr>"
    by (simp add: gmtime_def epoch_days_def era_days_def find_year.simps[of 0] year_days_def leap_def month_days_def
        fits_int_def INT_MAX_def INT_MIN_def)
  moreover have "show_int 2000 = ''2000''" "show_int 7 = ''7''" "show_int 60 = ''60''" "show_int 64 = ''64''"
    "two_digits 0 = ''00''" "two_digits 1 = ''01''"
    by code_simp+
  ultimately have line: "bind_res (rx_log_frame_stats 7 ?p) log_text = Inr ?line"
    by (simp add: frame_text frame_timestamp_def)
  have "n = 7 \<and> ts_sec q = ts_sec ?p \<and> caplen q = caplen ?p \<and> pktlen q = pktlen ?p"
    if "bind_res (rx_log_frame_stats n q) log_text = Inr ?line" for n q
  proof (rule messages_tell_apart[of init_tx_stats init_tx_stats zero_rx_stats zero_rx_stats n q ?line 7 ?p, THEN conjunct2, THEN conjunct2,
      THEN conjunct1, THEN mp])
    show "bind_res (rx_log_frame_stats n q) log_text = Inr ?line \<and> bind_res (rx_log_frame_stats 7 ?p) log_text = Inr ?line"
      using that line by (rule conjI)
  qed
  then have "{(n, ts_sec q, caplen q, pktlen q) | n q. bind_res (rx_log_frame_stats n q) log_text = Inr ?line} \<subseteq> {(7, 946684800, 60, 64)}"
    by (intro subsetI) (elim CollectE exE conjE; simp only: pcap_pkthdr.select_convs singleton_iff)
  moreover have "(7, ts_sec ?p, caplen ?p, pktlen ?p) \<in> {(n, ts_sec q, caplen q, pktlen q) | n q. bind_res (rx_log_frame_stats n q) log_text = Inr ?line}"
    by (rule CollectI, rule exI[of _ 7], rule exI[of _ ?p], rule conjI, rule refl, rule line)
  ultimately show ?thesis using line by (simp only: Let_def pcap_pkthdr.select_convs) blast
qed


end
