(* ===== verification/SystemCalls.thy ===== *)
theory SystemCalls imports Messages Radiotap begin

text \<open>
  The two programs with the calls they make besides pcap: opening and closing files, directories and the
  watcher, installing and restoring the handlers of \<open>SIGINT\<close>, sleeping, and the messages of the log, in
  their order. The operations of \<open>TxApp\<close> and \<open>RxApp\<close> are given a second time, each with its calls; they
  have the results of the first (\<open>sys_transmit_same\<close>, \<open>sys_receive_same\<close>). The calls are checked
  against a discipline of nested resources and handlers.
\<close>

subsection \<open>Calls\<close>

datatype sig_handler = Tx_Sigint_Handler | Watchdir_Sigint_Handler | Rx_Sigint_Handler

datatype sys_call =
    Sys_Open string                \<comment> \<open>a file, successfully\<close>
  | Sys_Seek
  | Sys_Close
  | Sys_Opendir string
  | Sys_Closedir
  | Sys_Watch                      \<comment> \<open>\<open>inotify_init1\<close>\<close>
  | Sys_Unwatch                    \<comment> \<open>closing its descriptor\<close>
  | Sys_Install sig_handler        \<comment> \<open>\<open>sigaction\<close>, which keeps the previous action\<close>
  | Sys_Restore                    \<comment> \<open>\<open>sigaction\<close> with the action that was kept\<close>
  | Sys_Transmit "string option"   \<comment> \<open>from a file, or standard input\<close>
  | Sys_Listen
  | Sys_Capture "string option"    \<comment> \<open>into a file, or standard output\<close>
  | Sys_Sleep u32
  | Sys_Log log_call

text \<open>What an operation calls, and its result: \<open>None\<close> when it waits for ever after these calls.\<close>

type_synonym 'a traced = "sys_call list \<times> 'a res option"

definition t_bind :: "'a traced \<Rightarrow> ('a \<Rightarrow> 'b traced) \<Rightarrow> 'b traced" where
  "t_bind m k =
     (case snd m of None \<Rightarrow> (fst m, None) | Some (Inl e) \<Rightarrow> (fst m, Some (Inl e))
      | Some (Inr x) \<Rightarrow> (fst m @ fst (k x), snd (k x)))"

definition t_ret :: "'a \<Rightarrow> 'a traced" where
  "t_ret x = ([], Some (Inr x))"

definition t_of :: "'a res option \<Rightarrow> 'a traced" where
  "t_of r = ([], r)"

definition t_call :: "sys_call \<Rightarrow> 'a traced \<Rightarrow> 'a traced" where
  "t_call c m = (c # fst m, snd m)"

lemma t_bind_cong [fundef_cong]:
  "m = m' \<Longrightarrow> (\<And>x. snd m' = Some (Inr x) \<Longrightarrow> k x = k' x) \<Longrightarrow> t_bind m k = t_bind m' k'"
  by (auto simp: t_bind_def split: option.splits sum.splits)

definition opt_bind :: "'a res option \<Rightarrow> ('a \<Rightarrow> 'b res option) \<Rightarrow> 'b res option" where
  "opt_bind m k = (case m of None \<Rightarrow> None | Some (Inl e) \<Rightarrow> Some (Inl e) | Some (Inr x) \<Rightarrow> k x)"

lemma opt_bind_simps [simp]:
  "opt_bind None k = None" "opt_bind (Some (Inl e)) k = Some (Inl e)" "opt_bind (Some (Inr x)) k = k x"
  by (simp_all add: opt_bind_def)

lemma snd_traced [simp]:
  "snd (t_bind m k) = opt_bind (snd m) (\<lambda>x. snd (k x))" "snd (t_ret x) = Some (Inr x)" "snd (t_of r) = r"
  "snd (t_call c m) = snd m"
  by (auto simp: t_bind_def t_ret_def t_of_def t_call_def opt_bind_def split: option.splits sum.splits)

subsection \<open>The transmission program\<close>

text \<open>\<open>err\<close> is the text of \<open>strerror\<close> after a call that failed.\<close>

definition sys_transmission :: "tx_port \<Rightarrow> string option \<Rightarrow> tx_event list \<Rightarrow> 'u tx_world \<Rightarrow>
    (dxwifi_tx_state \<times> 'u tx_world) traced" where
  "sys_transmission port fd es w =
     t_call (Sys_Install Tx_Sigint_Handler) (t_call (Sys_Transmit fd)
     (t_bind (t_of (start_transmission port (w_tx w) es)) (\<lambda>s.
      t_call Sys_Restore (t_call (Sys_Log (log_tx_stats (ts_stats s)))
      (t_ret (tx_state (ts_stats s), w\<lparr>w_tx := ts_tx s, w_air := w_air w @ [ts_air s]\<rparr>))))))"

function sys_retransmit :: "(sys_call \<Rightarrow> string) \<Rightarrow> u32 \<Rightarrow> tx_port \<Rightarrow> string \<Rightarrow> int \<Rightarrow> bool \<Rightarrow> dxwifi_tx_state \<Rightarrow>
    'u tx_world \<Rightarrow> (dxwifi_tx_state \<times> 'u tx_world) traced" where
  "sys_retransmit err delay port f cnt transmit_forever state w =
     (if (0 \<le> cnt \<or> transmit_forever) \<and> state = DXWIFI_TX_NORMAL
      then case w_runs w of
             [] \<Rightarrow> t_of None
           | r # rs \<Rightarrow> t_call Sys_Seek
               (t_bind
                  (if run_seek r = -1
                   then t_call (Sys_Log (other_call (Input_Seek_Failed (err Sys_Seek)))) (t_ret (DXWIFI_TX_ERROR, w))
                   else t_bind (sys_transmission port (Some f) (run_events r) w) (\<lambda>x. t_call (Sys_Sleep delay) (t_ret x)))
                  (\<lambda>(state, w).
                   if fits_int (cnt - 1)
                   then sys_retransmit err delay port f (cnt - 1) transmit_forever state (w\<lparr>w_runs := rs\<rparr>)
                   else t_of (Some (Inl Signed_Overflow))))
      else t_ret (state, w))"
  by pat_completeness auto
termination by (relation "measure (\<lambda>(e, d, p, f, c, fv, s, w). length (w_runs w))") auto

declare sys_retransmit.simps [simp del]

fun sys_transmit_files_from :: "(sys_call \<Rightarrow> string) \<Rightarrow> u32 \<Rightarrow> tx_port \<Rightarrow> (string \<Rightarrow> bool) \<Rightarrow> int \<Rightarrow> string list \<Rightarrow>
    dxwifi_tx_state \<Rightarrow> 'u tx_world \<Rightarrow> (dxwifi_tx_state \<times> 'u tx_world) traced" where
  "sys_transmit_files_from err delay port opens n [] state w = t_ret (state, w)"
| "sys_transmit_files_from err delay port opens n (f # fs) state w =
     (if state = DXWIFI_TX_NORMAL
      then if \<not> opens f
           then t_call (Sys_Log (other_call (Input_Open_Failed f (err (Sys_Open f)))))
                  (sys_transmit_files_from err delay port opens n fs state w)
           else t_call (Sys_Open f) (t_call (Sys_Log (other_call (Input_Opened f)))
                  (t_bind (sys_retransmit err delay port f n (n = -1) state w) (\<lambda>(state, w).
                   t_call Sys_Close (sys_transmit_files_from err delay port opens n fs state w))))
      else t_ret (state, w))"

definition sys_transmit_files :: "(sys_call \<Rightarrow> string) \<Rightarrow> u32 \<Rightarrow> tx_port \<Rightarrow> (string \<Rightarrow> bool) \<Rightarrow> string list \<Rightarrow> int \<Rightarrow>
    'u tx_world \<Rightarrow> (dxwifi_tx_state \<times> 'u tx_world) traced" where
  "sys_transmit_files err delay port opens fs n w = sys_transmit_files_from err delay port opens n fs DXWIFI_TX_NORMAL w"

fun sys_transmit_entries :: "(sys_call \<Rightarrow> string) \<Rightarrow> u32 \<Rightarrow> tx_port \<Rightarrow> (string \<Rightarrow> bool) \<Rightarrow> stat_call \<Rightarrow>
    (string \<Rightarrow> string \<Rightarrow> bool) \<Rightarrow> string \<Rightarrow> string \<Rightarrow> int \<Rightarrow> string list \<Rightarrow> dxwifi_tx_state \<Rightarrow> 'u tx_world \<Rightarrow>
    (dxwifi_tx_state \<times> 'u tx_world) traced" where
  "sys_transmit_entries err delay port opens lstat fnmatch filt dirname n [] state w = t_ret (state, w)"
| "sys_transmit_entries err delay port opens lstat fnmatch filt dirname n (f # fs) state w =
     (if state = DXWIFI_TX_NORMAL
      then if fnmatch filt f \<and> is_regular_file lstat (combine_path PATH_MAX dirname f)
           then t_bind (sys_transmit_files err delay port opens [combine_path PATH_MAX dirname f] n w)
                  (\<lambda>(state, w). sys_transmit_entries err delay port opens lstat fnmatch filt dirname n fs state w)
           else sys_transmit_entries err delay port opens lstat fnmatch filt dirname n fs state w
      else t_ret (state, w))"

definition sys_transmit_directory_contents :: "(sys_call \<Rightarrow> string) \<Rightarrow> u32 \<Rightarrow> tx_port \<Rightarrow> (string \<Rightarrow> bool) \<Rightarrow> stat_call \<Rightarrow>
    (string \<Rightarrow> string \<Rightarrow> bool) \<Rightarrow> (string \<Rightarrow> string list option) \<Rightarrow> string \<Rightarrow> string \<Rightarrow> int \<Rightarrow>
    'u tx_world \<Rightarrow> 'u tx_world traced" where
  "sys_transmit_directory_contents err delay port opens lstat fnmatch opendir filt dirname n w =
     (case opendir dirname of
        None \<Rightarrow> t_call (Sys_Log (other_call (Directory_Open_Failed dirname (err (Sys_Opendir dirname))))) (t_ret w)
      | Some names \<Rightarrow> t_call (Sys_Opendir dirname)
          (t_bind (sys_transmit_entries err delay port opens lstat fnmatch filt dirname n names DXWIFI_TX_NORMAL w)
             (\<lambda>(state, w). t_call Sys_Closedir (t_ret w))))"

text \<open>The callback adds to the calls that were made since the listener was entered.\<close>

definition sys_transmit_new_file :: "(sys_call \<Rightarrow> string) \<Rightarrow> u32 \<Rightarrow> tx_port \<Rightarrow> (string \<Rightarrow> bool) \<Rightarrow> int \<Rightarrow>
    (sys_call list \<times> 'u tx_world option) dirwatch_handler" where
  "sys_transmit_new_file err delay port opens n cw dirname filename =
     (case snd cw of
        None \<Rightarrow> Inr cw
      | Some w \<Rightarrow>
          (case sys_transmit_files err delay port opens [combine_path PATH_MAX dirname filename] n w of
             (cs, None) \<Rightarrow> Inr (fst cw @ cs, None)
           | (cs, Some r) \<Rightarrow> bind_res r (\<lambda>(state, w). Inr (fst cw @ cs, Some w))))"

text \<open>The calls of a listener that crashes are cut off at its entry.\<close>

definition sys_listen :: "(sys_call \<Rightarrow> string) \<Rightarrow> tx_port \<Rightarrow> tx_dir_env \<Rightarrow> 'u tx_cli_args \<Rightarrow> dirwatch \<Rightarrow> 'u tx_world \<Rightarrow>
    (dirwatch \<times> 'u tx_world) traced" where
  "sys_listen err port env args dw w =
     t_call (Sys_Log (other_call Watcher_Activated)) (t_call Sys_Listen
     (case dirwatch_listen (env_fnmatch env)
             (sys_transmit_new_file err (file_delay args) port (env_opens env) (retransmit_count args)) dw ([], Some w)
             (env_dir_events env) of
        None \<Rightarrow> t_of None
      | Some (Inl e) \<Rightarrow> t_of (Some (Inl e))
      | Some (Inr (dw, cs, None)) \<Rightarrow> (cs, None)
      | Some (Inr (dw, cs, Some w)) \<Rightarrow> (cs @ [Sys_Log (other_call Watcher_Deactivated)], Some (Inr (dw, w)))))"

definition sys_watch_new_files :: "(sys_call \<Rightarrow> string) \<Rightarrow> tx_port \<Rightarrow> tx_dir_env \<Rightarrow> 'u tx_cli_args \<Rightarrow> string \<Rightarrow>
    'u tx_world \<Rightarrow> 'u tx_world traced" where
  "sys_watch_new_files err port env args dirname w =
     t_bind (t_of (Some (dirwatch_init (env_inotify_fd env)))) (\<lambda>dw.
     t_call Sys_Watch
     (t_bind (t_of (Some (dirwatch_add (env_add_watch env) dw dirname (tx_file_filter args) DW_CREATE_AND_CLOSE True))) (\<lambda>(_, dw).
      t_call (Sys_Install Watchdir_Sigint_Handler)
      (t_bind (t_of (Some (guard_res (fits_int (dirwatch_timeout args * 1000)) Signed_Overflow))) (\<lambda>_.
       t_bind (sys_listen err port env args dw w) (\<lambda>(dw, w).
       t_call Sys_Restore
       (t_bind (t_of (Some (dirwatch_close dw))) (\<lambda>_.
        t_call Sys_Unwatch (t_ret w)))))))))"

definition sys_transmit_directory :: "(sys_call \<Rightarrow> string) \<Rightarrow> tx_port \<Rightarrow> tx_dir_env \<Rightarrow> 'u tx_cli_args \<Rightarrow> 'u tx_world \<Rightarrow>
    'u tx_world traced" where
  "sys_transmit_directory err port env args w =
     (let dirname = the (files args ! 0) in
      t_bind
        (if transmit_current_files args
         then sys_transmit_directory_contents err (file_delay args) port (env_opens env) (env_lstat env) (env_fnmatch env)
                (env_opendir env) (tx_file_filter args) dirname (retransmit_count args) w
         else t_ret w)
        (\<lambda>w. if listen_for_new_files args then sys_watch_new_files err port env args dirname w else t_ret w))"

definition sys_transmit :: "(sys_call \<Rightarrow> string) \<Rightarrow> tx_port \<Rightarrow> tx_dir_env \<Rightarrow> 'u \<Rightarrow> 'u tx_cli_args \<Rightarrow> 'u tx_world \<Rightarrow>
    'u tx_world traced" where
  "sys_transmit err port env delay args w =
     (let w = w\<lparr>w_tx := attach_all delay args (w_tx w)\<rparr> in
      case tx_mode args of
        TX_STREAM_MODE \<Rightarrow>
          (case w_runs w of [] \<Rightarrow> t_of None
           | r # rs \<Rightarrow> t_bind (sys_transmission port None (run_events r) (w\<lparr>w_runs := rs\<rparr>)) (\<lambda>(state, w). t_ret w))
      | TX_FILE_MODE \<Rightarrow>
          t_bind (sys_transmit_files err (file_delay args) port (env_opens env)
              (map the (take (file_count args) (files args))) (retransmit_count args) w) (\<lambda>(state, w). t_ret w)
      | TX_DIRECTORY_MODE \<Rightarrow> sys_transmit_directory err port env args w)"

subsection \<open>The reception program\<close>

definition sys_capture :: "build \<Rightarrow> rx_run \<Rightarrow> string option \<Rightarrow> dxwifi_receiver \<Rightarrow> open_file \<Rightarrow>
    (dxwifi_rx_state \<times> dxwifi_receiver \<times> open_file) traced" where
  "sys_capture bld r path rx fd =
     t_call (Sys_Install Rx_Sigint_Handler) (t_call (Sys_Capture path)
     (t_bind (t_of (receiver_activate_capture bld os_write (rr_fd r) (rr_stats r) rx fd (rr_events r))) (\<lambda>(rx, fd, stats).
      t_call Sys_Restore (t_call (Sys_Log (log_rx_stats stats)) (t_ret (capture_state stats, rx, fd))))))"

definition sys_open_file_and_capture :: "build \<Rightarrow> string \<Rightarrow> bool \<Rightarrow> rx_run \<Rightarrow> rx_world \<Rightarrow>
    (dxwifi_rx_state \<times> rx_world) traced" where
  "sys_open_file_and_capture bld path app r w =
     (if \<not> rr_opens r
      then t_call (Sys_Log (other_call (Output_Open_Failed path))) (t_ret (DXWIFI_RX_ERROR, w))
      else t_call (Sys_Open path)
        (t_bind (sys_capture bld r (Some path) (rw_rx w) (open_output (rw_fs w) path app)) (\<lambda>(state, rx, fd).
         t_call Sys_Close (t_ret (state, w\<lparr>rw_rx := rx, rw_fs := (rw_fs w)(path \<mapsto> of_data fd)\<rparr>)))))"

fun sys_capture_loop :: "build \<Rightarrow> rx_cli_args \<Rightarrow> int \<Rightarrow> dxwifi_rx_state \<Rightarrow> rx_run list \<Rightarrow> rx_world \<Rightarrow> rx_world traced" where
  "sys_capture_loop bld args cnt state rs w =
     (if state = DXWIFI_RX_NORMAL
      then case rs of
             [] \<Rightarrow> t_of None
           | r # rs \<Rightarrow>
               if \<not> fits_int (cnt + 1) then t_of (Some (Inl Signed_Overflow))
               else t_bind (sys_open_file_and_capture bld (capture_path args cnt) (rx_append args) r w)
                      (\<lambda>(state, w). sys_capture_loop bld args (cnt + 1) state rs w)
      else t_ret w)"

declare sys_capture_loop.simps [simp del]

definition sys_receive :: "build \<Rightarrow> rx_cli_args \<Rightarrow> rx_run list \<Rightarrow> rx_world \<Rightarrow> rx_world traced" where
  "sys_receive bld args rs w =
     (case rx_mode args of
        RX_STREAM_MODE \<Rightarrow>
          (case rs of [] \<Rightarrow> t_of None
           | r # _ \<Rightarrow> t_bind (sys_capture bld r None (rw_rx w) (rw_stdout w))
               (\<lambda>(state, rx, fd). t_ret (w\<lparr>rw_rx := rx, rw_stdout := fd\<rparr>)))
      | RX_FILE_MODE \<Rightarrow>
          (case rs of [] \<Rightarrow> t_of None
           | r # _ \<Rightarrow> t_bind (sys_open_file_and_capture bld (output_path args) (rx_append args) r w) (\<lambda>(state, w). t_ret w))
      | RX_DIRECTORY_MODE \<Rightarrow> sys_capture_loop bld args 0 DXWIFI_RX_NORMAL rs w)"

subsection \<open>The same results\<close>

text \<open>The state of a callback may carry more than what its effects depend on.\<close>

definition map_world :: "('v \<Rightarrow> 'w) \<Rightarrow> (dirwatch \<times> 'v) res option \<Rightarrow> (dirwatch \<times> 'w) res option" where
  "map_world f = map_option (map_res (apsnd f))"

lemma listen_natural:
  assumes h: "\<And>v d n. map_res f (h v d n) = h' (f v) d n"
  shows "map_world f (dirwatch_listen fnm h dw v es) = dirwatch_listen fnm h' dw (f v) es"
proof -
  have h': "h' (f v) d n = map_res f (h v d n)" for v d n using h by simp
  have close: "close_file h' dn name ps (f v) = map_res (apsnd f) (close_file h dn name ps v)" for dn name ps v
  proof (induction ps)
    case (Cons p ps)
    show ?case
      by (simp add: Cons.IH h' bind_map_res map_res_bind map_res_if case_prod_unfold cong: bind_res_cong if_cong)
  qed simp
  have on_close: "on_close h' dw e (f v) = map_res (apsnd f) (on_close h dw e v)" for dw e v
    by (auto simp: on_close_def close bind_map_res map_res_bind split_beta split: option.splits intro!: bind_res_cong)
  have events: "process_events fnm h' dw es (f v) = map_res (apsnd f) (process_events fnm h dw es v)" for dw es v
    by (induction es arbitrary: dw v) (simp_all add: on_close bind_map_res map_res_bind split_beta cong: bind_res_cong)
  have turn: "dw_turn fnm h' dw (f v) e = map_res (apsnd f) (dw_turn fnm h dw v e)" for dw v e
    by (simp add: dw_turn_def Let_def events bind_map_res map_res_bind split_beta)
  have "dw_loop fnm h' dw (f v) es = map_world f (dw_loop fnm h dw v es)" for dw v es
  proof (induction es arbitrary: dw v)
    case Nil
    show ?case by (simp add: dw_loop.simps[of fnm _ dw] map_world_def)
  next
    case (Cons e es)
    show ?case
      by (cases "dw_turn fnm h dw v e")
        (auto simp: dw_loop.simps[of fnm _ dw] turn Cons.IH map_world_def split: prod.splits)
  qed
  then show ?thesis by (simp add: dirwatch_listen_def)
qed

lemma sys_transmission_same: "snd (sys_transmission port fd es w) = setup_handlers_and_transmit port es w"
  by (cases "start_transmission port (w_tx w) es")
    (auto simp: sys_transmission_def setup_handlers_and_transmit_def opt_bind_def split: sum.splits)

lemma sys_retransmit_same: "snd (sys_retransmit err delay port f cnt fv state w) = retransmit port cnt fv state w"
proof (induction err delay port f cnt fv state w rule: sys_retransmit.induct)
  case (1 err delay port f cnt fv state w)
  show ?case
  proof (cases "(0 \<le> cnt \<or> fv) \<and> state = DXWIFI_TX_NORMAL")
    case True
    show ?thesis
    proof (cases "w_runs w")
      case (Cons r rs)
      note IH = "1.IH"[OF True Cons]
      show ?thesis
      proof (cases "run_seek r = -1")
        case s: True
        then show ?thesis using True Cons IH[of "(DXWIFI_TX_ERROR, w)"]
          by (simp add: sys_retransmit.simps[of err delay port f cnt] retransmit.simps[of port cnt])
      next
        case s: False
        then show ?thesis using True Cons IH
          by (cases "setup_handlers_and_transmit port (run_events r) w")
            (auto simp: sys_retransmit.simps[of err delay port f cnt] retransmit.simps[of port cnt] sys_transmission_same opt_bind_def
              split: sum.splits)
      qed
    qed (use True in \<open>simp add: sys_retransmit.simps retransmit.simps\<close>)
  qed (auto simp: sys_retransmit.simps[of err delay port f cnt] retransmit.simps[of port cnt])
qed

lemma sys_files_same:
  "snd (sys_transmit_files_from err delay port opens n fs state w) = transmit_files_from port opens n fs state w"
proof (induction fs arbitrary: state w)
  case (Cons f fs)
  show ?case
    by (cases "retransmit port n (n = -1) state w") (auto simp: sys_retransmit_same Cons.IH split: sum.splits)
qed simp

lemma sys_transmit_files_same: "snd (sys_transmit_files err delay port opens fs n w) = transmit_files port opens fs n w"
  by (simp add: sys_transmit_files_def transmit_files_def sys_files_same)

lemma sys_entries_same:
  "snd (sys_transmit_entries err delay port opens lstat fnmatch filt d n fs state w) =
   transmit_entries port opens lstat fnmatch filt d n fs state w"
proof (induction fs arbitrary: state w)
  case (Cons f fs)
  show ?case
    by (cases "transmit_files port opens [combine_path PATH_MAX d f] n w")
      (auto simp: sys_transmit_files_same Cons.IH split: sum.splits)
qed simp

lemma sys_contents_same:
  "snd (sys_transmit_directory_contents err delay port opens lstat fnmatch opendir filt d n w) =
   transmit_directory_contents port opens lstat fnmatch opendir filt d n w"
  by (auto simp: sys_transmit_directory_contents_def transmit_directory_contents_def sys_entries_same opt_bind_def
      split: option.splits sum.splits)

lemma sys_new_file_same:
  "map_res snd (sys_transmit_new_file err delay port opens n cw d f) = transmit_new_file port opens n (snd cw) d f"
proof (cases "snd cw")
  case (Some w)
  let ?m = "sys_transmit_files err delay port opens [combine_path PATH_MAX d f] n w"
  obtain cs r where m: "?m = (cs, r)" by fastforce
  have r: "transmit_files port opens [combine_path PATH_MAX d f] n w = r"
    using sys_transmit_files_same[of err delay port opens "[combine_path PATH_MAX d f]" n w] m by simp
  show ?thesis
    by (cases r) (auto simp: sys_transmit_new_file_def transmit_new_file_def Some m r map_res_bind case_prod_unfold)
qed (cases cw, simp add: sys_transmit_new_file_def transmit_new_file_def)

lemma sys_listen_same:
  "snd (sys_listen err port env args dw w) =
   (case dirwatch_listen (env_fnmatch env) (transmit_new_file port (env_opens env) (retransmit_count args)) dw (Some w)
           (env_dir_events env) of
      None \<Rightarrow> None | Some (Inl e) \<Rightarrow> Some (Inl e) | Some (Inr (dw, None)) \<Rightarrow> None
    | Some (Inr (dw, Some w)) \<Rightarrow> Some (Inr (dw, w)))"
proof -
  let ?h = "sys_transmit_new_file err (file_delay args) port (env_opens env) (retransmit_count args)"
  let ?r = "dirwatch_listen (env_fnmatch env) ?h dw ([], Some w) (env_dir_events env)"
  have "dirwatch_listen (env_fnmatch env) (transmit_new_file port (env_opens env) (retransmit_count args)) dw (Some w)
      (env_dir_events env) = map_world snd ?r"
    using listen_natural[of snd ?h, OF sys_new_file_same, of "env_fnmatch env" dw "([], Some w)" "env_dir_events env"] by simp
  then show ?thesis
    by (cases ?r) (auto simp: sys_listen_def map_world_def split: sum.splits prod.splits option.splits)
qed

lemma sys_watch_same: "snd (sys_watch_new_files err port env args d w) = watch_new_files port env args d w"
proof -
  have "snd (sys_watch_new_files err port env args d w) = opt_bind
      (Some (bind_res (dirwatch_init (env_inotify_fd env)) (\<lambda>dw.
         bind_res (dirwatch_add (env_add_watch env) dw d (tx_file_filter args) DW_CREATE_AND_CLOSE True) (\<lambda>(_, dw).
         bind_res (guard_res (fits_int (dirwatch_timeout args * 1000)) Signed_Overflow) (\<lambda>_. Inr dw)))))
      (\<lambda>dw. opt_bind (snd (sys_listen err port env args dw w)) (\<lambda>(dw, w). Some (bind_res (dirwatch_close dw) (\<lambda>_. Inr w))))"
    unfolding sys_watch_new_files_def bind_res_def by (auto simp: opt_bind_def split: sum.splits option.splits prod.splits)
  then show ?thesis
    unfolding watch_new_files_def sys_listen_same by (auto simp: opt_bind_def split: sum.splits option.splits prod.splits)
qed

lemma sys_directory_same: "snd (sys_transmit_directory err port env args w) = transmit_directory port env args w"
  by (auto simp: sys_transmit_directory_def transmit_directory_def Let_def sys_contents_same sys_watch_same opt_bind_def
      split: option.splits sum.splits)

lemma sys_transmit_same: "snd (sys_transmit err port env delay args w) = transmit port env delay args w"
proof -
  have m: "opt_bind r (\<lambda>x. Some (Inr (snd x))) = map_option (\<lambda>r. bind_res r (\<lambda>x. Inr (snd x))) r"
    for r :: "(dxwifi_tx_state \<times> 'a tx_world) res option"
    by (auto simp: opt_bind_def split: option.splits sum.splits)
  show ?thesis
    by (cases "tx_mode args") (auto simp: sys_transmit_def transmit_def Let_def sys_transmission_same sys_transmit_files_same
      sys_directory_same m case_prod_unfold split: list.splits)
qed

lemma sys_capture_same: "snd (sys_capture bld r path rx fd) = RxApp.setup_handlers_and_capture bld r rx fd"
  by (auto simp: sys_capture_def setup_handlers_and_capture_def opt_bind_def split: option.splits sum.splits prod.splits)

lemma sys_open_file_same: "snd (sys_open_file_and_capture bld path app r w) = open_file_and_capture bld path app r w"
  by (auto simp: sys_open_file_and_capture_def open_file_and_capture_def sys_capture_same opt_bind_def
      split: option.splits sum.splits prod.splits)

lemma sys_capture_loop_same: "snd (sys_capture_loop bld args cnt state rs w) = capture_loop bld args cnt state rs w"
proof (induction rs arbitrary: cnt state w)
  case (Cons r rs)
  show ?case
    by (cases "open_file_and_capture bld (capture_path args cnt) (rx_append args) r w")
      (auto simp: sys_capture_loop.simps[of bld args cnt] capture_loop.simps[of bld args cnt] sys_open_file_same Cons.IH
        split: sum.splits)
qed (simp add: sys_capture_loop.simps capture_loop.simps)

lemma sys_receive_same: "snd (sys_receive bld args rs w) = receive bld args rs w"
  by (cases "rx_mode args")
    (auto simp: sys_receive_def receive_def capture_in_directory_def sys_capture_same sys_open_file_same sys_capture_loop_same
      opt_bind_def split: list.splits option.splits sum.splits prod.splits)

subsection \<open>Nested resources and handlers\<close>

text \<open>
  What is held at a point of a run: the handlers of \<open>SIGINT\<close>, the installed one first, above the action the
  program started with; and the open descriptors. A call that the discipline does not allow has no successor:
  transmitting, capturing and listening need the handler that stops them and the descriptor they work on,
  a message must be defined, and handlers and descriptors are given back in the reverse order.
\<close>

datatype resource = File string | Directory | Watcher

type_synonym sys_state = "sig_handler list \<times> resource list"

definition holds_file :: "resource list \<Rightarrow> string option \<Rightarrow> bool" where
  "holds_file rs fd \<longleftrightarrow> (case fd of None \<Rightarrow> True | Some f \<Rightarrow> rs \<noteq> [] \<and> hd rs = File f)"

fun sys_type :: "sys_state \<Rightarrow> sys_call \<Rightarrow> sys_state option" where
  "sys_type (hs, rs) (Sys_Open f) = Some (hs, File f # rs)"
| "sys_type (hs, File f # rs) Sys_Seek = Some (hs, File f # rs)"
| "sys_type (hs, File f # rs) Sys_Close = Some (hs, rs)"
| "sys_type (hs, rs) (Sys_Opendir d) = Some (hs, Directory # rs)"
| "sys_type (hs, Directory # rs) Sys_Closedir = Some (hs, rs)"
| "sys_type (hs, rs) Sys_Watch = Some (hs, Watcher # rs)"
| "sys_type (hs, Watcher # rs) Sys_Unwatch = Some (hs, rs)"
| "sys_type (hs, rs) (Sys_Install h) = Some (h # hs, rs)"
| "sys_type (h # hs, rs) Sys_Restore = Some (hs, rs)"
| "sys_type (Tx_Sigint_Handler # hs, rs) (Sys_Transmit fd) =
     (if holds_file rs fd then Some (Tx_Sigint_Handler # hs, rs) else None)"
| "sys_type (Watchdir_Sigint_Handler # hs, Watcher # rs) Sys_Listen = Some (Watchdir_Sigint_Handler # hs, Watcher # rs)"
| "sys_type (Rx_Sigint_Handler # hs, rs) (Sys_Capture fd) =
     (if holds_file rs fd then Some (Rx_Sigint_Handler # hs, rs) else None)"
| "sys_type s (Sys_Sleep d) = Some s"
| "sys_type s (Sys_Log lc) = (if is_ok (log_text lc) then Some s else None)"
| "sys_type s c = None"

fun sys_types :: "sys_state \<Rightarrow> sys_call list \<Rightarrow> sys_state option" where
  "sys_types s [] = Some s"
| "sys_types s (c # cs) = (case sys_type s c of None \<Rightarrow> None | Some s \<Rightarrow> sys_types s cs)"

lemma sys_types_append:
  "sys_types s (cs @ ds) = (case sys_types s cs of None \<Rightarrow> None | Some s \<Rightarrow> sys_types s ds)"
  by (induction cs arbitrary: s) (auto split: option.splits)

text \<open>All calls are allowed, and if the operation returns, these are held.\<close>

definition disciplined :: "sys_state \<Rightarrow> 'a traced \<Rightarrow> sys_state \<Rightarrow> bool" where
  "disciplined s m s' \<longleftrightarrow>
     sys_types s (fst m) \<noteq> None \<and> ((\<exists>x. snd m = Some (Inr x)) \<longrightarrow> sys_types s (fst m) = Some s')"

lemma disciplined_ret: "disciplined s (t_ret x) s"
  by (simp add: disciplined_def t_ret_def)

lemma disciplined_of: "disciplined s (t_of r) s"
  by (simp add: disciplined_def t_of_def)

lemma disciplined_call: "sys_type s c = Some t \<Longrightarrow> disciplined t m s' \<Longrightarrow> disciplined s (t_call c m) s'"
  by (auto simp: disciplined_def t_call_def)

lemma disciplined_bind:
  assumes "disciplined s m t" and "\<And>x. snd m = Some (Inr x) \<Longrightarrow> disciplined t (k x) s'"
  shows "disciplined s (t_bind m k) s'"
proof (cases "\<exists>x. snd m = Some (Inr x)")
  case True
  then show ?thesis using assms by (auto simp: disciplined_def t_bind_def sys_types_append)
next
  case False
  then show ?thesis using assms(1) by (auto simp: disciplined_def t_bind_def split: option.splits sum.splits)
qed

declare other_call.simps [simp del]

text \<open>One rule for each call.\<close>

lemma disciplined_calls:
  "disciplined (hs, File f # rs) m t \<Longrightarrow> disciplined (hs, rs) (t_call (Sys_Open f) m) t"
  "disciplined (hs, File f # rs) m t \<Longrightarrow> disciplined (hs, File f # rs) (t_call Sys_Seek m) t"
  "disciplined (hs, rs) m t \<Longrightarrow> disciplined (hs, File f # rs) (t_call Sys_Close m) t"
  "disciplined (hs, Directory # rs) m t \<Longrightarrow> disciplined (hs, rs) (t_call (Sys_Opendir d) m) t"
  "disciplined (hs, rs) m t \<Longrightarrow> disciplined (hs, Directory # rs) (t_call Sys_Closedir m) t"
  "disciplined (hs, Watcher # rs) m t \<Longrightarrow> disciplined (hs, rs) (t_call Sys_Watch m) t"
  "disciplined (hs, rs) m t \<Longrightarrow> disciplined (hs, Watcher # rs) (t_call Sys_Unwatch m) t"
  "disciplined (h # hs, rs) m t \<Longrightarrow> disciplined (hs, rs) (t_call (Sys_Install h) m) t"
  "disciplined (hs, rs) m t \<Longrightarrow> disciplined (h # hs, rs) (t_call Sys_Restore m) t"
  "disciplined (Watchdir_Sigint_Handler # hs, Watcher # rs) m t \<Longrightarrow>
     disciplined (Watchdir_Sigint_Handler # hs, Watcher # rs) (t_call Sys_Listen m) t"
  "disciplined (hs, rs) m t \<Longrightarrow> disciplined (hs, rs) (t_call (Sys_Sleep ms) m) t"
  by (rule disciplined_call; simp)+

lemma disciplined_works:
  "holds_file rs fd \<Longrightarrow> disciplined (Tx_Sigint_Handler # hs, rs) m t \<Longrightarrow>
     disciplined (Tx_Sigint_Handler # hs, rs) (t_call (Sys_Transmit fd) m) t"
  "holds_file rs fd \<Longrightarrow> disciplined (Rx_Sigint_Handler # hs, rs) m t \<Longrightarrow>
     disciplined (Rx_Sigint_Handler # hs, rs) (t_call (Sys_Capture fd) m) t"
  by (rule disciplined_call; simp)+

lemma disciplined_logs:
  "disciplined (hs, rs) m t \<Longrightarrow> disciplined (hs, rs) (t_call (Sys_Log (log_tx_stats ts)) m) t"
  "disciplined (hs, rs) m t \<Longrightarrow> disciplined (hs, rs) (t_call (Sys_Log (log_rx_stats us)) m) t"
  "disciplined (hs, rs) m t \<Longrightarrow> disciplined (hs, rs) (t_call (Sys_Log (other_call c)) m) t"
  by (rule disciplined_call; simp add: table_text table_text_rx other_call_ok)+

lemmas disciplines = disciplined_calls disciplined_works disciplined_logs disciplined_ret disciplined_of
  disciplined_bind[OF disciplined_of] disciplined_bind[OF disciplined_ret]

lemma holds_file_simps [simp]: "holds_file rs None" "holds_file (File f # rs) (Some f)"
  by (simp_all add: holds_file_def)

lemma transmission_disciplined: "holds_file rs fd \<Longrightarrow> disciplined (hs, rs) (sys_transmission port fd es w) (hs, rs)"
  unfolding sys_transmission_def by (intro disciplines)

lemma retransmit_disciplined:
  "disciplined (hs, File f # rs) (sys_retransmit err delay port f cnt fv state w) (hs, File f # rs)"
proof (induction err delay port f cnt fv state w rule: sys_retransmit.induct)
  case (1 err delay port f cnt fv state w)
  show ?case
  proof (cases "(0 \<le> cnt \<or> fv) \<and> state = DXWIFI_TX_NORMAL")
    case True
    show ?thesis
    proof (cases "w_runs w")
      case (Cons r rts)
      have one: "disciplined (hs, File f # rs)
          (if run_seek r = -1
           then t_call (Sys_Log (other_call (Input_Seek_Failed (err Sys_Seek)))) (t_ret (DXWIFI_TX_ERROR, w))
           else t_bind (sys_transmission port (Some f) (run_events r) w) (\<lambda>x. t_call (Sys_Sleep delay) (t_ret x)))
          (hs, File f # rs)"
        by (auto intro!: disciplines disciplined_bind[OF transmission_disciplined])
      show ?thesis
        unfolding sys_retransmit.simps[of err delay port f cnt fv state w] if_P[OF True] Cons list.case
        by (rule disciplined_calls(2)[OF disciplined_bind[OF one]]) (auto intro: "1.IH"[OF True Cons] disciplined_of)
    qed (use True in \<open>simp add: sys_retransmit.simps disciplined_of\<close>)
  next
    case False
    then show ?thesis unfolding sys_retransmit.simps[of err delay port f cnt fv state w] by (simp only: False if_False disciplined_ret)
  qed
qed

lemma files_disciplined: "disciplined (hs, rs) (sys_transmit_files_from err delay port opens n fs state w) (hs, rs)"
  by (induction fs arbitrary: state w)
    (auto intro!: disciplines disciplined_bind[OF retransmit_disciplined])

lemma transmit_files_disciplined: "disciplined (hs, rs) (sys_transmit_files err delay port opens fs n w) (hs, rs)"
  unfolding sys_transmit_files_def by (rule files_disciplined)

lemma entries_disciplined:
  "disciplined (hs, rs) (sys_transmit_entries err delay port opens lstat fnmatch filt d n fs state w) (hs, rs)"
  by (induction fs arbitrary: state w)
    (auto intro!: disciplined_ret disciplined_bind[OF transmit_files_disciplined])

lemma contents_disciplined:
  "disciplined (hs, rs) (sys_transmit_directory_contents err delay port opens lstat fnmatch opendir filt d n w) (hs, rs)"
  unfolding sys_transmit_directory_contents_def
  by (auto split: option.splits intro!: disciplines disciplined_bind[OF entries_disciplined])

lemma new_file_disciplined:
  assumes "sys_transmit_new_file err delay port opens n cw d f = Inr cw'"
    and "sys_types s (fst cw) \<noteq> None \<and> (snd cw \<noteq> None \<longrightarrow> sys_types s (fst cw) = Some s)"
  shows "sys_types s (fst cw') \<noteq> None \<and> (snd cw' \<noteq> None \<longrightarrow> sys_types s (fst cw') = Some s)"
proof (cases "snd cw")
  case (Some w)
  let ?m = "sys_transmit_files err delay port opens [combine_path PATH_MAX d f] n w"
  obtain cs r where m: "?m = (cs, r)" by fastforce
  obtain hs rs where s: "s = (hs, rs)" by (cases s)
  show ?thesis using assms transmit_files_disciplined[of hs rs err delay port opens "[combine_path PATH_MAX d f]" n w]
    by (cases r) (auto simp: s sys_transmit_new_file_def Some m disciplined_def sys_types_append bind_res_eq_Inr)
qed (use assms in \<open>simp add: sys_transmit_new_file_def\<close>)

lemma listen_disciplined:
  "disciplined (Watchdir_Sigint_Handler # hs, Watcher # rs) (sys_listen err port env args dw w)
     (Watchdir_Sigint_Handler # hs, Watcher # rs)" (is "disciplined ?s _ _")
proof -
  let ?h = "sys_transmit_new_file err (file_delay args) port (env_opens env) (retransmit_count args)"
  let ?r = "dirwatch_listen (env_fnmatch env) ?h dw ([], Some w) (env_dir_events env)"
  let ?Q = "\<lambda>cw. sys_types ?s (fst cw) \<noteq> None \<and> (snd cw \<noteq> None \<longrightarrow> sys_types ?s (fst cw) = Some ?s)"
  have Q: "?Q cw" if "?r = Some (Inr (dw', cw))" for dw' cw
    by (rule listen_invariant[of ?h ?Q, OF new_file_disciplined that]) simp_all
  have rest: "disciplined ?s (case ?r of None \<Rightarrow> t_of None | Some (Inl e) \<Rightarrow> t_of (Some (Inl e))
      | Some (Inr (dw, cs, None)) \<Rightarrow> (cs, None)
      | Some (Inr (dw, cs, Some w)) \<Rightarrow> (cs @ [Sys_Log (other_call Watcher_Deactivated)], Some (Inr (dw, w)))) ?s"
    using Q by (auto simp: t_of_def disciplined_def sys_types_append other_call_ok split: option.splits sum.splits)
  show ?thesis unfolding sys_listen_def by (intro disciplines rest)
qed

lemma watch_disciplined: "disciplined (hs, rs) (sys_watch_new_files err port env args d w) (hs, rs)"
  unfolding sys_watch_new_files_def by (auto intro!: disciplines disciplined_bind[OF listen_disciplined])

lemma transmit_disciplined: "disciplined (hs, rs) (sys_transmit err port env delay args w) (hs, rs)"
  unfolding sys_transmit_def sys_transmit_directory_def Let_def
  by (auto split: tx_mode.splits list.splits intro!: disciplines disciplined_bind[OF transmission_disciplined]
      disciplined_bind[OF transmit_files_disciplined] disciplined_bind[OF contents_disciplined] watch_disciplined)

lemma capture_disciplined: "holds_file rs path \<Longrightarrow> disciplined (hs, rs) (sys_capture bld r path rx fd) (hs, rs)"
  unfolding sys_capture_def by (auto intro!: disciplines)

lemma open_file_disciplined: "disciplined (hs, rs) (sys_open_file_and_capture bld path app r w) (hs, rs)"
  unfolding sys_open_file_and_capture_def by (auto intro!: disciplines disciplined_bind[OF capture_disciplined])

lemma capture_loop_disciplined: "disciplined (hs, rs) (sys_capture_loop bld args cnt state runs w) (hs, rs)"
  by (induction runs arbitrary: cnt state w)
    (auto simp: sys_capture_loop.simps[of bld args] intro!: disciplines disciplined_bind[OF open_file_disciplined])

lemma receive_disciplined: "disciplined (hs, rs) (sys_receive bld args runs w) (hs, rs)"
  unfolding sys_receive_def
  by (auto split: rx_mode.splits list.splits intro!: disciplines disciplined_bind[OF capture_disciplined]
      disciplined_bind[OF open_file_disciplined] capture_loop_disciplined)

text \<open>
  A request that arrives while a new file is transmitted has the handler of the transmitter to go to: it
  ends the transmission, and the listener, which does not learn of it, goes on.
\<close>

lemma stopped_file_listens_on:
  assumes "transmit_files port opens [combine_path PATH_MAX d f] n w = Some (Inr (DXWIFI_TX_DEACTIVATED, w'))"
  shows "transmit_new_file port opens n (Some w) d f = Inr (Some w')"
    and "on_close (transmit_new_file port opens n) dw e (Some w) = Inr (dw', v) \<Longrightarrow> dw_listen dw' = dw_listen dw"
  using assms by (simp add: transmit_new_file_def) (rule on_close_listen)

section \<open>Properties\<close>


text \<open>What the discipline refuses: working without the handler, leaking, closing what is not held.\<close>

lemma undisciplined:
  "\<not> disciplined ([], []) (t_call (Sys_Transmit None) m) s"
  "\<not> disciplined ([], []) (t_call (Sys_Open f) (t_ret x)) ([], [])"
  "\<not> disciplined ([], []) (t_call (Sys_Install h) (t_ret x)) ([], [])"
  "\<not> disciplined ([], []) (t_call Sys_Close m) s"
  by (simp_all add: disciplined_def t_call_def t_ret_def)

end
