(* ===== verification/Spec2Isabelle.thy ===== *)
theory Spec2Isabelle
  imports HeapMemory InotifyBuffer DirwatchSignals Transfers Radiotap RadiotapFields TransmitterSignals ReceiverSignals
    ReceiverStats Options Messages SystemCalls
begin

text \<open>
  DxWiFi: a verified model of the transmission and reception programs

  The program. DxWiFi sends files one way over the radio of an unassociated 802.11 card.
  \<open>dxwifi/tx\<close> cuts its input into blocks, puts each into one data frame and injects the frames with
  pcap, between control frames that mark the beginning (preamble) and the end of a transmission (EOT).
  \<open>dxwifi/rx\<close> captures frames with pcap, recognises the control frames, collects the payloads in a
  buffer, and writes them out sorted by the frame number the sender may have put into the destination
  address, with noise in the place of lost ones if that is wanted. Both programs read a command line,
  run in a stream, a file or a directory mode and are stopped by \<open>SIGINT\<close>. The library under
  \<open>libdxwifi\<close> has the transmitter and the receiver, under \<open>details\<close> a binary heap, a directory watcher
  on inotify, logging, and the layout of the frames.

  How the model is made. The definitions are a shallow embedding, one per C function or loop, under
  the names of the source. A struct is a record, an enumeration a datatype with the function of its
  values, an integer whose width matters a word (\<open>u32\<close>, \<open>size_t\<close>, ...) and otherwise an \<open>int\<close> or
  \<open>nat\<close>, with a check (\<open>fits_int\<close>) where a signed C expression could overflow. A C object is a list,
  and each access to it is checked. The result of an operation is \<open>'a res\<close>: \<open>Inr\<close> its value or
  \<open>Inl\<close> a \<open>c_error\<close>, which is what C leaves undefined (an access out of bounds, a released or null
  pointer, signed overflow, an array of negative length) or an abort by an assertion. So a theorem
  whose conclusion is an \<open>Inr\<close> also says that nothing of this happens. What the operating system,
  pcap, argp and inotify answer is an argument: a list of events for a loop around \<open>poll\<close>, one event
  per turn, which also tells where a signal arrived. These lists are the fuel of the loops: \<open>None\<close>
  means that the loop waits for more events than there are, and the theorems about results show that
  the lists they speak of are enough. Every other loop has a termination proof.

  The theories, in the order in which they build on each other.

  Foundations: \<open>Prelude\<close> has the C types, the error monad, flat memory and byte order, with the
  collections \<open>res_simps\<close>, \<open>mem_simps\<close> and \<open>wire_defs\<close> that the proofs share; \<open>Dxwifi\<close> is
  \<open>dxwifi.h\<close>, \<open>Utils\<close> is \<open>details/utils.c\<close>. \<open>Ieee80211\<close> is the part of \<open>details/ieee80211.h\<close> that the
  programs use, \<open>RadiotapFields\<close> the rest of its enumerations.

  \<open>BinHeap\<close> is \<open>details/heap.c\<close>. The state is the C struct, its tree the array of elements. The
  loops have a description in closed form, the heap order is the invariant, and the multiset of the
  elements the abstraction. The locale \<open>comparator\<close> (a strict weak order) is what a client has to
  provide, the locale \<open>prio_queue\<close> what the heap promises; the heap provides it for every comparator,
  and \<open>Receiver\<close> interprets \<open>comparator\<close> for the order of the packets. Heap sort and popping a queue
  dry are shown to sort. \<open>HeapMemory\<close> is the same code on the bytes of the block, with the addresses
  of \<open>offset\<close> and the variable length array of \<open>swap\<close>; the relation \<open>heap_rel\<close> keeps the two in step.

  \<open>Transmitter\<close> is \<open>transmitter.c\<close>: headers, the two pipelines of frame handlers, injection, control
  frames, \<open>start_transmission\<close>. \<open>TransmitterRun\<close> shows which frames a transmission puts on the air for
  an input that ends, with handlers that rewrite headers only, and its statistics; and what happens
  on errors of \<open>read\<close> and of handlers. \<open>TransmitterSignals\<close> takes a transmission apart into single
  steps, with the signal handler between any two of them, as an inductive relation, and shows that the
  turns of \<open>Transmitter\<close> are an exact abstraction of it.

  \<open>Receiver\<close> is \<open>receiver.c\<close>: the frame controller with packet buffer and heap, control frames,
  \<open>process_frame\<close>, \<open>dump_packet_buffer\<close>, \<open>receiver_activate_capture\<close>. \<open>ReceiverBuffer\<close> has what one
  frame and one flush do; \<open>ReceiverSession\<close> the abstract receiver, which keeps a list of numbered
  payloads and sorts it when the buffer is full, and the proof that the code simulates it (the relation
  \<open>fc_abs\<close>); \<open>ReceiverProperties\<close> the consequences for unordered, ordered and noisy captures, the
  errors the code does not guard against, and termination. \<open>ReceiverMaps\<close> has locales for maps and
  relations of frame controllers that go through the whole of the processing when they go through its
  single updates; they are interpreted for the file a capture is written to (\<open>RxApp\<close>), for the stop
  flag (\<open>ReceiverSignals\<close>), and for the byte counts (\<open>ReceiverStats\<close>). \<open>ReceiverSignals\<close> takes the
  capture loop apart into single steps, with the signal handler between any two of them, as an
  inductive relation, and shows that the turns of \<open>Receiver\<close> are an exact abstraction of it.

  \<open>Dirwatch\<close> is \<open>details/dirwatch.c\<close>, with the ownership of each string: null, live, or released but
  still stored. \<open>DirwatchSafety\<close> has the invariant of its list and the life of a watcher from
  \<open>dirwatch_init\<close> to \<open>dirwatch_close\<close>. \<open>InotifyBuffer\<close> is the listener on the bytes that \<open>read\<close>
  leaves in its buffer, which the other two have as a list of events; \<open>DirwatchSignals\<close> takes the
  listener apart into single steps, with the signal handler between any two. \<open>Logging\<close> is \<open>details/logging.c\<close>, its macros, and
  \<open>details/syslogger.h\<close>.

  The programs: \<open>Cli\<close> has the functions of the C library that the command lines use; \<open>TxCli\<close> and
  \<open>RxCli\<close> are the two \<open>cli.c\<close> with the defaults of \<open>main\<close>, \<open>Options\<close> their option tables; \<open>TxApp\<close> and
  \<open>TxDirectory\<close> are \<open>dxwifi/tx/tx.c\<close>, \<open>RxApp\<close> is \<open>dxwifi/rx/rx.c\<close>; \<open>Programs\<close> has both \<open>main\<close>
  functions, opening and closing the pcap handle, and failing assertions (\<open>details/assert.h\<close>).
  \<open>Radiotap\<close> has a reader of radiotap headers by the rules that drivers follow, and an invariant of the
  frames on the air that goes through the whole of the transmission program (the locale
  \<open>tx_world_invariant\<close>). \<open>Link\<close> joins a transmission and a capture, \<open>Transfers\<close> the two programs.

  The log: \<open>Printf\<close> has the conversions of \<open>printf\<close> that the program uses, with a check of the C type of
  each argument, \<open>Calendar\<close> has \<open>gmtime\<close> and \<open>strftime\<close>, \<open>Messages\<close> every call of the logging macros and
  of the assertions with its level, file, format and arguments, and the macros themselves. \<open>SystemCalls\<close>
  has the operations of the two programs once more, each with the calls it makes: files, directories, the
  watcher, installing and restoring signal handlers, sleeping, and messages.

  What is shown, by kind. End to end (\<open>Link\<close>, \<open>Transfers\<close>): the files named on one command line, or
  those of a watched directory, arrive as the files the other program writes, byte for byte, each in its own; a receiver that hears every frame
  of a transmission writes the bytes of the file; with numbered frames it does so in any order of arrival, and with
  noise over a lossy channel every received block is in its place. Refinement: the receiver against the
  abstract receiver, the turns of the three loops against their steps, heap and listener on bytes against
  elements and events. Functional: the frames of a transmission, the files
  and directories that are sent, the files that a capture leaves, sorting, control frames, bits of the
  frame control word, messages. Invariants: data frames in the buffer, the watch list, statistics, and what
  the radiotap header of every frame on the air says.
  Safety: the values that a command line can set, the memory of the watcher, obeying a stop request on both sides and in the watcher.
  Types: the discipline of the pcap handle in both programs, of their descriptors and signal handlers, and
  option tables against parsers. Round trips: handlers, hardware addresses, the numbers that the log
  prints. Equivalence: what \<open>snprintf\<close> builds against the texts of the definitions. Errors: which
  messages have no defined meaning; the cases in which the code reads or writes
  out of bounds, loses count, or does not stop; these are stated as what the code does.

  Bounds. The heap of the receiver holds \<open>DXWIFI_RX_PACKET_HEAP_CAPACITY\<close> nodes, which is enough as
  long as frames carry a payload above 256 bytes; \<open>session_fits\<close> says by how much the frames of a
  session may fall short of that together, and the last block of a file is within it. Frame numbers
  are signed 32-bit values in the code: the theorems ask for fewer than \<open>2 ^ 31\<close> blocks. A repeat
  count is at most \<open>2 ^ 31\<close>. \<open>fits_int\<close> conditions on command-line values are those of the C
  expressions that use them.

  Environment. Each argument stands for documented behaviour. \<open>poll\<close>, \<open>read\<close>, \<open>pcap_dispatch\<close> and
  inotify give the events; a write to a regular file takes everything, at the position of the file or
  at its end when it was opened to append; \<open>pcap_inject\<close> answers with any number; argp hands the keys
  of the options to the parser in order, then \<open>ARGP_KEY_END\<close>. A frame is heard with a radiotap header
  of the capturing card and a check sequence (\<open>heard\<close> in \<open>Link\<close>); what the radio loses, and the order of
  arrival, are arguments of the theorems. Memory does not run out. Builds differ by \<open>DXWIFI_TESTS\<close>
  (save files) and \<open>NDEBUG\<close> (debug assertions), the fields of the record \<open>build\<close>.

  Not modelled: the inside of pcap, argp and inotify; the expressions of packet filters; the time that
  passes while the program sleeps; a signal that arrives while its default action is in force, which ends
  the program; where the messages of the library fall among its steps (their texts are modelled); the
  help texts of the options; conversions of \<open>printf\<close> that the program does not use, which are errors of
  the model. The tests under \<open>test\<close> and the shell script are left
  out, which are not part of the program.
\<close>

end
